(* ===== verification/Prelude.thy ===== *)
theory Prelude
  imports Complex_Main "HOL-Library.AList" "HOL-Library.Multiset" "HOL-Library.Word"
    "HOL-Library.Product_Lexorder"
begin

text \<open>
  Shared ground of the development: the Go integer types, the Go comparison and sorting
  functions the repository calls (\<^verbatim>\<open>cmp.Compare\<close>, \<^verbatim>\<open>bytes.Compare\<close>,
  \<^verbatim>\<open>slices.SortFunc\<close>), association lists as Go maps, and the generic
  lemmas the component theories share.
\<close>

section \<open>Go integers\<close>

text \<open>
  An \<^verbatim>\<open>int64\<close> (or \<^verbatim>\<open>int\<close>) is an \<open>int\<close>, a \<^verbatim>\<open>uint\<close> a \<open>nat\<close>; the wrap-around
  of an operation that can leave the range is written out with \<open>i64\<close> and \<open>u64\<close>.
\<close>

type_synonym int64 = int
type_synonym uint = nat

definition i64 :: "int \<Rightarrow> int64" where
  "i64 x = (x + 2 ^ 63) mod 2 ^ 64 - 2 ^ 63"

definition u64 :: "nat \<Rightarrow> uint" where
  "u64 n = n mod 2 ^ 64"

definition in_i64 :: "int \<Rightarrow> bool" where
  "in_i64 x \<longleftrightarrow> - (2 ^ 63) \<le> x \<and> x < 2 ^ 63"

lemma i64_range: "in_i64 (i64 x)"
  by (simp add: i64_def in_i64_def)

lemma i64_id [simp]: "in_i64 x \<Longrightarrow> i64 x = x"
  by (simp add: i64_def in_i64_def)

lemma i64_add_right: "i64 (a + i64 b) = i64 (a + b)"
proof -
  have "(a + ((b + 2 ^ 63) mod 2 ^ 64 - 2 ^ 63) + 2 ^ 63) mod 2 ^ 64 = (a + (b + 2 ^ 63) mod 2 ^ 64) mod 2 ^ 64"
    by (simp only: diff_add_cancel add_diff_eq)
  also have "\<dots> = (a + b + 2 ^ 63) mod 2 ^ 64" by (simp add: mod_add_right_eq add.assoc)
  finally show ?thesis by (simp add: i64_def)
qed

lemma u64_id [simp]: "n < 2 ^ 64 \<Longrightarrow> u64 n = n"
  by (simp add: u64_def)

lemma u64_range: "u64 n < 2 ^ 64"
  by (simp add: u64_def)

text \<open>Go's integer division truncates towards zero.\<close>

definition go_div :: "int \<Rightarrow> int \<Rightarrow> int" where
  "go_div a b = sgn a * sgn b * (\<bar>a\<bar> div \<bar>b\<bar>)"

lemma go_div_pos: "0 \<le> a \<Longrightarrow> 0 < b \<Longrightarrow> go_div a b = a div b"
  by (cases "a = 0") (auto simp: go_div_def)

text \<open>Decimal text of a number (the verb \<^verbatim>\<open>%d\<close>).\<close>

fun show_nat :: "nat \<Rightarrow> string" where
  "show_nat n = (if n < 10 then [char_of (48 + n)] else show_nat (n div 10) @ [char_of (48 + n mod 10)])"

declare show_nat.simps [simp del]

definition show_int :: "int \<Rightarrow> string" where
  "show_int n = (if n < 0 then ''-'' @ show_nat (nat (- n)) else show_nat (nat n))"

section \<open>Comparison and sorting\<close>

definition cmp_compare :: "'a::linorder \<Rightarrow> 'a \<Rightarrow> int" where
  "cmp_compare a b = (if a < b then -1 else if a = b then 0 else 1)"

lemma cmp_compare_simps:
  "cmp_compare a b < 0 \<longleftrightarrow> a < b"
  "cmp_compare a b \<le> 0 \<longleftrightarrow> a \<le> b"
  "cmp_compare a b = 0 \<longleftrightarrow> a = b"
  "0 < cmp_compare a b \<longleftrightarrow> b < a"
  by (auto simp: cmp_compare_def)

text \<open>
  A sorting call with a comparison function, as insertion sort. Go's \<^verbatim>\<open>slices.SortFunc\<close>
  is not stable; where the comparison is a total order every sorting algorithm returns the
  same list (\<open>sorted_perm_unique\<close>), so the algorithm does not matter.
\<close>

fun insert_cmp :: "('a \<Rightarrow> 'a \<Rightarrow> int) \<Rightarrow> 'a \<Rightarrow> 'a list \<Rightarrow> 'a list" where
  "insert_cmp c x [] = [x]"
| "insert_cmp c x (y # ys) = (if c x y \<le> 0 then x # y # ys else y # insert_cmp c x ys)"

definition sort_func :: "('a \<Rightarrow> 'a \<Rightarrow> int) \<Rightarrow> 'a list \<Rightarrow> 'a list" where
  "sort_func c xs = foldr (insert_cmp c) xs []"

lemma insert_cmp_insort:
  "(\<And>y. y \<in> set ys \<Longrightarrow> c x y \<le> 0 \<longleftrightarrow> f x \<le> f y) \<Longrightarrow>
    insert_cmp c x ys = insort_key f x ys"
  by (induction ys) auto

lemma sort_func_eq_sort_key:
  assumes "\<And>x y. x \<in> set xs \<Longrightarrow> y \<in> set xs \<Longrightarrow> c x y \<le> 0 \<longleftrightarrow> f x \<le> f y"
  shows "sort_func c xs = sort_key f xs"
  using assms
proof (induction xs)
  case Nil
  then show ?case by (simp add: sort_func_def)
next
  case (Cons x xs)
  then have "sort_func c xs = sort_key f xs" by simp
  moreover have "insert_cmp c x (sort_key f xs) = insort_key f x (sort_key f xs)"
    using Cons.prems by (intro insert_cmp_insort) auto
  ultimately show ?case by (simp add: sort_func_def)
qed

lemma mset_insert_cmp [simp]: "mset (insert_cmp c x ys) = add_mset x (mset ys)"
  by (induction ys) auto

lemma mset_sort_func [simp]: "mset (sort_func c xs) = mset xs"
  by (induction xs) (auto simp: sort_func_def)

lemma set_sort_func [simp]: "set (sort_func c xs) = set xs"
  by (metis mset_sort_func set_mset_mset)

lemma length_sort_func [simp]: "length (sort_func c xs) = length xs"
  by (metis mset_sort_func size_mset)

lemma distinct_sort_func [simp]: "distinct (sort_func c xs) \<longleftrightarrow> distinct xs"
  by (metis mset_sort_func mset_eq_imp_distinct_iff)

lemma sorted_perm_unique:
  "mset xs = mset ys \<Longrightarrow> sorted (map f xs) \<Longrightarrow> sorted (map f ys) \<Longrightarrow>
    inj_on f (set xs) \<Longrightarrow> xs = ys"
  using sort_key_inj_key_eq[of xs ys f] sort_key_inj_key_eq[of xs xs f] by simp

section \<open>Association lists as Go maps\<close>

text \<open>
  A Go map whose entries are counted or iterated is an association list with distinct
  keys; \<open>map_of\<close> looks up, \<open>AList.update\<close> stores, \<open>AList.delete\<close> deletes.
\<close>

type_synonym ('k, 'v) gomap = "('k \<times> 'v) list"

abbreviation wf_map :: "('k, 'v) gomap \<Rightarrow> bool" where
  "wf_map m \<equiv> distinct (map fst m)"

lemma map_of_update_alist [simp]: "map_of (AList.update k v m) = (map_of m)(k \<mapsto> v)"
  by (rule update_conv')

lemma map_of_delete_alist [simp]: "map_of (AList.delete k m) = (map_of m)(k := None)"
  by (rule delete_conv')

lemma wf_map_update [simp]: "wf_map m \<Longrightarrow> wf_map (AList.update k v m)"
  by (rule distinct_update)

lemma wf_map_delete [simp]: "wf_map m \<Longrightarrow> wf_map (AList.delete k m)"
  by (rule distinct_delete)

lemma length_update_alist: "length (AList.update k v m) =
    (if k \<in> fst ` set m then length m else Suc (length m))"
  by (induction m) auto

lemma fst_set_dom: "fst ` set m = dom (map_of m)"
  by (simp add: dom_map_of_conv_image_fst)

lemma card_dom_length: "wf_map m \<Longrightarrow> card (dom (map_of m)) = length m"
  by (metis distinct_card dom_map_of_conv_image_fst length_map list.set_map)

lemma map_of_in_set: "wf_map m \<Longrightarrow> map_of m k = Some v \<longleftrightarrow> (k, v) \<in> set m"
  by simp

section \<open>List lemmas\<close>

lemma last_nth_Suc: "length xs = Suc n \<Longrightarrow> last xs = xs ! n"
  by (cases xs rule: rev_cases) auto

lemma last_butlast_nth:
  "2 \<le> length xs \<Longrightarrow> last (butlast xs) = xs ! (length xs - 2)"
  by (subst last_conv_nth) (auto simp: nth_butlast numeral_2_eq_2 simp flip: length_0_conv)

lemma sorted_wrt_filter_split:
  fixes f :: "'a \<Rightarrow> 'b::linorder"
  assumes "sorted_wrt (\<lambda>a b. f b \<le> f a) xs"
  shows "takeWhile (\<lambda>x. p \<le> f x) xs = filter (\<lambda>x. p \<le> f x) xs
    \<and> dropWhile (\<lambda>x. p \<le> f x) xs = filter (\<lambda>x. f x < p) xs"
  using assms
proof (induction xs)
  case Nil
  then show ?case by simp
next
  case (Cons x xs)
  show ?case
  proof (cases "p \<le> f x")
    case True
    then show ?thesis using Cons by auto
  next
    case False
    then have "\<forall>y \<in> set xs. f y < p" using Cons.prems by fastforce
    then show ?thesis using False by (auto simp: filter_empty_conv not_le)
  qed
qed

end
