(* ===== verification/ApiError.thy ===== *)
theory ApiError
  imports Prelude
begin

text \<open>
  The application error of \<^verbatim>\<open>src/web/apierror/apierror.go\<close>, with the error codes of
  \<^verbatim>\<open>src/constants/constants.go\<close> and the HTTP status codes (from Fiber) that the modelled
  code returns. A nil error pointer is the absence of an \<open>Inl\<close> value.
\<close>

type_synonym JobUUID = "128 word"

record ValidationError =
  FailedField :: string
  Tag :: string
  Value :: string

record APIError =
  HttpCode :: nat
  Err :: "string option"
  Message :: string
  Details :: string
  Code :: nat
  ErrJobUUID :: JobUUID
  ValidationErrors :: "ValidationError list"

section \<open>Error codes\<close>

definition ErrorInvalidJobUuid :: nat where "ErrorInvalidJobUuid = 1000"
definition ErrorJobUuidNotFound :: nat where "ErrorJobUuidNotFound = 1001"
definition ErrorCantCreateJob :: nat where "ErrorCantCreateJob = 1002"
definition ErrorCantDeleteJob :: nat where "ErrorCantDeleteJob = 1003"
definition ErrorCantPullAnyJob :: nat where "ErrorCantPullAnyJob = 1004"
definition ErrorCantPullSpecificJob :: nat where "ErrorCantPullSpecificJob = 1005"
definition ErrorCantStartJob :: nat where "ErrorCantStartJob = 1006"
definition ErrorCantCloneJob :: nat where "ErrorCantCloneJob = 1007"
definition ErrorCantCancelJob :: nat where "ErrorCantCancelJob = 1008"
definition ErrorCantSetJobAsSuccessful :: nat where "ErrorCantSetJobAsSuccessful = 1009"
definition ErrorCantFailJob :: nat where "ErrorCantFailJob = 1010"
definition ErrorCantEnqueueJob :: nat where "ErrorCantEnqueueJob = 1011"
definition ErrorCantGetJobs :: nat where "ErrorCantGetJobs = 1012"
definition ErrorInvalidParameterValue :: nat where "ErrorInvalidParameterValue = 1021"
definition ErrorCantDeserializeJson :: nat where "ErrorCantDeserializeJson = 1022"
definition ErrorInvalidJsonData :: nat where "ErrorInvalidJsonData = 1023"
definition ErrorInvalidContentType :: nat where "ErrorInvalidContentType = 1024"
definition ErrorResourceNotFound :: nat where "ErrorResourceNotFound = 1030"
definition ErrorDatabaseUnavailable :: nat where "ErrorDatabaseUnavailable = 1440"

lemmas error_code_defs = ErrorInvalidJobUuid_def ErrorJobUuidNotFound_def
  ErrorCantCreateJob_def ErrorCantDeleteJob_def ErrorCantPullAnyJob_def
  ErrorCantPullSpecificJob_def ErrorCantStartJob_def ErrorCantCloneJob_def
  ErrorCantCancelJob_def ErrorCantSetJobAsSuccessful_def ErrorCantFailJob_def
  ErrorCantEnqueueJob_def ErrorCantGetJobs_def ErrorInvalidParameterValue_def
  ErrorCantDeserializeJson_def ErrorInvalidJsonData_def ErrorInvalidContentType_def
  ErrorResourceNotFound_def ErrorDatabaseUnavailable_def

abbreviation StatusOK :: nat where "StatusOK \<equiv> 200"
abbreviation StatusBadRequest :: nat where "StatusBadRequest \<equiv> 400"
abbreviation StatusNotFound :: nat where "StatusNotFound \<equiv> 404"
abbreviation StatusPreconditionFailed :: nat where "StatusPreconditionFailed \<equiv> 412"
abbreviation StatusInternalServerError :: nat where "StatusInternalServerError \<equiv> 500"
abbreviation StatusServiceUnavailable :: nat where "StatusServiceUnavailable \<equiv> 503"

text \<open>An error literal of the source: the fields it does not name have their zero value.\<close>

definition api_error :: "string \<Rightarrow> nat \<Rightarrow> nat \<Rightarrow> JobUUID \<Rightarrow> string option \<Rightarrow> APIError" where
  "api_error msg code http uuid err = \<lparr>HttpCode = http, Err = err, Message = msg, Details = [],
    Code = code, ErrJobUUID = uuid, ValidationErrors = []\<rparr>"

lemma api_error_sel [simp]:
  "HttpCode (api_error m c h u e) = h"
  "Code (api_error m c h u e) = c"
  "Message (api_error m c h u e) = m"
  "ErrJobUUID (api_error m c h u e) = u"
  by (simp_all add: api_error_def)

end
