(* ===== verification/Job.thy ===== *)
theory Job
  imports ApiError
begin

text \<open>
  The job of \<^verbatim>\<open>src/job/job.go\<close>: its fields, the history of events it keeps, the state
  computed from the history, and the operations on one job. A Go slice that is nil or
  empty is the empty list (both have length 0 and no element, only their JSON text
  differs). A job id is a 16 byte array compared byte by byte with
  \<^verbatim>\<open>bytes.Compare\<close>, that is the unsigned order of a 128 bit word.
\<close>

section \<open>Events and states\<close>

definition JobEventCreate :: string where "JobEventCreate = ''CREATE''"
definition JobEventDelay :: string where "JobEventDelay = ''DELAY''"
definition JobEventPending :: string where "JobEventPending = ''PENDING''"
definition JobEventEnqueue :: string where "JobEventEnqueue = ''ENQUEUE''"
definition JobEventStart :: string where "JobEventStart = ''START''"
definition JobEventSuccess :: string where "JobEventSuccess = ''SUCCESS''"
definition JobEventCancel :: string where "JobEventCancel = ''CANCEL''"
definition JobEventFail :: string where "JobEventFail = ''FAIL''"
definition JobEventRetry :: string where "JobEventRetry = ''RETRY''"
definition JobEventHide :: string where "JobEventHide = ''HIDE''"
definition JobEventTerminate :: string where "JobEventTerminate = ''TERMINATE''"
definition JobEventDelete :: string where "JobEventDelete = ''DELETE''"

lemmas JobEvent_defs = JobEventCreate_def JobEventDelay_def JobEventPending_def
  JobEventEnqueue_def JobEventStart_def JobEventSuccess_def JobEventCancel_def
  JobEventFail_def JobEventRetry_def JobEventHide_def JobEventTerminate_def
  JobEventDelete_def

datatype JobState =
    JobNoState | JobCreated | JobDelayed | JobPending | JobQueued | JobRunning
  | JobSucceeded | JobFailed | JobCanceled | JobDeleted | JobHidden

record JobHistoryEvent =
  EventType :: string
  Timestamp :: int64

text \<open>A JSON value of the job properties, as the Go decoder builds it.\<close>

datatype 'f jvalue =
    JNull | JBool bool | JInt int64 | JUint uint | JFloat 'f | JString string
  | JArray "'f jvalue list" | JObject "(string \<times> 'f jvalue) list"

type_synonym JobProperties = "(string \<times> string jvalue) list option"

record job =
  JobUUID :: JobUUID
  Topic :: string
  Priority :: int
  JobProperties :: JobProperties
  History :: "JobHistoryEvent list"
  LockResources :: "string list"
  UserAgent :: string
  Requester :: string
  Name :: string
  SessionId :: string
  TraceId :: string
  VisibilityTimeout :: uint
  StartAfter :: int64
  CallbackURL :: string
  state :: JobState
  previousState :: JobState

section \<open>Reading a job\<close>

text \<open>\<open>None\<close> is the panic of \<^verbatim>\<open>GetCreationTimestamp\<close> on a job without history.\<close>

definition GetCreationTimestamp :: "job \<Rightarrow> int64 option" where
  "GetCreationTimestamp j =
    (case History j of [] \<Rightarrow> None | e # _ \<Rightarrow> Some (Timestamp e))"

definition GetLastUpdateDate :: "job \<Rightarrow> int64" where
  "GetLastUpdateDate j = (if History j \<noteq> [] then Timestamp (last (History j)) else 0)"

fun state_name :: "JobState \<Rightarrow> string" where
  "state_name JobCreated = ''created''"
| "state_name JobDelayed = ''delayed''"
| "state_name JobPending = ''pending''"
| "state_name JobQueued = ''queued''"
| "state_name JobRunning = ''running''"
| "state_name JobSucceeded = ''succeeded''"
| "state_name JobFailed = ''failed''"
| "state_name JobCanceled = ''canceled''"
| "state_name JobDeleted = ''deleted''"
| "state_name JobHidden = ''hidden''"
| "state_name JobNoState = ''unknown''"

definition GetStateString :: "job \<Rightarrow> string" where
  "GetStateString j = state_name (state j)"

definition GetStateFromEvent :: "string \<Rightarrow> JobState" where
  "GetStateFromEvent ev =
    (if ev = JobEventCreate then JobCreated
     else if ev = JobEventDelay then JobDelayed
     else if ev = JobEventPending then JobPending
     else if ev = JobEventEnqueue then JobQueued
     else if ev = JobEventStart \<or> ev = JobEventFail \<or> ev = JobEventRetry then JobRunning
     else if ev = JobEventSuccess then JobSucceeded
     else if ev = JobEventHide then JobHidden
     else if ev = JobEventCancel then JobCanceled
     else if ev = JobEventTerminate then JobFailed
     else JobNoState)"

lemma GetStateFromEvent_simps [simp]:
  "GetStateFromEvent JobEventCreate = JobCreated"
  "GetStateFromEvent JobEventDelay = JobDelayed"
  "GetStateFromEvent JobEventPending = JobPending"
  "GetStateFromEvent JobEventEnqueue = JobQueued"
  "GetStateFromEvent JobEventStart = JobRunning"
  "GetStateFromEvent JobEventFail = JobRunning"
  "GetStateFromEvent JobEventRetry = JobRunning"
  "GetStateFromEvent JobEventSuccess = JobSucceeded"
  "GetStateFromEvent JobEventHide = JobHidden"
  "GetStateFromEvent JobEventCancel = JobCanceled"
  "GetStateFromEvent JobEventTerminate = JobFailed"
  "GetStateFromEvent JobEventDelete = JobNoState"
  by (simp_all add: GetStateFromEvent_def JobEvent_defs)

definition GetHistoryStates :: "job \<Rightarrow> JobState list" where
  "GetHistoryStates j = map (\<lambda>e. GetStateFromEvent (EventType e)) (History j)"

definition IsCompleted :: "job \<Rightarrow> bool" where
  "IsCompleted j \<longleftrightarrow> state j \<in> {JobSucceeded, JobCanceled, JobFailed}"

definition GetCountFaillures :: "job \<Rightarrow> uint" where
  "GetCountFaillures j =
    foldl (\<lambda>count e. if EventType e = JobEventFail then u64 (count + 1) else count)
      0 (History j)"

definition GetCountLockResources :: "job \<Rightarrow> uint" where
  "GetCountLockResources j =
    (if state j \<in> {JobQueued, JobRunning} then length (LockResources j) else 0)"

fun last_start_timestamp :: "JobHistoryEvent list \<Rightarrow> int64" where
  "last_start_timestamp [] = 0"
| "last_start_timestamp (e # older) =
    (if EventType e = JobEventEnqueue \<or> EventType e = JobEventStart
     then go_div (Timestamp e) 1000 else last_start_timestamp older)"

text \<open>The loop runs from the most recent event to the oldest.\<close>

definition GetQueuedOrRunningTimestamp :: "job \<Rightarrow> int64" where
  "GetQueuedOrRunningTimestamp j =
    (if state j \<in> {JobQueued, JobRunning} then last_start_timestamp (rev (History j)) else 0)"

definition GetDurationMsSinceLastAndFirstEvent :: "job \<Rightarrow> int64" where
  "GetDurationMsSinceLastAndFirstEvent j =
    (if length (History j) < 2 then 0
     else i64 (Timestamp (last (History j)) - Timestamp (hd (History j))))"

section \<open>Changing a job\<close>

definition SetStateFromHistory :: "job \<Rightarrow> job" where
  "SetStateFromHistory j =
    (let sts = GetHistoryStates j in
     j\<lparr>state := (if length sts > 0 then sts ! (length sts - 1) else JobNoState),
       previousState := (if length sts > 1 then sts ! (length sts - 2) else JobNoState)\<rparr>)"

definition AddHistoryEvent :: "string \<Rightarrow> int64 \<Rightarrow> job \<Rightarrow> job" where
  "AddHistoryEvent ev ts j =
    j\<lparr>History := History j @ [\<lparr>EventType = ev, Timestamp = ts\<rparr>],
      previousState := state j,
      state := GetStateFromEvent ev\<rparr>"

definition Init :: "JobUUID \<Rightarrow> int64 \<Rightarrow> job \<Rightarrow> job" where
  "Init uuid creationDate j =
    AddHistoryEvent JobEventCreate creationDate
      (j\<lparr>JobUUID := uuid, state := JobNoState, previousState := JobNoState, History := []\<rparr>)"

fun deepCopyValue :: "'f jvalue \<Rightarrow> 'f jvalue" where
  "deepCopyValue (JObject m) = JObject (map (\<lambda>(k, e). (k, deepCopyValue e)) m)"
| "deepCopyValue (JArray xs) = JArray (map deepCopyValue xs)"
| "deepCopyValue v = v"

definition copyProperties :: "JobProperties \<Rightarrow> JobProperties" where
  "copyProperties p = map_option (map (\<lambda>(k, e). (k, deepCopyValue e))) p"

definition Clone :: "job \<Rightarrow> job" where
  "Clone j = \<lparr>JobUUID = 0, Topic = Topic j, Priority = Priority j,
    JobProperties = copyProperties (JobProperties j), History = [],
    LockResources = LockResources j, UserAgent = UserAgent j, Requester = Requester j,
    Name = Name j, SessionId = SessionId j, TraceId = TraceId j,
    VisibilityTimeout = VisibilityTimeout j, StartAfter = StartAfter j,
    CallbackURL = CallbackURL j, state = state j, previousState = previousState j\<rparr>"

text \<open>
  \<^verbatim>\<open>Snapshot\<close> copies the job, its history and its resource list into fresh memory. The
  model passes jobs by value, so the copy is the job itself.
\<close>

definition Snapshot :: "job \<Rightarrow> job" where
  "Snapshot j = j\<lparr>History := map (\<lambda>e. e) (History j),
    LockResources := map (\<lambda>r. r) (LockResources j)\<rparr>"

lemma Snapshot_id [simp]: "Snapshot j = j"
  by (simp add: Snapshot_def)

section \<open>Decoding\<close>

record JobRequest =
  reqTopic :: string
  reqPriority :: int
  reqJobProperties :: JobProperties
  reqLockResources :: "string list"
  reqUserAgent :: string
  reqRequester :: string
  reqName :: string
  reqSessionId :: string
  reqTraceId :: string
  reqStartAfter :: int64
  reqDelay :: int64
  reqCallbackURL :: string

text \<open>
  \<^verbatim>\<open>NewJob\<close> and \<^verbatim>\<open>NewJobFromRequest\<close> start from what \<^verbatim>\<open>encoding/json\<close> decoded
  (\<open>Inl\<close> its error message). The second reads the clock when a delay is given
  without a start time; \<open>now\<close> is that reading.
\<close>

definition NewJob :: "string + job \<Rightarrow> APIError + job" where
  "NewJob decoded =
    (case decoded of
      Inl err \<Rightarrow> Inl (api_error ''cannot create job'' ErrorCantCreateJob
                    StatusInternalServerError 0 (Some err))
    | Inr j \<Rightarrow> Inr (SetStateFromHistory j))"

definition requestStartAfter :: "int64 \<Rightarrow> JobRequest \<Rightarrow> int64" where
  "requestStartAfter now req =
    (let startAfter = reqStartAfter req in
     if reqDelay req > 0
     then i64 ((if startAfter = 0 then now else startAfter) + i64 (reqDelay req * 1000))
     else startAfter)"

definition NewJobFromRequest :: "int64 \<Rightarrow> string + JobRequest \<Rightarrow> APIError + job" where
  "NewJobFromRequest now decoded =
    (case decoded of
      Inl err \<Rightarrow> Inl (api_error ''cannot create job from request'' ErrorCantCreateJob
                    StatusBadRequest 0 (Some err))
    | Inr req \<Rightarrow> Inr \<lparr>JobUUID = 0, Topic = reqTopic req, Priority = reqPriority req,
        JobProperties = reqJobProperties req, History = [],
        LockResources = reqLockResources req, UserAgent = reqUserAgent req,
        Requester = reqRequester req, Name = reqName req, SessionId = reqSessionId req,
        TraceId = reqTraceId req, VisibilityTimeout = 0,
        StartAfter = requestStartAfter now req, CallbackURL = reqCallbackURL req,
        state = JobNoState, previousState = JobNoState\<rparr>)"

section \<open>Numbers of the properties\<close>

text \<open>
  \<^verbatim>\<open>numberValue\<close> reads a JSON number literal. \<^verbatim>\<open>strconv.ParseInt\<close> and
  \<^verbatim>\<open>strconv.ParseUint\<close> in base 10 accept digits (the first also a sign) and refuse a value
  out of range; \<open>parse_float\<close> stands for \<^verbatim>\<open>strconv.ParseFloat\<close> (IEEE rounding).
\<close>

definition is_digit :: "char \<Rightarrow> bool" where
  "is_digit c \<longleftrightarrow> 48 \<le> (of_char c :: nat) \<and> (of_char c :: nat) \<le> 57"

definition digits_value :: "string \<Rightarrow> nat" where
  "digits_value s = foldl (\<lambda>v c. 10 * v + (of_char c - 48)) 0 s"

definition parse_uint :: "nat \<Rightarrow> string \<Rightarrow> nat option" where
  "parse_uint bits s =
    (if s = [] \<or> \<not> list_all is_digit s then None
     else if digits_value s < 2 ^ bits then Some (digits_value s) else None)"

definition parse_int64 :: "string \<Rightarrow> int option" where
  "parse_int64 s =
    (let (neg, ds) = (case s of [] \<Rightarrow> (False, [])
                      | c # cs \<Rightarrow> if c = CHR ''-'' then (True, cs)
                                  else if c = CHR ''+'' then (False, cs) else (False, s)) in
     if ds = [] \<or> \<not> list_all is_digit ds then None
     else let v = (if neg then - int (digits_value ds) else int (digits_value ds)) in
       if in_i64 v then Some v else None)"

definition numberValue :: "(string \<Rightarrow> 'f option) \<Rightarrow> string \<Rightarrow> string + 'f jvalue" where
  "numberValue parse_float s =
    (let as_float = (case parse_float s of
        None \<Rightarrow> Inl (''number '' @ s) | Some f \<Rightarrow> Inr (JFloat f)) in
     if s \<noteq> ''-0'' \<and> \<not> list_ex (\<lambda>c. c \<in> set ''.eE'') s
     then (case parse_int64 s of Some i \<Rightarrow> Inr (JInt i)
           | None \<Rightarrow> (case parse_uint 64 s of Some u \<Rightarrow> Inr (JUint u) | None \<Rightarrow> as_float))
     else as_float)"

section \<open>The public view\<close>

record JobResponse =
  respJob :: job
  respState :: string

text \<open>
  A \<^verbatim>\<open>JobResponse\<close> has every exported field of the job (the unexported \<open>state\<close> and
  \<open>previousState\<close> are not part of it) and the name of the state.
\<close>

definition ToResponse :: "job \<Rightarrow> JobResponse" where
  "ToResponse j = \<lparr>respJob = j\<lparr>state := JobNoState, previousState := JobNoState\<rparr>,
    respState = GetStateString j\<rparr>"

section \<open>Lemmas\<close>

text \<open>
  A job is \<open>synced\<close> when the state it caches is the one its history gives: what is saved
  (the history, not the state) is then enough to restore the job.
\<close>

definition synced :: "job \<Rightarrow> bool" where
  "synced j \<longleftrightarrow> SetStateFromHistory j = j"

lemma synced_iff:
  "synced j \<longleftrightarrow>
    state j = (if History j = [] then JobNoState
               else GetStateFromEvent (EventType (last (History j)))) \<and>
    previousState j = (if length (History j) < 2 then JobNoState
               else GetStateFromEvent (EventType (last (butlast (History j)))))"
proof -
  have "j\<lparr>state := a, previousState := b\<rparr> = j \<longleftrightarrow> state j = a \<and> previousState j = b" for a b
    by (cases j) auto
  then show ?thesis
    by (auto simp: synced_def SetStateFromHistory_def Let_def GetHistoryStates_def
        last_conv_nth last_butlast_nth)
qed

lemma synced_AddHistoryEvent: "synced j \<Longrightarrow> synced (AddHistoryEvent ev ts j)"
  by (auto simp: synced_iff AddHistoryEvent_def butlast_append)

lemma synced_Init: "synced (Init u ts j)"
  by (simp add: synced_iff Init_def AddHistoryEvent_def)

lemma synced_SetStateFromHistory: "synced (SetStateFromHistory j)"
  by (simp add: synced_def SetStateFromHistory_def Let_def GetHistoryStates_def)

lemma deepCopyValue_id [simp]: "deepCopyValue v = v"
proof (induction v)
  case (JObject m)
  then have "map (\<lambda>(k, e). (k, deepCopyValue e)) m = m"
    by (intro map_idI) (force simp: snds.simps)
  then show ?case by simp
next
  case (JArray xs)
  then show ?case by (simp add: map_idI)
qed simp_all

lemma copyProperties_id [simp]: "copyProperties p = p"
  by (cases p) (simp_all add: copyProperties_def map_idI case_prod_unfold)

lemma AddHistoryEvent_sel [simp]:
  "JobUUID (AddHistoryEvent ev ts j) = JobUUID j"
  "Topic (AddHistoryEvent ev ts j) = Topic j"
  "Priority (AddHistoryEvent ev ts j) = Priority j"
  "LockResources (AddHistoryEvent ev ts j) = LockResources j"
  "StartAfter (AddHistoryEvent ev ts j) = StartAfter j"
  "VisibilityTimeout (AddHistoryEvent ev ts j) = VisibilityTimeout j"
  "CallbackURL (AddHistoryEvent ev ts j) = CallbackURL j"
  "History (AddHistoryEvent ev ts j) = History j @ [\<lparr>EventType = ev, Timestamp = ts\<rparr>]"
  "state (AddHistoryEvent ev ts j) = GetStateFromEvent ev"
  "previousState (AddHistoryEvent ev ts j) = state j"
  by (simp_all add: AddHistoryEvent_def)

lemma GetCreationTimestamp_append [simp]:
  "GetCreationTimestamp (AddHistoryEvent ev ts j) =
    (case GetCreationTimestamp j of None \<Rightarrow> Some ts | Some t \<Rightarrow> Some t)"
  by (simp add: GetCreationTimestamp_def split: list.splits)

end
