(* ===== verification/BinHeap.thy ===== *)
theory BinHeap
  imports Prelude
begin

text \<open>
  Go's \<^verbatim>\<open>container/heap\<close> as \<^verbatim>\<open>src/service/queue.go\<close> uses it: a binary heap in an
  array whose elements record their position, so that any of them can be removed. A heap
  state is the array of elements (addresses) and the function that gives each element its
  recorded position; \<open>lt\<close> is the comparison of two elements. The locale \<open>heap_order\<close>
  states the contract: \<open>lt\<close> is the strict order of a key.
\<close>

section \<open>Code\<close>

type_synonym 'e hstate = "'e list \<times> ('e \<Rightarrow> nat)"

text \<open>\<^verbatim>\<open>jobHeap.Swap\<close>: exchanges two array cells, then records both positions.\<close>

definition heap_swap :: "nat \<Rightarrow> nat \<Rightarrow> 'e hstate \<Rightarrow> 'e hstate" where
  "heap_swap a b h =
    (let xs = (fst h)[a := fst h ! b, b := fst h ! a]
     in (xs, (snd h)(xs ! a := a, xs ! b := b)))"

text \<open>\<^verbatim>\<open>up\<close>: the parent of \<open>j\<close> is \<open>(j - 1) / 2\<close>, and 0 is its own parent.\<close>

function heap_up :: "('e \<Rightarrow> 'e \<Rightarrow> bool) \<Rightarrow> nat \<Rightarrow> 'e hstate \<Rightarrow> 'e hstate" where
  "heap_up lt j h =
    (let i = (j - 1) div 2 in
     if i = j \<or> \<not> lt (fst h ! j) (fst h ! i) then h
     else heap_up lt i (heap_swap i j h))"
  by pat_completeness auto
termination by (relation "measure (\<lambda>(lt, j, h). j)") auto

definition smaller_child :: "('e \<Rightarrow> 'e \<Rightarrow> bool) \<Rightarrow> 'e list \<Rightarrow> nat \<Rightarrow> nat \<Rightarrow> nat" where
  "smaller_child lt xs n i =
    (let j1 = 2 * i + 1; j2 = j1 + 1
     in if j2 < n \<and> lt (xs ! j2) (xs ! j1) then j2 else j1)"

text \<open>
  The loop of \<^verbatim>\<open>down\<close> over the first \<open>n\<close> cells; it returns the final value of \<open>i\<close>, from
  which the code computes whether the element moved.
\<close>

function heap_down :: "('e \<Rightarrow> 'e \<Rightarrow> bool) \<Rightarrow> nat \<Rightarrow> nat \<Rightarrow> 'e hstate \<Rightarrow> 'e hstate \<times> nat" where
  "heap_down lt i n h =
    (if 2 * i + 1 \<ge> n then (h, i)
     else let j = smaller_child lt (fst h) n i in
       if \<not> lt (fst h ! j) (fst h ! i) then (h, i)
       else heap_down lt j n (heap_swap i j h))"
  by pat_completeness auto
termination
  by (relation "measure (\<lambda>(lt, i, n, h). n - i)") (auto simp: smaller_child_def Let_def)

declare heap_up.simps [simp del] heap_down.simps [simp del]

definition heap_push :: "('e \<Rightarrow> 'e \<Rightarrow> bool) \<Rightarrow> 'e \<Rightarrow> 'e hstate \<Rightarrow> 'e hstate" where
  "heap_push lt e h =
    heap_up lt (length (fst h)) (fst h @ [e], (snd h)(e := length (fst h)))"

text \<open>\<^verbatim>\<open>jobHeap.Pop\<close> cuts the last cell off.\<close>

definition heap_pop :: "('e \<Rightarrow> 'e \<Rightarrow> bool) \<Rightarrow> 'e hstate \<Rightarrow> 'e \<times> 'e hstate" where
  "heap_pop lt h =
    (let n = length (fst h) - 1; h' = fst (heap_down lt 0 n (heap_swap 0 n h))
     in (last (fst h'), (butlast (fst h'), snd h')))"

definition heap_remove :: "('e \<Rightarrow> 'e \<Rightarrow> bool) \<Rightarrow> nat \<Rightarrow> 'e hstate \<Rightarrow> 'e hstate" where
  "heap_remove lt i h =
    (let n = length (fst h) - 1;
         h' = (if n \<noteq> i
               then let (h1, k) = heap_down lt i n (heap_swap i n h)
                    in if k > i then h1 else heap_up lt i h1
               else h)
     in (butlast (fst h'), snd h'))"

text \<open>The two loops of \<^verbatim>\<open>queuedJobs.first\<close>: pop up to \<open>n\<close> elements, push them back.\<close>

fun pop_n :: "('e \<Rightarrow> 'e \<Rightarrow> bool) \<Rightarrow> nat \<Rightarrow> 'e hstate \<Rightarrow> 'e list \<times> 'e hstate" where
  "pop_n lt 0 h = ([], h)"
| "pop_n lt (Suc n) h =
    (if fst h = [] then ([], h)
     else let (e, h1) = heap_pop lt h; (es, h2) = pop_n lt n h1 in (e # es, h2))"

definition push_all :: "('e \<Rightarrow> 'e \<Rightarrow> bool) \<Rightarrow> 'e list \<Rightarrow> 'e hstate \<Rightarrow> 'e hstate" where
  "push_all lt es h = foldl (\<lambda>g e. heap_push lt e g) h es"

section \<open>Positions\<close>

definition pos_ok :: "'e hstate \<Rightarrow> bool" where
  "pos_ok h \<longleftrightarrow> distinct (fst h) \<and> (\<forall>i < length (fst h). snd h (fst h ! i) = i)"

lemma heap_swap_list: "fst (heap_swap a b h) = (fst h)[a := fst h ! b, b := fst h ! a]"
  by (simp add: heap_swap_def Let_def)

lemma length_heap_swap [simp]: "length (fst (heap_swap a b h)) = length (fst h)"
  by (simp add: heap_swap_list)

lemma mset_heap_swap [simp]:
  "a < length (fst h) \<Longrightarrow> b < length (fst h) \<Longrightarrow> mset (fst (heap_swap a b h)) = mset (fst h)"
  by (simp add: heap_swap_list mset_swap)

lemma nth_heap_swap:
  "a < length (fst h) \<Longrightarrow> b < length (fst h) \<Longrightarrow>
    fst (heap_swap a b h) ! i = fst h ! (if i = a then b else if i = b then a else i)"
  by (cases "i < length (fst h)") (auto simp: heap_swap_list nth_list_update)

lemma pos_ok_swap:
  assumes "pos_ok h" "a < length (fst h)" "b < length (fst h)"
  shows "pos_ok (heap_swap a b h)"
proof -
  let ?xs = "fst (heap_swap a b h)"
  have d: "distinct ?xs"
    using assms by (metis mset_heap_swap mset_eq_imp_distinct_iff pos_ok_def)
  have "snd (heap_swap a b h) (?xs ! i) = i" if "i < length (fst h)" for i
  proof (cases "i = a \<or> i = b")
    case True
    have "?xs ! a = ?xs ! b \<longleftrightarrow> a = b" using d assms by (simp add: nth_eq_iff_index_eq)
    moreover have "snd (heap_swap a b h) = (snd h)(?xs ! a := a, ?xs ! b := b)"
      by (simp add: heap_swap_def Let_def)
    ultimately show ?thesis using True by auto
  next
    case False
    then have "?xs ! i \<noteq> ?xs ! a" "?xs ! i \<noteq> ?xs ! b"
      using assms that by (simp_all add: nth_eq_iff_index_eq[OF d])
    moreover have "?xs ! i = fst h ! i" using False assms by (simp add: nth_heap_swap)
    ultimately show ?thesis using assms that
      by (simp add: heap_swap_def Let_def pos_ok_def)
  qed
  then show ?thesis using d by (simp add: pos_ok_def)
qed

lemma smaller_child_bounds:
  "2 * i + 1 < n \<Longrightarrow> i < smaller_child lt xs n i \<and> smaller_child lt xs n i < n
    \<and> (smaller_child lt xs n i - 1) div 2 = i"
  by (auto simp: smaller_child_def Let_def)

lemma heap_up_frame:
  "pos_ok h \<Longrightarrow> j < length (fst h) \<Longrightarrow>
    pos_ok (heap_up lt j h) \<and> length (fst (heap_up lt j h)) = length (fst h)
    \<and> mset (fst (heap_up lt j h)) = mset (fst h)
    \<and> (\<forall>e. e \<notin> set (fst h) \<longrightarrow> snd (heap_up lt j h) e = snd h e)"
proof (induction lt j h rule: heap_up.induct)
  case (1 lt j h)
  let ?i = "(j - 1) div 2"
  show ?case
  proof (cases "?i = j \<or> \<not> lt (fst h ! j) (fst h ! ?i)")
    case True
    then have "heap_up lt j h = h" by (subst heap_up.simps) (simp add: Let_def)
    then show ?thesis using "1.prems" by simp
  next
    case False
    have b: "?i < length (fst h)" using "1.prems" by simp
    have eq: "heap_up lt j h = heap_up lt ?i (heap_swap ?i j h)"
      using False by (subst heap_up.simps) (simp add: Let_def)
    have s: "set (fst (heap_swap ?i j h)) = set (fst h)"
      using b "1.prems" by (metis mset_heap_swap set_mset_mset)
    have p: "snd (heap_swap ?i j h) e = snd h e" if "e \<notin> set (fst h)" for e
      using that b "1.prems"(2)
      by (auto simp: heap_swap_def Let_def nth_list_update)
    show ?thesis
      using "1.IH"[OF refl False] "1.prems" b eq s p by (simp add: pos_ok_swap)
  qed
qed

lemma heap_up_drop: "j < n \<Longrightarrow> drop n (fst (heap_up lt j h)) = drop n (fst h)"
proof (induction lt j h rule: heap_up.induct)
  case (1 lt j h)
  let ?i = "(j - 1) div 2"
  have "?i < n" using "1.prems" by simp
  then show ?case using 1 by (subst heap_up.simps) (auto simp: Let_def heap_swap_list)
qed

lemma heap_down_frame:
  "pos_ok h \<Longrightarrow> i < n \<Longrightarrow> n \<le> length (fst h) \<Longrightarrow>
    pos_ok (fst (heap_down lt i n h))
    \<and> length (fst (fst (heap_down lt i n h))) = length (fst h)
    \<and> mset (fst (fst (heap_down lt i n h))) = mset (fst h)
    \<and> drop n (fst (fst (heap_down lt i n h))) = drop n (fst h)
    \<and> (\<forall>e. e \<notin> set (fst h) \<longrightarrow> snd (fst (heap_down lt i n h)) e = snd h e)
    \<and> i \<le> snd (heap_down lt i n h) \<and> snd (heap_down lt i n h) < n"
proof (induction lt i n h rule: heap_down.induct)
  case (1 lt i n h)
  let ?j = "smaller_child lt (fst h) n i"
  show ?case
  proof (cases "2 * i + 1 \<ge> n \<or> \<not> lt (fst h ! ?j) (fst h ! i)")
    case True
    then have "heap_down lt i n h = (h, i)" by (subst heap_down.simps) (auto simp: Let_def)
    then show ?thesis using "1.prems" by simp
  next
    case False
    then have j: "i < ?j" "?j < n" using smaller_child_bounds[of i n lt "fst h"] by auto
    have eq: "heap_down lt i n h = heap_down lt ?j n (heap_swap i ?j h)"
      using False by (subst heap_down.simps) (auto simp: Let_def)
    have b: "i < length (fst h)" "?j < length (fst h)" using j "1.prems" by auto
    have s: "set (fst (heap_swap i ?j h)) = set (fst h)"
      using b by (metis mset_heap_swap set_mset_mset)
    have p: "snd (heap_swap i ?j h) e = snd h e" if "e \<notin> set (fst h)" for e
      using that b by (auto simp: heap_swap_def Let_def nth_list_update)
    have dr: "drop n (fst (heap_swap i ?j h)) = drop n (fst h)"
      using j by (simp add: heap_swap_list)
    show ?thesis
      using "1.IH"[OF _ refl] False "1.prems" b j eq s p dr
      by (simp add: pos_ok_swap)
  qed
qed

lemma down_index_ge: "i \<le> snd (heap_down lt i n h)"
proof (induction lt i n h rule: heap_down.induct)
  case (1 lt i n h)
  then show ?case
    using smaller_child_bounds[of i n lt "fst h"]
    by (subst heap_down.simps) (fastforce simp: Let_def)
qed

section \<open>Order\<close>

definition is_heap :: "('e \<Rightarrow> 'k::linorder) \<Rightarrow> nat \<Rightarrow> 'e list \<Rightarrow> bool" where
  "is_heap key n xs \<longleftrightarrow> (\<forall>c < n. 0 < c \<longrightarrow> key (xs ! ((c - 1) div 2)) \<le> key (xs ! c))"

text \<open>A heap but for the element at \<open>k\<close>, whose parent and children agree with each other.\<close>

definition hole_heap :: "('e \<Rightarrow> 'k::linorder) \<Rightarrow> nat \<Rightarrow> nat \<Rightarrow> 'e list \<Rightarrow> bool" where
  "hole_heap key n k xs \<longleftrightarrow>
    (\<forall>c < n. 0 < c \<longrightarrow> c \<noteq> k \<longrightarrow> (c - 1) div 2 \<noteq> k \<longrightarrow> key (xs ! ((c - 1) div 2)) \<le> key (xs ! c))
    \<and> (\<forall>c < n. 0 < c \<longrightarrow> (c - 1) div 2 = k \<longrightarrow> 0 < k \<longrightarrow> key (xs ! ((k - 1) div 2)) \<le> key (xs ! c))"

definition parent_le :: "('e \<Rightarrow> 'k::linorder) \<Rightarrow> nat \<Rightarrow> 'e list \<Rightarrow> bool" where
  "parent_le key k xs \<longleftrightarrow> (0 < k \<longrightarrow> key (xs ! ((k - 1) div 2)) \<le> key (xs ! k))"

definition children_ge :: "('e \<Rightarrow> 'k::linorder) \<Rightarrow> nat \<Rightarrow> nat \<Rightarrow> 'e list \<Rightarrow> bool" where
  "children_ge key n k xs \<longleftrightarrow> (\<forall>c < n. 0 < c \<longrightarrow> (c - 1) div 2 = k \<longrightarrow> key (xs ! k) \<le> key (xs ! c))"

lemma is_heap_holeI:
  "hole_heap key n k xs \<Longrightarrow> parent_le key k xs \<Longrightarrow> children_ge key n k xs \<Longrightarrow> is_heap key n xs"
  unfolding is_heap_def hole_heap_def parent_le_def children_ge_def by metis

lemma is_heap_min:
  assumes "is_heap key n xs" "i < n"
  shows "key (xs ! 0) \<le> key (xs ! i)"
  using assms(2)
proof (induction i rule: less_induct)
  case (less i)
  show ?case
  proof (cases "i = 0")
    case False
    then have "key (xs ! 0) \<le> key (xs ! ((i - 1) div 2))" using less by (intro less.IH) auto
    also have "\<dots> \<le> key (xs ! i)" using assms(1) less.prems False by (simp add: is_heap_def)
    finally show ?thesis .
  qed simp
qed

definition heap_wf :: "('e \<Rightarrow> 'k::linorder) \<Rightarrow> 'e hstate \<Rightarrow> bool" where
  "heap_wf key h \<longleftrightarrow> pos_ok h \<and> is_heap key (length (fst h)) (fst h)"

lemma heap_wf_cong:
  assumes "\<And>e. e \<in> set (fst h) \<Longrightarrow> key' e = key e"
    and "\<And>e. e \<in> set (fst h) \<Longrightarrow> snd h' e = snd h e" and "fst h' = fst h"
  shows "heap_wf key' h' = heap_wf key h"
proof -
  have "key' (fst h ! ((c - 1) div 2)) = key (fst h ! ((c - 1) div 2))
      \<and> key' (fst h ! c) = key (fst h ! c)" if "c < length (fst h)" for c
    using assms that by auto
  then show ?thesis using assms by (auto simp: heap_wf_def pos_ok_def is_heap_def)
qed

locale heap_order =
  fixes lt :: "'e \<Rightarrow> 'e \<Rightarrow> bool" and key :: "'e \<Rightarrow> 'k::linorder"
  assumes lt_key: "lt a b \<longleftrightarrow> key a < key b"
begin

lemma up_swap:
  assumes h: "hole_heap key n j xs" "children_ge key n j xs"
    and j: "0 < j" "j < n" and i: "i = (j - 1) div 2" and l: "key (xs ! j) < key (xs ! i)"
    and ys: "\<And>c. ys ! c = xs ! (if c = i then j else if c = j then i else c)"
  shows "hole_heap key n i ys \<and> children_ge key n i ys"
proof -
  have ij: "i < j" using j i by auto
  have clean: "key (xs ! ((c - 1) div 2)) \<le> key (xs ! c)"
    if "c < n" "0 < c" "c \<noteq> j" "(c - 1) div 2 \<noteq> j" for c
    using h(1) that by (simp add: hole_heap_def)
  have grand: "key (xs ! i) \<le> key (xs ! c)" if "c < n" "0 < c" "(c - 1) div 2 = j" for c
    using h(1) that j i by (simp add: hole_heap_def)
  have sib: "key (xs ! i) \<le> key (xs ! c)" if "c < n" "0 < c" "c \<noteq> j" "(c - 1) div 2 = i" for c
    using clean[of c] that ij by simp
  have up: "key (xs ! ((i - 1) div 2)) \<le> key (xs ! i)" if "0 < i"
    using clean[of i] that ij j by auto
  have 1: "key (ys ! i) \<le> key (ys ! c)" if "c < n" "0 < c" "(c - 1) div 2 = i" for c
  proof (cases "c = j")
    case True
    then show ?thesis using l ij by (simp add: ys)
  next
    case False
    have "c \<noteq> i" using that by linarith
    then show ?thesis using sib[of c] that False l by (simp add: ys)
  qed
  have 2: "key (ys ! ((c - 1) div 2)) \<le> key (ys ! c)"
    if "c < n" "0 < c" "c \<noteq> i" "(c - 1) div 2 \<noteq> i" for c
  proof (cases "(c - 1) div 2 = j")
    case True
    then have "c \<noteq> j" using that by linarith
    then show ?thesis using grand[of c] True that ij by (simp add: ys)
  next
    case False
    have "c \<noteq> j" using that i by auto
    then show ?thesis using clean[of c] False that by (simp add: ys)
  qed
  have 3: "key (ys ! ((i - 1) div 2)) \<le> key (ys ! c)"
    if "c < n" "0 < c" "(c - 1) div 2 = i" "0 < i" for c
  proof -
    have ne: "(i - 1) div 2 \<noteq> i" "(i - 1) div 2 \<noteq> j" "c \<noteq> i" using that ij by linarith+
    show ?thesis
    proof (cases "c = j")
      case True
      then show ?thesis using up that ne by (simp add: ys)
    next
      case False
      then show ?thesis using up that ne sib[of c] by (auto simp: ys)
    qed
  qed
  show ?thesis using 1 2 3 by (auto simp: hole_heap_def children_ge_def)
qed

lemma up_heap:
  "hole_heap key n j (fst h) \<Longrightarrow> children_ge key n j (fst h) \<Longrightarrow> j < n \<Longrightarrow> n \<le> length (fst h) \<Longrightarrow>
    is_heap key n (fst (heap_up lt j h))"
proof (induction j arbitrary: h rule: less_induct)
  case (less j)
  let ?i = "(j - 1) div 2"
  show ?case
  proof (cases "?i = j \<or> \<not> lt (fst h ! j) (fst h ! ?i)")
    case True
    then have "heap_up lt j h = h" by (subst heap_up.simps) (simp add: Let_def)
    moreover have "parent_le key j (fst h)"
      using True by (auto simp: parent_le_def lt_key)
    ultimately show ?thesis using less.prems is_heap_holeI by metis
  next
    case False
    then have j: "0 < j" by (cases j) auto
    have eq: "heap_up lt j h = heap_up lt ?i (heap_swap ?i j h)"
      using False by (subst heap_up.simps) (simp add: Let_def)
    have "?i < length (fst h)" "j < length (fst h)" using less.prems by auto
    then have "hole_heap key n ?i (fst (heap_swap ?i j h))
        \<and> children_ge key n ?i (fst (heap_swap ?i j h))"
      using less.prems j False
      by (intro up_swap[of n j "fst h"]) (auto simp: nth_heap_swap lt_key)
    then show ?thesis using less.IH[of ?i "heap_swap ?i j h"] less.prems j eq by simp
  qed
qed

lemma smaller_child_min:
  assumes "0 < c" "c < n" "(c - 1) div 2 = i"
  shows "key (xs ! smaller_child lt xs n i) \<le> key (xs ! c)"
proof -
  have "c = 2 * i + 1 \<or> c = 2 * i + 2" using assms by linarith
  then show ?thesis using assms by (auto simp: smaller_child_def Let_def lt_key)
qed

lemma down_swap:
  assumes h: "hole_heap key n i xs" and i: "2 * i + 1 < n"
    and j: "j = smaller_child lt xs n i" and l: "key (xs ! j) < key (xs ! i)"
    and ys: "\<And>c. ys ! c = xs ! (if c = i then j else if c = j then i else c)"
  shows "hole_heap key n j ys \<and> parent_le key j ys"
proof -
  have ij: "i < j" "j < n" "(j - 1) div 2 = i" "0 < j"
    using smaller_child_bounds[OF i, of lt xs] j by auto
  have clean: "key (xs ! ((c - 1) div 2)) \<le> key (xs ! c)"
    if "c < n" "0 < c" "c \<noteq> i" "(c - 1) div 2 \<noteq> i" for c
    using h that by (simp add: hole_heap_def)
  have grand: "key (xs ! ((i - 1) div 2)) \<le> key (xs ! j)" if "0 < i"
    using h that ij by (simp add: hole_heap_def)
  have mn: "key (xs ! j) \<le> key (xs ! c)" if "0 < c" "c < n" "(c - 1) div 2 = i" for c
    using smaller_child_min[OF that] j by simp
  have 1: "key (ys ! ((c - 1) div 2)) \<le> key (ys ! c)"
    if "c < n" "0 < c" "c \<noteq> j" "(c - 1) div 2 \<noteq> j" for c
  proof (cases "c = i")
    case True
    then have "(i - 1) div 2 \<noteq> i" using that by linarith
    then show ?thesis using True grand that ij by (simp add: ys)
  next
    case False
    show ?thesis
    proof (cases "(c - 1) div 2 = i")
      case True
      then show ?thesis using mn[of c] that False by (simp add: ys)
    next
      case F: False
      then show ?thesis using clean[of c] that False by (simp add: ys)
    qed
  qed
  have 2: "key (ys ! ((j - 1) div 2)) \<le> key (ys ! c)"
    if "c < n" "0 < c" "(c - 1) div 2 = j" for c
  proof -
    have "c \<noteq> i" "c \<noteq> j" using that ij by linarith+
    then show ?thesis using clean[of c] that ij by (simp add: ys)
  qed
  have "key (ys ! i) \<le> key (ys ! j)" using l ij by (simp add: ys)
  then show ?thesis using 1 2 ij by (auto simp: hole_heap_def parent_le_def)
qed

lemma down_stop:
  assumes "2 * i + 1 \<ge> n \<or> \<not> lt (xs ! smaller_child lt xs n i) (xs ! i)"
  shows "children_ge key n i xs"
proof -
  have "key (xs ! i) \<le> key (xs ! c)" if c: "c < n" "0 < c" "(c - 1) div 2 = i" for c
  proof -
    have "2 * i + 1 < n" using c by linarith
    then have "key (xs ! i) \<le> key (xs ! smaller_child lt xs n i)" using assms by (auto simp: lt_key)
    also have "\<dots> \<le> key (xs ! c)" using smaller_child_min c by blast
    finally show ?thesis .
  qed
  then show ?thesis by (simp add: children_ge_def)
qed

lemma down_heap:
  "hole_heap key n i (fst h) \<Longrightarrow> parent_le key i (fst h) \<Longrightarrow> i < n \<Longrightarrow> n \<le> length (fst h) \<Longrightarrow>
    is_heap key n (fst (fst (heap_down lt i n h)))"
proof (induction "n - i" arbitrary: i h rule: less_induct)
  case less
  let ?j = "smaller_child lt (fst h) n i"
  show ?case
  proof (cases "2 * i + 1 \<ge> n \<or> \<not> lt (fst h ! ?j) (fst h ! i)")
    case True
    then have "heap_down lt i n h = (h, i)" by (subst heap_down.simps) (auto simp: Let_def)
    then show ?thesis using down_stop[OF True] less.prems is_heap_holeI by auto
  next
    case False
    then have j: "i < ?j" "?j < n" using smaller_child_bounds[of i n lt "fst h"] by auto
    have eq: "heap_down lt i n h = heap_down lt ?j n (heap_swap i ?j h)"
      using False by (subst heap_down.simps) (auto simp: Let_def)
    have "i < length (fst h)" "?j < length (fst h)" using j less.prems by auto
    then have "hole_heap key n ?j (fst (heap_swap i ?j h))
        \<and> parent_le key ?j (fst (heap_swap i ?j h))"
      using less.prems j False
      by (intro down_swap[of n i "fst h"]) (auto simp: nth_heap_swap lt_key)
    then show ?thesis using less.hyps[of ?j "heap_swap i ?j h"] less.prems j eq by simp
  qed
qed

text \<open>
  Without knowing the parent of \<open>i\<close>: either the element stays, and its children are not
  smaller, or it moves down and the heap is restored.
\<close>

lemma down_or_stay:
  assumes "hole_heap key n i (fst h)" "i < n" "n \<le> length (fst h)"
  shows "if snd (heap_down lt i n h) > i then is_heap key n (fst (fst (heap_down lt i n h)))
    else fst (heap_down lt i n h) = h \<and> children_ge key n i (fst h)"
proof (cases "2 * i + 1 \<ge> n \<or> \<not> lt (fst h ! smaller_child lt (fst h) n i) (fst h ! i)")
  case True
  then have "heap_down lt i n h = (h, i)" by (subst heap_down.simps) (auto simp: Let_def)
  then show ?thesis using down_stop[OF True] by simp
next
  case False
  let ?j = "smaller_child lt (fst h) n i"
  have j: "i < ?j" "?j < n" using False smaller_child_bounds[of i n lt "fst h"] by auto
  have eq: "heap_down lt i n h = heap_down lt ?j n (heap_swap i ?j h)"
    using False by (subst heap_down.simps) (auto simp: Let_def)
  have "i < length (fst h)" "?j < length (fst h)" using j assms by auto
  then have "hole_heap key n ?j (fst (heap_swap i ?j h))
      \<and> parent_le key ?j (fst (heap_swap i ?j h))"
    using assms j False
    by (intro down_swap[of n i "fst h"]) (auto simp: nth_heap_swap lt_key)
  then have "is_heap key n (fst (fst (heap_down lt ?j n (heap_swap i ?j h))))"
    using assms j by (intro down_heap) auto
  moreover have "?j \<le> snd (heap_down lt ?j n (heap_swap i ?j h))"
    by (rule down_index_ge)
  ultimately show ?thesis using j eq by simp
qed

text \<open>
  The three operations of the package on a well-formed heap: content, order and positions.
\<close>

lemma push_wf:
  assumes h: "heap_wf key h" and e: "e \<notin> set (fst h)"
  shows "heap_wf key (heap_push lt e h) \<and> mset (fst (heap_push lt e h)) = add_mset e (mset (fst h))
    \<and> (\<forall>x. x \<notin> insert e (set (fst h)) \<longrightarrow> snd (heap_push lt e h) x = snd h x)"
proof -
  let ?g = "(fst h @ [e], (snd h)(e := length (fst h)))"
  have p: "pos_ok ?g" using h e by (auto simp: heap_wf_def pos_ok_def nth_append less_Suc_eq)
  have ho: "hole_heap key (length (fst ?g)) (length (fst h)) (fst ?g)"
  proof -
    have "(m - 1) div 2 \<noteq> m" if "0 < m" for m :: nat using that by linarith
    then show ?thesis
      using h by (auto simp: hole_heap_def heap_wf_def is_heap_def nth_append less_Suc_eq)
  qed
  have ch: "children_ge key (length (fst ?g)) (length (fst h)) (fst ?g)"
    by (auto simp: children_ge_def)
  have eq: "heap_push lt e h = heap_up lt (length (fst h)) ?g" by (simp add: heap_push_def)
  have fr: "pos_ok (heap_up lt (length (fst h)) ?g)"
    "length (fst (heap_up lt (length (fst h)) ?g)) = length (fst ?g)"
    "mset (fst (heap_up lt (length (fst h)) ?g)) = mset (fst ?g)"
    "\<forall>x. x \<notin> set (fst ?g) \<longrightarrow> snd (heap_up lt (length (fst h)) ?g) x = snd ?g x"
    using heap_up_frame[OF p, of "length (fst h)" lt] by auto
  have "is_heap key (length (fst ?g)) (fst (heap_up lt (length (fst h)) ?g))"
    using up_heap[OF ho ch] by simp
  then show ?thesis using fr unfolding eq by (auto simp: heap_wf_def)
qed

lemma cut_last_wf:
  assumes "pos_ok h" "length (fst h) = Suc n" "is_heap key n (fst h)"
  shows "heap_wf key (butlast (fst h), snd h)"
  using assms
  by (auto simp: heap_wf_def pos_ok_def is_heap_def nth_butlast distinct_butlast)

lemma mset_butlast: "xs \<noteq> [] \<Longrightarrow> mset (butlast xs) = mset xs - {# last xs #}"
  by (induction xs rule: rev_induct) auto

lemma hole_of_swap_last:
  assumes "is_heap key (Suc n) (fst h)" "length (fst h) = Suc n" "i < n"
  shows "hole_heap key n i (fst (heap_swap i n h))"
  unfolding hole_heap_def
proof (intro conjI allI impI)
  fix c assume c: "c < n" "0 < c"
  let ?ys = "fst (heap_swap i n h)"
  have ys: "?ys ! k = fst h ! k" if "k < n" "k \<noteq> i" for k
    using that assms by (simp add: nth_heap_swap)
  {
    assume "c \<noteq> i" "(c - 1) div 2 \<noteq> i"
    then show "key (?ys ! ((c - 1) div 2)) \<le> key (?ys ! c)"
      using c assms by (simp add: ys is_heap_def)
  next
    assume p: "(c - 1) div 2 = i" "0 < i"
    have "key (fst h ! ((i - 1) div 2)) \<le> key (fst h ! i)"
      using assms p by (simp add: is_heap_def)
    also have "\<dots> \<le> key (fst h ! c)" using assms p c by (auto simp: is_heap_def)
    finally show "key (?ys ! ((i - 1) div 2)) \<le> key (?ys ! c)"
      using c p assms by (subst (1 2) ys) auto
  }
qed

lemma pop_wf:
  assumes h: "heap_wf key h" and ne: "fst h \<noteq> []" and r: "heap_pop lt h = (e, h')"
  shows "heap_wf key h' \<and> e = fst h ! 0 \<and> mset (fst h') = mset (fst h) - {# e #}
    \<and> (\<forall>x\<in>set (fst h). key e \<le> key x)
    \<and> (\<forall>x. x \<notin> set (fst h) \<longrightarrow> snd h' x = snd h x)"
proof -
  define n where "n = length (fst h) - 1"
  have len: "length (fst h) = Suc n" using ne by (simp add: n_def)
  let ?s = "heap_swap 0 n h"
  let ?d = "fst (heap_down lt 0 n ?s)"
  have s: "pos_ok ?s" "mset (fst ?s) = mset (fst h)" "length (fst ?s) = Suc n"
    using h len pos_ok_swap[of h 0 n] by (auto simp: heap_wf_def)
  have sp: "snd ?s x = snd h x" if "x \<notin> set (fst h)" for x
    using that len by (auto simp: heap_swap_def Let_def nth_list_update)
  have sl: "fst ?s ! n = fst h ! 0" using len by (simp add: nth_heap_swap)
  have d: "pos_ok ?d \<and> mset (fst ?d) = mset (fst h) \<and> length (fst ?d) = Suc n
      \<and> is_heap key n (fst ?d) \<and> last (fst ?d) = fst h ! 0
      \<and> (\<forall>x. x \<notin> set (fst h) \<longrightarrow> snd ?d x = snd h x)"
  proof (cases "n = 0")
    case True
    then have "?d = ?s" by (subst heap_down.simps) simp
    then show ?thesis using s sl sp len True by (simp add: is_heap_def last_nth_Suc)
  next
    case False
    then have n: "0 < n" by simp
    have f: "pos_ok ?d \<and> length (fst ?d) = length (fst ?s) \<and> mset (fst ?d) = mset (fst ?s)
        \<and> drop n (fst ?d) = drop n (fst ?s)
        \<and> (\<forall>x. x \<notin> set (fst ?s) \<longrightarrow> snd ?d x = snd ?s x)"
      using heap_down_frame[OF s(1) n, of lt] s(3) by auto
    have "hole_heap key n 0 (fst ?s)"
      using hole_of_swap_last[of n h 0] h len n by (simp add: heap_wf_def)
    then have "is_heap key n (fst ?d)"
      using s(3) n by (intro down_heap) (auto simp: parent_le_def)
    moreover have "last (fst ?d) = fst ?s ! n"
      using f s(3) by (metis Cons_nth_drop_Suc Suc_eq_plus1 drop_all last_conv_nth
          last_drop last_ConsL lessI less_or_eq_imp_le length_0_conv nat.simps(3))
    moreover have "set (fst ?s) = set (fst h)" using s(2) by (metis set_mset_mset)
    ultimately show ?thesis using f s sl sp by auto
  qed
  have eh: "e = last (fst ?d)" "h' = (butlast (fst ?d), snd ?d)"
    using r by (simp_all add: heap_pop_def Let_def n_def)
  have "fst ?d \<noteq> []" using d by auto
  then have "mset (fst h') = mset (fst h) - {# e #}"
    using d eh by (simp add: mset_butlast)
  moreover have "key e \<le> key x" if "x \<in> set (fst h)" for x
    using that is_heap_min[of key "length (fst h)" "fst h"] h d eh
    by (auto simp: heap_wf_def in_set_conv_nth)
  ultimately show ?thesis using d eh cut_last_wf[of ?d n] by auto
qed

lemma remove_wf:
  assumes h: "heap_wf key h" and i: "i < length (fst h)"
  shows "heap_wf key (heap_remove lt i h)
    \<and> mset (fst (heap_remove lt i h)) = mset (fst h) - {# fst h ! i #}
    \<and> (\<forall>x. x \<notin> set (fst h) \<longrightarrow> snd (heap_remove lt i h) x = snd h x)"
proof -
  define n where "n = length (fst h) - 1"
  have len: "length (fst h) = Suc n" using i by (simp add: n_def)
  define g where "g = (if n \<noteq> i
      then if snd (heap_down lt i n (heap_swap i n h)) > i
           then fst (heap_down lt i n (heap_swap i n h))
           else heap_up lt i (fst (heap_down lt i n (heap_swap i n h)))
      else h)"
  have eq: "heap_remove lt i h = (butlast (fst g), snd g)"
    by (auto simp: heap_remove_def Let_def n_def g_def case_prod_unfold)
  have "pos_ok g \<and> mset (fst g) = mset (fst h) \<and> length (fst g) = Suc n
      \<and> is_heap key n (fst g) \<and> last (fst g) = fst h ! i
      \<and> (\<forall>x. x \<notin> set (fst h) \<longrightarrow> snd g x = snd h x)"
  proof (cases "n = i")
    case True
    then show ?thesis using h len by (simp add: g_def heap_wf_def is_heap_def last_nth_Suc)
  next
    case False
    then have n: "i < n" using i len by simp
    let ?s = "heap_swap i n h"
    let ?d = "fst (heap_down lt i n ?s)"
    have s: "pos_ok ?s" "mset (fst ?s) = mset (fst h)" "length (fst ?s) = Suc n"
      using h len i pos_ok_swap[of h i n] by (auto simp: heap_wf_def)
    have st: "set (fst ?s) = set (fst h)" using s(2) by (metis set_mset_mset)
    have sp: "snd ?s x = snd h x" if "x \<notin> set (fst h)" for x
      using that len i by (auto simp: heap_swap_def Let_def nth_list_update)
    have sl: "last (fst ?s) = fst h ! i"
      using len n by (simp add: last_nth_Suc[OF s(3)] nth_heap_swap)
    have hole: "hole_heap key n i (fst ?s)"
      using hole_of_swap_last h len n by (simp add: heap_wf_def)
    have ds: "if snd (heap_down lt i n ?s) > i then is_heap key n (fst ?d)
        else ?d = ?s \<and> children_ge key n i (fst ?s)"
      using down_or_stay[OF hole n] s(3) by simp
    have f: "pos_ok ?d \<and> length (fst ?d) = length (fst ?s) \<and> mset (fst ?d) = mset (fst ?s)
        \<and> drop n (fst ?d) = drop n (fst ?s)
        \<and> (\<forall>x. x \<notin> set (fst ?s) \<longrightarrow> snd ?d x = snd ?s x)"
      using heap_down_frame[OF s(1) n, of lt] s(3) by auto
    show ?thesis
    proof (cases "snd (heap_down lt i n ?s) > i")
      case True
      have "last (fst ?d) = last (fst ?s)"
        using f s(3) by (metis last_drop lessI)
      then show ?thesis using True False ds f s st sp sl by (simp add: g_def)
    next
      case F: False
      then have g: "g = heap_up lt i ?s" using False ds by (simp add: g_def)
      have "is_heap key n (fst g)"
        unfolding g using F ds hole n s(3) by (intro up_heap) auto
      moreover have "drop n (fst (heap_up lt i ?s)) = drop n (fst ?s)"
        using heap_up_drop[of i n lt ?s] n by simp
      then have "last (fst g) = last (fst ?s)"
        using g s heap_up_frame[OF s(1), of i lt] n by (metis last_drop lessI less_SucI)
      ultimately show ?thesis
        using g s st sp sl heap_up_frame[OF s(1), of i lt] n by auto
    qed
  qed
  note g = this
  then have "fst g \<noteq> []" by auto
  then show ?thesis using g cut_last_wf[of g n] by (auto simp: eq mset_butlast)
qed

lemma heap_wf_distinct: "heap_wf key h \<Longrightarrow> distinct (fst h)"
  by (simp add: heap_wf_def pos_ok_def)

lemma heap_wf_pos: "heap_wf key h \<Longrightarrow> e \<in> set (fst h) \<Longrightarrow>
    snd h e < length (fst h) \<and> fst h ! snd h e = e"
  by (auto simp: heap_wf_def pos_ok_def in_set_conv_nth)

lemma heap_wf_empty: "heap_wf key ([], p)"
  by (simp add: heap_wf_def pos_ok_def is_heap_def)

lemma pop_n_spec:
  assumes "heap_wf key h" "inj_on key (set (fst h))" "pop_n lt k h = (es, h')"
  shows "heap_wf key h' \<and> es = take k (sort_key key (fst h))
    \<and> mset es + mset (fst h') = mset (fst h)
    \<and> (\<forall>x. x \<notin> set (fst h) \<longrightarrow> snd h' x = snd h x)"
  using assms
proof (induction k arbitrary: h es)
  case 0
  then show ?case by simp
next
  case (Suc k)
  show ?case
  proof (cases "fst h = []")
    case True
    then show ?thesis using Suc.prems by auto
  next
    case False
    obtain e h1 where p: "heap_pop lt h = (e, h1)" by (cases "heap_pop lt h") simp
    obtain es1 where r: "pop_n lt k h1 = (es1, h')" "es = e # es1"
      using Suc.prems(3) False p by (auto split: prod.splits)
    have w: "heap_wf key h1" "mset (fst h1) = mset (fst h) - {# e #}"
      "\<forall>x\<in>set (fst h). key e \<le> key x" "\<forall>x. x \<notin> set (fst h) \<longrightarrow> snd h1 x = snd h x"
      "e \<in> set (fst h)"
      using pop_wf[OF Suc.prems(1) False p] False by auto
    have m: "mset (fst h) = add_mset e (mset (fst h1))" using w by simp
    have sub: "set (fst h1) \<subseteq> set (fst h)" using m
      by (metis set_mset_add_mset_insert set_mset_mset subset_insertI)
    have ih: "heap_wf key h'" "es1 = take k (sort_key key (fst h1))"
      "mset es1 + mset (fst h') = mset (fst h1)" "\<forall>x. x \<notin> set (fst h1) \<longrightarrow> snd h' x = snd h1 x"
      using Suc.IH[OF w(1) _ r(1)] inj_on_subset[OF Suc.prems(2) sub] by auto
    have "sort_key key (fst h) = e # sort_key key (fst h1)"
      using Suc.prems(2) w sub m
      by (intro sorted_perm_unique[of _ _ key]) (auto simp: subset_iff)
    then have "es = take (Suc k) (sort_key key (fst h))" using ih(2) r(2) by simp
    moreover have "mset es + mset (fst h') = mset (fst h)" using ih(3) r(2) m by simp
    moreover have "\<forall>x. x \<notin> set (fst h) \<longrightarrow> snd h' x = snd h x"
      using ih(4) w(4) sub by (metis subset_iff)
    ultimately show ?thesis using ih(1) by blast
  qed
qed

lemma push_all_wf:
  "heap_wf key h \<Longrightarrow> distinct es \<Longrightarrow> set es \<inter> set (fst h) = {} \<Longrightarrow>
    heap_wf key (push_all lt es h) \<and> mset (fst (push_all lt es h)) = mset es + mset (fst h)
    \<and> (\<forall>x. x \<notin> set es \<union> set (fst h) \<longrightarrow> snd (push_all lt es h) x = snd h x)"
proof (induction es arbitrary: h)
  case Nil
  then show ?case by (simp add: push_all_def)
next
  case (Cons e es)
  have p: "heap_wf key (heap_push lt e h)" "mset (fst (heap_push lt e h)) = add_mset e (mset (fst h))"
    "\<forall>x. x \<notin> insert e (set (fst h)) \<longrightarrow> snd (heap_push lt e h) x = snd h x"
    using push_wf[of h e] Cons.prems by auto
  then have "set (fst (heap_push lt e h)) = insert e (set (fst h))"
    by (metis set_mset_add_mset_insert set_mset_mset)
  then show ?case using Cons.IH[OF p(1)] Cons.prems p by (auto simp: push_all_def)
qed

end

end
