(* ===== verification/Queue.thy ===== *)
theory Queue
  imports Job BinHeap
begin

text \<open>
  The index of the queued jobs of \<^verbatim>\<open>src/service/queue.go\<close>. The service shares jobs by
  pointer: a \<open>ptr\<close> is the address of a job in the store of the service, and an entry of
  the index is addressed by the pointer of its job (the map \<^verbatim>\<open>entries\<close> has one entry for
  each job). An entry keeps its keys and its positions \<^verbatim>\<open>pos[0]\<close> (heap of all topics) and
  \<^verbatim>\<open>pos[1]\<close> (heap of its topic). The section on correctness shows that \<open>first\<close>
  returns the queued jobs of a topic in pull order and leaves the index as it was.
\<close>

section \<open>Code\<close>

type_synonym ptr = nat
type_synonym store = "ptr \<Rightarrow> job"

record queue_entry =
  qe_priority :: int
  qe_created :: int64

record queuedJobs =
  q_entries :: "ptr set"
  q_entry :: "ptr \<Rightarrow> queue_entry"
  q_pos0 :: "ptr \<Rightarrow> nat"
  q_pos1 :: "ptr \<Rightarrow> nat"
  q_all :: "ptr list"
  q_byTopic :: "string \<Rightarrow> ptr list option"

definition compareQueueEntries :: "store \<Rightarrow> (ptr \<Rightarrow> queue_entry) \<Rightarrow> ptr \<Rightarrow> ptr \<Rightarrow> int" where
  "compareQueueEntries st ent a b =
    (if qe_priority (ent a) \<noteq> qe_priority (ent b)
     then cmp_compare (qe_priority (ent b)) (qe_priority (ent a))
     else if qe_created (ent a) \<noteq> qe_created (ent b)
     then cmp_compare (qe_created (ent a)) (qe_created (ent b))
     else cmp_compare (JobUUID (st a)) (JobUUID (st b)))"

definition queue_less :: "store \<Rightarrow> (ptr \<Rightarrow> queue_entry) \<Rightarrow> ptr \<Rightarrow> ptr \<Rightarrow> bool" where
  "queue_less st ent a b \<longleftrightarrow> compareQueueEntries st ent a b < 0"

definition newQueuedJobs :: queuedJobs where
  "newQueuedJobs = \<lparr>q_entries = {}, q_entry = (\<lambda>_. \<lparr>qe_priority = 0, qe_created = 0\<rparr>),
    q_pos0 = (\<lambda>_. 0), q_pos1 = (\<lambda>_. 0), q_all = [], q_byTopic = (\<lambda>_. None)\<rparr>"

text \<open>\<open>None\<close> is the panic of \<^verbatim>\<open>GetCreationTimestamp\<close>.\<close>

definition add :: "store \<Rightarrow> ptr \<Rightarrow> queuedJobs \<Rightarrow> queuedJobs option" where
  "add st j q =
    (if j \<in> q_entries q then Some q
     else case GetCreationTimestamp (st j) of None \<Rightarrow> None
     | Some created \<Rightarrow>
       (let ent = (q_entry q)(j := \<lparr>qe_priority = Priority (st j), qe_created = created\<rparr>);
            lt = queue_less st ent; t = Topic (st j);
            h0 = heap_push lt j (q_all q, (q_pos0 q)(j := 0));
            h = (case q_byTopic q t of None \<Rightarrow> [] | Some h \<Rightarrow> h);
            h1 = heap_push lt j (h, (q_pos1 q)(j := 0))
        in Some (q\<lparr>q_entries := insert j (q_entries q), q_entry := ent,
             q_all := fst h0, q_pos0 := snd h0,
             q_byTopic := (q_byTopic q)(t \<mapsto> fst h1), q_pos1 := snd h1\<rparr>)))"

definition remove :: "store \<Rightarrow> ptr \<Rightarrow> queuedJobs \<Rightarrow> queuedJobs" where
  "remove st j q =
    (if j \<notin> q_entries q then q
     else let lt = queue_less st (q_entry q); t = Topic (st j);
              h0 = heap_remove lt (q_pos0 q j) (q_all q, q_pos0 q);
              q1 = q\<lparr>q_entries := q_entries q - {j}, q_all := fst h0, q_pos0 := snd h0\<rparr>
     in case q_byTopic q1 t of None \<Rightarrow> q1
        | Some h \<Rightarrow>
          (let h1 = heap_remove lt (q_pos1 q1 j) (h, q_pos1 q1) in
           q1\<lparr>q_pos1 := snd h1,
              q_byTopic := (q_byTopic q1)(t := if fst h1 = [] then None else Some (fst h1))\<rparr>))"

text \<open>Pop up to \<open>n\<close> entries of a heap, then push them back in the order they came.\<close>

definition pop_push :: "(ptr \<Rightarrow> ptr \<Rightarrow> bool) \<Rightarrow> nat \<Rightarrow> ptr hstate \<Rightarrow> ptr list \<times> ptr hstate" where
  "pop_push lt n h = (let (es, h') = pop_n lt n h in (es, push_all lt es h'))"

definition first :: "store \<Rightarrow> string \<Rightarrow> uint \<Rightarrow> queuedJobs \<Rightarrow> ptr list \<times> queuedJobs" where
  "first st topic n q =
    (let lt = queue_less st (q_entry q) in
     if topic = ''*''
     then let (es, h') = pop_push lt n (q_all q, q_pos0 q)
          in (es, q\<lparr>q_all := fst h', q_pos0 := snd h'\<rparr>)
     else case q_byTopic q topic of None \<Rightarrow> ([], q)
     | Some h \<Rightarrow>
       (let (es, h') = pop_push lt n (h, q_pos1 q)
        in (es, q\<lparr>q_byTopic := (q_byTopic q)(topic \<mapsto> fst h'), q_pos1 := snd h'\<rparr>)))"

text \<open>
  \<^verbatim>\<open>compareQueueOrder\<close> of \<^verbatim>\<open>src/service/service.go\<close> compares the jobs themselves (the
  priorities are \<^verbatim>\<open>int8\<close>, their difference does not overflow).
\<close>

definition compareQueueOrder :: "job \<Rightarrow> job \<Rightarrow> int option" where
  "compareQueueOrder a b =
    (if Priority a \<noteq> Priority b then Some (Priority b - Priority a)
     else case (GetCreationTimestamp a, GetCreationTimestamp b) of
       (Some ca, Some cb) \<Rightarrow>
         if ca \<noteq> cb then Some (cmp_compare ca cb)
         else Some (cmp_compare (JobUUID a) (JobUUID b))
     | _ \<Rightarrow> None)"

section \<open>The pull order\<close>

text \<open>Highest priority first, then the oldest, then by id: the lexicographic order of a key.\<close>

type_synonym pull_key = "int \<times> int64 \<times> JobUUID"

definition pull_key :: "job \<Rightarrow> pull_key" where
  "pull_key j = (- Priority j, case GetCreationTimestamp j of None \<Rightarrow> 0 | Some t \<Rightarrow> t, JobUUID j)"

definition entry_key :: "store \<Rightarrow> (ptr \<Rightarrow> queue_entry) \<Rightarrow> ptr \<Rightarrow> pull_key" where
  "entry_key st ent p = (- qe_priority (ent p), qe_created (ent p), JobUUID (st p))"

lemma queue_less_key: "queue_less st ent a b \<longleftrightarrow> entry_key st ent a < entry_key st ent b"
  by (auto simp: queue_less_def compareQueueEntries_def entry_key_def cmp_compare_simps)

interpretation jobHeap: heap_order "queue_less st ent" "entry_key st ent" for st ent
  by unfold_locales (rule queue_less_key)

text \<open>The comparison of the jobs and the comparison of their keys agree.\<close>

lemma compareQueueOrder_key:
  "GetCreationTimestamp a \<noteq> None \<Longrightarrow> GetCreationTimestamp b \<noteq> None \<Longrightarrow>
    \<exists>c. compareQueueOrder a b = Some c \<and> (c < 0 \<longleftrightarrow> pull_key a < pull_key b)
      \<and> (c \<le> 0 \<longleftrightarrow> pull_key a \<le> pull_key b)"
  by (auto simp: compareQueueOrder_def pull_key_def cmp_compare_simps split: option.splits)

section \<open>Invariant\<close>

text \<open>
  The entries are exactly the elements of the heap of all topics; the heap of a topic
  exists when an entry has the topic, and holds the entries of the topic; the recorded
  positions are right; each entry caches the keys of its job.
\<close>

definition entry_ok :: "store \<Rightarrow> queuedJobs \<Rightarrow> ptr \<Rightarrow> bool" where
  "entry_ok st q p \<longleftrightarrow> qe_priority (q_entry q p) = Priority (st p)
    \<and> GetCreationTimestamp (st p) = Some (qe_created (q_entry q p))"

definition topic_heap :: "queuedJobs \<Rightarrow> string \<Rightarrow> ptr list" where
  "topic_heap q t = (case q_byTopic q t of None \<Rightarrow> [] | Some h \<Rightarrow> h)"

definition queue_wf :: "store \<Rightarrow> queuedJobs \<Rightarrow> bool" where
  "queue_wf st q \<longleftrightarrow>
    set (q_all q) = q_entries q
    \<and> heap_wf (entry_key st (q_entry q)) (q_all q, q_pos0 q)
    \<and> (\<forall>t. set (topic_heap q t) = {p \<in> q_entries q. Topic (st p) = t}
         \<and> heap_wf (entry_key st (q_entry q)) (topic_heap q t, q_pos1 q)
         \<and> q_byTopic q t \<noteq> Some [])
    \<and> (\<forall>p \<in> q_entries q. entry_ok st q p)
    \<and> inj_on (\<lambda>p. JobUUID (st p)) (q_entries q)"

text \<open>The jobs a pull of a topic chooses from.\<close>

definition queued_of :: "store \<Rightarrow> string \<Rightarrow> queuedJobs \<Rightarrow> ptr set" where
  "queued_of st topic q = {p \<in> q_entries q. topic = ''*'' \<or> Topic (st p) = topic}"

lemma queue_wf_new [simp]: "queue_wf st newQueuedJobs"
  by (simp add: queue_wf_def newQueuedJobs_def topic_heap_def jobHeap.heap_wf_empty)

lemma entry_key_ok: "entry_ok st q p \<Longrightarrow> entry_key st (q_entry q) p = pull_key (st p)"
  by (simp add: entry_ok_def entry_key_def pull_key_def)

lemma finite_entries: "queue_wf st q \<Longrightarrow> finite (q_entries q)"
  by (metis List.finite_set queue_wf_def)

lemma inj_pull_key: "queue_wf st q \<Longrightarrow> inj_on (\<lambda>p. pull_key (st p)) (q_entries q)"
  by (auto simp: queue_wf_def inj_on_def pull_key_def)

lemma inj_entry_key: "queue_wf st q \<Longrightarrow> inj_on (entry_key st (q_entry q)) (q_entries q)"
  by (auto simp: queue_wf_def inj_on_def entry_key_def)

text \<open>A job may change outside its keys without touching the index.\<close>

lemma queue_wf_cong:
  assumes "queue_wf st q"
    and "\<And>p. p \<in> q_entries q \<Longrightarrow> JobUUID (st' p) = JobUUID (st p) \<and> Topic (st' p) = Topic (st p)
      \<and> Priority (st' p) = Priority (st p)
      \<and> GetCreationTimestamp (st' p) = GetCreationTimestamp (st p)"
  shows "queue_wf st' q"
proof -
  have k: "entry_key st' (q_entry q) p = entry_key st (q_entry q) p" if "p \<in> q_entries q" for p
    using assms(2)[OF that] by (simp add: entry_key_def)
  have a: "heap_wf (entry_key st' (q_entry q)) (q_all q, q_pos0 q)"
    using assms(1) k by (subst heap_wf_cong[where h = "(q_all q, q_pos0 q)"])
      (auto simp: queue_wf_def)
  have t: "heap_wf (entry_key st' (q_entry q)) (topic_heap q t, q_pos1 q)" for t
    using assms(1) k by (subst heap_wf_cong[where h = "(topic_heap q t, q_pos1 q)"])
      (auto simp: queue_wf_def)
  have e: "{p \<in> q_entries q. Topic (st' p) = t} = {p \<in> q_entries q. Topic (st p) = t}" for t
    using assms(2) by auto
  have o: "\<forall>p \<in> q_entries q. entry_ok st' q p"
    using assms by (auto simp: queue_wf_def entry_ok_def)
  have i: "inj_on (\<lambda>p. JobUUID (st' p)) (q_entries q)"
    using assms by (auto simp: queue_wf_def inj_on_def)
  show ?thesis using assms(1) a t e o i by (simp add: queue_wf_def)
qed

section \<open>Correctness\<close>

lemma pop_push_spec:
  assumes "heap_wf (entry_key st ent) h" "inj_on (entry_key st ent) (set (fst h))"
    and "pop_push (queue_less st ent) n h = (es, h')"
  shows "heap_wf (entry_key st ent) h' \<and> es = take n (sort_key (entry_key st ent) (fst h))
    \<and> set (fst h') = set (fst h) \<and> (\<forall>x. x \<notin> set (fst h) \<longrightarrow> snd h' x = snd h x)"
proof -
  obtain g where p: "pop_n (queue_less st ent) n h = (es, g)"
    and h': "h' = push_all (queue_less st ent) es g"
    using assms(3) by (auto simp: pop_push_def split: prod.splits)
  have g: "heap_wf (entry_key st ent) g" "es = take n (sort_key (entry_key st ent) (fst h))"
    "mset es + mset (fst g) = mset (fst h)" "\<forall>x. x \<notin> set (fst h) \<longrightarrow> snd g x = snd h x"
    using jobHeap.pop_n_spec[OF assms(1,2) p] by auto
  have d: "distinct (es @ fst g)"
    using g(3) jobHeap.heap_wf_distinct[OF assms(1)]
    by (metis mset_append mset_eq_imp_distinct_iff)
  have s: "set (fst h) = set es \<union> set (fst g)"
    by (metis g(3) set_mset_mset set_mset_union)
  have "heap_wf (entry_key st ent) h'" "mset (fst h') = mset es + mset (fst g)"
    "\<forall>x. x \<notin> set es \<union> set (fst g) \<longrightarrow> snd h' x = snd g x"
    using jobHeap.push_all_wf[OF g(1), of es] d h' by auto
  moreover from this(2) have "set (fst h') = set (fst h)"
    using g(3) by (metis set_mset_mset)
  ultimately show ?thesis using g s by auto
qed

text \<open>The queued jobs of a topic in pull order, as a specification.\<close>

definition pull_order :: "store \<Rightarrow> string \<Rightarrow> queuedJobs \<Rightarrow> ptr list" where
  "pull_order st topic q = sort_key (\<lambda>p. pull_key (st p)) (sorted_list_of_set (queued_of st topic q))"

lemma queued_of_subset: "queued_of st topic q \<subseteq> q_entries q"
  by (auto simp: queued_of_def)

lemma set_pull_order: "queue_wf st q \<Longrightarrow> set (pull_order st topic q) = queued_of st topic q"
  using finite_subset[OF queued_of_subset finite_entries] by (simp add: pull_order_def)

lemma distinct_pull_order: "distinct (pull_order st topic q)"
  by (simp add: pull_order_def)

lemma sort_entries_pull_order:
  assumes w: "queue_wf st q" and d: "distinct xs" and s: "set xs = queued_of st topic q"
  shows "sort_key (entry_key st (q_entry q)) xs = pull_order st topic q"
proof -
  let ?k = "entry_key st (q_entry q)"
  have k: "?k p = pull_key (st p)" if "p \<in> q_entries q" for p
    using w that by (auto simp: queue_wf_def intro: entry_key_ok)
  have sub: "set xs \<subseteq> q_entries q" using s queued_of_subset by blast
  have "sorted (map (\<lambda>p. pull_key (st p)) (pull_order st topic q))"
    by (simp add: pull_order_def)
  moreover have "map (\<lambda>p. pull_key (st p)) (pull_order st topic q) = map ?k (pull_order st topic q)"
    using k set_pull_order[OF w, of topic] sub s by (intro map_cong) auto
  ultimately have so: "sorted (map ?k (pull_order st topic q))" by simp
  have m: "mset (sort_key ?k xs) = mset (pull_order st topic q)"
    using d s set_pull_order[OF w, of topic] distinct_pull_order[of st topic q]
      set_eq_iff_mset_eq_distinct[of xs "pull_order st topic q"] by simp
  have "inj_on ?k (set (sort_key ?k xs))" using inj_on_subset[OF inj_entry_key[OF w] sub] by simp
  then show ?thesis using sorted_perm_unique[OF m _ so] by simp
qed

lemma first_spec:
  assumes w: "queue_wf st q" and r: "first st topic n q = (es, q')"
  shows "queue_wf st q'" "q_entries q' = q_entries q" "es = take n (pull_order st topic q)"
proof -
  let ?k = "entry_key st (q_entry q)"
  have hs: "heap_wf ?k (q_all q, q_pos0 q)" "set (q_all q) = q_entries q"
    "\<And>t. heap_wf ?k (topic_heap q t, q_pos1 q)"
    "\<And>t. set (topic_heap q t) = {p \<in> q_entries q. Topic (st p) = t}"
    using w by (auto simp: queue_wf_def)
  note fw = jobHeap.heap_wf_distinct
  have "queue_wf st q' \<and> q_entries q' = q_entries q \<and> es = take n (pull_order st topic q)"
  proof (cases "topic = ''*''")
    case True
    obtain h' where p: "pop_push (queue_less st (q_entry q)) n (q_all q, q_pos0 q) = (es, h')"
      and q': "q' = q\<lparr>q_all := fst h', q_pos0 := snd h'\<rparr>"
      using r True by (auto simp: first_def Let_def split: prod.splits)
    note s = pop_push_spec[OF hs(1) _ p] 
    have "heap_wf ?k h'" "es = take n (sort_key ?k (q_all q))" "set (fst h') = q_entries q"
      using s inj_entry_key[OF w] hs(2) by auto
    moreover have "set (q_all q) = queued_of st topic q" using True hs(2) by (simp add: queued_of_def)
    ultimately have 1: "es = take n (pull_order st topic q)"
      using sort_entries_pull_order[OF w, of "q_all q" topic] fw[OF hs(1)] by simp
    have "queue_wf st q'" using w q' \<open>heap_wf ?k h'\<close> \<open>set (fst h') = q_entries q\<close>
      by (simp add: queue_wf_def topic_heap_def entry_ok_def)
    then show ?thesis using 1 q' by simp
  next
    case False
    show ?thesis
    proof (cases "q_byTopic q topic")
      case None
      have "queued_of st topic q = {}" using hs(4)[of topic] None False
        by (auto simp: topic_heap_def queued_of_def)
      then show ?thesis using r None False w by (simp add: first_def pull_order_def)
    next
      case (Some h)
      have th: "topic_heap q topic = h" using Some by (simp add: topic_heap_def)
      obtain h' where p: "pop_push (queue_less st (q_entry q)) n (h, q_pos1 q) = (es, h')"
        and q': "q' = q\<lparr>q_byTopic := (q_byTopic q)(topic \<mapsto> fst h'), q_pos1 := snd h'\<rparr>"
        using r False Some by (auto simp: first_def Let_def split: prod.splits)
      have i: "inj_on ?k (set h)"
        using inj_on_subset[OF inj_entry_key[OF w]] hs(4)[of topic] th by auto
      note s = pop_push_spec[OF hs(3)[of topic, unfolded th] _ p]
      have a: "heap_wf ?k h'" "es = take n (sort_key ?k h)" "set (fst h') = set h"
        "\<forall>x. x \<notin> set h \<longrightarrow> snd h' x = q_pos1 q x"
        using s i by auto
      have "set h = queued_of st topic q" using hs(4)[of topic] th False
        by (auto simp: queued_of_def)
      then have 1: "es = take n (pull_order st topic q)"
        using sort_entries_pull_order[OF w, of h topic] fw[OF hs(3)[of topic]] th a(2) by simp
      have ne: "h \<noteq> []" using w Some by (auto simp: queue_wf_def)
      have t: "set (topic_heap q' t) = {p \<in> q_entries q. Topic (st p) = t}
          \<and> heap_wf ?k (topic_heap q' t, q_pos1 q') \<and> q_byTopic q' t \<noteq> Some []" for t
      proof (cases "t = topic")
        case True
        have "topic_heap q' t = fst h'" "fst h' \<noteq> []"
          using True q' a(3) ne by (auto simp: topic_heap_def)
        moreover have "set (fst h') = {p \<in> q_entries q. Topic (st p) = t}"
          using a(3) hs(4)[of topic] th True by simp
        ultimately show ?thesis using a(1) q' True by simp
      next
        case nt: False
        then have e: "topic_heap q' t = topic_heap q t" using q' by (simp add: topic_heap_def)
        have "heap_wf ?k (topic_heap q t, q_pos1 q') = heap_wf ?k (topic_heap q t, q_pos1 q)"
          using a(4) q' nt hs(4)[of t] hs(4)[of topic] th by (intro heap_wf_cong) auto
        then show ?thesis using e hs(3,4) w nt q' by (simp add: queue_wf_def)
      qed
      have "queue_wf st q'" using w t q' by (simp add: queue_wf_def entry_ok_def)
      then show ?thesis using 1 q' by simp
    qed
  qed
  then show "queue_wf st q'" "q_entries q' = q_entries q" "es = take n (pull_order st topic q)"
    by simp_all
qed

lemma heap_wf_outside:
  assumes "heap_wf k (xs, p)" "\<And>x. x \<in> set xs \<Longrightarrow> k' x = k x" "\<And>x. x \<in> set xs \<Longrightarrow> p' x = p x"
  shows "heap_wf k' (xs, p')"
  using heap_wf_cong[of "(xs, p)" k' k "(xs, p')"] assms by simp

lemma heap_push_spec:
  assumes h: "heap_wf k (xs, p)" and e: "e \<notin> set xs" and k: "\<And>x. x \<in> set xs \<Longrightarrow> entry_key st ent x = k x"
    and g: "heap_push (queue_less st ent) e (xs, p(e := 0)) = g"
  shows "heap_wf (entry_key st ent) g \<and> set (fst g) = insert e (set xs)
    \<and> (\<forall>x. x \<notin> insert e (set xs) \<longrightarrow> snd g x = p x)"
proof -
  have "heap_wf (entry_key st ent) (xs, p(e := 0))"
    using e by (intro heap_wf_outside[OF h k]) auto
  from jobHeap.push_wf[OF this, of e] e g
  have "heap_wf (entry_key st ent) g" "mset (fst g) = add_mset e (mset xs)"
    "\<forall>x. x \<notin> insert e (set xs) \<longrightarrow> snd g x = p x" by auto
  then show ?thesis by (metis set_mset_add_mset_insert set_mset_mset)
qed

lemma heap_remove_spec:
  assumes h: "heap_wf (entry_key st ent) (xs, p)" and e: "e \<in> set xs"
    and g: "heap_remove (queue_less st ent) (p e) (xs, p) = g"
  shows "heap_wf (entry_key st ent) g \<and> set (fst g) = set xs - {e}
    \<and> (\<forall>x. x \<notin> set xs \<longrightarrow> snd g x = p x)"
proof -
  have i: "p e < length xs" "xs ! p e = e"
    using jobHeap.heap_wf_pos[OF h, of e] e by auto
  have "heap_wf (entry_key st ent) g" "mset (fst g) = mset xs - {# e #}"
    "\<forall>x. x \<notin> set xs \<longrightarrow> snd g x = p x"
    using jobHeap.remove_wf[OF h, of "p e"] i g by auto
  moreover have "set (fst g) = set xs - {e}"
  proof -
    have "mset (fst g) = mset (remove1 e xs)" using calculation(2) by simp
    then have "set (fst g) = set (remove1 e xs)" by (rule mset_eq_setD)
    then show ?thesis using jobHeap.heap_wf_distinct[OF h] by simp
  qed
  ultimately show ?thesis by blast
qed

lemma add_spec:
  assumes w: "queue_wf st q" and c: "GetCreationTimestamp (st j) \<noteq> None"
    and u: "\<And>p. p \<in> q_entries q \<Longrightarrow> JobUUID (st p) = JobUUID (st j) \<Longrightarrow> p = j"
  shows "\<exists>q'. add st j q = Some q' \<and> queue_wf st q' \<and> q_entries q' = insert j (q_entries q)"
proof (cases "j \<in> q_entries q")
  case True
  then show ?thesis using w by (auto simp: add_def)
next
  case False
  obtain created where cr: "GetCreationTimestamp (st j) = Some created" using c by auto
  define ent where "ent = (q_entry q)(j := \<lparr>qe_priority = Priority (st j), qe_created = created\<rparr>)"
  define lt where "lt = queue_less st ent"
  define t where "t = Topic (st j)"
  let ?k = "entry_key st ent"
  define h0 where "h0 = heap_push lt j (q_all q, (q_pos0 q)(j := 0))"
  define h1 where "h1 = heap_push lt j (topic_heap q t, (q_pos1 q)(j := 0))"
  define q' where "q' = q\<lparr>q_entries := insert j (q_entries q), q_entry := ent,
     q_all := fst h0, q_pos0 := snd h0,
     q_byTopic := (q_byTopic q)(t \<mapsto> fst h1), q_pos1 := snd h1\<rparr>"
  have a: "add st j q = Some q'"
    using False cr
    by (simp add: add_def q'_def h0_def h1_def ent_def lt_def t_def topic_heap_def Let_def)
  have hs: "heap_wf (entry_key st (q_entry q)) (q_all q, q_pos0 q)" "set (q_all q) = q_entries q"
    "\<And>t. heap_wf (entry_key st (q_entry q)) (topic_heap q t, q_pos1 q)"
    "\<And>t. set (topic_heap q t) = {p \<in> q_entries q. Topic (st p) = t}"
    using w by (auto simp: queue_wf_def)
  have k: "?k x = entry_key st (q_entry q) x" if "x \<in> q_entries q" for x
    using that False by (auto simp: ent_def entry_key_def)
  have n: "j \<notin> set (topic_heap q t)" for t using hs(4) False by simp
  have s0: "heap_wf ?k h0" "set (fst h0) = insert j (q_entries q)"
    using heap_push_spec[OF hs(1), of j st ent h0] False hs(2) k by (auto simp: h0_def lt_def)
  have s1: "heap_wf ?k h1" "set (fst h1) = insert j (set (topic_heap q t))"
    "\<forall>x. x \<notin> insert j (set (topic_heap q t)) \<longrightarrow> snd h1 x = q_pos1 q x"
    using heap_push_spec[OF hs(3)[of t], of j st ent h1] n k hs(4) by (auto simp: h1_def lt_def)
  have T: "set (topic_heap q' t') = {p \<in> insert j (q_entries q). Topic (st p) = t'}
      \<and> heap_wf ?k (topic_heap q' t', snd h1) \<and> q_byTopic q' t' \<noteq> Some []" for t'
  proof (cases "t' = t")
    case True
    then show ?thesis using s1 hs(4)[of t] by (auto simp: q'_def topic_heap_def t_def)
  next
    case nt: False
    have "snd h1 x = q_pos1 q x" if "x \<in> set (topic_heap q t')" for x
      using that s1(3) hs(4)[of t'] hs(4)[of t] nt False by auto
    then have "heap_wf ?k (topic_heap q t', snd h1)"
      using hs(4)[of t'] k by (intro heap_wf_outside[OF hs(3)]) auto
    then show ?thesis using nt w hs(4)[of t'] by (auto simp: q'_def topic_heap_def t_def queue_wf_def)
  qed
  have "\<forall>p \<in> insert j (q_entries q). entry_ok st q' p"
    using w cr by (auto simp: queue_wf_def entry_ok_def q'_def ent_def)
  moreover have "inj_on (\<lambda>p. JobUUID (st p)) (insert j (q_entries q))"
    using w u by (fastforce simp: queue_wf_def inj_on_def)
  ultimately have "queue_wf st q'" using s0 T by (simp add: queue_wf_def q'_def)
  then show ?thesis using a by (simp add: q'_def)
qed

lemma remove_spec:
  assumes w: "queue_wf st q"
  shows "queue_wf st (remove st j q)" "q_entries (remove st j q) = q_entries q - {j}"
proof -
  have "queue_wf st (remove st j q) \<and> q_entries (remove st j q) = q_entries q - {j}"
  proof (cases "j \<in> q_entries q")
    case False
    then show ?thesis using w by (simp add: remove_def)
  next
    case True
    define t where "t = Topic (st j)"
    let ?k = "entry_key st (q_entry q)"
    have hs: "heap_wf ?k (q_all q, q_pos0 q)" "set (q_all q) = q_entries q"
      "\<And>t. heap_wf ?k (topic_heap q t, q_pos1 q)"
      "\<And>t. set (topic_heap q t) = {p \<in> q_entries q. Topic (st p) = t}"
      using w by (auto simp: queue_wf_def)
    define h0 where "h0 = heap_remove (queue_less st (q_entry q)) (q_pos0 q j) (q_all q, q_pos0 q)"
    define h1 where
      "h1 = heap_remove (queue_less st (q_entry q)) (q_pos1 q j) (topic_heap q t, q_pos1 q)"
    have jt: "j \<in> set (topic_heap q t)" using True hs(4) by (simp add: t_def)
    then obtain h where h: "q_byTopic q t = Some h" "topic_heap q t = h"
      by (cases "q_byTopic q t") (auto simp: topic_heap_def)
    define q' where "q' = q\<lparr>q_entries := q_entries q - {j}, q_all := fst h0, q_pos0 := snd h0,
      q_pos1 := snd h1, q_byTopic := (q_byTopic q)(t := if fst h1 = [] then None else Some (fst h1))\<rparr>"
    have r: "remove st j q = q'"
      using True h by (simp add: remove_def q'_def h0_def h1_def t_def Let_def)
    have s0: "heap_wf ?k h0" "set (fst h0) = q_entries q - {j}"
      using heap_remove_spec[OF hs(1), of j h0] True hs(2) by (auto simp: h0_def)
    have s1: "heap_wf ?k h1" "set (fst h1) = set (topic_heap q t) - {j}"
      "\<forall>x. x \<notin> set (topic_heap q t) \<longrightarrow> snd h1 x = q_pos1 q x"
      using heap_remove_spec[OF hs(3) jt, of h1] by (auto simp: h1_def)
    have T: "set (topic_heap q' t') = {p \<in> q_entries q - {j}. Topic (st p) = t'}
        \<and> heap_wf ?k (topic_heap q' t', snd h1) \<and> q_byTopic q' t' \<noteq> Some []" for t'
    proof (cases "t' = t")
      case True
      then show ?thesis using s1 hs(4)[of t] jobHeap.heap_wf_empty[of st "q_entry q"]
        by (auto simp: q'_def topic_heap_def)
    next
      case nt: False
      have "snd h1 x = q_pos1 q x" if "x \<in> set (topic_heap q t')" for x
        using that s1(3) hs(4)[of t'] hs(4)[of t] nt by auto
      then have "heap_wf ?k (topic_heap q t', snd h1)"
        by (intro heap_wf_outside[OF hs(3)]) auto
      then show ?thesis using nt w hs(4)[of t']
        by (auto simp: q'_def topic_heap_def t_def queue_wf_def)
    qed
    have "inj_on (\<lambda>p. JobUUID (st p)) (q_entries q - {j})"
      using w by (auto simp: queue_wf_def intro: inj_on_subset)
    then have "queue_wf st q'" using s0 T w by (simp add: queue_wf_def q'_def entry_ok_def)
    then show ?thesis using r by (simp add: q'_def)
  qed
  then show "queue_wf st (remove st j q)" "q_entries (remove st j q) = q_entries q - {j}"
    by simp_all
qed

end
