(* ===== verification/Resources.thy ===== *)
theory Resources
  imports Job
begin

text \<open>
  The resource locks of \<^verbatim>\<open>src/service/resourcesmanager.go\<close>: a map from the name of a
  locked resource to the id of the job that holds it. \<^verbatim>\<open>resource_locks\<close> is the contract the
  service relies on; it is interpreted on the code at the end.
\<close>

section \<open>Code\<close>

type_synonym LockedResources = "(string, JobUUID) gomap"

text \<open>
  The jobs of the service are a map from ids to jobs; \<^verbatim>\<open>sortedJobIDs\<close> lists its keys in
  increasing order (\<^verbatim>\<open>bytes.Compare\<close> is a total order, so the sorted list is unique).
\<close>

definition sortedJobIDs :: "(JobUUID, 'v) gomap \<Rightarrow> JobUUID list" where
  "sortedJobIDs jobs = sort_func cmp_compare (map fst jobs)"

text \<open>The copy is a fresh map with the same entries.\<close>

definition GetLockedResources :: "LockedResources \<Rightarrow> LockedResources" where
  "GetLockedResources m = foldl (\<lambda>copy (key, v). AList.update key v copy) [] m"

definition UnlockAllResources :: "LockedResources \<Rightarrow> LockedResources" where
  "UnlockAllResources m = []"

definition UnlockResource :: "string \<Rightarrow> LockedResources \<Rightarrow> string option \<times> LockedResources" where
  "UnlockResource resourceName m =
    (case map_of m resourceName of
      None \<Rightarrow> (Some (''resource not found: '' @ resourceName), m)
    | Some _ \<Rightarrow> (None, AList.delete resourceName m))"

text \<open>The jobs are read through \<open>get\<close>, by id.\<close>

definition LockResourcesForJobs ::
    "(JobUUID \<Rightarrow> job) \<Rightarrow> (JobUUID, 'v) gomap \<Rightarrow> LockedResources" where
  "LockResourcesForJobs get jobs =
    foldl (\<lambda>m i. let j = get i in
        if state j \<in> {JobQueued, JobRunning}
        then foldl (\<lambda>m r. AList.update r (JobUUID j) m) m (LockResources j) else m)
      [] (sortedJobIDs jobs)"

fun first_unavailable :: "LockedResources \<Rightarrow> JobUUID \<Rightarrow> string list \<Rightarrow> string option" where
  "first_unavailable m u [] = None"
| "first_unavailable m u (r # rs) =
    (case map_of m r of
      Some owner \<Rightarrow> if owner \<noteq> u then Some r else first_unavailable m u rs
    | None \<Rightarrow> first_unavailable m u rs)"

fun acquire_all :: "JobUUID \<Rightarrow> string list \<Rightarrow> nat \<times> LockedResources \<Rightarrow> nat \<times> LockedResources" where
  "acquire_all u [] s = s"
| "acquire_all u (r # rs) (acquired, m) =
    acquire_all u rs (case map_of m r of
      None \<Rightarrow> (acquired + 1, AList.update r u m) | Some _ \<Rightarrow> (acquired, m))"

definition lockResources :: "job \<Rightarrow> LockedResources \<Rightarrow> (string + nat) \<times> LockedResources" where
  "lockResources j m =
    (case first_unavailable m (JobUUID j) (LockResources j) of
      Some r \<Rightarrow> (Inl (''resource not available: '' @ r), m)
    | None \<Rightarrow> (let (acquired, m') = acquire_all (JobUUID j) (LockResources j) (0, m)
              in (Inr acquired, m')))"

fun release_all :: "JobUUID \<Rightarrow> string list \<Rightarrow> string list \<times> LockedResources
    \<Rightarrow> string list \<times> LockedResources" where
  "release_all u [] s = s"
| "release_all u (r # rs) (released, m) =
    release_all u rs (if map_of m r = Some u then (released @ [r], AList.delete r m)
                      else (released, m))"

definition UnlockResources :: "job \<Rightarrow> LockedResources \<Rightarrow> string list \<times> LockedResources" where
  "UnlockResources j m = release_all (JobUUID j) (LockResources j) ([], m)"

definition requiresLockedResources :: "LockedResources \<Rightarrow> job \<Rightarrow> bool" where
  "requiresLockedResources m j \<longleftrightarrow>
    list_ex (\<lambda>r. case map_of m r of Some owner \<Rightarrow> owner \<noteq> JobUUID j | None \<Rightarrow> False)
      (LockResources j)"

section \<open>Lemmas\<close>

lemma sortedJobIDs_sort: "sortedJobIDs m = sort (map fst m)"
  unfolding sortedJobIDs_def
  by (rule sort_func_eq_sort_key) (simp add: cmp_compare_simps)

lemma set_sortedJobIDs [simp]: "set (sortedJobIDs m) = dom (map_of m)"
  by (simp add: sortedJobIDs_def dom_map_of_conv_image_fst)

lemma distinct_sortedJobIDs [simp]: "distinct (sortedJobIDs m) = wf_map m"
  by (simp add: sortedJobIDs_def)

lemma sorted_sortedJobIDs [simp]: "sorted (sortedJobIDs m)"
  by (simp add: sortedJobIDs_sort)

lemma copy_map_of:
  "map_of (foldl (\<lambda>copy (key, v). AList.update key v copy) c m) =
    (\<lambda>k. case map_of (rev m) k of None \<Rightarrow> map_of c k | Some v \<Rightarrow> Some v)"
  by (induction m arbitrary: c) (auto simp: fun_eq_iff map_add_def split: option.splits prod.splits)

lemma GetLockedResources_map_of:
  assumes "wf_map m"
  shows "map_of (GetLockedResources m) = map_of m"
proof -
  have "map_of (rev m) = map_of m"
    using assms by (subst map_of_inject_set) (simp_all flip: rev_map)
  then show ?thesis by (auto simp: GetLockedResources_def copy_map_of split: option.splits)
qed

lemma first_unavailable_None:
  "first_unavailable m u rs = None \<longleftrightarrow> (\<forall>r \<in> set rs. map_of m r = None \<or> map_of m r = Some u)"
  by (induction rs) (auto split: option.splits)

lemma length_update_new: "map_of m r = None \<Longrightarrow> length (AList.update r u m) = Suc (length m)"
  by (simp add: length_update_alist fst_set_dom domIff)

lemma length_delete_old:
  assumes "map_of m r = Some u" "wf_map m"
  shows "length m = Suc (length (AList.delete r m))"
  using assms by (induction m) (auto simp: delete_idem fst_set_dom split: if_splits)

lemma acquire_all_spec:
  "acquire_all u rs (a, m) = (a', m') \<Longrightarrow>
    map_of m' = (\<lambda>r. if r \<in> set rs \<and> map_of m r = None then Some u else map_of m r)
    \<and> (wf_map m \<longrightarrow> wf_map m' \<and> length m' + a = length m + a')"
proof (induction rs arbitrary: a m)
  case (Cons r rs)
  show ?case
  proof (cases "map_of m r")
    case None
    then have "acquire_all u rs (a + 1, AList.update r u m) = (a', m')" using Cons.prems by simp
    from Cons.IH[OF this] None show ?thesis by (auto simp: fun_eq_iff length_update_new)
  next
    case (Some v)
    then have "acquire_all u rs (a, m) = (a', m')" using Cons.prems by simp
    from Cons.IH[OF this] Some show ?thesis by (auto simp: fun_eq_iff)
  qed
qed simp

lemma release_all_spec:
  "release_all u rs (d, m) = (d', m') \<Longrightarrow>
    map_of m' = (\<lambda>r. if r \<in> set rs \<and> map_of m r = Some u then None else map_of m r)
    \<and> (wf_map m \<longrightarrow> wf_map m' \<and> length m' + length d' = length m + length d)
    \<and> set d' = set d \<union> {r \<in> set rs. map_of m r = Some u}"
proof (induction rs arbitrary: d m)
  case (Cons r rs)
  show ?case
  proof (cases "map_of m r = Some u")
    case True
    then have "release_all u rs (d @ [r], AList.delete r m) = (d', m')" using Cons.prems by simp
    from Cons.IH[OF this] True show ?thesis
      by (auto simp: fun_eq_iff length_delete_old)
  next
    case False
    then have "release_all u rs (d, m) = (d', m')" using Cons.prems by simp
    from Cons.IH[OF this] False show ?thesis by (auto simp: fun_eq_iff)
  qed
qed simp

lemma release_all_distinct:
  "release_all u rs (d, m) = (d', m') \<Longrightarrow> distinct d \<Longrightarrow> \<forall>r \<in> set d. map_of m r = None \<Longrightarrow>
    distinct d'"
proof (induction rs arbitrary: d m)
  case (Cons r rs)
  show ?case
  proof (cases "map_of m r = Some u")
    case True
    then have "r \<notin> set d" using Cons.prems(3) by auto
    then show ?thesis using True Cons.prems
      by (intro Cons.IH[of "d @ [r]" "AList.delete r m"]) auto
  next
    case False
    then show ?thesis using Cons.prems by (intro Cons.IH[of d m]) auto
  qed
qed simp

text \<open>The contract: locking is all or nothing, and takes only free resources; unlocking
  releases only what the job holds.\<close>

locale resource_locks =
  fixes owner :: "'m \<Rightarrow> 'r \<Rightarrow> 'u option"
    and lock :: "'u \<Rightarrow> 'r list \<Rightarrow> 'm \<Rightarrow> 'm option"
    and unlock :: "'u \<Rightarrow> 'r list \<Rightarrow> 'm \<Rightarrow> 'm"
  assumes lock_iff: "lock u rs m = None \<longleftrightarrow> (\<exists>r \<in> set rs. owner m r \<notin> {None, Some u})"
    and lock_owner: "lock u rs m = Some m' \<Longrightarrow>
      owner m' r = (if r \<in> set rs then Some u else owner m r)"
    and unlock_owner: "owner (unlock u rs m) r =
      (if r \<in> set rs \<and> owner m r = Some u then None else owner m r)"
begin

text \<open>No lock is stolen, and a second claimant waits until the holder unlocks.\<close>

lemma lock_keeps: "lock u rs m = Some m' \<Longrightarrow> owner m r = Some v \<Longrightarrow> owner m' r = Some v"
  using lock_iff[of u rs m] by (auto simp: lock_owner)

lemma lock_excludes:
  "lock u rs m = Some m' \<Longrightarrow> r \<in> set rs \<Longrightarrow> r \<in> set rs' \<Longrightarrow> v \<noteq> u \<Longrightarrow> lock v rs' m' = None"
  by (auto simp: lock_iff lock_owner)

lemma unlock_other: "v \<noteq> u \<Longrightarrow> owner m r = Some v \<Longrightarrow> owner (unlock u rs m) r = Some v"
  by (simp add: unlock_owner)

lemma unlock_lets_lock:
  "lock u rs m = Some m' \<Longrightarrow> \<forall>r \<in> set rs'. owner m r \<in> {None, Some v} \<or> r \<in> set rs \<Longrightarrow>
    lock v rs' (unlock u rs m') \<noteq> None"
  by (auto simp: lock_iff lock_owner unlock_owner)

end

text \<open>The code's manager, on a job with the given id and resources.\<close>

definition lock_of :: "JobUUID \<Rightarrow> string list \<Rightarrow> LockedResources \<Rightarrow> LockedResources option" where
  "lock_of u rs m = (if first_unavailable m u rs = None then Some (snd (acquire_all u rs (0, m))) else None)"

definition unlock_of :: "JobUUID \<Rightarrow> string list \<Rightarrow> LockedResources \<Rightarrow> LockedResources" where
  "unlock_of u rs m = snd (release_all u rs ([], m))"

lemma acquire_all_owner: "map_of (snd (acquire_all u rs (a, m))) =
    (\<lambda>r. if r \<in> set rs \<and> map_of m r = None then Some u else map_of m r)"
  using acquire_all_spec[of u rs a m] by (cases "acquire_all u rs (a, m)") auto

lemma release_all_owner: "map_of (snd (release_all u rs (d, m))) =
    (\<lambda>r. if r \<in> set rs \<and> map_of m r = Some u then None else map_of m r)"
  using release_all_spec[of u rs d m] by (cases "release_all u rs (d, m)") auto

interpretation locks: resource_locks map_of lock_of unlock_of
proof unfold_locales
  show "lock_of u rs m = None \<longleftrightarrow> (\<exists>r \<in> set rs. map_of m r \<notin> {None, Some u})" for u rs m
    using first_unavailable_None[of m u rs] by (auto simp: lock_of_def)
  show "map_of m' r = (if r \<in> set rs then Some u else map_of m r)"
    if "lock_of u rs m = Some m'" for u rs m m' r
    using that first_unavailable_None[of m u rs]
    by (auto simp: lock_of_def acquire_all_owner split: if_splits)
  show "map_of (unlock_of u rs m) r =
      (if r \<in> set rs \<and> map_of m r = Some u then None else map_of m r)" for u rs m r
    by (simp add: unlock_of_def release_all_owner)
qed

lemma lockResources_lock_of:
  "lockResources j m = (case lock_of (JobUUID j) (LockResources j) m of
     None \<Rightarrow> (Inl (''resource not available: '' @
        the (first_unavailable m (JobUUID j) (LockResources j))), m)
   | Some m' \<Rightarrow> (Inr (fst (acquire_all (JobUUID j) (LockResources j) (0, m))), m'))"
  by (auto simp: lockResources_def lock_of_def split: option.splits prod.splits)

lemma UnlockResources_unlock_of:
  "snd (UnlockResources j m) = unlock_of (JobUUID j) (LockResources j) m"
  by (simp add: UnlockResources_def unlock_of_def)

lemma requiresLockedResources_iff:
  "requiresLockedResources m j \<longleftrightarrow> lock_of (JobUUID j) (LockResources j) m = None"
  using locks.lock_iff[of "JobUUID j" "LockResources j" m]
  by (auto simp: requiresLockedResources_def list_ex_iff split: option.splits)

end
