(* ===== verification/RetryPolicy.thy ===== *)
theory RetryPolicy
  imports Prelude
begin

text \<open>
  The backoff strategy of \<^verbatim>\<open>src/retrypolicy/backoff.go\<close> and \<^verbatim>\<open>retrypolicy.go\<close>. A
  \<^verbatim>\<open>time.Duration\<close> is an \<open>int64\<close> of nanoseconds. The exponential strategy computes in
  \<^verbatim>\<open>float64\<close>; the argument \<open>exp_ms\<close> stands for its floating point expression converted to
  an \<^verbatim>\<open>int64\<close> of milliseconds (base, factor, maximum, failures).
\<close>

datatype BackoffStrategyType = Constant | Linear | Exponential | OtherStrategy int

record BackoffStrategy =
  bs_Type :: BackoffStrategyType
  bs_Base :: uint
  bs_Factor :: real
  bs_MaxDuration :: uint

record RetryPolicy =
  rp_MaxRetry :: uint
  rp_BackoffStrategy :: BackoffStrategy

type_synonym exp_ms = "uint \<Rightarrow> real \<Rightarrow> uint \<Rightarrow> uint \<Rightarrow> int64"

definition Millisecond :: int64 where "Millisecond = 1000000"

definition ComputeDelay :: "exp_ms \<Rightarrow> BackoffStrategy \<Rightarrow> uint \<Rightarrow> int64" where
  "ComputeDelay exp_ms bs countFailures =
    (case bs_Type bs of
      Constant \<Rightarrow> i64 (i64 (int (bs_Base bs)) * Millisecond)
    | Linear \<Rightarrow> i64 (i64 (int (min (bs_MaxDuration bs) (u64 (countFailures * bs_Base bs)))) * Millisecond)
    | Exponential \<Rightarrow> i64 (exp_ms (bs_Base bs) (bs_Factor bs) (bs_MaxDuration bs) countFailures * Millisecond)
    | OtherStrategy _ \<Rightarrow> i64 (0 * Millisecond))"

text \<open>\<^verbatim>\<open>Duration.Milliseconds\<close>\<close>

definition Milliseconds :: "int64 \<Rightarrow> int64" where
  "Milliseconds d = go_div d Millisecond"

section \<open>Lemmas\<close>

text \<open>Durations of at most 106,751 days are exact.\<close>

definition max_exact_ms :: nat where "max_exact_ms = 9223372036854"

lemma exact_ms:
  assumes "ms \<le> max_exact_ms"
  shows "Milliseconds (i64 (i64 (int ms) * Millisecond)) = int ms"
proof -
  have r: "in_i64 (int ms)" "in_i64 (int ms * Millisecond)"
    using assms by (simp_all add: in_i64_def max_exact_ms_def Millisecond_def)
  have "go_div (int ms * 1000000) 1000000 = int ms"
    by (subst go_div_pos) simp_all
  then show ?thesis using r by (simp add: Milliseconds_def Millisecond_def)
qed

end
