(* ===== verification/Events.thy ===== *)
theory Events
  imports Job
begin

text \<open>
  The service events of \<^verbatim>\<open>src/event\<close>: the event types, and the notifier that calls each
  registered observer in order. A \<open>notif\<close> is one call the service makes to the outside:
  a notification of the observers (with the job as it is at the call), or a direct call
  of the metrics or of the backend provider. The service appends its notifications to a trace; each
  observer is a state replaying it (\<open>notifier_replay\<close>).
\<close>

section \<open>Event types\<close>

datatype ServiceEventType =
    ServiceEventJobCreated | ServiceEventJobDelayed | ServiceEventJobPending
  | ServiceEventJobEnqueued | ServiceEventJobStarted | ServiceEventJobSucceeded
  | ServiceEventJobCanceled | ServiceEventJobFailed | ServiceEventJobHidden
  | ServiceEventJobDeleted | ServiceEventJobTimeout | ServiceEventJobTerminated
  | ServiceEventJobLoaded | ServiceEventJobDeletedAll | ServiceEventJobUnlockedAllResources
  | ServiceEventJobHealthcheck | ServiceEventJobMetrics | ServiceEventEmptyPollReceived
  | ServiceEventReady | ServiceEventShutdown

fun event_name :: "ServiceEventType \<Rightarrow> string" where
  "event_name ServiceEventJobCreated = ''Created''"
| "event_name ServiceEventJobDelayed = ''Delayed''"
| "event_name ServiceEventJobPending = ''Pending''"
| "event_name ServiceEventJobEnqueued = ''Enqueued''"
| "event_name ServiceEventJobStarted = ''Started''"
| "event_name ServiceEventJobSucceeded = ''Succeeded''"
| "event_name ServiceEventJobCanceled = ''Canceled''"
| "event_name ServiceEventJobFailed = ''Failed''"
| "event_name ServiceEventJobHidden = ''Hidden''"
| "event_name ServiceEventJobDeleted = ''Deleted''"
| "event_name ServiceEventJobTimeout = ''Timeout''"
| "event_name ServiceEventJobTerminated = ''Terminated''"
| "event_name ServiceEventJobLoaded = ''Loaded''"
| "event_name ServiceEventJobDeletedAll = ''DeletedAll''"
| "event_name ServiceEventJobUnlockedAllResources = ''UnlockedAllResources''"
| "event_name ServiceEventJobHealthcheck = ''Healthcheck''"
| "event_name ServiceEventJobMetrics = ''Metrics''"
| "event_name ServiceEventReady = ''Ready''"
| "event_name ServiceEventShutdown = ''Shutdown''"
| "event_name ServiceEventEmptyPollReceived = ''EmptyPollReceived''"

lemma event_name_inj: "event_name a = event_name b \<Longrightarrow> a = b"
  by (cases a; cases b; simp)

section \<open>The calls of the service\<close>

datatype notif =
    NJob job ServiceEventType
  | NEvent ServiceEventType
  | NTopic ServiceEventType string
  | NLockedCount string int
  | NMetricsUnlockAll
  | NMetricsResourceUnlocked string string
  | NBackendResourceUnlocked job string
  | NBackendAllResourcesUnlocked
  | NBackendJobUpdated job
  | NRestoreFlag bool
  | NJobStatistics "job list"
  | NWake

section \<open>Observers and notifier\<close>

record 's observer =
  ob_Init :: "'s \<Rightarrow> string option \<times> 's"
  ob_Shutdown :: "'s \<Rightarrow> 's"
  ob_NotifyEvent :: "ServiceEventType \<Rightarrow> 's \<Rightarrow> 's"
  ob_NotifyTopicEvent :: "ServiceEventType \<Rightarrow> string \<Rightarrow> 's \<Rightarrow> 's"
  ob_NotifyJobEvent :: "job \<Rightarrow> ServiceEventType \<Rightarrow> 's \<Rightarrow> 's"

text \<open>The notifier: the observers with their states, in registration order.\<close>

type_synonym 's notifier = "('s observer \<times> 's) list"

definition Register :: "'s observer \<times> 's \<Rightarrow> 's notifier \<Rightarrow> 's notifier" where
  "Register ob n = n @ [ob]"

text \<open>The initialisation stops at the first error.\<close>

fun NotifierInit :: "'s notifier \<Rightarrow> string option \<times> 's notifier" where
  "NotifierInit [] = (None, [])"
| "NotifierInit ((ob, s) # rest) =
    (case ob_Init ob s of
      (Some err, s') \<Rightarrow> (Some err, (ob, s') # rest)
    | (None, s') \<Rightarrow> (let (err, rest') = NotifierInit rest in (err, (ob, s') # rest')))"

definition NotifierShutdown :: "'s notifier \<Rightarrow> 's notifier" where
  "NotifierShutdown n = map (\<lambda>(ob, s). (ob, ob_Shutdown ob s)) n"

definition NotifyEvent :: "ServiceEventType \<Rightarrow> 's notifier \<Rightarrow> 's notifier" where
  "NotifyEvent ev n = map (\<lambda>(ob, s). (ob, ob_NotifyEvent ob ev s)) n"

definition NotifyTopicEvent :: "ServiceEventType \<Rightarrow> string \<Rightarrow> 's notifier \<Rightarrow> 's notifier" where
  "NotifyTopicEvent ev topic n = map (\<lambda>(ob, s). (ob, ob_NotifyTopicEvent ob ev topic s)) n"

definition NotifyJobEvent :: "job \<Rightarrow> ServiceEventType \<Rightarrow> 's notifier \<Rightarrow> 's notifier" where
  "NotifyJobEvent j ev n = map (\<lambda>(ob, s). (ob, ob_NotifyJobEvent ob j ev s)) n"

fun observe :: "'s observer \<Rightarrow> notif \<Rightarrow> 's \<Rightarrow> 's" where
  "observe ob (NJob j ev) s = ob_NotifyJobEvent ob j ev s"
| "observe ob (NEvent ev) s = ob_NotifyEvent ob ev s"
| "observe ob (NTopic ev t) s = ob_NotifyTopicEvent ob ev t s"
| "observe ob _ s = s"

fun notifier_step :: "notif \<Rightarrow> 's notifier \<Rightarrow> 's notifier" where
  "notifier_step (NJob j ev) n = NotifyJobEvent j ev n"
| "notifier_step (NEvent ev) n = NotifyEvent ev n"
| "notifier_step (NTopic ev t) n = NotifyTopicEvent ev t n"
| "notifier_step _ n = n"

definition notifier_replay :: "notif list \<Rightarrow> 's notifier \<Rightarrow> 's notifier" where
  "notifier_replay tr n = fold notifier_step tr n"

text \<open>Observers do not interfere: the notifier runs each one on the whole trace.\<close>

lemma notifier_replay_each:
  "notifier_replay tr n = map (\<lambda>(ob, s). (ob, fold (observe ob) tr s)) n"
proof (induction tr arbitrary: n)
  case Nil
  then show ?case by (simp add: notifier_replay_def case_prod_unfold)
next
  case (Cons e tr)
  have "notifier_step e n = map (\<lambda>(ob, s). (ob, observe ob e s)) n"
    by (cases e) (auto simp: NotifyJobEvent_def NotifyEvent_def NotifyTopicEvent_def
        case_prod_unfold)
  then show ?case using Cons.IH[of "notifier_step e n"]
    by (simp add: notifier_replay_def case_prod_unfold)
qed

end
