(* ===== verification/PQ.thy ===== *)
theory PQ
  imports Prelude
begin

text \<open>
  The priority queue of \<^verbatim>\<open>src/pq/pq.go\<close>: a singly linked list kept in decreasing priority,
  the values of one priority in the order they were added. The nodes from the head are a
  list of (value, priority) pairs; the length field is kept apart, as in the code. The
  locale \<open>prio_queue\<close> is what the service relies on: it drains the queue down to a
  priority (retry and delayed jobs).
\<close>

section \<open>Code\<close>

record 'a PriorityQueue =
  pq_nodes :: "('a \<times> int64) list"
  pq_length :: int

datatype pq_error = QueueIsEmpty | ValueNotFound

definition NewPriorityQueue :: "'a PriorityQueue" where
  "NewPriorityQueue = \<lparr>pq_nodes = [], pq_length = 0\<rparr>"

text \<open>The walk of \<^verbatim>\<open>Enqueue\<close>: \<open>cur\<close> is \<^verbatim>\<open>current\<close>, the list what follows it.\<close>

fun insert_after :: "'a \<times> int64 \<Rightarrow> 'a \<times> int64 \<Rightarrow> ('a \<times> int64) list \<Rightarrow> ('a \<times> int64) list" where
  "insert_after new cur [] = [cur, new]"
| "insert_after new cur (nx # rest) =
    (if snd nx \<ge> snd new then cur # insert_after new nx rest else cur # new # nx # rest)"

definition Enqueue :: "'a \<Rightarrow> int64 \<Rightarrow> 'a PriorityQueue \<Rightarrow> 'a PriorityQueue" where
  "Enqueue value priority q =
    q\<lparr>pq_nodes := (case pq_nodes q of
         [] \<Rightarrow> [(value, priority)]
       | n # rest \<Rightarrow> if snd n < priority then (value, priority) # n # rest
                     else insert_after (value, priority) n rest),
      pq_length := pq_length q + 1\<rparr>"

definition Peek :: "'a PriorityQueue \<Rightarrow> pq_error + ('a \<times> int64)" where
  "Peek q = (case pq_nodes q of [] \<Rightarrow> Inl QueueIsEmpty | n # _ \<Rightarrow> Inr n)"

definition Dequeue :: "'a PriorityQueue \<Rightarrow> (pq_error + ('a \<times> int64)) \<times> 'a PriorityQueue" where
  "Dequeue q = (case pq_nodes q of
      [] \<Rightarrow> (Inl QueueIsEmpty, q)
    | n # rest \<Rightarrow> (Inr n, q\<lparr>pq_nodes := rest, pq_length := pq_length q - 1\<rparr>))"

definition DequeueWithPriority ::
    "int64 \<Rightarrow> 'a PriorityQueue \<Rightarrow> ('a \<times> int64) option \<times> 'a PriorityQueue" where
  "DequeueWithPriority minPriority q = (case pq_nodes q of
      [] \<Rightarrow> (None, q)
    | n # rest \<Rightarrow> if snd n < minPriority then (None, q)
                 else (Some n, q\<lparr>pq_nodes := rest, pq_length := pq_length q - 1\<rparr>))"

definition Len :: "'a PriorityQueue \<Rightarrow> int" where
  "Len q = pq_length q"

text \<open>The search loop of \<^verbatim>\<open>Remove\<close> after the head: \<open>None\<close> when the value is not found.\<close>

fun remove_after :: "('a \<Rightarrow> 'a \<Rightarrow> bool) \<Rightarrow> 'a \<Rightarrow> ('a \<times> int64) list \<Rightarrow> ('a \<times> int64) list option" where
  "remove_after eq value [] = None"
| "remove_after eq value (n # rest) =
    (if eq (fst n) value then Some rest
     else map_option ((#) n) (remove_after eq value rest))"

definition Remove ::
    "('a \<Rightarrow> 'a \<Rightarrow> bool) \<Rightarrow> 'a \<Rightarrow> 'a PriorityQueue \<Rightarrow> pq_error option \<times> 'a PriorityQueue" where
  "Remove eq value q = (case pq_nodes q of
      [] \<Rightarrow> (Some QueueIsEmpty, q)
    | n # rest \<Rightarrow>
        if eq (fst n) value
        then (None, q\<lparr>pq_nodes := rest, pq_length := pq_length q - 1\<rparr>)
        else (case remove_after eq value rest of
            None \<Rightarrow> (Some ValueNotFound, q)
          | Some rest' \<Rightarrow> (None, q\<lparr>pq_nodes := n # rest', pq_length := pq_length q - 1\<rparr>)))"

definition IsEmpty :: "'a PriorityQueue \<Rightarrow> bool" where
  "IsEmpty q \<longleftrightarrow> pq_nodes q = []"

definition Clear :: "'a PriorityQueue \<Rightarrow> 'a PriorityQueue" where
  "Clear q = q\<lparr>pq_nodes := [], pq_length := 0\<rparr>"

section \<open>Invariant and specification\<close>

definition pq_wf :: "'a PriorityQueue \<Rightarrow> bool" where
  "pq_wf q \<longleftrightarrow> sorted_wrt (\<lambda>a b. snd b \<le> snd a) (pq_nodes q)
    \<and> pq_length q = int (length (pq_nodes q))"

text \<open>Stable insertion into a list of decreasing priority, as a specification.\<close>

definition stable_insert :: "'a \<times> int64 \<Rightarrow> ('a \<times> int64) list \<Rightarrow> ('a \<times> int64) list" where
  "stable_insert n ns = filter (\<lambda>m. snd n \<le> snd m) ns @ n # filter (\<lambda>m. snd m < snd n) ns"

lemma filter_all_less:
  "\<forall>b\<in>set ns. snd b \<le> v \<Longrightarrow> v < p \<Longrightarrow>
    filter (\<lambda>m. p \<le> snd m) ns = [] \<and> filter (\<lambda>m. snd m < p) ns = ns" for v p :: int
  by (force simp: filter_empty_conv filter_id_conv)

lemma insert_after_stable:
  "sorted_wrt (\<lambda>a b. snd b \<le> snd a) (cur # rest) \<Longrightarrow> snd new \<le> snd cur \<Longrightarrow>
    insert_after new cur rest = stable_insert new (cur # rest)"
proof (induction new cur rest rule: insert_after.induct)
  case (1 new cur)
  then show ?case by (simp add: stable_insert_def)
next
  case (2 new cur nx rest)
  show ?case
  proof (cases "snd nx \<ge> snd new")
    case True
    then show ?thesis using 2 by (simp add: stable_insert_def)
  next
    case False
    then have "\<forall>b\<in>set rest. snd b \<le> snd nx" "snd nx < snd new" using 2 by auto
    then show ?thesis using 2 False filter_all_less[of rest "snd nx" "snd new"]
      by (simp add: stable_insert_def)
  qed
qed

lemma Enqueue_nodes:
  assumes "pq_wf q"
  shows "pq_nodes (Enqueue v p q) = stable_insert (v, p) (pq_nodes q)"
proof (cases "pq_nodes q")
  case Nil
  then show ?thesis by (simp add: Enqueue_def stable_insert_def)
next
  case (Cons n rest)
  then have s: "sorted_wrt (\<lambda>a b. snd b \<le> snd a) (n # rest)" using assms by (simp add: pq_wf_def)
  show ?thesis
  proof (cases "snd n < p")
    case True
    then show ?thesis using Cons s filter_all_less[of "n # rest" "snd n" p]
      by (simp add: Enqueue_def stable_insert_def)
  next
    case False
    then show ?thesis using Cons s by (simp add: Enqueue_def insert_after_stable)
  qed
qed

lemma mset_stable_insert [simp]: "mset (stable_insert n ns) = add_mset n (mset ns)"
  by (induction ns) (auto simp: stable_insert_def)

lemma set_stable_insert [simp]: "set (stable_insert n ns) = insert n (set ns)"
  by (metis mset_stable_insert set_mset_add_mset_insert set_mset_mset)

lemma sorted_stable_insert:
  "sorted_wrt (\<lambda>a b. snd b \<le> snd a) ns \<Longrightarrow> sorted_wrt (\<lambda>a b. snd b \<le> snd a) (stable_insert n ns)"
  by (force simp: stable_insert_def sorted_wrt_append sorted_wrt_filter)

lemma pq_wf_Enqueue: "pq_wf q \<Longrightarrow> pq_wf (Enqueue v p q)"
proof -
  assume wf: "pq_wf q"
  have "length (pq_nodes (Enqueue v p q)) = Suc (length (pq_nodes q))"
    using Enqueue_nodes[OF wf, of v p] by (metis mset_stable_insert size_mset size_add_mset)
  then show ?thesis
    using wf Enqueue_nodes[OF wf, of v p] sorted_stable_insert[of "pq_nodes q" "(v, p)"]
    by (simp add: pq_wf_def Enqueue_def)
qed

lemma pq_wf_New [simp]: "pq_wf NewPriorityQueue"
  by (simp add: pq_wf_def NewPriorityQueue_def)

lemma pq_wf_Clear [simp]: "pq_wf (Clear q)" "pq_nodes (Clear q) = []"
  by (simp_all add: pq_wf_def Clear_def)

lemma DequeueWithPriority_wf: "pq_wf q \<Longrightarrow> pq_wf (snd (DequeueWithPriority m q))"
  by (cases "pq_nodes q") (auto simp: pq_wf_def DequeueWithPriority_def)

lemma remove_after_spec:
  "remove_after eq v ns = (if \<exists>n\<in>set ns. eq (fst n) v
     then Some (takeWhile (\<lambda>n. \<not> eq (fst n) v) ns @ tl (dropWhile (\<lambda>n. \<not> eq (fst n) v) ns))
     else None)"
  by (induction ns) auto

lemma Remove_nodes:
  "pq_nodes (snd (Remove eq v q)) =
     takeWhile (\<lambda>n. \<not> eq (fst n) v) (pq_nodes q)
     @ tl (dropWhile (\<lambda>n. \<not> eq (fst n) v) (pq_nodes q))"
  by (cases "pq_nodes q")
    (auto simp: Remove_def remove_after_spec takeWhile_eq_all_conv[THEN iffD2]
      dropWhile_eq_Nil_conv[THEN iffD2])

lemma Remove_error:
  "fst (Remove eq v q) = (if \<exists>n\<in>set (pq_nodes q). eq (fst n) v then None
     else if pq_nodes q = [] then Some QueueIsEmpty else Some ValueNotFound)"
  by (cases "pq_nodes q") (auto simp: Remove_def remove_after_spec)

lemma Remove_length:
  "pq_length (snd (Remove eq v q)) =
     pq_length q - (if \<exists>n\<in>set (pq_nodes q). eq (fst n) v then 1 else 0)"
  by (cases "pq_nodes q") (auto simp: Remove_def remove_after_spec)

lemma set_tl_subset: "set (tl xs) \<subseteq> set xs"
  by (cases xs) auto

lemma sorted_wrt_sublist_remove:
  "sorted_wrt R ns \<Longrightarrow> sorted_wrt R (takeWhile P ns @ tl (dropWhile P ns))"
proof (induction ns)
  case (Cons a ns)
  have "set (takeWhile P ns @ tl (dropWhile P ns)) \<subseteq> set ns"
    by (auto dest: set_takeWhileD set_dropWhileD subsetD[OF set_tl_subset])
  then show ?case using Cons by auto
qed simp

lemma length_remove_first:
  "\<exists>n\<in>set ns. \<not> P n \<Longrightarrow> Suc (length (takeWhile P ns @ tl (dropWhile P ns))) = length ns"
  by (induction ns) auto

lemma pq_wf_Remove: "pq_wf q \<Longrightarrow> pq_wf (snd (Remove eq v q))"
proof -
  assume wf: "pq_wf q"
  let ?P = "\<lambda>n. \<not> eq (fst n) v"
  have s: "sorted_wrt (\<lambda>a b. snd b \<le> snd a) (pq_nodes (snd (Remove eq v q)))"
    using wf by (simp add: Remove_nodes pq_wf_def sorted_wrt_sublist_remove)
  have "pq_length (snd (Remove eq v q)) = int (length (pq_nodes (snd (Remove eq v q))))"
  proof (cases "\<exists>n\<in>set (pq_nodes q). eq (fst n) v")
    case True
    then show ?thesis using wf length_remove_first[of "pq_nodes q" ?P]
      by (simp add: Remove_nodes Remove_length pq_wf_def)
  next
    case False
    then show ?thesis using wf
      by (simp add: Remove_nodes Remove_length pq_wf_def takeWhile_eq_all_conv[THEN iffD2]
          dropWhile_eq_Nil_conv[THEN iffD2])
  qed
  with s show ?thesis by (simp add: pq_wf_def)
qed

text \<open>When at most one node matches, the others are kept in their order.\<close>

lemma Remove_nodes_filter:
  assumes "distinct (map f (pq_nodes q))"
    and "\<And>n. n \<in> set (pq_nodes q) \<Longrightarrow> eq (fst n) v \<longleftrightarrow> f n = x"
  shows "pq_nodes (snd (Remove eq v q)) = filter (\<lambda>n. \<not> eq (fst n) v) (pq_nodes q)"
proof -
  have "takeWhile (\<lambda>n. \<not> eq (fst n) v) ns @ tl (dropWhile (\<lambda>n. \<not> eq (fst n) v) ns)
      = filter (\<lambda>n. \<not> eq (fst n) v) ns"
    if "distinct (map f ns)" "\<forall>n\<in>set ns. eq (fst n) v \<longleftrightarrow> f n = x" for ns
    using that
  proof (induction ns)
    case (Cons a ns)
    have "\<not> eq (fst n) v" if "eq (fst a) v" "n \<in> set ns" for n
      using that Cons.prems by (metis distinct.simps(2) image_eqI list.set_intros list.set_map
          list.simps(9))
    then show ?case using Cons by (auto intro!: filter_True[symmetric])
  qed simp
  then show ?thesis using assms by (simp add: Remove_nodes)
qed

section \<open>The interface\<close>

text \<open>
  A queue by priority, as its clients see it: \<open>nodes\<close> lists its content from the front,
  \<open>enq\<close> inserts behind the nodes of the same priority, \<open>deq m\<close> takes the first
  node if its priority is at least \<open>m\<close>.
\<close>

fun drain :: "('q \<Rightarrow> 'n option \<times> 'q) \<Rightarrow> nat \<Rightarrow> 'q \<Rightarrow> 'n list \<times> 'q" where
  "drain deq 0 q = ([], q)"
| "drain deq (Suc fuel) q =
    (case deq q of (None, q') \<Rightarrow> ([], q')
     | (Some n, q') \<Rightarrow> (let (ns, q'') = drain deq fuel q' in (n # ns, q'')))"

locale prio_queue =
  fixes enq :: "'a \<Rightarrow> int64 \<Rightarrow> 'q \<Rightarrow> 'q"
    and deq :: "int64 \<Rightarrow> 'q \<Rightarrow> ('a \<times> int64) option \<times> 'q"
    and nodes :: "'q \<Rightarrow> ('a \<times> int64) list"
    and invar :: "'q \<Rightarrow> bool"
  assumes invar_sorted: "invar q \<Longrightarrow> sorted_wrt (\<lambda>a b. snd b \<le> snd a) (nodes q)"
    and enq_nodes: "invar q \<Longrightarrow> nodes (enq v p q) = stable_insert (v, p) (nodes q)"
    and enq_invar: "invar q \<Longrightarrow> invar (enq v p q)"
    and deq_None: "deq m q = (None, q') \<Longrightarrow> invar q \<Longrightarrow>
      q' = q \<and> (nodes q = [] \<or> snd (hd (nodes q)) < m)"
    and deq_Some: "deq m q = (Some n, q') \<Longrightarrow> invar q \<Longrightarrow>
      nodes q = n # nodes q' \<and> m \<le> snd n \<and> invar q'"
begin

lemma deq_invar: "invar q \<Longrightarrow> invar (snd (deq m q))"
  using deq_None deq_Some by (cases "deq m q"; cases "fst (deq m q)") auto

lemma deq_None_all: "deq m q = (None, q') \<Longrightarrow> invar q \<Longrightarrow> \<forall>n\<in>set (nodes q). snd n < m"
  using deq_None[of m q q'] invar_sorted[of q] by (cases "nodes q") auto

lemma drain_spec:
  assumes "invar q" "length (nodes q) < fuel" "drain (deq m) fuel q = (ns, q')"
  shows "ns = takeWhile (\<lambda>n. m \<le> snd n) (nodes q) \<and> invar q'
    \<and> nodes q' = dropWhile (\<lambda>n. m \<le> snd n) (nodes q)"
  using assms
proof (induction fuel arbitrary: q ns)
  case 0
  then show ?case by simp
next
  case (Suc fuel)
  show ?case
  proof (cases "deq m q")
    case (Pair r q1)
    show ?thesis
    proof (cases r)
      case None
      then have "nodes q = [] \<or> snd (hd (nodes q)) < m" "q1 = q"
        using Pair deq_None Suc.prems by auto
      then show ?thesis using Suc.prems Pair None by (cases "nodes q") auto
    next
      case (Some n)
      then have q1: "nodes q = n # nodes q1" "m \<le> snd n" "invar q1"
        using Pair deq_Some Suc.prems by auto
      obtain ns1 where ns1: "drain (deq m) fuel q1 = (ns1, q')" "ns = n # ns1"
        using Suc.prems(3) Pair Some by (auto split: prod.splits)
      have "ns1 = takeWhile (\<lambda>n. m \<le> snd n) (nodes q1) \<and> invar q'
          \<and> nodes q' = dropWhile (\<lambda>n. m \<le> snd n) (nodes q1)"
        using Suc.IH[OF q1(3) _ ns1(1)] Suc.prems(2) q1(1) by simp
      then show ?thesis using q1 ns1(2) by simp
    qed
  qed
qed

text \<open>What a drain takes is exactly what is due: everything at or above the priority.\<close>

lemma drain_due:
  assumes "invar q" "length (nodes q) < fuel" "drain (deq m) fuel q = (ns, q')"
  shows "ns = filter (\<lambda>n. m \<le> snd n) (nodes q) \<and> nodes q' = filter (\<lambda>n. snd n < m) (nodes q)"
  using drain_spec[OF assms] sorted_wrt_filter_split[OF invar_sorted[OF assms(1)], of m] by simp

end

interpretation pq: prio_queue Enqueue DequeueWithPriority pq_nodes pq_wf
proof unfold_locales
  fix q :: "'a PriorityQueue" and v p m n q'
  show "pq_wf q \<Longrightarrow> sorted_wrt (\<lambda>a b. snd b \<le> snd a) (pq_nodes q)"
    by (simp add: pq_wf_def)
  show "pq_wf q \<Longrightarrow> pq_nodes (Enqueue v p q) = stable_insert (v, p) (pq_nodes q)"
    by (rule Enqueue_nodes)
  show "pq_wf q \<Longrightarrow> pq_wf (Enqueue v p q)"
    by (rule pq_wf_Enqueue)
  show "DequeueWithPriority m q = (None, q') \<Longrightarrow> pq_wf q \<Longrightarrow>
      q' = q \<and> (pq_nodes q = [] \<or> snd (hd (pq_nodes q)) < m)"
    by (auto simp: DequeueWithPriority_def split: list.splits if_splits)
  show "DequeueWithPriority m q = (Some n, q') \<Longrightarrow> pq_wf q \<Longrightarrow>
      pq_nodes q = n # pq_nodes q' \<and> m \<le> snd n \<and> pq_wf q'"
    using DequeueWithPriority_wf[of q m]
    by (auto simp: DequeueWithPriority_def split: list.splits if_splits)
qed

end
