(* ===== verification/Service.thy ===== *)
theory Service
  imports Queue Resources RetryPolicy Events PQ "HOL-Library.Sublist" "HOL-Library.Char_ord"
    "HOL-Library.List_Lexorder"
begin

text \<open>
  The scheduler of \<^verbatim>\<open>src/service/service.go\<close>. The jobs are objects in a store, shared
  by pointer between the maps, the queues and the index, as in the code. Every method that
  holds the service lock is one function on the state \<open>svc\<close>; logging is left out. What
  the service sends to the observers, the metrics and the backend provider is appended to the
  trace \<open>sv_out\<close> (theory \<open>Events\<close>).

  Outside the code are, in the record \<open>env\<close>: the clock (the successive readings of
  \<^verbatim>\<open>time.Now().UnixMilli()\<close>), the results of \<^verbatim>\<open>uuid.NewV7\<close>, the text form of an
  id and the floating point backoff. A panic (a job without creation timestamp is
  compared) ends the operation in Go; here it sets \<open>sv_panic\<close>, which the invariant
  excludes. The configuration record has the fields the service reads, and the answer of
  \<^verbatim>\<open>GetMaxJobs\<close> of the backend provider.
\<close>

section \<open>State\<close>

record env =
  env_clock :: "nat \<Rightarrow> int64"
  env_uuid :: "nat \<Rightarrow> string + JobUUID"
  env_uuid_string :: "JobUUID \<Rightarrow> string"
  env_exp_ms :: exp_ms

record conf =
  MaxAllowedJobs :: uint
  BackendMaxJobs :: uint
  RetentionEnable :: bool
  RetentionMaxJobAge :: int64
  RetentionMaxJobs :: int64
  conf_RetryPolicy :: RetryPolicy

type_synonym JobMap = "(JobUUID, ptr) gomap"

record svc =
  sv_env :: env
  sv_conf :: conf
  sv_store :: store
  sv_next :: ptr
  sv_jobs :: JobMap
  sv_pending :: JobMap
  sv_queue :: queuedJobs
  sv_retry :: "ptr PriorityQueue"
  sv_delayed :: "ptr PriorityQueue"
  sv_locked :: LockedResources
  sv_reads :: nat
  sv_uuids :: nat
  sv_out :: "notif list"
  sv_panic :: bool
  sv_retention_running :: bool
  sv_visibility_running :: bool
  sv_delay_running :: bool
  sv_stopping :: bool

definition NewService :: "env \<Rightarrow> conf \<Rightarrow> svc" where
  "NewService e c = \<lparr>sv_env = e, sv_conf = c, sv_store = (\<lambda>_. undefined), sv_next = 0,
    sv_jobs = [], sv_pending = [], sv_queue = newQueuedJobs, sv_retry = NewPriorityQueue,
    sv_delayed = NewPriorityQueue, sv_locked = [], sv_reads = 0, sv_uuids = 0, sv_out = [],
    sv_panic = False, sv_retention_running = False, sv_visibility_running = False,
    sv_delay_running = False, sv_stopping = False\<rparr>"

abbreviation job_at :: "svc \<Rightarrow> ptr \<Rightarrow> job" where
  "job_at s p \<equiv> sv_store s p"

definition time_now :: "svc \<Rightarrow> int64 \<times> svc" where
  "time_now s = (env_clock (sv_env s) (sv_reads s), s\<lparr>sv_reads := sv_reads s + 1\<rparr>)"

definition emit :: "notif \<Rightarrow> svc \<Rightarrow> svc" where
  "emit e s = s\<lparr>sv_out := sv_out s @ [e]\<rparr>"

definition notify_job :: "ptr \<Rightarrow> ServiceEventType \<Rightarrow> svc \<Rightarrow> svc" where
  "notify_job p ev s = emit (NJob (job_at s p) ev) s"

text \<open>\<^verbatim>\<open>jobEqual\<close> on two pointers that are not nil.\<close>

definition jobEqual :: "store \<Rightarrow> ptr \<Rightarrow> ptr \<Rightarrow> bool" where
  "jobEqual st a b \<longleftrightarrow> JobUUID (st a) = JobUUID (st b)"

definition GetJobsCount :: "svc \<Rightarrow> uint" where
  "GetJobsCount s = length (sv_jobs s)"

definition UpdateResourcesLockedCountMetric :: "string \<Rightarrow> int \<Rightarrow> svc \<Rightarrow> svc" where
  "UpdateResourcesLockedCountMetric topic inc s = emit (NLockedCount topic inc) s"

section \<open>History and index\<close>

definition addHistoryEventLocked :: "ptr \<Rightarrow> string \<Rightarrow> int64 \<Rightarrow> svc \<Rightarrow> svc" where
  "addHistoryEventLocked p ev ts s =
    (let s1 = (if state (job_at s p) = JobQueued
               then s\<lparr>sv_queue := remove (sv_store s) p (sv_queue s)\<rparr> else s);
         s2 = s1\<lparr>sv_store := (sv_store s1)(p := AddHistoryEvent ev ts (job_at s1 p))\<rparr>
     in if state (job_at s2 p) = JobQueued
        then case add (sv_store s2) p (sv_queue s2) of
            None \<Rightarrow> s2\<lparr>sv_panic := True\<rparr>
          | Some q \<Rightarrow> s2\<lparr>sv_queue := q\<rparr>
        else s2)"

text \<open>\<^verbatim>\<open>addHistoryEventLocked(j, ev, time.Now().UnixMilli())\<close>\<close>

definition add_event_now :: "ptr \<Rightarrow> string \<Rightarrow> svc \<Rightarrow> svc" where
  "add_event_now p ev s = (let (now, s) = time_now s in addHistoryEventLocked p ev now s)"

definition notifyQueuedLocked :: "svc \<Rightarrow> svc" where
  "notifyQueuedLocked s = emit NWake s"

section \<open>Resources\<close>

definition lockResourcesLocked :: "ptr \<Rightarrow> svc \<Rightarrow> APIError option \<times> svc" where
  "lockResourcesLocked p s =
    (case lockResources (job_at s p) (sv_locked s) of
      (Inl err, _) \<Rightarrow> (Some (api_error ''cannot enqueue job'' ErrorCantEnqueueJob
          StatusPreconditionFailed (JobUUID (job_at s p)) (Some err)), s)
    | (Inr acquired, m) \<Rightarrow> (None,
        UpdateResourcesLockedCountMetric (Topic (job_at s p)) (int acquired) (s\<lparr>sv_locked := m\<rparr>)))"

definition unlockJobResourcesLocked :: "ptr \<Rightarrow> svc \<Rightarrow> svc" where
  "unlockJobResourcesLocked p s =
    (let (released, m) = UnlockResources (job_at s p) (sv_locked s); s1 = s\<lparr>sv_locked := m\<rparr> in
     if length released = 0 then s1
     else let s2 = UpdateResourcesLockedCountMetric (Topic (job_at s p)) (- int (length released)) s1
       in foldl (\<lambda>s r. emit (NBackendResourceUnlocked (job_at s p) r) s) s2 released)"

section \<open>Enqueueing\<close>

definition enqueueJobLocked :: "ptr \<Rightarrow> svc \<Rightarrow> APIError option \<times> svc" where
  "enqueueJobLocked p s =
    (let j = job_at s p;
         (early, s) = (if StartAfter j = 0 then (False, s)
                       else let (now, s) = time_now s in (StartAfter j > now, s))
     in if early
        then (Some (api_error ''cannot enqueue job'' ErrorCantEnqueueJob StatusPreconditionFailed
                (JobUUID j) (Some ''job is not ready yet to be enqueued'')), s)
        else case lockResourcesLocked p s of
          (Some err, s) \<Rightarrow> (Some err, s)
        | (None, s) \<Rightarrow>
          (let s = add_event_now p JobEventEnqueue s;
               s = s\<lparr>sv_pending := AList.delete (JobUUID j) (sv_pending s)\<rparr>;
               s = notify_job p ServiceEventJobEnqueued s
           in (None, notifyQueuedLocked s)))"

definition sort_pending :: "store \<Rightarrow> ptr list \<Rightarrow> ptr list" where
  "sort_pending st ps =
    sort_func (\<lambda>a b. case compareQueueOrder (st a) (st b) of Some c \<Rightarrow> c | None \<Rightarrow> 0) ps"

text \<open>
  The order in which the code ranges over the pending jobs does not matter: the sort is by
  a total order. The sort may panic when one of the jobs has no creation timestamp.
\<close>

definition tryEnqueuePendingJobsLocked :: "svc \<Rightarrow> svc" where
  "tryEnqueuePendingJobsLocked s =
    (if length (sv_pending s) = 0 then s
     else let locked = GetLockedResources (sv_locked s);
              ps = filter (\<lambda>p. \<not> requiresLockedResources locked (job_at s p)) (map snd (sv_pending s));
              s1 = s\<lparr>sv_panic := (sv_panic s \<or>
                list_ex (\<lambda>p. GetCreationTimestamp (job_at s p) = None) ps)\<rparr>
          in foldl (\<lambda>s p. snd (enqueueJobLocked p s)) s1 (sort_pending (sv_store s) ps))"

definition setJobStateToDelayedLocked :: "ptr \<Rightarrow> svc \<Rightarrow> svc" where
  "setJobStateToDelayedLocked p s =
    (let s = add_event_now p JobEventDelay s;
         s = s\<lparr>sv_delayed := Enqueue p (i64 (- StartAfter (job_at s p))) (sv_delayed s)\<rparr>
     in notify_job p ServiceEventJobDelayed s)"

definition setJobStateToPendingLocked :: "ptr \<Rightarrow> svc \<Rightarrow> svc" where
  "setJobStateToPendingLocked p s =
    (let s = add_event_now p JobEventPending s;
         s = s\<lparr>sv_pending := AList.update (JobUUID (job_at s p)) p (sv_pending s)\<rparr>
     in notify_job p ServiceEventJobPending s)"

section \<open>Creation\<close>

text \<open>
  The loop of \<^verbatim>\<open>generateNewJobUuidLocked\<close> ends only when \<^verbatim>\<open>uuid.NewV7\<close> fails or gives an
  unused id: \<open>None\<close> is the loop that does not end. It also returns how many results it
  used.
\<close>

partial_function (option) newJobUuid_loop ::
    "(nat \<Rightarrow> string + JobUUID) \<Rightarrow> JobMap \<Rightarrow> nat \<Rightarrow> ((APIError + JobUUID) \<times> nat) option" where
  "newJobUuid_loop newV7 js k =
    (case newV7 k of
      Inl err \<Rightarrow> Some (Inl (api_error ''cannot create job'' ErrorCantCreateJob
                    StatusInternalServerError 0 (Some err)), k + 1)
    | Inr u \<Rightarrow> if map_of js u = None then Some (Inr u, k + 1)
               else newJobUuid_loop newV7 js (k + 1))"

definition generateNewJobUuidLocked :: "svc \<Rightarrow> ((APIError + JobUUID) \<times> svc) option" where
  "generateNewJobUuidLocked s =
    (case newJobUuid_loop (env_uuid (sv_env s)) (sv_jobs s) (sv_uuids s) of
      None \<Rightarrow> None | Some (r, k) \<Rightarrow> Some (r, s\<lparr>sv_uuids := k\<rparr>))"

definition checkMaxAllowedJobsLocked :: "svc \<Rightarrow> APIError option" where
  "checkMaxAllowedJobsLocked s =
    (if MaxAllowedJobs (sv_conf s) = 0 \<or> length (sv_jobs s) < MaxAllowedJobs (sv_conf s) then None
     else Some (api_error ''cannot create job'' ErrorCantCreateJob StatusServiceUnavailable 0
       (Some ''cannot create job, limit reached'')))"

text \<open>
  The new job is put at a fresh address of the store. The two readings of the clock are
  those of the code: one before the id is drawn, one after the job is announced.
\<close>

definition store_new_job :: "job \<Rightarrow> svc \<Rightarrow> ptr \<times> svc" where
  "store_new_job j s = (sv_next s,
    s\<lparr>sv_store := (sv_store s)(sv_next s := j), sv_next := sv_next s + 1,
      sv_jobs := AList.update (JobUUID j) (sv_next s) (sv_jobs s)\<rparr>)"

definition schedule_new_job :: "ptr \<Rightarrow> svc \<Rightarrow> svc" where
  "schedule_new_job p s =
    (let (now, s) = time_now s in
     if StartAfter (job_at s p) \<noteq> 0 \<and> StartAfter (job_at s p) > now
     then setJobStateToDelayedLocked p s else setJobStateToPendingLocked p s)"

definition finalizeJobCreationLocked :: "job \<Rightarrow> svc \<Rightarrow> ((APIError + job) \<times> svc) option" where
  "finalizeJobCreationLocked j s =
    (let maxJobs = BackendMaxJobs (sv_conf s) in
     if maxJobs > 0 \<and> length (sv_jobs s) \<ge> maxJobs
     then Some (Inl (api_error ''cannot create job'' ErrorCantCreateJob StatusServiceUnavailable 0
            (Some ''cannot create job, max limit reached'')), s)
     else let (now, s) = time_now s in
       case generateNewJobUuidLocked s of
         None \<Rightarrow> None
       | Some (Inl err, s) \<Rightarrow> Some (Inl err, s)
       | Some (Inr u, s) \<Rightarrow>
         (let (p, s) = store_new_job (Init u now j) s;
              s = notify_job p ServiceEventJobCreated s;
              s = schedule_new_job p s;
              created = Snapshot (job_at s p)
          in Some (Inr created, tryEnqueuePendingJobsLocked s)))"

text \<open>
  \<^verbatim>\<open>CreateJob\<close> gets the result of \<^verbatim>\<open>job.NewJobFromRequest\<close> on the payload, decoded before
  the lock is taken. The limit is checked before the decoding error is reported.
\<close>

definition CreateJob :: "APIError + job \<Rightarrow> svc \<Rightarrow> ((APIError + job) \<times> svc) option" where
  "CreateJob decoded s =
    (case checkMaxAllowedJobsLocked s of
      Some err \<Rightarrow> Some (Inl err, s)
    | None \<Rightarrow> (case decoded of
        Inl err \<Rightarrow> Some (Inl err, s)
      | Inr j \<Rightarrow> finalizeJobCreationLocked j s))"

definition lookup_job :: "JobUUID \<Rightarrow> svc \<Rightarrow> ptr option" where
  "lookup_job u s = map_of (sv_jobs s) u"

definition CloneJob :: "JobUUID \<Rightarrow> svc \<Rightarrow> ((APIError + job) \<times> svc) option" where
  "CloneJob u s =
    (case lookup_job u s of
      None \<Rightarrow> Some (Inl (api_error ''job not found'' ErrorCantCloneJob StatusBadRequest u None), s)
    | Some p \<Rightarrow> (case checkMaxAllowedJobsLocked s of
        Some err \<Rightarrow> Some (Inl err, s)
      | None \<Rightarrow> finalizeJobCreationLocked (Clone (job_at s p)) s))"

section \<open>Retries\<close>

definition retryJobLocked :: "ptr \<Rightarrow> svc \<Rightarrow> APIError option \<times> svc" where
  "retryJobLocked p s =
    (case lockResourcesLocked p s of
      (Some err, s) \<Rightarrow> (Some err, s)
    | (None, s) \<Rightarrow>
      (let s = add_event_now p JobEventEnqueue s;
           s = notify_job p ServiceEventJobEnqueued s
       in (None, notifyQueuedLocked s)))"

text \<open>No operation on one job but those below changes the retry and the delayed queues.\<close>

lemma addHistoryEventLocked_queues [simp]:
  "sv_retry (addHistoryEventLocked p ev ts s) = sv_retry s"
  "sv_delayed (addHistoryEventLocked p ev ts s) = sv_delayed s"
  by (simp_all add: addHistoryEventLocked_def Let_def split: option.splits)

lemma add_event_now_queues [simp]:
  "sv_retry (add_event_now p ev s) = sv_retry s"
  "sv_delayed (add_event_now p ev s) = sv_delayed s"
  by (simp_all add: add_event_now_def time_now_def)

lemma lockResourcesLocked_queues [simp]:
  "sv_retry (snd (lockResourcesLocked p s)) = sv_retry s"
  "sv_delayed (snd (lockResourcesLocked p s)) = sv_delayed s"
  by (simp_all add: lockResourcesLocked_def UpdateResourcesLockedCountMetric_def emit_def
      split: sum.splits prod.splits)

lemma retryJobLocked_queues [simp]:
  "sv_retry (snd (retryJobLocked p s)) = sv_retry s"
  "sv_delayed (snd (retryJobLocked p s)) = sv_delayed s"
proof -
  obtain e s' where r: "lockResourcesLocked p s = (e, s')" by fastforce
  then have "sv_retry s' = sv_retry s" "sv_delayed s' = sv_delayed s"
    using lockResourcesLocked_queues[of p s] by (metis snd_conv)+
  then show "sv_retry (snd (retryJobLocked p s)) = sv_retry s"
    "sv_delayed (snd (retryJobLocked p s)) = sv_delayed s"
    using r by (simp_all add: retryJobLocked_def notify_job_def notifyQueuedLocked_def emit_def
        Let_def split: option.splits)
qed

lemma setJobStateToPendingLocked_delayed [simp]:
  "sv_delayed (setJobStateToPendingLocked p s) = sv_delayed s"
  by (simp add: setJobStateToPendingLocked_def notify_job_def emit_def Let_def)

lemma DequeueWithPriority_shrinks:
  "DequeueWithPriority m q = (Some n, q') \<Longrightarrow> length (pq_nodes q') < length (pq_nodes q)"
  by (auto simp: DequeueWithPriority_def split: list.splits if_splits)

text \<open>The loop of \<^verbatim>\<open>AttemptJobRetries\<close>, with the jobs it could not retry.\<close>

function retry_loop :: "int64 \<Rightarrow> (ptr \<times> int64) list \<Rightarrow> svc \<Rightarrow> (ptr \<times> int64) list \<times> svc" where
  "retry_loop minPriority blocked s =
    (case DequeueWithPriority minPriority (sv_retry s) of
      (None, _) \<Rightarrow> (blocked, s)
    | (Some n, q) \<Rightarrow>
      (let (err, s') = retryJobLocked (fst n) (s\<lparr>sv_retry := q\<rparr>)
       in retry_loop minPriority (if err = None then blocked else blocked @ [n]) s'))"
  by pat_completeness auto
termination
proof (relation "measure (\<lambda>(m, b, s). length (pq_nodes (sv_retry s)))")
  fix m :: int64 and b :: "(ptr \<times> int64) list" and s x q n x' err s'
  assume d: "(x, q) = DequeueWithPriority m (sv_retry s)" "x = Some n"
    and r: "x' = retryJobLocked (fst n) (s\<lparr>sv_retry := q\<rparr>)" "(err, s') = x'"
  have "sv_retry (snd (retryJobLocked (fst n) (s\<lparr>sv_retry := q\<rparr>))) = q" by simp
  then have "sv_retry s' = q" using r by (metis snd_conv)
  then show "((m, if err = None then b else b @ [n], s'), m, b, s)
      \<in> measure (\<lambda>(m, b, s). length (pq_nodes (sv_retry s)))"
    using d DequeueWithPriority_shrinks[of m "sv_retry s" n q] by simp
qed simp

declare retry_loop.simps [simp del]

definition AttemptJobRetries :: "svc \<Rightarrow> svc" where
  "AttemptJobRetries s =
    (let (now, s) = time_now s;
         (blocked, s) = retry_loop (i64 (- now)) [] s
     in foldl (\<lambda>s (p, pr). s\<lparr>sv_retry := Enqueue p pr (sv_retry s)\<rparr>) s blocked)"

section \<open>Deletion\<close>

definition deleteJobLocked :: "JobUUID \<Rightarrow> svc \<Rightarrow> APIError option \<times> svc" where
  "deleteJobLocked u s =
    (case lookup_job u s of
      None \<Rightarrow> (Some (api_error ''job not found'' ErrorCantDeleteJob StatusBadRequest u None), s)
    | Some p \<Rightarrow>
      (let s = unlockJobResourcesLocked p s;
           s = add_event_now p JobEventDelete s;
           s = s\<lparr>sv_retry := snd (Remove (jobEqual (sv_store s)) p (sv_retry s)),
                 sv_delayed := snd (Remove (jobEqual (sv_store s)) p (sv_delayed s)),
                 sv_jobs := AList.delete u (sv_jobs s),
                 sv_pending := AList.delete u (sv_pending s)\<rparr>;
           s = notify_job p ServiceEventJobDeleted s
       in (None, tryEnqueuePendingJobsLocked s)))"

definition unlockAllResourcesLocked :: "svc \<Rightarrow> svc" where
  "unlockAllResourcesLocked s =
    emit NBackendAllResourcesUnlocked (emit NMetricsUnlockAll
      (s\<lparr>sv_locked := Resources.UnlockAllResources (sv_locked s)\<rparr>))"

definition DeleteAllJobs :: "svc \<Rightarrow> svc" where
  "DeleteAllJobs s =
    emit (NEvent ServiceEventJobDeletedAll) (unlockAllResourcesLocked
      (s\<lparr>sv_retry := Clear (sv_retry s), sv_delayed := Clear (sv_delayed s),
        sv_jobs := [], sv_pending := [], sv_queue := newQueuedJobs\<rparr>))"

text \<open>Deletes jobs until an error; the second result is the state reached.\<close>

fun delete_jobs :: "JobUUID list \<Rightarrow> svc \<Rightarrow> APIError option \<times> svc" where
  "delete_jobs [] s = (None, s)"
| "delete_jobs (u # us) s =
    (case deleteJobLocked u s of
      (Some err, s) \<Rightarrow> (Some err, s) | (None, s) \<Rightarrow> delete_jobs us s)"

definition DeleteQueuedJobs :: "svc \<Rightarrow> APIError option \<times> svc" where
  "DeleteQueuedJobs s =
    delete_jobs (filter (\<lambda>u. state (job_at s (the (lookup_job u s)))
        \<in> {JobCreated, JobDelayed, JobPending, JobQueued}) (sortedJobIDs (sv_jobs s))) s"

section \<open>Pulling jobs\<close>

record RequestPullJobs =
  pullJobUUID :: "JobUUID option"
  pullTopic :: string
  NumJobs :: uint
  pullVisibilityTimeout :: uint
  WaitTimeSeconds :: uint

definition startJobLocked :: "JobUUID \<Rightarrow> RequestPullJobs \<Rightarrow> svc \<Rightarrow> APIError option \<times> svc" where
  "startJobLocked u req s =
    (case lookup_job u s of
      None \<Rightarrow> (Some (api_error ''job not found'' ErrorCantStartJob StatusBadRequest u None), s)
    | Some p \<Rightarrow>
      if state (job_at s p) \<noteq> JobQueued
      then (Some (api_error ''job already started'' ErrorCantStartJob StatusBadRequest u None), s)
      else (let s = s\<lparr>sv_pending := AList.delete (JobUUID (job_at s p)) (sv_pending s)\<rparr>;
                s = add_event_now p JobEventStart s;
                s = s\<lparr>sv_store := (sv_store s)(p := (job_at s p)
                      \<lparr>VisibilityTimeout := pullVisibilityTimeout req\<rparr>)\<rparr>
            in (None, notify_job p ServiceEventJobStarted s)))"

definition no_job_error :: "string \<Rightarrow> APIError" where
  "no_job_error msg = api_error msg ErrorCantPullAnyJob StatusNotFound 0 None"

definition findBestJobCandidatesLocked ::
    "RequestPullJobs \<Rightarrow> svc \<Rightarrow> (APIError + ptr list) \<times> svc" where
  "findBestJobCandidatesLocked req s =
    (if length (sv_jobs s) = 0 then (Inl (no_job_error ''no jobs found in the queue''), s)
     else let (ps, q) = first (sv_store s) (pullTopic req) (NumJobs req) (sv_queue s);
              s = s\<lparr>sv_queue := q\<rparr>
       in if length ps = 0
          then (Inl (no_job_error ''no job found that is ready or matches the criteria''), s)
          else (Inr ps, s))"

text \<open>The loop over the candidates: a job that cannot be started is skipped.\<close>

fun start_jobs :: "RequestPullJobs \<Rightarrow> ptr list \<Rightarrow> svc \<Rightarrow> job list \<times> svc" where
  "start_jobs req [] s = ([], s)"
| "start_jobs req (p # ps) s =
    (case startJobLocked (JobUUID (job_at s p)) req s of
      (Some _, s) \<Rightarrow> start_jobs req ps s
    | (None, s) \<Rightarrow> (let (js, s') = start_jobs req ps s in (Snapshot (job_at s p) # js, s')))"

text \<open>The result is the answer and the flag \<^verbatim>\<open>found\<close>.\<close>

definition pullJobsOnce ::
    "RequestPullJobs \<Rightarrow> bool \<Rightarrow> svc \<Rightarrow> ((APIError + job list) \<times> bool) \<times> svc" where
  "pullJobsOnce req last_poll s =
    (case findBestJobCandidatesLocked req s of
      (Inl err, s) \<Rightarrow> ((Inl err, False),
        if last_poll then emit (NTopic ServiceEventEmptyPollReceived (pullTopic req)) s else s)
    | (Inr candidates, s) \<Rightarrow>
      (let (js, s) = start_jobs req candidates s in
       if length js = 0
       then ((Inl (no_job_error ''no job found that is ready or matches the criteria''), True),
             emit (NTopic ServiceEventEmptyPollReceived (pullTopic req)) s)
       else ((Inr js, True), s)))"

definition PullSpecificJob :: "RequestPullJobs \<Rightarrow> svc \<Rightarrow> (APIError + job list) \<times> svc" where
  "PullSpecificJob req s =
    (case pullJobUUID req of
      None \<Rightarrow> (Inl (api_error ''job uuid is missing'' ErrorCantPullSpecificJob StatusBadRequest 0 None), s)
    | Some u \<Rightarrow> (case lookup_job u s of
        Some p \<Rightarrow> (case startJobLocked u req s of
            (Some err, s) \<Rightarrow> (Inl err, s)
          | (None, s) \<Rightarrow> (Inr [Snapshot (job_at s p)], s))
      | None \<Rightarrow> (Inl (api_error ''job not found in the queue'' ErrorCantPullSpecificJob
          StatusBadRequest u None), s)))"

text \<open>
  The long poll. While it waits it does not hold the lock: \<open>Woken f\<close>, \<open>TimerFired f\<close> and
  \<open>ServiceStops f\<close> are the ways a wait ends, after the other operations changed the state
  by \<open>f\<close>. \<open>None\<close> means that the listed waits are over and the poll still waits.
  The deadline is compared in milliseconds.
\<close>

datatype wait_end = Woken "svc \<Rightarrow> svc" | TimerFired "svc \<Rightarrow> svc" | ServiceStops "svc \<Rightarrow> svc"

fun pull_loop :: "RequestPullJobs \<Rightarrow> int64 \<Rightarrow> wait_end list \<Rightarrow> svc
    \<Rightarrow> ((APIError + job list) \<times> svc) option" where
  "pull_loop req deadline ws s =
    (let (now, s) = time_now s; last_poll = (now \<ge> deadline);
         ((res, found), s) = pullJobsOnce req last_poll s
     in if found \<or> last_poll then Some (res, s)
        else case ws of
          [] \<Rightarrow> None
        | Woken f # ws' \<Rightarrow> pull_loop req deadline ws' (f s)
        | TimerFired f # ws' \<Rightarrow> pull_loop req deadline ws' (f s)
        | ServiceStops f # ws' \<Rightarrow>
            (let ((res, _), s) = pullJobsOnce req True (f s) in Some (res, s)))"

declare pull_loop.simps [simp del]

definition PullJobs :: "RequestPullJobs \<Rightarrow> wait_end list \<Rightarrow> svc
    \<Rightarrow> ((APIError + job list) \<times> svc) option" where
  "PullJobs req ws s =
    (if pullJobUUID req \<noteq> None then Some (PullSpecificJob req s)
     else let (now, s) = time_now s
       in pull_loop req (now + int (WaitTimeSeconds req) * 1000) ws s)"

section \<open>End of a job\<close>

definition SetJobAsSuccessful :: "JobUUID \<Rightarrow> svc \<Rightarrow> APIError option \<times> svc" where
  "SetJobAsSuccessful u s =
    (case lookup_job u s of
      None \<Rightarrow> (Some (api_error ''job not found'' ErrorCantSetJobAsSuccessful StatusBadRequest u None), s)
    | Some p \<Rightarrow>
      if state (job_at s p) \<noteq> JobRunning
      then (Some (api_error ''job is not running'' ErrorCantSetJobAsSuccessful StatusBadRequest u None), s)
      else (let s = unlockJobResourcesLocked p s;
                s = add_event_now p JobEventSuccess s;
                s = notify_job p ServiceEventJobSucceeded s
            in (None, tryEnqueuePendingJobsLocked s)))"

definition CancelJob :: "JobUUID \<Rightarrow> svc \<Rightarrow> APIError option \<times> svc" where
  "CancelJob u s =
    (case lookup_job u s of
      None \<Rightarrow> (Some (api_error ''job not found'' ErrorCantCancelJob StatusBadRequest u None), s)
    | Some p \<Rightarrow>
      if state (job_at s p) \<noteq> JobRunning
      then (Some (api_error ''job is not running'' ErrorCantCancelJob StatusBadRequest u None), s)
      else (let s = add_event_now p JobEventCancel s;
                s = notify_job p ServiceEventJobCanceled s;
                s = add_event_now p JobEventEnqueue s;
                s = notify_job p ServiceEventJobEnqueued s;
                s = notifyQueuedLocked s
            in (None, tryEnqueuePendingJobsLocked s)))"

definition onJobFailedTooManyTimesLocked :: "ptr \<Rightarrow> svc \<Rightarrow> svc" where
  "onJobFailedTooManyTimesLocked p s =
    (let s = add_event_now p JobEventTerminate s;
         s = unlockJobResourcesLocked p s;
         s = notify_job p ServiceEventJobTerminated s
     in tryEnqueuePendingJobsLocked s)"

definition retryJobLaterLocked :: "ptr \<Rightarrow> int64 \<Rightarrow> svc \<Rightarrow> svc" where
  "retryJobLaterLocked p nextRetryTime s =
    (let s = add_event_now p JobEventHide s;
         s = unlockJobResourcesLocked p s;
         s = notify_job p ServiceEventJobHidden s;
         s = s\<lparr>sv_retry := Enqueue p (i64 (- nextRetryTime)) (sv_retry s)\<rparr>
     in tryEnqueuePendingJobsLocked s)"

text \<open>The result is the flag \<^verbatim>\<open>reachedMaxRetry\<close> and the error.\<close>

definition failJobLocked :: "JobUUID \<Rightarrow> svc \<Rightarrow> (bool \<times> APIError option) \<times> svc" where
  "failJobLocked u s =
    (case lookup_job u s of
      None \<Rightarrow> ((False, Some (api_error ''job not found'' ErrorCantFailJob StatusBadRequest u None)), s)
    | Some p \<Rightarrow>
      if state (job_at s p) \<noteq> JobRunning
      then ((False, Some (api_error ''job is not running'' ErrorCantFailJob StatusBadRequest u None)), s)
      else (let s = add_event_now p JobEventFail s;
                s = notify_job p ServiceEventJobFailed s;
                policy = conf_RetryPolicy (sv_conf s);
                failures = GetCountFaillures (job_at s p)
            in if failures \<ge> rp_MaxRetry policy
               then ((True, None), onJobFailedTooManyTimesLocked p s)
               else let delay = ComputeDelay (env_exp_ms (sv_env s)) (rp_BackoffStrategy policy) failures;
                        (now, s) = time_now s
                 in if delay = 0
                    then case retryJobLocked p s of
                        (None, s) \<Rightarrow> ((False, None), s)
                      | (Some _, s) \<Rightarrow> ((False, None), retryJobLaterLocked p now s)
                    else ((False, None),
                      retryJobLaterLocked p (i64 (now + Milliseconds delay)) s)))"

section \<open>Other requests\<close>

definition ChangeVisibilityTimeoutJob :: "JobUUID \<Rightarrow> uint \<Rightarrow> svc \<Rightarrow> APIError option \<times> svc" where
  "ChangeVisibilityTimeoutJob u visibilityTimeout s =
    (case lookup_job u s of
      None \<Rightarrow> (Some (api_error ''job not found'' ErrorCantCloneJob StatusBadRequest u None), s)
    | Some p \<Rightarrow>
      (let s = s\<lparr>sv_store := (sv_store s)(p := (job_at s p)\<lparr>VisibilityTimeout := visibilityTimeout\<rparr>)\<rparr>
       in (None, emit (NBackendJobUpdated (job_at s p)) s)))"

definition GetJob :: "JobUUID \<Rightarrow> svc \<Rightarrow> job option" where
  "GetJob u s = map_option (\<lambda>p. Snapshot (job_at s p)) (lookup_job u s)"

definition GetJobsUUIDs :: "svc \<Rightarrow> JobUUID list" where
  "GetJobsUUIDs s = map fst (sv_jobs s)"

definition GetAllJobs :: "svc \<Rightarrow> job list" where
  "GetAllJobs s = map (\<lambda>u. Snapshot (job_at s (the (lookup_job u s)))) (sortedJobIDs (sv_jobs s))"

definition UnlockAllResources :: "svc \<Rightarrow> svc" where
  "UnlockAllResources s = tryEnqueuePendingJobsLocked (unlockAllResourcesLocked s)"

definition UnlockResource :: "string \<Rightarrow> svc \<Rightarrow> APIError option \<times> svc" where
  "UnlockResource resourceName s =
    (let topic = (case map_of (GetLockedResources (sv_locked s)) resourceName of
                    None \<Rightarrow> []
                  | Some owner \<Rightarrow> (case lookup_job owner s of
                      None \<Rightarrow> [] | Some p \<Rightarrow> Topic (job_at s p)))
     in case Resources.UnlockResource resourceName (sv_locked s) of
       (Some err, _) \<Rightarrow> (Some (api_error err ErrorResourceNotFound StatusNotFound 0 (Some err)), s)
     | (None, m) \<Rightarrow> (None, tryEnqueuePendingJobsLocked
         (emit (NMetricsResourceUnlocked resourceName topic) (s\<lparr>sv_locked := m\<rparr>))))"

definition BeginShutdown :: "svc \<Rightarrow> svc" where
  "BeginShutdown s = s\<lparr>sv_stopping := True\<rparr>"

section \<open>Periodic tasks\<close>

text \<open>
  The completed jobs are collected from a map, in an order that \<open>iter\<close> stands for (it
  permutes the list), and sorted by \<^verbatim>\<open>sort.Slice\<close>, which is not stable: a stable sort of an
  arbitrary permutation.
\<close>

definition completed_jobs :: "(ptr list \<Rightarrow> ptr list) \<Rightarrow> svc \<Rightarrow> ptr list" where
  "completed_jobs iter s =
    sort_key (\<lambda>p. GetLastUpdateDate (job_at s p))
      (iter (filter (\<lambda>p. IsCompleted (job_at s p)) (map snd (sv_jobs s))))"

fun retention_loop :: "int64 \<Rightarrow> int64 \<Rightarrow> int \<Rightarrow> int \<Rightarrow> ptr list \<Rightarrow> svc \<Rightarrow> svc" where
  "retention_loop now maxJobAge toDelete deleted [] s = s"
| "retention_loop now maxJobAge toDelete deleted (p # ps) s =
    (if deleted < toDelete \<or> i64 (now - GetLastUpdateDate (job_at s p)) \<ge> maxJobAge
     then case deleteJobLocked (JobUUID (job_at s p)) s of
         (Some _, s) \<Rightarrow> s
       | (None, s) \<Rightarrow> retention_loop now maxJobAge toDelete (deleted + 1) ps s
     else retention_loop now maxJobAge toDelete deleted ps s)"

definition retention_max_age :: "conf \<Rightarrow> int64" where
  "retention_max_age c =
    (if RetentionMaxJobAge c \<ge> 0 then i64 (max 0 (RetentionMaxJobAge c) * 1000) else 2 ^ 63 - 1)"

definition retention_count :: "conf \<Rightarrow> nat \<Rightarrow> int" where
  "retention_count c completed =
    (if RetentionMaxJobs c \<ge> 0 then max 0 (int completed - RetentionMaxJobs c) else 0)"

definition deleteOldCompletedJobsLocked :: "(ptr list \<Rightarrow> ptr list) \<Rightarrow> svc \<Rightarrow> svc" where
  "deleteOldCompletedJobsLocked iter s =
    (if \<not> RetentionEnable (sv_conf s) then s
     else let ps = completed_jobs iter s; (now, s) = time_now s
       in retention_loop now (retention_max_age (sv_conf s))
            (retention_count (sv_conf s) (length ps)) 0 ps s)"

definition CheckJobsRetention :: "(ptr list \<Rightarrow> ptr list) \<Rightarrow> svc \<Rightarrow> svc" where
  "CheckJobsRetention iter s =
    (if \<not> RetentionEnable (sv_conf s) then s
     else if sv_retention_running s then s
     else (deleteOldCompletedJobsLocked iter (s\<lparr>sv_retention_running := True\<rparr>))
            \<lparr>sv_retention_running := False\<rparr>)"

definition UpdateJobStatistics :: "svc \<Rightarrow> svc" where
  "UpdateJobStatistics s = emit (NJobStatistics (map (\<lambda>(u, p). job_at s p) (sv_jobs s))) s"

definition running_too_long :: "int64 \<Rightarrow> job \<Rightarrow> bool" where
  "running_too_long now j \<longleftrightarrow> state j = JobRunning
    \<and> i64 (now - GetLastUpdateDate j) \<ge> i64 (int (u64 (VisibilityTimeout j * 1000)))"

definition CheckJobsVisibilityTimeout :: "svc \<Rightarrow> svc" where
  "CheckJobsVisibilityTimeout s =
    (if sv_visibility_running s then s
     else let (now, s) = time_now (s\<lparr>sv_visibility_running := True\<rparr>);
              ps = filter (\<lambda>p. running_too_long now (job_at s p))
                (map (\<lambda>u. the (lookup_job u s)) (sortedJobIDs (sv_jobs s)));
              s = foldl (\<lambda>s p. snd (failJobLocked (JobUUID (job_at s p)) s)) s ps;
              s = (if length ps > 0 then tryEnqueuePendingJobsLocked s else s)
       in s\<lparr>sv_visibility_running := False\<rparr>)"

function delayed_loop :: "int64 \<Rightarrow> bool \<Rightarrow> svc \<Rightarrow> bool \<times> svc" where
  "delayed_loop minPriority found s =
    (case DequeueWithPriority minPriority (sv_delayed s) of
      (None, _) \<Rightarrow> (found, s)
    | (Some n, q) \<Rightarrow>
        delayed_loop minPriority True (setJobStateToPendingLocked (fst n) (s\<lparr>sv_delayed := q\<rparr>)))"
  by pat_completeness auto
termination
  by (relation "measure (\<lambda>(m, f, s). length (pq_nodes (sv_delayed s)))")
    (auto dest: DequeueWithPriority_shrinks[OF sym])

declare delayed_loop.simps [simp del]

definition CheckDelayedJobs :: "svc \<Rightarrow> svc" where
  "CheckDelayedJobs s =
    (if sv_delay_running s then s
     else let (now, s) = time_now (s\<lparr>sv_delay_running := True\<rparr>);
              (found, s) = delayed_loop (i64 (- now)) False s;
              s = (if found then tryEnqueuePendingJobsLocked s else s)
       in s\<lparr>sv_delay_running := False\<rparr>)"

text \<open>One turn of the loop of \<^verbatim>\<open>Run\<close>.\<close>

datatype tick = PendingTick | RetryTick | VisibilityTick | DelayedTick
  | RetentionTick "ptr list \<Rightarrow> ptr list" | StatsTick

fun run_tick :: "tick \<Rightarrow> svc \<Rightarrow> svc" where
  "run_tick PendingTick s = tryEnqueuePendingJobsLocked s"
| "run_tick RetryTick s = AttemptJobRetries s"
| "run_tick VisibilityTick s = CheckJobsVisibilityTimeout s"
| "run_tick DelayedTick s = CheckDelayedJobs s"
| "run_tick (RetentionTick iter) s = CheckJobsRetention iter s"
| "run_tick StatsTick s = UpdateJobStatistics s"

section \<open>Loading the jobs of the backend\<close>

text \<open>\<open>loaded\<close> is what \<^verbatim>\<open>LoadJobs\<close> of the provider returns; its jobs get addresses.\<close>

definition place_job :: "JobUUID \<times> job \<Rightarrow> svc \<Rightarrow> svc" where
  "place_job uj s = s\<lparr>sv_store := (sv_store s)(sv_next s := snd uj), sv_next := sv_next s + 1,
      sv_jobs := AList.update (fst uj) (sv_next s) (sv_jobs s)\<rparr>"

text \<open>One turn of the loop over the sorted ids.\<close>

definition load_job :: "int64 \<Rightarrow> JobUUID \<Rightarrow> svc \<Rightarrow> svc" where
  "load_job now u s =
    (let p = the (lookup_job u s); j = job_at s p;
         s = (case state j of
             JobPending \<Rightarrow> s\<lparr>sv_pending := AList.update (JobUUID j) p (sv_pending s)\<rparr>
           | JobQueued \<Rightarrow> (case add (sv_store s) p (sv_queue s) of
                 None \<Rightarrow> s\<lparr>sv_panic := True\<rparr> | Some q \<Rightarrow> s\<lparr>sv_queue := q\<rparr>)
           | JobHidden \<Rightarrow> s\<lparr>sv_retry := Enqueue p (i64 (- now)) (sv_retry s)\<rparr>
           | JobDelayed \<Rightarrow> s\<lparr>sv_delayed := Enqueue p (i64 (- StartAfter j)) (sv_delayed s)\<rparr>
           | _ \<Rightarrow> s)
     in UpdateResourcesLockedCountMetric (Topic j) 0 (notify_job p ServiceEventJobLoaded s))"

definition locked_counts :: "svc \<Rightarrow> (string, int) gomap" where
  "locked_counts s =
    foldl (\<lambda>counts (r, owner). case lookup_job owner s of
        None \<Rightarrow> counts
      | Some p \<Rightarrow> (let t = Topic (job_at s p);
                       n = (case map_of counts t of None \<Rightarrow> 0 | Some n \<Rightarrow> n)
                   in AList.update t (n + 1) counts))
      [] (GetLockedResources (sv_locked s))"

definition schedule_loaded_job :: "ptr \<Rightarrow> svc \<Rightarrow> svc" where
  "schedule_loaded_job p s =
    (let (early, s) = (if StartAfter (job_at s p) = 0 then (False, s)
                       else let (now, s) = time_now s in (StartAfter (job_at s p) > now, s))
     in if early then setJobStateToDelayedLocked p s else setJobStateToPendingLocked p s)"

definition LoadJobs :: "string + (JobUUID \<times> job) list \<Rightarrow> svc \<Rightarrow> string option \<times> svc" where
  "LoadJobs loaded s =
    (case loaded of
      Inl err \<Rightarrow> (Some err, s\<lparr>sv_jobs := []\<rparr>)
    | Inr ujs \<Rightarrow>
      (let s = foldl (\<lambda>s uj. place_job uj s) (s\<lparr>sv_jobs := []\<rparr>) ujs;
           s = s\<lparr>sv_locked := LockResourcesForJobs (\<lambda>u. job_at s (the (lookup_job u s))) (sv_jobs s)\<rparr>;
           s = emit (NRestoreFlag True) s;
           s = s\<lparr>sv_pending := []\<rparr>;
           (now, s) = time_now s;
           ids = sortedJobIDs (sv_jobs s);
           created = filter (\<lambda>p. state (job_at s p) = JobCreated) (map (\<lambda>u. the (lookup_job u s)) ids);
           s = foldl (\<lambda>s u. load_job now u s) s ids;
           s = foldl (\<lambda>s (t, n). UpdateResourcesLockedCountMetric t n s) s (locked_counts s);
           s = emit (NRestoreFlag False) s;
           s = foldl (\<lambda>s p. schedule_loaded_job p s) s created
       in (None, if length created > 0 then tryEnqueuePendingJobsLocked s else s)))"

section \<open>Listing jobs\<close>

record GetJobsRequest =
  gj_Page :: int64
  gj_Limit :: int64
  gj_Status :: string
  gj_Topic :: string
  gj_Sort :: string
  gj_Search :: string

record GetJobsResponse =
  gr_Jobs :: "job list"
  gr_Total :: int64
  gr_Page :: int64
  gr_Limit :: int64
  gr_TotalPages :: int64

text \<open>
  \<^verbatim>\<open>strings.ToLower\<close> and \<^verbatim>\<open>strings.TrimSpace\<close> on ASCII text; bytes outside ASCII are left
  as they are.
\<close>

definition lower_char :: "char \<Rightarrow> char" where
  "lower_char c = (let n = (of_char c :: nat) in if 65 \<le> n \<and> n \<le> 90 then char_of (n + 32) else c)"

definition to_lower :: "string \<Rightarrow> string" where
  "to_lower s = map lower_char s"

definition stringToJobState :: "string \<Rightarrow> JobState" where
  "stringToJobState status =
    (let s = to_lower status in
     if s = ''created'' then JobCreated else if s = ''delayed'' then JobDelayed
     else if s = ''pending'' then JobPending else if s = ''queued'' then JobQueued
     else if s = ''running'' then JobRunning else if s = ''succeeded'' then JobSucceeded
     else if s = ''failed'' then JobFailed else if s = ''canceled'' then JobCanceled
     else if s = ''deleted'' then JobDeleted else if s = ''hidden'' then JobHidden
     else JobNoState)"

definition contains :: "string \<Rightarrow> string \<Rightarrow> bool" where
  "contains s substr \<longleftrightarrow> sublist (to_lower substr) (to_lower s)"

text \<open>One turn of the filter loop: the conditions that skip a job, in order.\<close>

definition keep_job :: "(JobUUID \<Rightarrow> string) \<Rightarrow> GetJobsRequest \<Rightarrow> job \<Rightarrow> bool" where
  "keep_job uuid_string req j \<longleftrightarrow>
    \<not> (gj_Status req \<noteq> [] \<and> (stringToJobState (gj_Status req) = JobNoState
         \<or> state j \<noteq> stringToJobState (gj_Status req)))
    \<and> \<not> (gj_Topic req \<noteq> [] \<and> Topic j \<noteq> gj_Topic req)
    \<and> \<not> (gj_Search req \<noteq> [] \<and> \<not> contains (uuid_string (JobUUID j)) (gj_Search req))"

definition filterJobs :: "(JobUUID \<Rightarrow> string) \<Rightarrow> job list \<Rightarrow> GetJobsRequest \<Rightarrow> job list" where
  "filterJobs uuid_string js req = filter (keep_job uuid_string req) js"

datatype sort_field = byCreated | byUpdated | byPriority | byTopic

fun split_on :: "char \<Rightarrow> string \<Rightarrow> string list" where
  "split_on c [] = [[]]"
| "split_on c (x # xs) =
    (if x = c then [] # split_on c xs
     else case split_on c xs of [] \<Rightarrow> [[x]] | p # ps \<Rightarrow> (x # p) # ps)"

definition is_space :: "char \<Rightarrow> bool" where
  "is_space c \<longleftrightarrow> (of_char c :: nat) \<in> {9, 10, 11, 12, 13, 32}"

definition trim_space :: "string \<Rightarrow> string" where
  "trim_space s = rev (dropWhile is_space (rev (dropWhile is_space s)))"

definition parse_criterion :: "string \<Rightarrow> (sort_field \<times> bool) option" where
  "parse_criterion c = map_of [
    (''created_asc'', (byCreated, False)), (''created_desc'', (byCreated, True)),
    (''priority_asc'', (byPriority, False)), (''priority_desc'', (byPriority, True)),
    (''updated_asc'', (byUpdated, False)), (''updated_desc'', (byUpdated, True)),
    (''topic_asc'', (byTopic, False)), (''topic_desc'', (byTopic, True))] (trim_space c)"

definition sort_criteria :: "string \<Rightarrow> (sort_field \<times> bool) list" where
  "sort_criteria sortParam =
    List.map_filter parse_criterion
      (split_on (CHR '','') (if sortParam = [] then ''created_desc'' else sortParam))"

definition creation :: "job \<Rightarrow> int64" where
  "creation j = (case GetCreationTimestamp j of None \<Rightarrow> 0 | Some t \<Rightarrow> t)"

text \<open>Strings are compared byte by byte (the lexicographic order of the library).\<close>

fun compare_field :: "sort_field \<Rightarrow> job \<Rightarrow> job \<Rightarrow> int" where
  "compare_field byCreated a b = cmp_compare (creation a) (creation b)"
| "compare_field byUpdated a b = cmp_compare (GetLastUpdateDate a) (GetLastUpdateDate b)"
| "compare_field byPriority a b = cmp_compare (Priority a) (Priority b)"
| "compare_field byTopic a b = cmp_compare (Topic a) (Topic b)"

fun compare_criteria :: "(sort_field \<times> bool) list \<Rightarrow> job \<Rightarrow> job \<Rightarrow> int" where
  "compare_criteria [] a b =
    (let r = cmp_compare (creation a) (creation b)
     in if r \<noteq> 0 then r else cmp_compare (JobUUID a) (JobUUID b))"
| "compare_criteria ((f, desc) # cs) a b =
    (let r = (if desc then - compare_field f a b else compare_field f a b)
     in if r \<noteq> 0 then r else compare_criteria cs a b)"

definition sortJobs :: "job list \<Rightarrow> string \<Rightarrow> job list" where
  "sortJobs js sortParam = sort_func (compare_criteria (sort_criteria sortParam)) js"

text \<open>
  \<open>None\<close> is a panic: the division by a zero limit, a slice whose end is before its start, or
  the comparison of a job without creation timestamp (\<open>creation\<close> is only used when there is
  none). The sort is by a total order: the order in which the code ranges over the
  jobs does not matter.
\<close>

definition GetJobs :: "GetJobsRequest \<Rightarrow> svc \<Rightarrow> GetJobsResponse option" where
  "GetJobs req s =
    (let allJobs = map (\<lambda>(u, p). job_at s p) (sv_jobs s);
         filtered = filterJobs (env_uuid_string (sv_env s)) allJobs req
     in if list_ex (\<lambda>j. GetCreationTimestamp j = None) filtered \<or> gj_Limit req = 0 then None
     else let sorted_jobs = sortJobs filtered (gj_Sort req);
              total = int (length sorted_jobs);
              pages = go_div (i64 (i64 (total + gj_Limit req) - 1)) (gj_Limit req);
              totalPages = (if gj_Limit req \<le> 0 then 1 else pages);
              start = i64 (i64 (gj_Page req - 1) * gj_Limit req);
              stop = i64 (start + gj_Limit req);
              start = (if start < 0 then 0 else start);
              stop = (if stop > total then total else stop)
       in if start < total \<and> stop < start then None
       else Some \<lparr>gr_Jobs = (if start < total
               then map Snapshot (take (nat (stop - start)) (drop (nat start) sorted_jobs)) else []),
             gr_Total = total, gr_Page = gj_Page req, gr_Limit = gj_Limit req,
             gr_TotalPages = totalPages\<rparr>)"

end
