(* ===== verification/ServiceInv.thy ===== *)
theory ServiceInv
  imports Service
begin

text \<open>
  The invariant of the scheduler. A job of the map is where its state says: the pending
  jobs in the map of pending jobs, the queued jobs in the index, the hidden jobs in the
  retry queue, the delayed jobs in the delayed queue, and nowhere else; a lock belongs to a
  queued or running job that lists the resource. While an operation changes a job the job
  is an exception: \<open>inv_except E\<close> is the invariant for the jobs outside \<open>E\<close>. The section
  on reachability shows the invariant for every interleaving of the requests and of the
  periodic tasks.
\<close>

named_theorems svc_sel

section \<open>Where the jobs are\<close>

definition live :: "svc \<Rightarrow> ptr set" where
  "live s = ran (map_of (sv_jobs s))"

definition pend :: "svc \<Rightarrow> ptr set" where
  "pend s = ran (map_of (sv_pending s))"

definition retr :: "svc \<Rightarrow> ptr set" where
  "retr s = fst ` set (pq_nodes (sv_retry s))"

definition dela :: "svc \<Rightarrow> ptr set" where
  "dela s = fst ` set (pq_nodes (sv_delayed s))"

definition in_state :: "svc \<Rightarrow> JobState \<Rightarrow> ptr set" where
  "in_state s X = {p \<in> live s. state (job_at s p) = X}"

definition pq_ok :: "ptr set \<Rightarrow> ptr PriorityQueue \<Rightarrow> bool" where
  "pq_ok L q \<longleftrightarrow> pq_wf q \<and> distinct (map fst (pq_nodes q)) \<and> fst ` set (pq_nodes q) \<subseteq> L"

definition base_inv :: "svc \<Rightarrow> bool" where
  "base_inv s \<longleftrightarrow>
    wf_map (sv_jobs s)
    \<and> (\<forall>u p. map_of (sv_jobs s) u = Some p \<longrightarrow> JobUUID (job_at s p) = u \<and> p < sv_next s)
    \<and> (\<forall>p \<in> live s. History (job_at s p) \<noteq> [] \<and> synced (job_at s p))
    \<and> queue_wf (sv_store s) (sv_queue s) \<and> q_entries (sv_queue s) = in_state s JobQueued
    \<and> wf_map (sv_pending s)
    \<and> (\<forall>u p. map_of (sv_pending s) u = Some p \<longrightarrow> map_of (sv_jobs s) u = Some p)
    \<and> pq_ok (live s) (sv_retry s) \<and> pq_ok (live s) (sv_delayed s)
    \<and> wf_map (sv_locked s)
    \<and> ran (map_of (sv_locked s)) \<subseteq> dom (map_of (sv_jobs s))
    \<and> \<not> sv_panic s"

definition placed :: "svc \<Rightarrow> ptr \<Rightarrow> bool" where
  "placed s p \<longleftrightarrow>
    (p \<in> pend s \<longleftrightarrow> state (job_at s p) = JobPending)
    \<and> (p \<in> retr s \<longleftrightarrow> state (job_at s p) = JobHidden)
    \<and> (p \<in> dela s \<longleftrightarrow> state (job_at s p) = JobDelayed)
    \<and> (\<forall>r. map_of (sv_locked s) r = Some (JobUUID (job_at s p)) \<longrightarrow>
        r \<in> set (LockResources (job_at s p)) \<and> state (job_at s p) \<in> {JobQueued, JobRunning})"

definition inv_except :: "ptr set \<Rightarrow> svc \<Rightarrow> bool" where
  "inv_except E s \<longleftrightarrow> base_inv s \<and> (\<forall>p \<in> live s - E. placed s p)"

definition svc_inv :: "svc \<Rightarrow> bool" where
  "svc_inv s \<longleftrightarrow> inv_except {} s"

section \<open>Selectors\<close>

lemma emit_sel [svc_sel, simp]:
  "sv_env (emit e s) = sv_env s" "sv_conf (emit e s) = sv_conf s"
  "sv_store (emit e s) = sv_store s" "sv_next (emit e s) = sv_next s"
  "sv_jobs (emit e s) = sv_jobs s" "sv_pending (emit e s) = sv_pending s"
  "sv_queue (emit e s) = sv_queue s" "sv_retry (emit e s) = sv_retry s"
  "sv_delayed (emit e s) = sv_delayed s" "sv_locked (emit e s) = sv_locked s"
  "sv_reads (emit e s) = sv_reads s" "sv_uuids (emit e s) = sv_uuids s"
  "sv_panic (emit e s) = sv_panic s" "sv_out (emit e s) = sv_out s @ [e]"
  by (simp_all add: emit_def)

lemma inv_except_fields:
  assumes "sv_store s' = sv_store s" "sv_next s' = sv_next s" "sv_jobs s' = sv_jobs s"
    "sv_pending s' = sv_pending s" "sv_queue s' = sv_queue s" "sv_retry s' = sv_retry s"
    "sv_delayed s' = sv_delayed s" "sv_locked s' = sv_locked s" "sv_panic s' = sv_panic s"
  shows "inv_except E s' = inv_except E s"
proof -
  have "live s' = live s" "pend s' = pend s" "retr s' = retr s" "dela s' = dela s"
    "in_state s' = in_state s"
    using assms by (simp_all add: live_def pend_def retr_def dela_def in_state_def fun_eq_iff)
  then show ?thesis using assms by (simp add: inv_except_def base_inv_def placed_def)
qed

lemma inv_emit [simp]: "inv_except E (emit e s) = inv_except E s"
  by (rule inv_except_fields) simp_all

lemma time_now_snd: "snd (time_now s) = s\<lparr>sv_reads := sv_reads s + 1\<rparr>"
  by (simp add: time_now_def)

lemma inv_reads [simp]: "inv_except E (s\<lparr>sv_reads := n\<rparr>) = inv_except E s"
  by (rule inv_except_fields) simp_all

lemma inv_uuids [simp]: "inv_except E (s\<lparr>sv_uuids := n\<rparr>) = inv_except E s"
  by (rule inv_except_fields) simp_all

lemma inv_flags [simp]:
  "inv_except E (s\<lparr>sv_retention_running := b\<rparr>) = inv_except E s"
  "inv_except E (s\<lparr>sv_visibility_running := b\<rparr>) = inv_except E s"
  "inv_except E (s\<lparr>sv_delay_running := b\<rparr>) = inv_except E s"
  "inv_except E (s\<lparr>sv_stopping := b\<rparr>) = inv_except E s"
  by (rule inv_except_fields; simp)+

lemma live_iff: "base_inv s \<Longrightarrow> p \<in> live s \<longleftrightarrow> map_of (sv_jobs s) (JobUUID (job_at s p)) = Some p"
  by (auto simp: live_def ran_def base_inv_def)

lemma live_inj: "base_inv s \<Longrightarrow> p \<in> live s \<Longrightarrow> q \<in> live s \<Longrightarrow>
    JobUUID (job_at s p) = JobUUID (job_at s q) \<Longrightarrow> p = q"
  by (metis live_iff option.inject)

lemma lookup_live: "base_inv s \<Longrightarrow> lookup_job u s = Some p \<Longrightarrow>
    p \<in> live s \<and> JobUUID (job_at s p) = u"
  by (auto simp: lookup_job_def live_def ran_def base_inv_def)

lemma inv_except_mono: "inv_except E s \<Longrightarrow> E \<subseteq> F \<Longrightarrow> inv_except F s"
  by (auto simp: inv_except_def)

lemma inv_close: "inv_except (insert p E) s \<Longrightarrow> placed s p \<Longrightarrow> inv_except E s"
  by (auto simp: inv_except_def)

section \<open>The primitive changes\<close>

lemma addHistoryEventLocked_sel [simp]:
  "sv_env (addHistoryEventLocked p ev ts s) = sv_env s"
  "sv_conf (addHistoryEventLocked p ev ts s) = sv_conf s"
  "sv_store (addHistoryEventLocked p ev ts s) =
    (sv_store s)(p := AddHistoryEvent ev ts (job_at s p))"
  "sv_next (addHistoryEventLocked p ev ts s) = sv_next s"
  "sv_jobs (addHistoryEventLocked p ev ts s) = sv_jobs s"
  "sv_pending (addHistoryEventLocked p ev ts s) = sv_pending s"
  "sv_locked (addHistoryEventLocked p ev ts s) = sv_locked s"
  "sv_reads (addHistoryEventLocked p ev ts s) = sv_reads s"
  "sv_uuids (addHistoryEventLocked p ev ts s) = sv_uuids s"
  "sv_out (addHistoryEventLocked p ev ts s) = sv_out s"
  by (simp_all add: addHistoryEventLocked_def Let_def split: option.splits)

lemma add_event_now_eq:
  "add_event_now p ev s =
    addHistoryEventLocked p ev (env_clock (sv_env s) (sv_reads s)) (s\<lparr>sv_reads := sv_reads s + 1\<rparr>)"
  by (simp add: add_event_now_def time_now_def)

lemma add_event_now_sel [simp]:
  "sv_env (add_event_now p ev s) = sv_env s"
  "sv_conf (add_event_now p ev s) = sv_conf s"
  "sv_store (add_event_now p ev s) =
    (sv_store s)(p := AddHistoryEvent ev (env_clock (sv_env s) (sv_reads s)) (job_at s p))"
  "sv_next (add_event_now p ev s) = sv_next s"
  "sv_jobs (add_event_now p ev s) = sv_jobs s"
  "sv_pending (add_event_now p ev s) = sv_pending s"
  "sv_locked (add_event_now p ev s) = sv_locked s"
  "sv_uuids (add_event_now p ev s) = sv_uuids s"
  "sv_out (add_event_now p ev s) = sv_out s"
  by (simp_all add: add_event_now_eq)

lemma placement_sel [simp]:
  "live (addHistoryEventLocked p ev ts s) = live s"
  "pend (addHistoryEventLocked p ev ts s) = pend s"
  "retr (addHistoryEventLocked p ev ts s) = retr s"
  "dela (addHistoryEventLocked p ev ts s) = dela s"
  "live (add_event_now p ev s) = live s"
  "pend (add_event_now p ev s) = pend s"
  "retr (add_event_now p ev s) = retr s"
  "dela (add_event_now p ev s) = dela s"
  "live (emit e s) = live s" "pend (emit e s) = pend s"
  "retr (emit e s) = retr s" "dela (emit e s) = dela s"
  by (simp_all add: live_def pend_def retr_def dela_def)

lemma queue_addHistory:
  assumes b: "base_inv s" and p: "p \<in> live s"
  shows "queue_wf (sv_store (addHistoryEventLocked p ev ts s)) (sv_queue (addHistoryEventLocked p ev ts s))
    \<and> q_entries (sv_queue (addHistoryEventLocked p ev ts s)) =
        in_state (addHistoryEventLocked p ev ts s) JobQueued
    \<and> \<not> sv_panic (addHistoryEventLocked p ev ts s)"
proof -
  define st' where "st' = (sv_store s)(p := AddHistoryEvent ev ts (job_at s p))"
  define q1 where "q1 = (if state (job_at s p) = JobQueued then remove (sv_store s) p (sv_queue s)
    else sv_queue s)"
  have w: "queue_wf (sv_store s) (sv_queue s)" "q_entries (sv_queue s) = in_state s JobQueued"
    "\<not> sv_panic s" using b by (auto simp: base_inv_def)
  have q1: "queue_wf (sv_store s) q1" "q_entries q1 = in_state s JobQueued - {p}"
    using remove_spec[OF w(1), of p] w by (auto simp: q1_def in_state_def)
  have q1': "queue_wf st' q1"
    by (rule queue_wf_cong[OF q1(1)]) (auto simp: st'_def q1(2))
  have other: "state (st' x) = state (job_at s x)" if "x \<noteq> p" for x using that by (simp add: st'_def)
  show ?thesis
  proof (cases "GetStateFromEvent ev = JobQueued")
    case False
    have "addHistoryEventLocked p ev ts s = s\<lparr>sv_queue := q1, sv_store := st'\<rparr>"
      using False by (auto simp: addHistoryEventLocked_def Let_def st'_def q1_def)
    moreover have "in_state (s\<lparr>sv_queue := q1, sv_store := st'\<rparr>) JobQueued = in_state s JobQueued - {p}"
      using False other by (auto simp: in_state_def live_def st'_def)
    ultimately show ?thesis using q1' q1 w by simp
  next
    case True
    have c: "GetCreationTimestamp (st' p) \<noteq> None" by (simp add: st'_def split: option.splits)
    have u: "x = p" if "x \<in> q_entries q1" "JobUUID (st' x) = JobUUID (st' p)" for x
      using that live_inj[OF b, of x p] p q1(2) by (auto simp: st'_def in_state_def split: if_splits)
    obtain q' where q': "add st' p q1 = Some q'" "queue_wf st' q'"
      "q_entries q' = insert p (q_entries q1)"
      using add_spec[OF q1' c u] by auto
    have "addHistoryEventLocked p ev ts s = s\<lparr>sv_queue := q', sv_store := st'\<rparr>"
      using True q' by (auto simp: addHistoryEventLocked_def Let_def st'_def q1_def split: option.splits)
    moreover have "in_state (s\<lparr>sv_queue := q', sv_store := st'\<rparr>) JobQueued = insert p (in_state s JobQueued)"
      using True other p by (auto simp: in_state_def live_def st'_def)
    ultimately show ?thesis using q' q1 w by simp
  qed
qed

lemma base_addHistory:
  assumes b: "base_inv s" and p: "p \<in> live s"
  shows "base_inv (addHistoryEventLocked p ev ts s)"
  using queue_addHistory[OF b p, of ev ts] b p
  by (auto simp: base_inv_def synced_AddHistoryEvent)

lemma placed_addHistory:
  "q \<noteq> p \<Longrightarrow> placed (addHistoryEventLocked p ev ts s) q = placed s q"
  by (simp add: placed_def)

lemma inv_addHistory:
  assumes "inv_except E s" "p \<in> live s"
  shows "inv_except (insert p E) (addHistoryEventLocked p ev ts s)"
  using assms base_addHistory[of s p ev ts] placed_addHistory[of _ p ev ts s]
  by (auto simp: inv_except_def)

lemma inv_add_event_now:
  assumes "inv_except E s" "p \<in> live s"
  shows "inv_except (insert p E) (add_event_now p ev s)"
  using inv_addHistory[of E "s\<lparr>sv_reads := sv_reads s + 1\<rparr>" p ev] assms
  by (simp add: add_event_now_eq live_def)

text \<open>Locks: only the map of locks changes, for the id of the job.\<close>

definition owned :: "svc \<Rightarrow> ptr \<Rightarrow> string set" where
  "owned s p = {r. map_of (sv_locked s) r = Some (JobUUID (job_at s p))}"

lemma inv_locked_update:
  assumes i: "inv_except E s" and p: "p \<in> live s"
    and m: "wf_map m" "\<And>r u. u \<noteq> JobUUID (job_at s p) \<Longrightarrow>
      map_of m r = Some u \<longleftrightarrow> map_of (sv_locked s) r = Some u"
  shows "inv_except (insert p E) (s\<lparr>sv_locked := m\<rparr>)"
proof -
  have b: "base_inv s" using i by (simp add: inv_except_def)
  have pl: "map_of (sv_jobs s) (JobUUID (job_at s p)) = Some p" using b p live_iff by blast
  let ?s = "s\<lparr>sv_locked := m\<rparr>"
  have v: "live ?s = live s" "pend ?s = pend s" "retr ?s = retr s" "dela ?s = dela s"
    "in_state ?s = in_state s"
    by (auto simp: live_def pend_def retr_def dela_def in_state_def fun_eq_iff)
  have "u \<in> dom (map_of (sv_jobs s))" if "u \<in> ran (map_of m)" for u
  proof (cases "u = JobUUID (job_at s p)")
    case True
    then show ?thesis using pl by auto
  next
    case False
    then show ?thesis using that m(2)[OF False] b
      by (auto simp: base_inv_def ran_def subset_iff)
  qed
  then have "base_inv ?s" using b m(1) v by (auto simp: base_inv_def)
  moreover have "placed ?s q" if "q \<in> live s" "q \<notin> insert p E" for q
  proof -
    have "JobUUID (job_at s q) \<noteq> JobUUID (job_at s p)" using live_inj[OF b] that p by blast
    moreover have "placed s q" using i that by (auto simp: inv_except_def)
    ultimately show ?thesis using m(2) v by (simp add: placed_def)
  qed
  ultimately show ?thesis using v by (simp add: inv_except_def)
qed

lemma lockResourcesLocked_error:
  "lockResourcesLocked p s = (Some e, s') \<Longrightarrow> s' = s"
  by (auto simp: lockResourcesLocked_def split: sum.splits prod.splits)

lemma lockResourcesLocked_error_iff:
  "fst (lockResourcesLocked p s) = None \<longleftrightarrow>
    lock_of (JobUUID (job_at s p)) (LockResources (job_at s p)) (sv_locked s) \<noteq> None"
  by (auto simp: lockResourcesLocked_def lockResources_lock_of split: option.splits)

lemma lockResourcesLocked_ok:
  assumes "lockResourcesLocked p s = (None, s')"
  obtains m a where
    "s' = emit (NLockedCount (Topic (job_at s p)) (int a)) (s\<lparr>sv_locked := m\<rparr>)"
    "lock_of (JobUUID (job_at s p)) (LockResources (job_at s p)) (sv_locked s) = Some m"
    "acquire_all (JobUUID (job_at s p)) (LockResources (job_at s p)) (0, sv_locked s) = (a, m)"
proof -
  obtain m where l: "lock_of (JobUUID (job_at s p)) (LockResources (job_at s p)) (sv_locked s) = Some m"
    using assms lockResourcesLocked_error_iff[of p s] by auto
  obtain a m' where a: "acquire_all (JobUUID (job_at s p)) (LockResources (job_at s p)) (0, sv_locked s) = (a, m')"
    by fastforce
  have "m' = m" using l a by (auto simp: lock_of_def split: if_splits)
  then show thesis using assms l a
    by (intro that[of a m])
      (auto simp: lockResourcesLocked_def lockResources_lock_of UpdateResourcesLockedCountMetric_def)
qed

lemma lockResourcesLocked_frame:
  assumes "lockResourcesLocked p s = (e, s')"
  shows "sv_env s' = sv_env s" "sv_conf s' = sv_conf s" "sv_store s' = sv_store s"
    "sv_next s' = sv_next s" "sv_jobs s' = sv_jobs s" "sv_pending s' = sv_pending s"
    "sv_queue s' = sv_queue s" "sv_retry s' = sv_retry s" "sv_delayed s' = sv_delayed s"
    "sv_panic s' = sv_panic s" "sv_reads s' = sv_reads s"
    "live s' = live s" "pend s' = pend s" "retr s' = retr s" "dela s' = dela s"
  using assms
  by (cases e; auto simp: live_def pend_def retr_def dela_def
      elim!: lockResourcesLocked_ok dest: lockResourcesLocked_error)+

lemma inv_lock:
  assumes i: "inv_except E s" and p: "p \<in> live s" and r: "lockResourcesLocked p s = (None, s')"
  shows "inv_except (insert p E) s'"
    "owned s' p \<subseteq> owned s p \<union> set (LockResources (job_at s p))"
proof -
  obtain m a where s': "s' = emit (NLockedCount (Topic (job_at s p)) (int a)) (s\<lparr>sv_locked := m\<rparr>)"
    and l: "lock_of (JobUUID (job_at s p)) (LockResources (job_at s p)) (sv_locked s) = Some m"
    and q: "acquire_all (JobUUID (job_at s p)) (LockResources (job_at s p)) (0, sv_locked s) = (a, m)"
    using r by (rule lockResourcesLocked_ok)
  have "wf_map (sv_locked s)" using i by (simp add: inv_except_def base_inv_def)
  then have m: "wf_map m" using acquire_all_spec[OF q] by simp
  have o: "map_of m x = Some u \<longleftrightarrow> map_of (sv_locked s) x = Some u"
    if "u \<noteq> JobUUID (job_at s p)" for x u
    using locks.lock_owner[OF l, of x] locks.lock_keeps[OF l, of x u] that by auto
  show "inv_except (insert p E) s'" using inv_locked_update[OF i p m o] s' by simp
  show "owned s' p \<subseteq> owned s p \<union> set (LockResources (job_at s p))"
    using locks.lock_owner[OF l] s' by (auto simp: owned_def split: if_splits)
qed

lemma unlockJobResourcesLocked_eq:
  "\<exists>out. unlockJobResourcesLocked p s = s\<lparr>sv_locked :=
      unlock_of (JobUUID (job_at s p)) (LockResources (job_at s p)) (sv_locked s), sv_out := out\<rparr>"
proof -
  have f: "\<exists>out. foldl (\<lambda>s r. emit (NBackendResourceUnlocked (job_at s p) r) s) t rs = t\<lparr>sv_out := out\<rparr>"
    for rs :: "string list" and t
  proof (induction rs arbitrary: t)
    case Nil
    show ?case by (rule exI[of _ "sv_out t"]) simp
  next
    case (Cons r rs)
    from Cons[of "emit (NBackendResourceUnlocked (job_at t p) r) t"] show ?case
      by (auto simp: emit_def)
  qed
  obtain d m where u: "UnlockResources (job_at s p) (sv_locked s) = (d, m)" by fastforce
  then have m: "m = unlock_of (JobUUID (job_at s p)) (LockResources (job_at s p)) (sv_locked s)"
    using UnlockResources_unlock_of[of "job_at s p" "sv_locked s"] by simp
  show ?thesis
  proof (cases "d = []")
    case True
    show ?thesis by (rule exI[of _ "sv_out s"]) (simp add: unlockJobResourcesLocked_def u m True)
  next
    case False
    then show ?thesis
      using f[of "UpdateResourcesLockedCountMetric (Topic (job_at s p)) (- int (length d)) (s\<lparr>sv_locked := m\<rparr>)" d]
      by (auto simp: unlockJobResourcesLocked_def u m UpdateResourcesLockedCountMetric_def emit_def
          Let_def)
  qed
qed

lemma unlockJobResourcesLocked_sel [simp]:
  "sv_env (unlockJobResourcesLocked p s) = sv_env s"
  "sv_conf (unlockJobResourcesLocked p s) = sv_conf s"
  "sv_store (unlockJobResourcesLocked p s) = sv_store s"
  "sv_next (unlockJobResourcesLocked p s) = sv_next s"
  "sv_jobs (unlockJobResourcesLocked p s) = sv_jobs s"
  "sv_pending (unlockJobResourcesLocked p s) = sv_pending s"
  "sv_queue (unlockJobResourcesLocked p s) = sv_queue s"
  "sv_retry (unlockJobResourcesLocked p s) = sv_retry s"
  "sv_delayed (unlockJobResourcesLocked p s) = sv_delayed s"
  "sv_reads (unlockJobResourcesLocked p s) = sv_reads s"
  "sv_panic (unlockJobResourcesLocked p s) = sv_panic s"
  "sv_locked (unlockJobResourcesLocked p s) =
    unlock_of (JobUUID (job_at s p)) (LockResources (job_at s p)) (sv_locked s)"
  using unlockJobResourcesLocked_eq[of p s] by (elim exE; simp)+

lemma unlock_placement_sel [simp]:
  "live (unlockJobResourcesLocked p s) = live s"
  "pend (unlockJobResourcesLocked p s) = pend s"
  "retr (unlockJobResourcesLocked p s) = retr s"
  "dela (unlockJobResourcesLocked p s) = dela s"
  by (simp_all add: live_def pend_def retr_def dela_def)

lemma inv_unlock:
  assumes i: "inv_except E s" and p: "p \<in> live s"
  shows "inv_except (insert p E) (unlockJobResourcesLocked p s)"
    "owned (unlockJobResourcesLocked p s) p = owned s p - set (LockResources (job_at s p))"
proof -
  let ?m = "unlock_of (JobUUID (job_at s p)) (LockResources (job_at s p)) (sv_locked s)"
  have "wf_map (sv_locked s)" using i by (simp add: inv_except_def base_inv_def)
  then have m: "wf_map ?m"
    using release_all_spec[of "JobUUID (job_at s p)" "LockResources (job_at s p)" "[]" "sv_locked s"]
    by (metis surjective_pairing unlock_of_def)
  have "inv_except (insert p E) (s\<lparr>sv_locked := ?m\<rparr>)"
    by (rule inv_locked_update[OF i p m]) (auto simp: locks.unlock_owner)
  then show "inv_except (insert p E) (unlockJobResourcesLocked p s)"
    by (subst (asm) inv_except_fields[symmetric, of "unlockJobResourcesLocked p s"]) simp_all
  show "owned (unlockJobResourcesLocked p s) p = owned s p - set (LockResources (job_at s p))"
    by (auto simp: owned_def locks.unlock_owner split: if_splits)
qed

text \<open>Containers: one of them gains or loses the job.\<close>

lemma placed_iff:
  "placed s p \<longleftrightarrow>
    (p \<in> pend s \<longleftrightarrow> state (job_at s p) = JobPending)
    \<and> (p \<in> retr s \<longleftrightarrow> state (job_at s p) = JobHidden)
    \<and> (p \<in> dela s \<longleftrightarrow> state (job_at s p) = JobDelayed)
    \<and> owned s p \<subseteq> set (LockResources (job_at s p))
    \<and> (owned s p = {} \<or> state (job_at s p) \<in> {JobQueued, JobRunning})"
  by (auto simp: placed_def owned_def)

lemma base_live: "inv_except E s \<Longrightarrow> p \<in> live s \<Longrightarrow> base_inv s
    \<and> map_of (sv_jobs s) (JobUUID (job_at s p)) = Some p"
  using live_iff by (auto simp: inv_except_def)

lemma inv_containers:
  assumes i: "inv_except E s"
    and pe: "wf_map pm" "map_of pm \<subseteq>\<^sub>m map_of (sv_jobs s)"
      "\<And>q. q \<notin> E \<Longrightarrow> q \<in> ran (map_of pm) \<longleftrightarrow> q \<in> pend s"
    and re: "pq_ok (live s) rq" "\<And>q. q \<notin> E \<Longrightarrow> q \<in> fst ` set (pq_nodes rq) \<longleftrightarrow> q \<in> retr s"
    and de: "pq_ok (live s) dq" "\<And>q. q \<notin> E \<Longrightarrow> q \<in> fst ` set (pq_nodes dq) \<longleftrightarrow> q \<in> dela s"
  shows "inv_except E (s\<lparr>sv_pending := pm, sv_retry := rq, sv_delayed := dq\<rparr>)"
proof -
  let ?s = "s\<lparr>sv_pending := pm, sv_retry := rq, sv_delayed := dq\<rparr>"
  have v: "live ?s = live s" "in_state ?s = in_state s" "pend ?s = ran (map_of pm)"
    "retr ?s = fst ` set (pq_nodes rq)" "dela ?s = fst ` set (pq_nodes dq)"
    by (auto simp: live_def pend_def retr_def dela_def in_state_def fun_eq_iff)
  have "map_of (sv_jobs s) u = Some p" if "map_of pm u = Some p" for u p
    using pe(2) that by (metis domI map_le_def)
  then have "base_inv ?s" using i pe(1) re(1) de(1) v by (simp add: inv_except_def base_inv_def)
  moreover have "placed ?s q" if "q \<in> live s - E" for q
    using that i pe(3) re(2) de(2) v by (auto simp: inv_except_def placed_def)
  ultimately show ?thesis using v by (simp add: inv_except_def)
qed

lemma inv_own:
  assumes "inv_except E s"
  shows "wf_map (sv_pending s)" "map_of (sv_pending s) \<subseteq>\<^sub>m map_of (sv_jobs s)"
    "pq_ok (live s) (sv_retry s)" "pq_ok (live s) (sv_delayed s)"
  using assms by (auto simp: inv_except_def base_inv_def map_le_def dom_def)

lemma ran_keyed:
  assumes "base_inv s" "m \<subseteq>\<^sub>m map_of (sv_jobs s)"
  shows "q \<in> ran m \<longleftrightarrow> m (JobUUID (job_at s q)) = Some q"
proof -
  have "JobUUID (job_at s q) = u" if "m u = Some q" for u
  proof -
    have "map_of (sv_jobs s) u = Some q" using assms(2) that by (metis domI map_le_def)
    then show ?thesis using assms(1) by (auto simp: base_inv_def)
  qed
  then show ?thesis by (auto simp: ran_def)
qed

lemma pend_keyed:
  "inv_except E s \<Longrightarrow> q \<in> pend s \<longleftrightarrow> map_of (sv_pending s) (JobUUID (job_at s q)) = Some q"
  using ran_keyed inv_own(2) by (auto simp: pend_def inv_except_def)

lemma map_le_upd_None: "m \<subseteq>\<^sub>m n \<Longrightarrow> m(k := None) \<subseteq>\<^sub>m n"
  by (auto simp: map_le_def)

lemma pend_delete:
  assumes i: "inv_except E s" and p: "p \<in> live s"
  shows "q \<in> ran (map_of (AList.delete (JobUUID (job_at s p)) (sv_pending s)))
    \<longleftrightarrow> q \<in> pend s \<and> q \<noteq> p"
proof -
  note b = base_live[OF i p]
  have "map_of (sv_pending s) (JobUUID (job_at s p)) \<in> {None, Some p}"
    using inv_own(2)[OF i] b by (force simp: map_le_def dom_def)
  then show ?thesis
    using ran_keyed[of s "(map_of (sv_pending s))(JobUUID (job_at s p) := None)" q]
      map_le_upd_None[OF inv_own(2)[OF i]] b pend_keyed[OF i, of q] by auto
qed

lemma inv_pending_change:
  assumes i: "inv_except E s" and p: "p \<in> live s"
    and m: "wf_map m" "map_of m \<subseteq>\<^sub>m map_of (sv_jobs s)"
    and r: "\<And>q. q \<noteq> p \<Longrightarrow> q \<in> ran (map_of m) \<longleftrightarrow> q \<in> pend s"
  shows "inv_except (insert p E) (s\<lparr>sv_pending := m\<rparr>)"
proof -
  have i': "inv_except (insert p E) s" using inv_except_mono[OF i] by blast
  have "inv_except (insert p E) (s\<lparr>sv_pending := m, sv_retry := sv_retry s, sv_delayed := sv_delayed s\<rparr>)"
    by (rule inv_containers[OF i' m])
      (use r inv_own[OF i] in \<open>simp_all add: retr_def dela_def\<close>)
  then show ?thesis by simp
qed

lemma inv_pending_delete:
  assumes i: "inv_except E s" and p: "p \<in> live s"
  shows "inv_except (insert p E)
      (s\<lparr>sv_pending := AList.delete (JobUUID (job_at s p)) (sv_pending s)\<rparr>)"
proof (rule inv_pending_change[OF i p])
  show "wf_map (AList.delete (JobUUID (job_at s p)) (sv_pending s))"
    using inv_own(1)[OF i] by simp
  show "map_of (AList.delete (JobUUID (job_at s p)) (sv_pending s)) \<subseteq>\<^sub>m map_of (sv_jobs s)"
    using inv_own(2)[OF i] by (simp add: map_le_upd_None)
  show "q \<in> ran (map_of (AList.delete (JobUUID (job_at s p)) (sv_pending s))) \<longleftrightarrow> q \<in> pend s"
    if "q \<noteq> p" for q using pend_delete[OF i p] that by blast
qed

lemma pend_update:
  assumes i: "inv_except E s" and p: "p \<in> live s"
  shows "map_of (AList.update (JobUUID (job_at s p)) p (sv_pending s)) \<subseteq>\<^sub>m map_of (sv_jobs s)"
    "q \<in> ran (map_of (AList.update (JobUUID (job_at s p)) p (sv_pending s))) \<longleftrightarrow> q = p \<or> q \<in> pend s"
proof -
  note b = base_live[OF i p]
  have le: "(map_of (sv_pending s))(JobUUID (job_at s p) \<mapsto> p) \<subseteq>\<^sub>m map_of (sv_jobs s)"
    using inv_own(2)[OF i] b by (auto simp: map_le_def)
  then show "map_of (AList.update (JobUUID (job_at s p)) p (sv_pending s)) \<subseteq>\<^sub>m map_of (sv_jobs s)"
    by simp
  have old: "map_of (sv_pending s) (JobUUID (job_at s p)) \<in> {None, Some p}"
    using inv_own(2)[OF i] b by (force simp: map_le_def dom_def)
  have "q \<in> ran ((map_of (sv_pending s))(JobUUID (job_at s p) \<mapsto> p)) \<longleftrightarrow>
      ((map_of (sv_pending s))(JobUUID (job_at s p) \<mapsto> p)) (JobUUID (job_at s q)) = Some q"
    using ran_keyed[OF _ le] b by blast
  also have "\<dots> \<longleftrightarrow> q = p \<or> q \<in> pend s"
    using pend_keyed[OF i, of q] old by auto
  finally show "q \<in> ran (map_of (AList.update (JobUUID (job_at s p)) p (sv_pending s)))
      \<longleftrightarrow> q = p \<or> q \<in> pend s" by simp
qed

lemma inv_pending_update:
  assumes i: "inv_except E s" and p: "p \<in> live s"
  shows "inv_except (insert p E)
      (s\<lparr>sv_pending := AList.update (JobUUID (job_at s p)) p (sv_pending s)\<rparr>)"
    "pend (s\<lparr>sv_pending := AList.update (JobUUID (job_at s p)) p (sv_pending s)\<rparr>) = insert p (pend s)"
proof -
  show "inv_except (insert p E)
      (s\<lparr>sv_pending := AList.update (JobUUID (job_at s p)) p (sv_pending s)\<rparr>)"
    by (rule inv_pending_change[OF i p _ pend_update(1)[OF i p]])
      (use pend_update(2)[OF i p] inv_own(1)[OF i] in \<open>simp_all del: map_of_update_alist\<close>)
  show "pend (s\<lparr>sv_pending := AList.update (JobUUID (job_at s p)) p (sv_pending s)\<rparr>) = insert p (pend s)"
    using pend_update(2)[OF i p] unfolding pend_def[of "s\<lparr>sv_pending := _\<rparr>"] by auto
qed

lemma pq_ok_Enqueue:
  assumes "pq_ok L q" "p \<in> L" "p \<notin> fst ` set (pq_nodes q)"
  shows "pq_ok L (Enqueue p pr q)" "fst ` set (pq_nodes (Enqueue p pr q)) = insert p (fst ` set (pq_nodes q))"
proof -
  have w: "pq_wf q" using assms by (simp add: pq_ok_def)
  have m: "mset (map fst (pq_nodes (Enqueue p pr q))) = mset (p # map fst (pq_nodes q))"
    using pq.enq_nodes[OF w, of p pr] by simp
  have s: "set (map fst (pq_nodes (Enqueue p pr q))) = insert p (fst ` set (pq_nodes q))"
    using mset_eq_setD[OF m] by simp
  then show f: "fst ` set (pq_nodes (Enqueue p pr q)) = insert p (fst ` set (pq_nodes q))" by simp
  have "distinct (map fst (pq_nodes (Enqueue p pr q)))"
    using mset_eq_imp_distinct_iff[OF m] assms by (simp add: pq_ok_def)
  then show "pq_ok L (Enqueue p pr q)" using pq.enq_invar[OF w] f assms by (simp add: pq_ok_def)
qed

lemma inv_retry_enqueue:
  assumes i: "inv_except E s" and p: "p \<in> live s" "p \<notin> retr s"
  shows "inv_except (insert p E) (s\<lparr>sv_retry := Enqueue p pr (sv_retry s)\<rparr>)"
    "retr (s\<lparr>sv_retry := Enqueue p pr (sv_retry s)\<rparr>) = insert p (retr s)"
proof -
  have i': "inv_except (insert p E) s" using inv_except_mono[OF i] by blast
  note e = pq_ok_Enqueue[OF inv_own(3)[OF i] p(1), unfolded retr_def[symmetric], OF p(2), of pr]
  show "retr (s\<lparr>sv_retry := Enqueue p pr (sv_retry s)\<rparr>) = insert p (retr s)"
    using e by (simp add: retr_def)
  have "inv_except (insert p E) (s\<lparr>sv_pending := sv_pending s,
      sv_retry := Enqueue p pr (sv_retry s), sv_delayed := sv_delayed s\<rparr>)"
    using inv_own[OF i] e by (intro inv_containers[OF i']) (auto simp: pend_def dela_def)
  then show "inv_except (insert p E) (s\<lparr>sv_retry := Enqueue p pr (sv_retry s)\<rparr>)" by simp
qed

lemma inv_delayed_enqueue:
  assumes i: "inv_except E s" and p: "p \<in> live s" "p \<notin> dela s"
  shows "inv_except (insert p E) (s\<lparr>sv_delayed := Enqueue p pr (sv_delayed s)\<rparr>)"
    "dela (s\<lparr>sv_delayed := Enqueue p pr (sv_delayed s)\<rparr>) = insert p (dela s)"
proof -
  have i': "inv_except (insert p E) s" using inv_except_mono[OF i] by blast
  note e = pq_ok_Enqueue[OF inv_own(4)[OF i] p(1), unfolded dela_def[symmetric], OF p(2), of pr]
  show "dela (s\<lparr>sv_delayed := Enqueue p pr (sv_delayed s)\<rparr>) = insert p (dela s)"
    using e by (simp add: dela_def)
  have "inv_except (insert p E) (s\<lparr>sv_pending := sv_pending s,
      sv_retry := sv_retry s, sv_delayed := Enqueue p pr (sv_delayed s)\<rparr>)"
    using inv_own[OF i] e by (intro inv_containers[OF i']) (auto simp: pend_def retr_def)
  then show "inv_except (insert p E) (s\<lparr>sv_delayed := Enqueue p pr (sv_delayed s)\<rparr>)" by simp
qed

section \<open>The operations\<close>

text \<open>
  What an operation leaves alone: \<open>touches P s s'\<close> says that the two states hold the same
  jobs, and that the jobs outside \<open>P\<close> did not change.
\<close>

definition touches :: "ptr set \<Rightarrow> svc \<Rightarrow> svc \<Rightarrow> bool" where
  "touches P s s' \<longleftrightarrow> sv_jobs s' = sv_jobs s \<and> sv_conf s' = sv_conf s \<and> sv_env s' = sv_env s
    \<and> (\<forall>q. q \<notin> P \<longrightarrow> job_at s' q = job_at s q)
    \<and> (\<forall>q. JobUUID (job_at s' q) = JobUUID (job_at s q)
         \<and> LockResources (job_at s' q) = LockResources (job_at s q))"

lemma touches_refl [simp]: "touches P s s"
  by (simp add: touches_def)

lemma touches_trans: "touches P s s' \<Longrightarrow> touches Q s' s'' \<Longrightarrow> touches (P \<union> Q) s s''"
  by (auto simp: touches_def)

lemma touches_mono: "touches P s s' \<Longrightarrow> P \<subseteq> Q \<Longrightarrow> touches Q s s'"
  by (auto simp: touches_def)

lemma touches_live: "touches P s s' \<Longrightarrow> live s' = live s"
  by (simp add: touches_def live_def)

lemma touches_lookup: "touches P s s' \<Longrightarrow> lookup_job u s' = lookup_job u s"
  by (simp add: touches_def lookup_job_def)

lemma enqueueJobLocked_cases:
  assumes "enqueueJobLocked p s = (e, s')"
  obtains (early) r where "s' = s\<lparr>sv_reads := r\<rparr>" "e \<noteq> None" "sv_reads s \<le> r"
      "env_clock (sv_env s) (sv_reads s) < StartAfter (job_at s p)"
  | (busy) r where "s' = s\<lparr>sv_reads := r\<rparr>" "e \<noteq> None"
      "lock_of (JobUUID (job_at s p)) (LockResources (job_at s p)) (sv_locked s) = None" "sv_reads s \<le> r"
  | (queued) r s1 where "e = None" "lockResourcesLocked p (s\<lparr>sv_reads := r\<rparr>) = (None, s1)"
      "s' = emit NWake (notify_job p ServiceEventJobEnqueued ((add_event_now p JobEventEnqueue s1)
        \<lparr>sv_pending := AList.delete (JobUUID (job_at s p)) (sv_pending s1)\<rparr>))" "sv_reads s \<le> r"
proof -
  define a where "a = (if StartAfter (job_at s p) = 0 then (False, s)
    else (StartAfter (job_at s p) > env_clock (sv_env s) (sv_reads s), s\<lparr>sv_reads := sv_reads s + 1\<rparr>))"
  obtain r where r: "snd a = s\<lparr>sv_reads := r\<rparr>" "sv_reads s \<le> r"
  proof (cases "StartAfter (job_at s p) = 0")
    case True
    then show thesis using that[of "sv_reads s"] by (simp add: a_def)
  next
    case False
    then show thesis using that[of "sv_reads s + 1"] by (simp add: a_def)
  qed
  show thesis
  proof (cases "fst a")
    case True
    then show thesis using assms by (intro early[of "sv_reads s + 1"])
      (auto simp: enqueueJobLocked_def Let_def time_now_def a_def split: if_splits)
  next
    case False
    have e: "enqueueJobLocked p s = (case lockResourcesLocked p (s\<lparr>sv_reads := r\<rparr>) of
          (Some err, s) \<Rightarrow> (Some err, s)
        | (None, s1) \<Rightarrow> (None, emit NWake (notify_job p ServiceEventJobEnqueued
            ((add_event_now p JobEventEnqueue s1)
        \<lparr>sv_pending := AList.delete (JobUUID (job_at s p)) (sv_pending s1)\<rparr>))))"
      using False r
      by (auto simp: enqueueJobLocked_def Let_def time_now_def a_def notifyQueuedLocked_def
          split: if_splits option.splits prod.splits)
    obtain e1 s1 where l: "lockResourcesLocked p (s\<lparr>sv_reads := r\<rparr>) = (e1, s1)" by fastforce
    show thesis
    proof (cases e1)
      case None
      then show thesis using assms e l r(2) by (intro queued[of r s1]) auto
    next
      case (Some x)
      have "lock_of (JobUUID (job_at s p)) (LockResources (job_at s p)) (sv_locked s) = None"
        using lockResourcesLocked_error_iff[of p "s\<lparr>sv_reads := r\<rparr>"] l Some by simp
      then show thesis using assms e l Some r(2) lockResourcesLocked_error[of p "s\<lparr>sv_reads := r\<rparr>"]
        by (intro busy[of r]) auto
    qed
  qed
qed

text \<open>The three steps of every operation that queues a job: lock, event, notification.\<close>

lemma placed_queued:
  assumes "state (job_at s p) = JobQueued" "p \<notin> pend s" "p \<notin> retr s" "p \<notin> dela s"
    "owned s p \<subseteq> set (LockResources (job_at s p))"
  shows "placed s p"
  using assms by (simp add: placed_iff)

lemma notify_job_sel [simp]:
  "sv_env (notify_job p ev s) = sv_env s" "sv_conf (notify_job p ev s) = sv_conf s"
  "sv_store (notify_job p ev s) = sv_store s" "sv_next (notify_job p ev s) = sv_next s"
  "sv_jobs (notify_job p ev s) = sv_jobs s" "sv_pending (notify_job p ev s) = sv_pending s"
  "sv_retry (notify_job p ev s) = sv_retry s" "sv_delayed (notify_job p ev s) = sv_delayed s"
  "sv_locked (notify_job p ev s) = sv_locked s" "sv_reads (notify_job p ev s) = sv_reads s"
  "inv_except E (notify_job p ev s) = inv_except E s"
  "live (notify_job p ev s) = live s" "pend (notify_job p ev s) = pend s"
  "retr (notify_job p ev s) = retr s" "dela (notify_job p ev s) = dela s"
  by (simp_all add: notify_job_def)

lemma owned_sel [simp]:
  "owned (emit e s) p = owned s p" "owned (notify_job q ev s) p = owned s p"
  "owned (add_event_now q hev s) p = owned s p"
  "owned (s\<lparr>sv_pending := pm\<rparr>) p = owned s p"
  "owned (s\<lparr>sv_reads := r\<rparr>) p = owned s p"
  "owned (s\<lparr>sv_retry := rq\<rparr>) p = owned s p"
  "owned (s\<lparr>sv_delayed := dq\<rparr>) p = owned s p"
  by (auto simp: owned_def)

lemma view_sel [simp]:
  "live (s\<lparr>sv_pending := pm\<rparr>) = live s" "retr (s\<lparr>sv_pending := pm\<rparr>) = retr s"
  "dela (s\<lparr>sv_pending := pm\<rparr>) = dela s"
  "live (s\<lparr>sv_retry := rq\<rparr>) = live s" "pend (s\<lparr>sv_retry := rq\<rparr>) = pend s"
  "dela (s\<lparr>sv_retry := rq\<rparr>) = dela s"
  "live (s\<lparr>sv_delayed := dq\<rparr>) = live s" "pend (s\<lparr>sv_delayed := dq\<rparr>) = pend s"
  "retr (s\<lparr>sv_delayed := dq\<rparr>) = retr s"
  "live (s\<lparr>sv_reads := r\<rparr>) = live s" "pend (s\<lparr>sv_reads := r\<rparr>) = pend s"
  "retr (s\<lparr>sv_reads := r\<rparr>) = retr s" "dela (s\<lparr>sv_reads := r\<rparr>) = dela s"
  by (simp_all add: live_def pend_def retr_def dela_def)

lemma inv_enqueueJobLocked:
  assumes i: "inv_except {} s" and p: "p \<in> live s" "state (job_at s p) = JobPending"
    and r: "enqueueJobLocked p s = (e, s')"
  shows "inv_except {} s' \<and> touches {p} s s'"
  using r
proof (cases rule: enqueueJobLocked_cases)
  case (early r)
  then show ?thesis using i by (simp add: touches_def)
next
  case (busy r)
  then show ?thesis using i by (simp add: touches_def)
next
  case (queued r s1)
  let ?s0 = "s\<lparr>sv_reads := r\<rparr>"
  note f = lockResourcesLocked_frame[OF queued(2)]
  have pl: "placed s p" using i p by (simp add: inv_except_def)
  have i1: "inv_except {p} s1" "owned s1 p \<subseteq> owned s p \<union> set (LockResources (job_at s p))"
    using inv_lock[OF _ _ queued(2), of "{}"] i p by simp_all
  let ?s2 = "add_event_now p JobEventEnqueue s1"
  have i2: "inv_except {p} ?s2" using inv_add_event_now[OF i1(1), of p] p f by simp
  let ?s3 = "?s2\<lparr>sv_pending := AList.delete (JobUUID (job_at s p)) (sv_pending s1)\<rparr>"
  have u: "JobUUID (job_at ?s2 p) = JobUUID (job_at s p)" using f by simp
  have i3: "inv_except {p} ?s3"
    using inv_pending_delete[OF i2, of p] p f u by simp
  have pe: "p \<notin> pend ?s3"
    using pend_delete[OF i2, of p p] p f u unfolding pend_def[of ?s3] by simp
  have "placed ?s3 p"
    using pl pe f p i1(2) by (intro placed_queued) (auto simp: placed_iff)
  then have "inv_except {} ?s3" using inv_close[OF i3] by simp
  then show ?thesis using queued f by (simp add: touches_def notify_job_def)
qed

lemma inv_setPending:
  assumes i: "inv_except {p} s" and p: "p \<in> live s" "p \<notin> retr s" "p \<notin> dela s" "owned s p = {}"
  shows "inv_except {} (setJobStateToPendingLocked p s)"
    "touches {p} s (setJobStateToPendingLocked p s)"
    "retr (setJobStateToPendingLocked p s) = retr s" "dela (setJobStateToPendingLocked p s) = dela s"
    "pend (setJobStateToPendingLocked p s) = insert p (pend s)"
proof -
  let ?s1 = "add_event_now p JobEventPending s"
  let ?s2 = "?s1\<lparr>sv_pending := AList.update (JobUUID (job_at ?s1 p)) p (sv_pending ?s1)\<rparr>"
  have e: "setJobStateToPendingLocked p s = notify_job p ServiceEventJobPending ?s2"
    by (simp add: setJobStateToPendingLocked_def Let_def)
  have i1: "inv_except {p} ?s1" using inv_add_event_now[OF i p(1)] by simp
  have p1: "p \<in> live ?s1" using p by simp
  note i2 = inv_pending_update[OF i1 p1]
  have "placed ?s2 p" using p i2(2) by (simp add: placed_iff)
  then have "inv_except {} ?s2" using inv_close[of p "{}" ?s2] i2(1) by simp
  then show "inv_except {} (setJobStateToPendingLocked p s)" by (simp add: e)
  show "touches {p} s (setJobStateToPendingLocked p s)" by (simp add: e touches_def)
  show "retr (setJobStateToPendingLocked p s) = retr s" "dela (setJobStateToPendingLocked p s) = dela s"
    by (simp_all add: e)
  show "pend (setJobStateToPendingLocked p s) = insert p (pend s)" using i2(2) by (simp add: e)
qed

lemma inv_setDelayed:
  assumes i: "inv_except {p} s"
    and p: "p \<in> live s" "p \<notin> pend s" "p \<notin> retr s" "p \<notin> dela s" "owned s p = {}"
  shows "inv_except {} (setJobStateToDelayedLocked p s)"
    "touches {p} s (setJobStateToDelayedLocked p s)"
proof -
  let ?s1 = "add_event_now p JobEventDelay s"
  let ?s2 = "?s1\<lparr>sv_delayed := Enqueue p (i64 (- StartAfter (job_at ?s1 p))) (sv_delayed ?s1)\<rparr>"
  have e: "setJobStateToDelayedLocked p s = notify_job p ServiceEventJobDelayed ?s2"
    by (simp add: setJobStateToDelayedLocked_def Let_def)
  have i1: "inv_except {p} ?s1" using inv_add_event_now[OF i p(1)] by simp
  have p1: "p \<in> live ?s1" "p \<notin> dela ?s1" using p by simp_all
  note i2 = inv_delayed_enqueue[OF i1 p1]
  have "placed ?s2 p" using p i2(2) by (simp add: placed_iff)
  then have "inv_except {} ?s2" using inv_close[of p "{}" ?s2] i2(1) by simp
  then show "inv_except {} (setJobStateToDelayedLocked p s)" by (simp add: e)
  show "touches {p} s (setJobStateToDelayedLocked p s)" by (simp add: e touches_def)
qed

lemma inv_retryJobLocked:
  assumes i: "inv_except (insert p E) s"
    and p: "p \<in> live s" "p \<notin> pend s" "p \<notin> retr s" "p \<notin> dela s"
      "owned s p \<subseteq> set (LockResources (job_at s p))"
    and r: "retryJobLocked p s = (e, s')"
  shows "(e \<noteq> None \<longrightarrow> s' = s) \<and> (e = None \<longrightarrow> inv_except E s') \<and> touches {p} s s'
    \<and> retr s' = retr s \<and> pend s' = pend s \<and> dela s' = dela s
    \<and> (e = None \<longrightarrow> state (job_at s' p) = JobQueued)"
proof -
  obtain e1 s1 where l: "lockResourcesLocked p s = (e1, s1)" by fastforce
  note f = lockResourcesLocked_frame[OF l]
  show ?thesis
  proof (cases e1)
    case None
    let ?s2 = "add_event_now p JobEventEnqueue s1"
    have s': "s' = emit NWake (notify_job p ServiceEventJobEnqueued ?s2)" "e = None"
      using r l None by (auto simp: retryJobLocked_def notifyQueuedLocked_def Let_def)
    have i1: "inv_except (insert p E) s1" "owned s1 p \<subseteq> owned s p \<union> set (LockResources (job_at s p))"
      using inv_lock[OF i p(1)] l None by simp_all
    have i2: "inv_except (insert p E) ?s2" using inv_add_event_now[OF i1(1), of p] p f by simp
    have "placed ?s2 p" using p f i1(2) by (intro placed_queued) auto
    then have "inv_except E ?s2" using inv_close[OF i2] by simp
    then show ?thesis using s' f by (simp add: touches_def)
  next
    case (Some x)
    then have "s1 = s" using l lockResourcesLocked_error by blast
    then show ?thesis using r l Some by (auto simp: retryJobLocked_def)
  qed
qed

lemma enqueue_all_inv:
  assumes "inv_except {} s" "set ps \<subseteq> live s" "\<forall>p \<in> set ps. state (job_at s p) = JobPending" "distinct ps"
  shows "inv_except {} (foldl (\<lambda>s p. snd (enqueueJobLocked p s)) s ps)
    \<and> touches (set ps) s (foldl (\<lambda>s p. snd (enqueueJobLocked p s)) s ps)"
  using assms
proof (induction ps arbitrary: s)
  case Nil
  then show ?case by simp
next
  case (Cons p ps)
  let ?s = "snd (enqueueJobLocked p s)"
  have 1: "inv_except {} ?s \<and> touches {p} s ?s"
    using inv_enqueueJobLocked[of s p "fst (enqueueJobLocked p s)" ?s] Cons.prems by simp
  then have "set ps \<subseteq> live ?s" "\<forall>q \<in> set ps. state (job_at ?s q) = JobPending"
    using Cons.prems touches_live[of "{p}" s ?s] by (auto simp: touches_def)
  then show ?case using Cons.IH[of ?s] 1 Cons.prems(4) touches_trans[of "{p}" s ?s "set ps"] by simp
qed

lemma pending_job:
  assumes "inv_except E s" "map_of (sv_pending s) u = Some p"
  shows "map_of (sv_jobs s) u = Some p" "JobUUID (job_at s p) = u"
  using assms unfolding inv_except_def base_inv_def by blast+

lemma pend_in_live: "inv_except E s \<Longrightarrow> pend s \<subseteq> live s"
  using pending_job(1) by (fastforce simp: pend_def live_def ran_def simp del: map_of_eq_Some_iff)

lemma map_snd_pending:
  assumes "inv_except E s"
  shows "set (map snd (sv_pending s)) = pend s" "distinct (map snd (sv_pending s))"
proof -
  note o = inv_own[OF assms]
  show 1: "set (map snd (sv_pending s)) = pend s" using o(1)
    by (force simp: pend_def ran_def)
  have "u = v" if "(u, p) \<in> set (sv_pending s)" "(v, p) \<in> set (sv_pending s)" for u v p
  proof -
    have "map_of (sv_pending s) u = Some p" "map_of (sv_pending s) v = Some p" using that o(1) by auto
    then show ?thesis using pending_job(2)[OF assms] by metis
  qed
  then have "inj_on snd (set (sv_pending s))" by (auto simp: inj_on_def)
  then show "distinct (map snd (sv_pending s))"
    using o(1) by (simp add: distinct_map)
qed

lemma job_history: "inv_except E s \<Longrightarrow> p \<in> live s \<Longrightarrow> GetCreationTimestamp (job_at s p) \<noteq> None"
  by (auto simp: inv_except_def base_inv_def GetCreationTimestamp_def split: list.splits)

lemma inv_tryEnqueue:
  assumes i: "inv_except {} s"
  shows "inv_except {} (tryEnqueuePendingJobsLocked s)"
    "touches (in_state s JobPending) s (tryEnqueuePendingJobsLocked s)"
proof -
  have "inv_except {} (tryEnqueuePendingJobsLocked s)
      \<and> touches (in_state s JobPending) s (tryEnqueuePendingJobsLocked s)"
  proof (cases "length (sv_pending s) = 0")
    case True
    then show ?thesis using i by (simp add: tryEnqueuePendingJobsLocked_def)
  next
    case False
    define ps where "ps = filter (\<lambda>p. \<not> requiresLockedResources (GetLockedResources (sv_locked s)) (job_at s p))
      (map snd (sv_pending s))"
    have "set ps \<subseteq> pend s" using map_snd_pending(1)[OF i] by (auto simp: ps_def)
    then have l: "set ps \<subseteq> live s" "\<forall>p \<in> set ps. state (job_at s p) = JobPending"
      using pend_in_live[OF i] i by (auto simp: inv_except_def placed_def)
    then have np: "list_ex (\<lambda>p. GetCreationTimestamp (job_at s p) = None) ps = False"
      using job_history[OF i] by (auto simp: list_ex_iff)
    have d: "distinct (sort_pending (sv_store s) ps)" "set (sort_pending (sv_store s) ps) = set ps"
      using map_snd_pending(2)[OF i] by (simp_all add: sort_pending_def ps_def)
    have "tryEnqueuePendingJobsLocked s =
        foldl (\<lambda>s p. snd (enqueueJobLocked p s)) s (sort_pending (sv_store s) ps)"
      using False np by (simp add: tryEnqueuePendingJobsLocked_def ps_def[symmetric] Let_def)
    moreover have "set ps \<subseteq> in_state s JobPending" using l by (auto simp: in_state_def)
    ultimately show ?thesis
      using enqueue_all_inv[OF i, of "sort_pending (sv_store s) ps"] l d touches_mono by auto
  qed
  then show "inv_except {} (tryEnqueuePendingJobsLocked s)"
    "touches (in_state s JobPending) s (tryEnqueuePendingJobsLocked s)" by simp_all
qed

text \<open>Removing a job from everywhere.\<close>

lemma pq_ok_Remove:
  assumes q: "pq_ok (live s) q" and b: "base_inv s" and p: "p \<in> live s"
  shows "pq_ok (live s - {p}) (snd (Remove (jobEqual (sv_store s)) p q))"
    "fst ` set (pq_nodes (snd (Remove (jobEqual (sv_store s)) p q))) = fst ` set (pq_nodes q) - {p}"
proof -
  have e: "jobEqual (sv_store s) (fst n) p \<longleftrightarrow> fst n = p" if "n \<in> set (pq_nodes q)" for n
    using that q live_inj[OF b _ p] by (auto simp: jobEqual_def pq_ok_def)
  have n: "pq_nodes (snd (Remove (jobEqual (sv_store s)) p q)) =
      filter (\<lambda>n. \<not> jobEqual (sv_store s) (fst n) p) (pq_nodes q)"
    using q e by (intro Remove_nodes_filter[where f = fst and x = p]) (auto simp: pq_ok_def)
  also have "\<dots> = filter (\<lambda>n. fst n \<noteq> p) (pq_nodes q)" using e by (intro filter_cong) auto
  finally have n: "pq_nodes (snd (Remove (jobEqual (sv_store s)) p q)) = filter (\<lambda>n. fst n \<noteq> p) (pq_nodes q)" .
  show f: "fst ` set (pq_nodes (snd (Remove (jobEqual (sv_store s)) p q))) = fst ` set (pq_nodes q) - {p}"
    by (auto simp: n)
  show "pq_ok (live s - {p}) (snd (Remove (jobEqual (sv_store s)) p q))"
    using q pq_wf_Remove[of q "jobEqual (sv_store s)" p] f
    by (auto simp: pq_ok_def n distinct_map_filter)
qed

definition drop_job :: "ptr \<Rightarrow> svc \<Rightarrow> svc" where
  "drop_job p s = s\<lparr>sv_retry := snd (Remove (jobEqual (sv_store s)) p (sv_retry s)),
     sv_delayed := snd (Remove (jobEqual (sv_store s)) p (sv_delayed s)),
     sv_jobs := AList.delete (JobUUID (job_at s p)) (sv_jobs s),
     sv_pending := AList.delete (JobUUID (job_at s p)) (sv_pending s)\<rparr>"

lemma live_drop_job: "base_inv s \<Longrightarrow> p \<in> live s \<Longrightarrow> live (drop_job p s) = live s - {p}"
proof -
  assume b: "base_inv s" and p: "p \<in> live s"
  have "q \<in> ran ((map_of (sv_jobs s))(JobUUID (job_at s p) := None)) \<longleftrightarrow> q \<in> live s - {p}" for q
    using ran_keyed[OF b map_le_upd_None[of "map_of (sv_jobs s)" "map_of (sv_jobs s)" "JobUUID (job_at s p)"]]
      live_iff[OF b] live_inj[OF b _ p] by (auto simp: p)
  then show ?thesis by (auto simp: live_def drop_job_def)
qed

lemma inv_drop_job:
  assumes i: "inv_except {p} s" and p: "p \<in> live s" "owned s p = {}" "state (job_at s p) \<noteq> JobQueued"
  shows "inv_except {} (drop_job p s)"
proof -
  have b: "base_inv s" using i by (simp add: inv_except_def)
  note pl = live_iff[OF b, THEN iffD1, OF p(1)]
  let ?s = "drop_job p s"
  note l = live_drop_job[OF b p(1)]
  note o = inv_own[OF i]
  have st: "job_at ?s = job_at s" "sv_locked ?s = sv_locked s" "sv_queue ?s = sv_queue s"
    by (simp_all add: drop_job_def)
  have pe: "pend ?s = pend s - {p}" using pend_delete[OF i p(1)] by (auto simp: pend_def drop_job_def)
  note re = pq_ok_Remove[OF o(3) b p(1)]
  note de = pq_ok_Remove[OF o(4) b p(1)]
  have v: "retr ?s = retr s - {p}" "dela ?s = dela s - {p}"
    using re(2) de(2) by (simp_all add: retr_def dela_def drop_job_def)
  have q: "in_state ?s JobQueued = in_state s JobQueued" using p(3) l st by (auto simp: in_state_def)
  have lo: "ran (map_of (sv_locked s)) \<subseteq> dom (map_of (sv_jobs s)) - {JobUUID (job_at s p)}"
  proof -
    have "JobUUID (job_at s p) \<notin> ran (map_of (sv_locked s))"
      using p(2) unfolding owned_def ran_def by blast
    moreover have "ran (map_of (sv_locked s)) \<subseteq> dom (map_of (sv_jobs s))"
      using b unfolding base_inv_def by blast
    ultimately show ?thesis by blast
  qed
  have pm: "map_of (sv_jobs ?s) u = Some q" if "map_of (sv_pending ?s) u = Some q" for u q
    using that pending_job(1)[OF i, of u q] by (auto simp: drop_job_def split: if_splits)
  have jm: "JobUUID (job_at s q) = u \<and> q < sv_next s" if "map_of (sv_jobs ?s) u = Some q" for u q
    using that b by (auto simp: drop_job_def base_inv_def split: if_splits)
  have nx: "sv_next ?s = sv_next s" by (simp add: drop_job_def)
  have "base_inv ?s"
    unfolding base_inv_def
  proof (intro conjI)
    show "wf_map (sv_jobs ?s)" "wf_map (sv_pending ?s)" "wf_map (sv_locked ?s)" "\<not> sv_panic ?s"
      using b by (simp_all add: base_inv_def drop_job_def)
    show "\<forall>u q. map_of (sv_jobs ?s) u = Some q \<longrightarrow> JobUUID (job_at ?s q) = u \<and> q < sv_next ?s"
      unfolding st(1) nx using jm by blast
    show "\<forall>q\<in>live ?s. History (job_at ?s q) \<noteq> [] \<and> synced (job_at ?s q)"
      using b l st by (simp add: base_inv_def)
    show "queue_wf (sv_store ?s) (sv_queue ?s)" "q_entries (sv_queue ?s) = in_state ?s JobQueued"
      using b q st by (simp_all add: base_inv_def)
    show "\<forall>u q. map_of (sv_pending ?s) u = Some q \<longrightarrow> map_of (sv_jobs ?s) u = Some q"
      using pm by blast
    show "pq_ok (live ?s) (sv_retry ?s)" "pq_ok (live ?s) (sv_delayed ?s)"
      using re(1) de(1) l by (simp_all add: drop_job_def)
    show "ran (map_of (sv_locked ?s)) \<subseteq> dom (map_of (sv_jobs ?s))"
      using lo by (simp add: drop_job_def)
  qed
  moreover have "placed ?s q" if "q \<in> live ?s" for q
    using that i l pe v st by (auto simp: inv_except_def placed_def)
  ultimately show ?thesis by (simp add: inv_except_def)
qed

lemma deleteJobLocked_form:
  assumes i: "inv_except {} s" and lk: "lookup_job u s = Some p"
  defines "s2 \<equiv> add_event_now p JobEventDelete (unlockJobResourcesLocked p s)"
  shows "deleteJobLocked u s = (None, tryEnqueuePendingJobsLocked
      (notify_job p ServiceEventJobDeleted (drop_job p s2)))"
    "inv_except {} (drop_job p s2)" "live (drop_job p s2) = live s - {p}"
    "p \<in> live s" "JobUUID (job_at s p) = u"
proof -
  have b: "base_inv s" using i by (simp add: inv_except_def)
  show p: "p \<in> live s" "JobUUID (job_at s p) = u" using lookup_live[OF b lk] by simp_all
  note i1 = inv_unlock[OF i p(1)]
  have pl: "placed s p" using i p by (simp add: inv_except_def)
  have o: "owned (unlockJobResourcesLocked p s) p = {}" using i1(2) pl by (auto simp: placed_iff)
  have i2: "inv_except {p} s2" unfolding s2_def using inv_add_event_now[OF i1(1), of p] p by simp
  have l2: "p \<in> live s2" "owned s2 p = {}" "state (job_at s2 p) \<noteq> JobQueued"
    using p o by (simp_all add: s2_def)
  show "deleteJobLocked u s = (None, tryEnqueuePendingJobsLocked
      (notify_job p ServiceEventJobDeleted (drop_job p s2)))"
    using lk p(2) by (simp add: deleteJobLocked_def Let_def drop_job_def s2_def)
  show "inv_except {} (drop_job p s2)" by (rule inv_drop_job[OF i2 l2])
  show "live (drop_job p s2) = live s - {p}" using live_drop_job[of s2 p] i2 l2(1)
    by (simp add: inv_except_def s2_def)
qed

lemma deleteJobLocked_step:
  assumes i: "inv_except {} s" and lk: "lookup_job u s = Some p"
  obtains s3 where "deleteJobLocked u s = (None, tryEnqueuePendingJobsLocked s3)" "inv_except {} s3"
    "live s3 = live s - {p}" "sv_jobs s3 = AList.delete u (sv_jobs s)" "sv_conf s3 = sv_conf s"
    "sv_env s3 = sv_env s" "\<And>q. q \<noteq> p \<Longrightarrow> job_at s3 q = job_at s q"
    "\<And>q. JobUUID (job_at s3 q) = JobUUID (job_at s q)"
proof -
  note f = deleteJobLocked_form[OF i lk]
  show thesis by (rule that[OF f(1)]) (use f(2-5) in \<open>simp_all add: drop_job_def\<close>)
qed

lemma inv_deleteJobLocked:
  assumes i: "inv_except {} s" and r: "deleteJobLocked u s = (e, s')"
  shows "inv_except {} s'"
    "e = None \<longleftrightarrow> lookup_job u s \<noteq> None" "e \<noteq> None \<Longrightarrow> s' = s"
    "e = None \<Longrightarrow> sv_jobs s' = AList.delete u (sv_jobs s) \<and> sv_conf s' = sv_conf s
      \<and> sv_env s' = sv_env s
      \<and> (\<forall>q \<in> live s. state (job_at s q) \<noteq> JobPending \<longrightarrow> lookup_job u s \<noteq> Some q \<longrightarrow>
           job_at s' q = job_at s q)
      \<and> (\<forall>q. JobUUID (job_at s' q) = JobUUID (job_at s q))"
proof -
  have "inv_except {} s' \<and> (e = None \<longleftrightarrow> lookup_job u s \<noteq> None) \<and> (e \<noteq> None \<longrightarrow> s' = s)
    \<and> (e = None \<longrightarrow> sv_jobs s' = AList.delete u (sv_jobs s) \<and> sv_conf s' = sv_conf s
      \<and> sv_env s' = sv_env s
      \<and> (\<forall>q \<in> live s. state (job_at s q) \<noteq> JobPending \<longrightarrow> lookup_job u s \<noteq> Some q \<longrightarrow>
           job_at s' q = job_at s q)
      \<and> (\<forall>q. JobUUID (job_at s' q) = JobUUID (job_at s q)))"
  proof (cases "lookup_job u s")
    case None
    then show ?thesis using r i by (auto simp: deleteJobLocked_def)
  next
    case (Some p)
    obtain s3 where d: "deleteJobLocked u s = (None, tryEnqueuePendingJobsLocked s3)" "inv_except {} s3"
      "live s3 = live s - {p}" "sv_jobs s3 = AList.delete u (sv_jobs s)" "sv_conf s3 = sv_conf s"
      "sv_env s3 = sv_env s" "\<And>q. q \<noteq> p \<Longrightarrow> job_at s3 q = job_at s q"
      "\<And>q. JobUUID (job_at s3 q) = JobUUID (job_at s q)"
      using deleteJobLocked_step[OF i Some] by blast
    have e: "e = None" "s' = tryEnqueuePendingJobsLocked s3" using r d(1) by simp_all
    note t = inv_tryEnqueue[OF d(2)]
    have "JobUUID (job_at s' q) = JobUUID (job_at s q)" for q
      using t(2) d(8) e by (simp add: touches_def)
    moreover have "job_at s' q = job_at s q"
      if "q \<in> live s" "state (job_at s q) \<noteq> JobPending" "lookup_job u s \<noteq> Some q" for q
      using t(2) d(3,7) that e Some by (simp add: touches_def in_state_def)
    ultimately show ?thesis using t d e Some by (simp add: touches_def)
  qed
  then show "inv_except {} s'"
    "e = None \<longleftrightarrow> lookup_job u s \<noteq> None" "e \<noteq> None \<Longrightarrow> s' = s"
    "e = None \<Longrightarrow> sv_jobs s' = AList.delete u (sv_jobs s) \<and> sv_conf s' = sv_conf s
      \<and> sv_env s' = sv_env s
      \<and> (\<forall>q \<in> live s. state (job_at s q) \<noteq> JobPending \<longrightarrow> lookup_job u s \<noteq> Some q \<longrightarrow>
           job_at s' q = job_at s q)
      \<and> (\<forall>q. JobUUID (job_at s' q) = JobUUID (job_at s q))" by blast+
qed

end
