(* ===== verification/ServiceReach.thy ===== *)
theory ServiceReach
  imports ServiceInv
begin

text \<open>
  The invariant of \<open>ServiceInv\<close> through the requests and the periodic tasks, and the
  states the scheduler can reach: a step is one request or one task, which the code runs
  with the lock held, so any interleaving of the goroutines is a sequence of steps.
\<close>

section \<open>Pulling\<close>

lemma inv_visibility:
  assumes "inv_except E s"
  shows "inv_except E (s\<lparr>sv_store := (sv_store s)(p := (job_at s p)\<lparr>VisibilityTimeout := v\<rparr>)\<rparr>)"
proof -
  let ?s = "s\<lparr>sv_store := (sv_store s)(p := (job_at s p)\<lparr>VisibilityTimeout := v\<rparr>)\<rparr>"
  have f: "JobUUID (job_at ?s q) = JobUUID (job_at s q)" "Topic (job_at ?s q) = Topic (job_at s q)"
    "Priority (job_at ?s q) = Priority (job_at s q)" "History (job_at ?s q) = History (job_at s q)"
    "LockResources (job_at ?s q) = LockResources (job_at s q)"
    "state (job_at ?s q) = state (job_at s q)"
    "previousState (job_at ?s q) = previousState (job_at s q)" for q by simp_all
  have c: "GetCreationTimestamp (job_at ?s q) = GetCreationTimestamp (job_at s q)" for q
    using f(4)[of q] by (simp add: GetCreationTimestamp_def)
  have v: "live ?s = live s" "pend ?s = pend s" "retr ?s = retr s" "dela ?s = dela s"
    "in_state ?s = in_state s"
    using f(6) by (simp_all add: live_def pend_def retr_def dela_def in_state_def fun_eq_iff)
  have sy: "synced (job_at ?s q) = synced (job_at s q)" for q
    using f[of q] by (simp add: synced_iff)
  have "queue_wf (sv_store ?s) (sv_queue s)" if "queue_wf (sv_store s) (sv_queue s)"
    by (rule queue_wf_cong[OF that]) (use f c in blast)
  then have "base_inv ?s" if "base_inv s"
    using that f v sy by (simp add: base_inv_def)
  moreover have "placed ?s q = placed s q" for q using f v by (simp add: placed_def)
  ultimately show ?thesis using assms v(1) by (simp add: inv_except_def)
qed

lemma inv_startJobLocked:
  assumes i: "inv_except {} s" and r: "startJobLocked u req s = (e, s')"
  shows "inv_except {} s'"
    "e = None \<longleftrightarrow> (\<exists>p. lookup_job u s = Some p \<and> state (job_at s p) = JobQueued)"
    "e \<noteq> None \<Longrightarrow> s' = s"
    "lookup_job u s = Some p \<Longrightarrow> e = None \<Longrightarrow> touches {p} s s'
      \<and> state (job_at s' p) = JobRunning \<and> VisibilityTimeout (job_at s' p) = pullVisibilityTimeout req"
proof -
  have "inv_except {} s' \<and> (e = None \<longleftrightarrow> (\<exists>p. lookup_job u s = Some p \<and> state (job_at s p) = JobQueued))
    \<and> (e \<noteq> None \<longrightarrow> s' = s) \<and> (\<forall>p. lookup_job u s = Some p \<longrightarrow> e = None \<longrightarrow> touches {p} s s'
      \<and> state (job_at s' p) = JobRunning \<and> VisibilityTimeout (job_at s' p) = pullVisibilityTimeout req)"
  proof (cases "\<exists>p. lookup_job u s = Some p \<and> state (job_at s p) = JobQueued")
    case False
    then show ?thesis using r i by (auto simp: startJobLocked_def split: option.splits if_splits)
  next
    case True
    then obtain p where lk: "lookup_job u s = Some p" and q: "state (job_at s p) = JobQueued" by blast
    have b: "base_inv s" using i by (simp add: inv_except_def)
    have p: "p \<in> live s" using lookup_live[OF b lk] by simp
    have pl: "placed s p" using i p by (simp add: inv_except_def)
    let ?s1 = "s\<lparr>sv_pending := AList.delete (JobUUID (job_at s p)) (sv_pending s)\<rparr>"
    let ?s2 = "add_event_now p JobEventStart ?s1"
    let ?s3 = "?s2\<lparr>sv_store := (sv_store ?s2)(p := (job_at ?s2 p)
      \<lparr>VisibilityTimeout := pullVisibilityTimeout req\<rparr>)\<rparr>"
    have e: "e = None" "s' = notify_job p ServiceEventJobStarted ?s3"
      using r lk q by (simp_all add: startJobLocked_def Let_def)
    have i1: "inv_except {p} ?s1" using inv_pending_delete[OF i p] by simp
    have i2: "inv_except {p} ?s2" using inv_add_event_now[OF i1, of p] p by simp
    have i3: "inv_except {p} ?s3" by (rule inv_visibility[OF i2])
    have pe: "p \<notin> pend ?s1" using pend_delete[OF i p, of p] by (simp add: pend_def)
    have v: "pend ?s3 = pend ?s1" "retr ?s3 = retr s" "dela ?s3 = dela s" "owned ?s3 p = owned s p"
      by (simp_all add: pend_def retr_def dela_def owned_def)
    have "placed ?s3 p" using pl pe v q by (auto simp: placed_iff)
    then have "inv_except {} ?s3" using inv_close i3 by blast
    then show ?thesis using e lk q by (simp add: touches_def)
  qed
  note h = this
  show "inv_except {} s'" by (rule h[THEN conjunct1])
  show "e = None \<longleftrightarrow> (\<exists>p. lookup_job u s = Some p \<and> state (job_at s p) = JobQueued)"
    by (rule h[THEN conjunct2, THEN conjunct1])
  show "s' = s" if "e \<noteq> None" by (rule h[THEN conjunct2, THEN conjunct2, THEN conjunct1, rule_format, OF that])
  show "touches {p} s s'
      \<and> state (job_at s' p) = JobRunning \<and> VisibilityTimeout (job_at s' p) = pullVisibilityTimeout req"
    if "lookup_job u s = Some p" "e = None"
    by (rule h[THEN conjunct2, THEN conjunct2, THEN conjunct2, rule_format, OF that])
qed

lemma inv_set_queue:
  assumes "inv_except E s" "queue_wf (sv_store s) q" "q_entries q = q_entries (sv_queue s)"
  shows "inv_except E (s\<lparr>sv_queue := q\<rparr>)"
proof -
  have "live (s\<lparr>sv_queue := q\<rparr>) = live s" "pend (s\<lparr>sv_queue := q\<rparr>) = pend s"
    "retr (s\<lparr>sv_queue := q\<rparr>) = retr s" "dela (s\<lparr>sv_queue := q\<rparr>) = dela s"
    "in_state (s\<lparr>sv_queue := q\<rparr>) = in_state s"
    by (simp_all add: live_def pend_def retr_def dela_def in_state_def fun_eq_iff)
  then show ?thesis using assms by (simp add: inv_except_def base_inv_def placed_def)
qed

text \<open>Every candidate of a pull is queued: all of them are started, in order.\<close>

lemma start_jobs_all:
  assumes "inv_except {} s" "distinct ps" "\<forall>p \<in> set ps. p \<in> in_state s JobQueued"
    and "start_jobs req ps s = (js, s')"
  shows "inv_except {} s' \<and> touches (set ps) s s' \<and> js = map (job_at s') ps
    \<and> (\<forall>p \<in> set ps. state (job_at s' p) = JobRunning
        \<and> VisibilityTimeout (job_at s' p) = pullVisibilityTimeout req)"
  using assms
proof (induction ps arbitrary: s js s')
  case Nil
  then show ?case by simp
next
  case (Cons p ps)
  have b: "base_inv s" using Cons.prems by (simp add: inv_except_def)
  have p: "p \<in> live s" "state (job_at s p) = JobQueued" using Cons.prems by (simp_all add: in_state_def)
  have lk: "lookup_job (JobUUID (job_at s p)) s = Some p"
    using live_iff[OF b] p by (simp add: lookup_job_def)
  obtain e s1 where st: "startJobLocked (JobUUID (job_at s p)) req s = (e, s1)" by fastforce
  note f = inv_startJobLocked[OF Cons.prems(1) st]
  have e: "e = None" using f(2) lk p by blast
  note t = f(4)[OF lk e]
  obtain js1 where r: "start_jobs req ps s1 = (js1, s')" "js = job_at s1 p # js1"
    using Cons.prems(4) st e by (auto split: prod.splits)
  have "\<forall>q \<in> set ps. q \<in> in_state s1 JobQueued"
    using Cons.prems(2,3) t touches_live[of "{p}" s s1] by (auto simp: in_state_def touches_def)
  then have ih: "inv_except {} s' \<and> touches (set ps) s1 s' \<and> js1 = map (job_at s') ps
    \<and> (\<forall>p \<in> set ps. state (job_at s' p) = JobRunning
        \<and> VisibilityTimeout (job_at s' p) = pullVisibilityTimeout req)"
    using Cons.IH[OF f(1) _ _ r(1)] Cons.prems(2) by simp
  moreover have "job_at s' p = job_at s1 p" using ih Cons.prems(2) by (simp add: touches_def)
  moreover have "touches (set (p # ps)) s s'"
    using touches_trans[of "{p}" s s1 "set ps" s'] t ih by simp
  ultimately show ?case using t r by simp
qed

lemma pullJobsOnce_spec:
  assumes i: "svc_inv s" and r: "pullJobsOnce req l s = ((res, found), s')"
  defines "ps \<equiv> take (NumJobs req) (pull_order (sv_store s) (pullTopic req) (sv_queue s))"
  shows "svc_inv s'"
    "found \<longleftrightarrow> ps \<noteq> []"
    "ps \<noteq> [] \<Longrightarrow> res = Inr (map (job_at s') ps) \<and> touches (set ps) s s'
      \<and> (\<forall>p \<in> set ps. state (job_at s p) = JobQueued \<and> state (job_at s' p) = JobRunning
          \<and> VisibilityTimeout (job_at s' p) = pullVisibilityTimeout req)"
    "ps = [] \<Longrightarrow> \<exists>e. res = Inl e \<and> HttpCode e = StatusNotFound \<and> touches {} s s'"
proof -
  have i: "inv_except {} s" using i by (simp add: svc_inv_def)
  then have w: "queue_wf (sv_store s) (sv_queue s)" "q_entries (sv_queue s) = in_state s JobQueued"
    by (simp_all add: inv_except_def base_inv_def)
  have "svc_inv s' \<and> (found \<longleftrightarrow> ps \<noteq> []) \<and>
    (ps \<noteq> [] \<longrightarrow> res = Inr (map (job_at s') ps) \<and> touches (set ps) s s'
      \<and> (\<forall>p \<in> set ps. state (job_at s p) = JobQueued \<and> state (job_at s' p) = JobRunning
          \<and> VisibilityTimeout (job_at s' p) = pullVisibilityTimeout req)) \<and>
    (ps = [] \<longrightarrow> (\<exists>e. res = Inl e \<and> HttpCode e = StatusNotFound \<and> touches {} s s'))"
  proof (cases "length (sv_jobs s) = 0")
    case True
    then have "in_state s JobQueued = {}" by (simp add: in_state_def live_def)
    then have "queued_of (sv_store s) (pullTopic req) (sv_queue s) = {}" using w by (simp add: queued_of_def)
    then have "ps = []" by (simp add: ps_def pull_order_def)
    then show ?thesis using r True i
      by (auto simp: pullJobsOnce_def findBestJobCandidatesLocked_def no_job_error_def svc_inv_def
          touches_def split: if_splits)
  next
    case False
    obtain qs q where f: "first (sv_store s) (pullTopic req) (NumJobs req) (sv_queue s) = (qs, q)"
      by fastforce
    note fs = first_spec[OF w(1) f]
    have qs: "qs = ps" using fs(3) by (simp add: ps_def)
    let ?s1 = "s\<lparr>sv_queue := q\<rparr>"
    have i1: "inv_except {} ?s1" using inv_set_queue[OF i] fs by simp
    have in1: "in_state ?s1 X = in_state s X" for X by (simp add: in_state_def live_def)
    have d: "distinct ps" by (simp add: ps_def distinct_pull_order)
    have sub: "\<forall>p \<in> set ps. p \<in> in_state s JobQueued"
      using set_pull_order[OF w(1), of "pullTopic req"] queued_of_subset[of "sv_store s" "pullTopic req" "sv_queue s"]
        w(2) by (auto simp: ps_def dest: in_set_takeD)
    show ?thesis
    proof (cases "ps = []")
      case True
      then show ?thesis using r False f qs i1
        by (auto simp: pullJobsOnce_def findBestJobCandidatesLocked_def no_job_error_def svc_inv_def
            touches_def split: if_splits)
    next
      case ne: False
      obtain js s2 where st: "start_jobs req ps ?s1 = (js, s2)" by fastforce
      have a: "inv_except {} s2 \<and> touches (set ps) ?s1 s2 \<and> js = map (job_at s2) ps
        \<and> (\<forall>p \<in> set ps. state (job_at s2 p) = JobRunning
            \<and> VisibilityTimeout (job_at s2 p) = pullVisibilityTimeout req)"
        using start_jobs_all[OF i1 d _ st] sub in1 by blast
      then have "res = Inr js" "found" "s' = s2"
        using r False f qs ne st by (auto simp: pullJobsOnce_def findBestJobCandidatesLocked_def)
      then show ?thesis using a ne sub by (simp add: svc_inv_def touches_def in_state_def)
    qed
  qed
  then show "svc_inv s'" "found \<longleftrightarrow> ps \<noteq> []"
    "ps \<noteq> [] \<Longrightarrow> res = Inr (map (job_at s') ps) \<and> touches (set ps) s s'
      \<and> (\<forall>p \<in> set ps. state (job_at s p) = JobQueued \<and> state (job_at s' p) = JobRunning
          \<and> VisibilityTimeout (job_at s' p) = pullVisibilityTimeout req)"
    "ps = [] \<Longrightarrow> \<exists>e. res = Inl e \<and> HttpCode e = StatusNotFound \<and> touches {} s s'"
    by blast+
qed

section \<open>End of a job\<close>

lemma lookup_placed:
  assumes "inv_except {} s" "lookup_job u s = Some p"
  shows "p \<in> live s" "placed s p" "JobUUID (job_at s p) = u"
  using assms lookup_live[of s u p] by (auto simp: inv_except_def)

text \<open>A job that leaves for a final state, or waits, after it released its locks.\<close>

lemma inv_SetJobAsSuccessful:
  assumes i: "inv_except {} s" and r: "SetJobAsSuccessful u s = (e, s')"
  shows "inv_except {} s'"
proof (cases "\<exists>p. lookup_job u s = Some p \<and> state (job_at s p) = JobRunning")
  case False
  then show ?thesis using r i by (auto simp: SetJobAsSuccessful_def split: option.splits if_splits)
next
  case True
  then obtain p where lk: "lookup_job u s = Some p" and q: "state (job_at s p) = JobRunning" by blast
  note p = lookup_placed[OF i lk]
  let ?s1 = "unlockJobResourcesLocked p s"
  let ?s2 = "add_event_now p JobEventSuccess ?s1"
  have s': "s' = tryEnqueuePendingJobsLocked (notify_job p ServiceEventJobSucceeded ?s2)"
    using r lk q by (simp add: SetJobAsSuccessful_def Let_def)
  note i1 = inv_unlock[OF i p(1)]
  have i2: "inv_except {p} ?s2" using inv_add_event_now[OF i1(1), of p] p by simp
  have "placed ?s2 p" using p(2) i1(2) q by (auto simp: placed_iff)
  then have "inv_except {} (notify_job p ServiceEventJobSucceeded ?s2)" using inv_close[OF i2] by simp
  then show ?thesis using inv_tryEnqueue(1) s' by simp
qed

lemma inv_CancelJob:
  assumes i: "inv_except {} s" and r: "CancelJob u s = (e, s')"
  shows "inv_except {} s'"
proof (cases "\<exists>p. lookup_job u s = Some p \<and> state (job_at s p) = JobRunning")
  case False
  then show ?thesis using r i by (auto simp: CancelJob_def split: option.splits if_splits)
next
  case True
  then obtain p where lk: "lookup_job u s = Some p" and q: "state (job_at s p) = JobRunning" by blast
  note p = lookup_placed[OF i lk]
  let ?s1 = "notify_job p ServiceEventJobCanceled (add_event_now p JobEventCancel s)"
  let ?s2 = "add_event_now p JobEventEnqueue ?s1"
  let ?s3 = "notifyQueuedLocked (notify_job p ServiceEventJobEnqueued ?s2)"
  have s': "s' = tryEnqueuePendingJobsLocked ?s3"
    using r lk q by (simp add: CancelJob_def Let_def)
  have i1: "inv_except {p} ?s1" using inv_add_event_now[OF i p(1)] by simp
  have i2: "inv_except {p} ?s2" using inv_add_event_now[OF i1, of p] p by simp
  have "placed ?s2 p" using p(2) q by (intro placed_queued) (auto simp: placed_iff)
  then have "inv_except {} ?s3" using inv_close[OF i2] by (simp add: notifyQueuedLocked_def)
  then show ?thesis using inv_tryEnqueue(1) s' by simp
qed

lemma inv_terminate:
  assumes i: "inv_except {p} s" and p: "p \<in> live s" "p \<notin> pend s" "p \<notin> retr s" "p \<notin> dela s"
    "owned s p \<subseteq> set (LockResources (job_at s p))"
  shows "inv_except {} (onJobFailedTooManyTimesLocked p s)"
proof -
  let ?s1 = "add_event_now p JobEventTerminate s"
  let ?s2 = "unlockJobResourcesLocked p ?s1"
  have i1: "inv_except {p} ?s1" using inv_add_event_now[OF i p(1)] by simp
  note i2 = inv_unlock[OF i1, of p]
  have "placed ?s2 p" using p i2(2) by (auto simp: placed_iff)
  then have "inv_except {} (notify_job p ServiceEventJobTerminated ?s2)"
    using inv_close[of p "{}" ?s2] i2(1) p by simp
  then show ?thesis using inv_tryEnqueue(1) by (simp add: onJobFailedTooManyTimesLocked_def Let_def)
qed

lemma inv_retryJobLater:
  assumes i: "inv_except {p} s" and p: "p \<in> live s" "p \<notin> pend s" "p \<notin> retr s" "p \<notin> dela s"
    "owned s p \<subseteq> set (LockResources (job_at s p))"
  shows "inv_except {} (retryJobLaterLocked p t s)"
proof -
  let ?s1 = "add_event_now p JobEventHide s"
  let ?s2 = "notify_job p ServiceEventJobHidden (unlockJobResourcesLocked p ?s1)"
  let ?s3 = "?s2\<lparr>sv_retry := Enqueue p (i64 (- t)) (sv_retry ?s2)\<rparr>"
  have i1: "inv_except {p} ?s1" using inv_add_event_now[OF i p(1)] by simp
  note u = inv_unlock[OF i1, of p]
  have i2: "inv_except {p} ?s2" using u(1) p by simp
  have l2: "p \<in> live ?s2" "p \<notin> retr ?s2" using p by simp_all
  note i3 = inv_retry_enqueue[OF i2 l2, of "i64 (- t)"]
  have "placed ?s3 p" using p i3(2) u(2) by (auto simp: placed_iff)
  then have "inv_except {} ?s3" using inv_close[of p "{}" ?s3] i3(1) by simp
  then show ?thesis using inv_tryEnqueue(1) by (simp add: retryJobLaterLocked_def Let_def)
qed

lemma inv_failJobLocked:
  assumes i: "inv_except {} s" and r: "failJobLocked u s = (e, s')"
  shows "inv_except {} s'"
proof (cases "\<exists>p. lookup_job u s = Some p \<and> state (job_at s p) = JobRunning")
  case False
  then show ?thesis using r i by (auto simp: failJobLocked_def split: option.splits if_splits)
next
  case True
  then obtain p where lk: "lookup_job u s = Some p" and q: "state (job_at s p) = JobRunning" by blast
  note p = lookup_placed[OF i lk]
  define s1 where "s1 = notify_job p ServiceEventJobFailed (add_event_now p JobEventFail s)"
  have i1: "inv_except {p} s1" using inv_add_event_now[OF i p(1)] by (simp add: s1_def)
  have v: "p \<in> live s1" "p \<notin> pend s1" "p \<notin> retr s1" "p \<notin> dela s1"
    "owned s1 p \<subseteq> set (LockResources (job_at s1 p))"
    using p q by (auto simp: s1_def placed_iff)
  define s2 where "s2 = s1\<lparr>sv_reads := Suc (sv_reads s1)\<rparr>"
  have i2: "inv_except {p} s2" using i1 by (simp add: s2_def)
  have v2: "p \<in> live s2" "p \<notin> pend s2" "p \<notin> retr s2" "p \<notin> dela s2"
    "owned s2 p \<subseteq> set (LockResources (job_at s2 p))"
    using v by (simp_all add: s2_def)
  obtain x s3 where rt: "retryJobLocked p s2 = (x, s3)" by fastforce
  note rs = inv_retryJobLocked[OF i2 v2 rt]
  have "s' = onJobFailedTooManyTimesLocked p s1 \<or> (\<exists>t. s' = retryJobLaterLocked p t s2)
      \<or> x = None \<and> s' = s3 \<or> x \<noteq> None \<and> (\<exists>t. s' = retryJobLaterLocked p t s3)"
    using r lk q rt
    by (auto simp: failJobLocked_def Let_def s1_def[symmetric] time_now_def s2_def[symmetric]
        split: if_splits option.splits)
  then consider (a) "s' = onJobFailedTooManyTimesLocked p s1" | (b) t where "s' = retryJobLaterLocked p t s2"
    | (c) "x = None" "s' = s3" | (d) t where "x \<noteq> None" "s' = retryJobLaterLocked p t s3" by blast
  then show ?thesis
  proof cases
    case a
    then show ?thesis using inv_terminate[OF i1 v] by simp
  next
    case (b t)
    then show ?thesis using inv_retryJobLater[OF i2 v2, of t] by simp
  next
    case c
    then show ?thesis using rs by simp
  next
    case (d t)
    then have "s3 = s2" using rs by simp
    then show ?thesis using d inv_retryJobLater[OF i2 v2, of t] by simp
  qed
qed

section \<open>Periodic tasks\<close>

lemma inv_retry_dequeue:
  assumes i: "inv_except E s" and d: "DequeueWithPriority m (sv_retry s) = (Some (p, pr), q)"
  shows "inv_except (insert p E) (s\<lparr>sv_retry := q\<rparr>)" "p \<in> live s" "p \<in> retr s"
    "retr (s\<lparr>sv_retry := q\<rparr>) = retr s - {p}"
proof -
  have ok: "pq_ok (live s) (sv_retry s)" using inv_own[OF i] by simp
  then have n: "pq_nodes (sv_retry s) = (p, pr) # pq_nodes q" "pq_wf q"
    using pq.deq_Some[OF d] by (simp_all add: pq_ok_def)
  then have q: "pq_ok (live s) q" "p \<notin> fst ` set (pq_nodes q)"
    using ok by (simp_all add: pq_ok_def)
  show "p \<in> live s" "p \<in> retr s" using n ok by (simp_all add: pq_ok_def retr_def)
  show r: "retr (s\<lparr>sv_retry := q\<rparr>) = retr s - {p}" using n(1) q(2) by (auto simp: retr_def)
  have i': "inv_except (insert p E) s" using inv_except_mono[OF i] by blast
  have "inv_except (insert p E) (s\<lparr>sv_pending := sv_pending s, sv_retry := q, sv_delayed := sv_delayed s\<rparr>)"
    by (rule inv_containers[OF i'])
      (use inv_own[OF i] q n(1) in \<open>auto simp: pend_def dela_def retr_def\<close>)
  then show "inv_except (insert p E) (s\<lparr>sv_retry := q\<rparr>)" by simp
qed

lemma inv_delayed_dequeue:
  assumes i: "inv_except E s" and d: "DequeueWithPriority m (sv_delayed s) = (Some (p, pr), q)"
  shows "inv_except (insert p E) (s\<lparr>sv_delayed := q\<rparr>)" "p \<in> live s" "p \<in> dela s"
    "dela (s\<lparr>sv_delayed := q\<rparr>) = dela s - {p}"
proof -
  have ok: "pq_ok (live s) (sv_delayed s)" using inv_own[OF i] by simp
  then have n: "pq_nodes (sv_delayed s) = (p, pr) # pq_nodes q" "pq_wf q"
    using pq.deq_Some[OF d] by (simp_all add: pq_ok_def)
  then have q: "pq_ok (live s) q" "p \<notin> fst ` set (pq_nodes q)"
    using ok by (simp_all add: pq_ok_def)
  show "p \<in> live s" "p \<in> dela s" using n ok by (simp_all add: pq_ok_def dela_def)
  show r: "dela (s\<lparr>sv_delayed := q\<rparr>) = dela s - {p}" using n(1) q(2) by (auto simp: dela_def)
  have i': "inv_except (insert p E) s" using inv_except_mono[OF i] by blast
  have "inv_except (insert p E) (s\<lparr>sv_pending := sv_pending s, sv_retry := sv_retry s, sv_delayed := q\<rparr>)"
    by (rule inv_containers[OF i'])
      (use inv_own[OF i] q n(1) in \<open>auto simp: pend_def dela_def retr_def\<close>)
  then show "inv_except (insert p E) (s\<lparr>sv_delayed := q\<rparr>)" by simp
qed

text \<open>The jobs that wait outside the queue while the loop of the retries runs.\<close>

definition set_aside :: "(ptr \<times> int64) list \<Rightarrow> svc \<Rightarrow> bool" where
  "set_aside ns s \<longleftrightarrow> distinct (map fst ns) \<and> inv_except (fst ` set ns) s
    \<and> (\<forall>p \<in> fst ` set ns. p \<in> live s \<and> p \<notin> pend s \<and> p \<notin> retr s \<and> p \<notin> dela s \<and> owned s p = {}
         \<and> state (job_at s p) = JobHidden)"

lemma owned_retry:
  assumes "retryJobLocked p s = (e, s')" "q \<in> live s" "p \<in> live s" "q \<noteq> p" "base_inv s"
  shows "owned s' q = owned s q"
proof -
  have u: "JobUUID (job_at s q) \<noteq> JobUUID (job_at s p)" using live_inj[OF assms(5)] assms by blast
  obtain e1 s1 where l: "lockResourcesLocked p s = (e1, s1)" by fastforce
  show ?thesis
  proof (cases e1)
    case None
    obtain m a where s1: "s1 = emit (NLockedCount (Topic (job_at s p)) (int a)) (s\<lparr>sv_locked := m\<rparr>)"
      and lk: "lock_of (JobUUID (job_at s p)) (LockResources (job_at s p)) (sv_locked s) = Some m"
      using lockResourcesLocked_ok[of p s s1] l None by blast
    have "sv_locked s' = m" "job_at s' q = job_at s q"
      using assms(1,4) l None s1
      by (auto simp: retryJobLocked_def notifyQueuedLocked_def Let_def)
    moreover have "map_of m x = Some (JobUUID (job_at s q)) \<longleftrightarrow>
        map_of (sv_locked s) x = Some (JobUUID (job_at s q))" for x
      using locks.lock_owner[OF lk, of x] locks.lock_keeps[OF lk, of x "JobUUID (job_at s q)"] u by auto
    ultimately show ?thesis by (simp add: owned_def)
  next
    case (Some x)
    then have "s' = s" using assms(1) l lockResourcesLocked_error[of p s x s1]
      by (auto simp: retryJobLocked_def)
    then show ?thesis by simp
  qed
qed

lemma retry_loop_inv:
  "set_aside ns s \<Longrightarrow> retry_loop m ns s = (ns', s') \<Longrightarrow> set_aside ns' s'"
proof (induction m ns s rule: retry_loop.induct)
  case (1 m ns s)
  obtain r q where d: "DequeueWithPriority m (sv_retry s) = (r, q)" by fastforce
  show ?case
  proof (cases r)
    case None
    then show ?thesis using "1.prems" d by (simp add: retry_loop.simps[of m ns s])
  next
    case (Some n)
    obtain p pr where n: "n = (p, pr)" by fastforce
    let ?s1 = "s\<lparr>sv_retry := q\<rparr>"
    obtain e s2 where rt: "retryJobLocked p ?s1 = (e, s2)" by fastforce
    let ?E = "fst ` set ns"
    have i: "inv_except ?E s" using "1.prems"(1) by (simp add: set_aside_def)
    note dq = inv_retry_dequeue[OF i, of m p pr q]
    have i1: "inv_except (insert p ?E) ?s1" "p \<in> live s" "p \<in> retr s" "retr ?s1 = retr s - {p}"
      using dq d Some n by simp_all
    have pE: "p \<notin> ?E" using "1.prems"(1) i1(3) by (auto simp: set_aside_def)
    then have pl: "placed s p" using i i1(2) by (simp add: inv_except_def)
    then have st: "state (job_at s p) = JobHidden" "p \<notin> pend s" "p \<notin> dela s" "owned s p = {}"
      using i1(3) by (auto simp: placed_iff)
    have v: "p \<in> live ?s1" "p \<notin> pend ?s1" "p \<notin> retr ?s1" "p \<notin> dela ?s1"
      "owned ?s1 p \<subseteq> set (LockResources (job_at ?s1 p))"
      using i1 st by simp_all
    note rs = inv_retryJobLocked[OF i1(1) v rt]
    have b1: "base_inv ?s1" using i1(1) by (simp add: inv_except_def)
    have other: "x \<in> live s2 \<and> x \<notin> pend s2 \<and> x \<notin> retr s2 \<and> x \<notin> dela s2 \<and> owned s2 x = {}
        \<and> state (job_at s2 x) = JobHidden" if "x \<in> ?E" for x
    proof -
      have x: "x \<in> live s" "x \<noteq> p" "x \<notin> pend s" "x \<notin> retr s" "x \<notin> dela s" "owned s x = {}"
        "state (job_at s x) = JobHidden"
        using that pE "1.prems"(1) by (auto simp: set_aside_def)
      have "owned s2 x = owned ?s1 x" using owned_retry[OF rt _ _ x(2) b1] x(1) i1(2) by simp
      moreover have "job_at s2 x = job_at s x" using rs x(2) by (simp add: touches_def)
      ultimately show ?thesis using x rs i1(4) touches_live[of "{p}" ?s1 s2] by simp
    qed
    let ?ns = "if e = None then ns else ns @ [n]"
    have "set_aside ?ns s2"
    proof (cases "e = None")
      case True
      then show ?thesis using other rs "1.prems"(1) by (auto simp: set_aside_def)
    next
      case False
      then have "s2 = ?s1" using rs by simp
      moreover have "insert p ?E = fst ` set (ns @ [n])" using n by simp
      ultimately show ?thesis using other v st i1 pE "1.prems"(1) n False
        by (auto simp: set_aside_def)
    qed
    moreover have "retry_loop m ?ns s2 = (ns', s')"
      using "1.prems"(2) d Some n rt
      by (cases e) (simp_all add: retry_loop.simps[of m ns s])
    ultimately show ?thesis using "1.IH"[OF d[symmetric] Some refl] n rt by simp
  qed
qed

lemma requeue_inv:
  "set_aside ns s \<Longrightarrow> inv_except {} (foldl (\<lambda>s (p, pr). s\<lparr>sv_retry := Enqueue p pr (sv_retry s)\<rparr>) s ns)"
proof (induction ns arbitrary: s)
  case Nil
  then show ?case by (simp add: set_aside_def)
next
  case (Cons n ns)
  obtain p pr where n: "n = (p, pr)" by fastforce
  let ?s1 = "s\<lparr>sv_retry := Enqueue p pr (sv_retry s)\<rparr>"
  have i: "inv_except (insert p (fst ` set ns)) s" and d: "distinct (map fst ns)" "p \<notin> fst ` set ns"
    and a: "\<And>x. x = p \<or> x \<in> fst ` set ns \<Longrightarrow> x \<in> live s \<and> x \<notin> pend s \<and> x \<notin> retr s \<and> x \<notin> dela s
      \<and> owned s x = {} \<and> state (job_at s x) = JobHidden"
    using Cons.prems n by (auto simp: set_aside_def)
  have p: "p \<in> live s" "p \<notin> retr s" using a by simp_all
  note e = inv_retry_enqueue[OF i p, of pr]
  have "placed ?s1 p" using a[of p] e(2) by (simp add: placed_iff)
  then have "inv_except (fst ` set ns) ?s1" using inv_close[of p "fst ` set ns" ?s1] e(1) by simp
  then have "set_aside ns ?s1" unfolding set_aside_def
    using d a e(2) by auto
  then show ?case using Cons.IH[of ?s1] n by simp
qed

lemma inv_AttemptJobRetries:
  assumes "inv_except {} s"
  shows "inv_except {} (AttemptJobRetries s)"
proof -
  let ?s = "s\<lparr>sv_reads := sv_reads s + 1\<rparr>"
  obtain ns s' where r: "retry_loop (i64 (- env_clock (sv_env s) (sv_reads s))) [] ?s = (ns, s')"
    by fastforce
  have "set_aside [] ?s" using assms by (simp add: set_aside_def)
  then have "set_aside ns s'" using retry_loop_inv r by blast
  then show ?thesis using requeue_inv[of ns s'] r
    by (simp add: AttemptJobRetries_def time_now_def)
qed

lemma inv_delayed_step:
  assumes i: "inv_except {} s" and d: "DequeueWithPriority m (sv_delayed s) = (Some (p, pr), q)"
  shows "inv_except {} (setJobStateToPendingLocked p (s\<lparr>sv_delayed := q\<rparr>))"
proof -
  note i1 = inv_delayed_dequeue[OF i d]
  then have "placed s p" using i by (simp add: inv_except_def)
  then have "p \<notin> retr s" "owned s p = {}" using i1(3) by (auto simp: placed_iff)
  then show ?thesis using inv_setPending(1)[OF i1(1)] i1 by simp
qed

lemma delayed_loop_inv:
  "inv_except {} s \<Longrightarrow> delayed_loop m f s = (f', s') \<Longrightarrow> inv_except {} s'"
proof (induction m f s rule: delayed_loop.induct)
  case (1 m f s)
  obtain r q where d: "DequeueWithPriority m (sv_delayed s) = (r, q)" by fastforce
  show ?case
  proof (cases r)
    case None
    then show ?thesis using "1.prems" d by (simp add: delayed_loop.simps[of m f s])
  next
    case (Some n)
    obtain p pr where n: "n = (p, pr)" by fastforce
    let ?s1 = "s\<lparr>sv_delayed := q\<rparr>"
    have "inv_except {} (setJobStateToPendingLocked p ?s1)"
      using inv_delayed_step[OF "1.prems"(1), of m p pr q] d Some n by simp
    moreover have "delayed_loop m True (setJobStateToPendingLocked p ?s1) = (f', s')"
      using "1.prems"(2) d Some n by (simp add: delayed_loop.simps[of m f s])
    ultimately show ?thesis using "1.IH"[OF d[symmetric] Some] n by simp
  qed
qed

lemma inv_CheckDelayedJobs:
  assumes "inv_except {} s"
  shows "inv_except {} (CheckDelayedJobs s)"
proof -
  let ?s = "s\<lparr>sv_delay_running := True, sv_reads := sv_reads s + 1\<rparr>"
  obtain f s' where r: "delayed_loop (i64 (- env_clock (sv_env s) (sv_reads s))) False ?s = (f, s')"
    by fastforce
  have "inv_except {} s'" using delayed_loop_inv[of ?s] assms r by simp
  then show ?thesis using assms inv_tryEnqueue(1)[of s'] r
    by (simp add: CheckDelayedJobs_def time_now_def)
qed

lemma retention_loop_inv:
  "inv_except {} s \<Longrightarrow> inv_except {} (retention_loop now age n d ps s)"
proof (induction ps arbitrary: s d)
  case (Cons p ps)
  obtain e s1 where r: "deleteJobLocked (JobUUID (job_at s p)) s = (e, s1)" by fastforce
  note i = inv_deleteJobLocked(1)[OF Cons.prems r]
  show ?case using Cons.IH[OF Cons.prems] Cons.IH[OF i] i r by (simp split: option.splits)
qed simp

lemma inv_CheckJobsRetention:
  "inv_except {} s \<Longrightarrow> inv_except {} (CheckJobsRetention iter s)"
  by (simp add: CheckJobsRetention_def deleteOldCompletedJobsLocked_def time_now_def
      retention_loop_inv Let_def)

lemma fail_all_inv:
  "inv_except {} s \<Longrightarrow> inv_except {} (foldl (\<lambda>s p. snd (failJobLocked (JobUUID (job_at s p)) s)) s ps)"
proof (induction ps arbitrary: s)
  case (Cons p ps)
  have "inv_except {} (snd (failJobLocked (JobUUID (job_at s p)) s))"
    using inv_failJobLocked[OF Cons.prems, of "JobUUID (job_at s p)"] by (metis surjective_pairing)
  then show ?case using Cons.IH by simp
qed simp

lemma inv_CheckJobsVisibilityTimeout:
  "inv_except {} s \<Longrightarrow> inv_except {} (CheckJobsVisibilityTimeout s)"
  by (simp add: CheckJobsVisibilityTimeout_def time_now_def Let_def fail_all_inv inv_tryEnqueue(1))

section \<open>Deletion and administration\<close>

lemma inv_delete_jobs: "inv_except {} s \<Longrightarrow> inv_except {} (snd (delete_jobs us s))"
proof (induction us arbitrary: s)
  case (Cons u us)
  obtain e s1 where r: "deleteJobLocked u s = (e, s1)" by fastforce
  show ?case using Cons.IH inv_deleteJobLocked(1)[OF Cons.prems r] r by (simp split: option.splits)
qed simp

lemma inv_unlockAll: "inv_except {} s \<Longrightarrow> inv_except {} (unlockAllResourcesLocked s)"
proof -
  assume i: "inv_except {} s"
  let ?s = "s\<lparr>sv_locked := []\<rparr>"
  have v: "live ?s = live s" "pend ?s = pend s" "retr ?s = retr s" "dela ?s = dela s" "in_state ?s = in_state s"
    by (simp_all add: live_def pend_def retr_def dela_def in_state_def fun_eq_iff)
  then have "inv_except {} ?s" using i by (simp add: inv_except_def base_inv_def placed_def)
  then show ?thesis by (simp add: unlockAllResourcesLocked_def Resources.UnlockAllResources_def)
qed

lemma inv_UnlockAllResources: "inv_except {} s \<Longrightarrow> inv_except {} (UnlockAllResources s)"
  by (simp add: UnlockAllResources_def inv_tryEnqueue(1) inv_unlockAll)

lemma inv_unlock_one:
  assumes i: "inv_except {} s"
  shows "inv_except {} (s\<lparr>sv_locked := AList.delete r (sv_locked s)\<rparr>)" (is "inv_except {} ?s")
proof -
  have v: "live ?s = live s" "pend ?s = pend s" "retr ?s = retr s" "dela ?s = dela s" "in_state ?s = in_state s"
    by (simp_all add: live_def pend_def retr_def dela_def in_state_def fun_eq_iff)
  have "ran ((map_of (sv_locked s))(r := None)) \<subseteq> ran (map_of (sv_locked s))"
    by (auto simp: ran_def)
  then have "base_inv ?s" using i v by (simp add: inv_except_def base_inv_def subset_trans)
  moreover have "placed ?s p" if "placed s p" for p using that v by (simp add: placed_def)
  ultimately show ?thesis using i v by (simp add: inv_except_def)
qed

lemma inv_UnlockResource:
  assumes i: "inv_except {} s"
  shows "inv_except {} (snd (UnlockResource r s))"
proof (cases "map_of (sv_locked s) r")
  case None
  then show ?thesis using i by (simp add: UnlockResource_def Resources.UnlockResource_def)
next
  case (Some o1)
  then show ?thesis using inv_unlock_one[OF i, of r]
    by (simp add: UnlockResource_def Resources.UnlockResource_def inv_tryEnqueue(1) Let_def)
qed

lemma inv_DeleteAllJobs:
  assumes "inv_except {} s"
  shows "inv_except {} (DeleteAllJobs s)"
proof -
  let ?s = "s\<lparr>sv_retry := Clear (sv_retry s), sv_delayed := Clear (sv_delayed s),
      sv_jobs := [], sv_pending := [], sv_queue := newQueuedJobs, sv_locked := []\<rparr>"
  have "live ?s = {}" "in_state ?s JobQueued = {}" by (simp_all add: live_def in_state_def)
  moreover have "q_entries newQueuedJobs = {}" by (simp add: newQueuedJobs_def)
  ultimately have "inv_except {} ?s" using assms
    by (simp add: inv_except_def base_inv_def pq_ok_def)
  then show ?thesis
    by (simp add: DeleteAllJobs_def unlockAllResourcesLocked_def Resources.UnlockAllResources_def)
qed

lemma inv_ChangeVisibilityTimeoutJob:
  "inv_except {} s \<Longrightarrow> inv_except {} (snd (ChangeVisibilityTimeoutJob u v s))"
  by (auto simp: ChangeVisibilityTimeoutJob_def Let_def inv_visibility split: option.splits)

section \<open>Creation\<close>

lemma generateNewJobUuid_fresh:
  assumes "generateNewJobUuidLocked s = Some (Inr u, s')"
  shows "map_of (sv_jobs s) u = None" "\<exists>k. s' = s\<lparr>sv_uuids := k\<rparr>"
proof -
  have "\<forall>u. fst r = Inr u \<longrightarrow> map_of js u = None" if "newJobUuid_loop v js k = Some r" for v js k r
  proof (rule newJobUuid_loop.raw_induct[OF _ that,
        where P = "\<lambda>v js k r. \<forall>u. fst r = Inr u \<longrightarrow> map_of js u = None"])
    fix loop :: "(nat \<Rightarrow> string + JobUUID) \<Rightarrow> JobMap \<Rightarrow> nat \<Rightarrow> ((APIError + JobUUID) \<times> nat) option"
      and v js k r
    assume ih: "\<And>v js k r. loop v js k = Some r \<Longrightarrow> \<forall>u. fst r = Inr u \<longrightarrow> map_of js u = None"
    assume "(case v k of Inl err \<Rightarrow> Some (Inl (api_error ''cannot create job'' ErrorCantCreateJob
        StatusInternalServerError 0 (Some err)), k + 1)
      | Inr u \<Rightarrow> if map_of js u = None then Some (Inr u, k + 1) else loop v js (k + 1)) = Some r"
    then show "\<forall>u. fst r = Inr u \<longrightarrow> map_of js u = None"
      using ih[of v js "k + 1" r] by (auto split: sum.splits if_splits)
  qed
  then show "map_of (sv_jobs s) u = None" using assms
    by (fastforce simp: generateNewJobUuidLocked_def split: option.splits)
  show "\<exists>k. s' = s\<lparr>sv_uuids := k\<rparr>" using assms
    by (auto simp: generateNewJobUuidLocked_def split: option.splits)
qed

text \<open>A new job: at a fresh address, under an unused id, in no container yet.\<close>

lemma inv_store_new_job:
  assumes i: "inv_except {} s" and u: "map_of (sv_jobs s) (JobUUID j) = None"
    and j: "History j \<noteq> []" "synced j" "state j \<noteq> JobQueued"
    and r: "store_new_job j s = (p, s')"
  shows "inv_except {p} s'" "p \<in> live s'" "p \<notin> pend s'" "p \<notin> retr s'" "p \<notin> dela s'"
    "owned s' p = {}" "job_at s' p = j" "live s' = insert p (live s)" "p \<notin> live s"
proof -
  have b: "base_inv s" using i by (simp add: inv_except_def)
  have p: "p = sv_next s" and s': "s' = s\<lparr>sv_store := (sv_store s)(sv_next s := j),
      sv_next := sv_next s + 1, sv_jobs := AList.update (JobUUID j) (sv_next s) (sv_jobs s)\<rparr>"
    using r by (auto simp: store_new_job_def)
  have fresh: "q < sv_next s" if "q \<in> live s" for q
    using that b by (auto simp: live_def ran_def base_inv_def)
  then show np: "p \<notin> live s" using p by blast
  show st: "job_at s' p = j" by (simp add: s' p)
  have old: "job_at s' q = job_at s q" if "q \<in> live s" for q using that np by (auto simp: s' p)
  show l: "live s' = insert p (live s)" using u by (simp add: live_def s' p)
  then show "p \<in> live s'" by simp
  have v: "pend s' = pend s" "retr s' = retr s" "dela s' = dela s"
    by (simp_all add: pend_def retr_def dela_def s')
  have sub: "pend s \<subseteq> live s" "retr s \<subseteq> live s" "dela s \<subseteq> live s"
    using pend_in_live[OF i] inv_own[OF i] by (auto simp: pq_ok_def retr_def dela_def)
  then show "p \<notin> pend s'" "p \<notin> retr s'" "p \<notin> dela s'" using np v by auto
  have lk: "ran (map_of (sv_locked s)) \<subseteq> dom (map_of (sv_jobs s))" using b by (simp add: base_inv_def)
  then have "JobUUID j \<notin> ran (map_of (sv_locked s))" using u by blast
  then show "owned s' p = {}" using st by (auto simp: owned_def s' ran_def)
  have q: "q_entries (sv_queue s) = in_state s JobQueued" "queue_wf (sv_store s) (sv_queue s)"
    using b by (simp_all add: base_inv_def)
  have in': "in_state s' JobQueued = in_state s JobQueued"
    using j(3) st l old np by (auto simp: in_state_def)
  have qw: "queue_wf (sv_store s') (sv_queue s')"
    using queue_wf_cong[OF q(2), of "sv_store s'"] old q(1) by (simp add: in_state_def s')
  have jm: "JobUUID (job_at s' q) = w \<and> q < sv_next s'" if "map_of (sv_jobs s') w = Some q" for w q
  proof (cases "w = JobUUID j")
    case True
    then show ?thesis using that by (simp add: s')
  next
    case False
    then have "map_of (sv_jobs s) w = Some q" using that by (simp add: s')
    then have "q \<in> live s" "JobUUID (job_at s q) = w" "q < sv_next s"
      using b by (auto simp: base_inv_def live_def ran_def)
    then show ?thesis using old by (simp add: s')
  qed
  have pm: "map_of (sv_jobs s') w = Some q" if "map_of (sv_pending s') w = Some q" for w q
    using that pending_job(1)[OF i, of w q] u by (auto simp: s')
  have "base_inv s'"
    unfolding base_inv_def
  proof (intro conjI)
    show "wf_map (sv_jobs s')" "wf_map (sv_pending s')" "wf_map (sv_locked s')" "\<not> sv_panic s'"
      using b by (simp_all add: base_inv_def s')
    show "\<forall>w q. map_of (sv_jobs s') w = Some q \<longrightarrow> JobUUID (job_at s' q) = w \<and> q < sv_next s'"
      using jm by blast
    show "\<forall>q\<in>live s'. History (job_at s' q) \<noteq> [] \<and> synced (job_at s' q)"
      using b l st old j by (auto simp: base_inv_def)
    show "queue_wf (sv_store s') (sv_queue s')" by (rule qw)
    show "q_entries (sv_queue s') = in_state s' JobQueued" using in' q by (simp add: s')
    show "\<forall>w q. map_of (sv_pending s') w = Some q \<longrightarrow> map_of (sv_jobs s') w = Some q"
      using pm by blast
    show "pq_ok (live s') (sv_retry s')" "pq_ok (live s') (sv_delayed s')"
      using inv_own[OF i] l by (auto simp: pq_ok_def s')
    show "ran (map_of (sv_locked s')) \<subseteq> dom (map_of (sv_jobs s'))"
      using lk by (auto simp: s')
  qed
  moreover have "placed s' q" if "q \<in> live s' - {p}" for q
  proof -
    have ql: "q \<in> live s" using that l by blast
    have lo: "sv_locked s' = sv_locked s" by (simp add: s')
    have "placed s q" using i ql by (simp add: inv_except_def)
    then show ?thesis unfolding placed_def v lo old[OF ql] .
  qed
  ultimately show "inv_except {p} s'" by (simp add: inv_except_def)
qed

lemma inv_schedule_new_job:
  assumes i: "inv_except {p} s"
    and p: "p \<in> live s" "p \<notin> pend s" "p \<notin> retr s" "p \<notin> dela s" "owned s p = {}"
  shows "inv_except {} (schedule_new_job p s)"
proof -
  let ?s = "s\<lparr>sv_reads := sv_reads s + 1\<rparr>"
  have "inv_except {p} ?s" "p \<in> live ?s" "p \<notin> pend ?s" "p \<notin> retr ?s" "p \<notin> dela ?s" "owned ?s p = {}"
    using assms by simp_all
  then show ?thesis using inv_setDelayed(1)[of p ?s] inv_setPending(1)[of p ?s]
    by (simp add: schedule_new_job_def time_now_def)
qed

text \<open>A creation is refused, with at most the clock and the generator read, or stores the job.\<close>

lemma finalizeJobCreation_cases:
  assumes i: "inv_except {} s" and r: "finalizeJobCreationLocked j s = Some (res, s')"
  obtains (refused) err n k where "res = Inl err \<and> s' = s\<lparr>sv_reads := n, sv_uuids := k\<rparr>"
  | (stored) u k p s1 s2 where
      "s1 = s\<lparr>sv_reads := Suc (sv_reads s), sv_uuids := k\<rparr>"
      "map_of (sv_jobs s) u = None"
      "store_new_job (Init u (env_clock (sv_env s) (sv_reads s)) j) s1 = (p, s2)"
      "inv_except {p} s2" "p \<in> live s2" "p \<notin> live s" "live s2 = insert p (live s)"
      "job_at s2 p = Init u (env_clock (sv_env s) (sv_reads s)) j"
      "inv_except {} (schedule_new_job p (notify_job p ServiceEventJobCreated s2))"
      "s' = tryEnqueuePendingJobsLocked (schedule_new_job p (notify_job p ServiceEventJobCreated s2))"
      "res = Inr (job_at (schedule_new_job p (notify_job p ServiceEventJobCreated s2)) p)"
      "BackendMaxJobs (sv_conf s) = 0 \<or> length (sv_jobs s) < BackendMaxJobs (sv_conf s)"
proof (cases "BackendMaxJobs (sv_conf s) > 0 \<and> length (sv_jobs s) \<ge> BackendMaxJobs (sv_conf s)")
  case True
  then show thesis using r by (intro refused[where n = "sv_reads s" and k = "sv_uuids s"]) (auto simp: finalizeJobCreationLocked_def)
next
  case False
  let ?s0 = "s\<lparr>sv_reads := Suc (sv_reads s)\<rparr>"
  let ?now = "env_clock (sv_env s) (sv_reads s)"
  obtain g s1 where g: "generateNewJobUuidLocked ?s0 = Some (g, s1)"
    using r False by (auto simp: finalizeJobCreationLocked_def time_now_def split: option.splits)
  obtain k where k: "s1 = ?s0\<lparr>sv_uuids := k\<rparr>" using g
    by (auto simp: generateNewJobUuidLocked_def split: option.splits)
  show thesis
  proof (cases g)
    case (Inl e)
    then show thesis using r False g k
      by (intro refused[where n = "Suc (sv_reads s)" and k = k]) (auto simp: finalizeJobCreationLocked_def time_now_def)
  next
    case (Inr u)
    have fresh: "map_of (sv_jobs s) u = None"
      using generateNewJobUuid_fresh(1)[of ?s0 u s1] g Inr by simp
    obtain p s2 where st: "store_new_job (Init u ?now j) s1 = (p, s2)" by fastforce
    have i1: "inv_except {} s1" using i k by simp
    have n: "inv_except {p} s2" "p \<in> live s2" "p \<notin> pend s2" "p \<notin> retr s2" "p \<notin> dela s2" "owned s2 p = {}"
      "job_at s2 p = Init u ?now j" "live s2 = insert p (live s1)" "p \<notin> live s1"
      using inv_store_new_job[OF i1 _ _ _ _ st] fresh k synced_Init[of u ?now j]
      by (simp_all add: Init_def)
    have "inv_except {} (schedule_new_job p (notify_job p ServiceEventJobCreated s2))"
      using n by (intro inv_schedule_new_job) simp_all
    moreover have "s' = tryEnqueuePendingJobsLocked (schedule_new_job p (notify_job p ServiceEventJobCreated s2))"
      "res = Inr (job_at (schedule_new_job p (notify_job p ServiceEventJobCreated s2)) p)"
      using r False g Inr st by (simp_all add: finalizeJobCreationLocked_def time_now_def Let_def)
    moreover have "live s1 = live s" by (simp add: k live_def)
    ultimately show thesis using n False st
      by (intro stored[where k = k and u = u and p = p and ?s1.0 = s1 and ?s2.0 = s2]) (auto simp: k fresh)
  qed
qed

lemma inv_finalizeJobCreation:
  assumes i: "inv_except {} s" and r: "finalizeJobCreationLocked j s = Some (res, s')"
  shows "inv_except {} s'"
  using i r
proof (cases rule: finalizeJobCreation_cases)
  case (refused err n k)
  then show ?thesis using i by simp
qed (simp add: inv_tryEnqueue(1))

lemma inv_CreateJob:
  "inv_except {} s \<Longrightarrow> CreateJob d s = Some (res, s') \<Longrightarrow> inv_except {} s'"
  using inv_finalizeJobCreation by (auto simp: CreateJob_def split: option.splits sum.splits)

lemma inv_CloneJob:
  "inv_except {} s \<Longrightarrow> CloneJob u s = Some (res, s') \<Longrightarrow> inv_except {} s'"
  using inv_finalizeJobCreation by (auto simp: CloneJob_def split: option.splits)

end
