(* ===== verification/ServiceLoad.thy ===== *)
theory ServiceLoad
  imports ServiceReach
begin

text \<open>
  The start of the scheduler: \<open>LoadJobs\<close> on a new service establishes the invariant, for
  whatever well-formed set of jobs the backend provider returns: distinct ids, each job
  under its id, with a history, and with the state its history gives.
\<close>

definition loaded_ok :: "(JobUUID \<times> job) list \<Rightarrow> bool" where
  "loaded_ok ujs \<longleftrightarrow> wf_map ujs
    \<and> (\<forall>(u, j) \<in> set ujs. JobUUID j = u \<and> History j \<noteq> [] \<and> synced j)"

section \<open>Placing the jobs in the store\<close>

lemma place_job_sel [simp]:
  "sv_env (place_job uj s) = sv_env s" "sv_conf (place_job uj s) = sv_conf s"
  "sv_pending (place_job uj s) = sv_pending s" "sv_queue (place_job uj s) = sv_queue s"
  "sv_retry (place_job uj s) = sv_retry s" "sv_delayed (place_job uj s) = sv_delayed s"
  "sv_locked (place_job uj s) = sv_locked s" "sv_panic (place_job uj s) = sv_panic s"
  by (simp_all add: place_job_def)

lemma place_jobs_sel [simp]:
  "sv_env (foldl (\<lambda>s uj. place_job uj s) s ujs) = sv_env s"
  "sv_conf (foldl (\<lambda>s uj. place_job uj s) s ujs) = sv_conf s"
  "sv_pending (foldl (\<lambda>s uj. place_job uj s) s ujs) = sv_pending s"
  "sv_queue (foldl (\<lambda>s uj. place_job uj s) s ujs) = sv_queue s"
  "sv_retry (foldl (\<lambda>s uj. place_job uj s) s ujs) = sv_retry s"
  "sv_delayed (foldl (\<lambda>s uj. place_job uj s) s ujs) = sv_delayed s"
  "sv_locked (foldl (\<lambda>s uj. place_job uj s) s ujs) = sv_locked s"
  "sv_panic (foldl (\<lambda>s uj. place_job uj s) s ujs) = sv_panic s"
  by (induction ujs arbitrary: s) simp_all

definition holds_jobs :: "(JobUUID \<times> job) list \<Rightarrow> svc \<Rightarrow> bool" where
  "holds_jobs ujs s \<longleftrightarrow> wf_map (sv_jobs s)
    \<and> (\<forall>u. map_of (sv_jobs s) u = None \<longleftrightarrow> map_of ujs u = None)
    \<and> (\<forall>u p. map_of (sv_jobs s) u = Some p \<longrightarrow> p < sv_next s \<and> map_of ujs u = Some (job_at s p))"

lemma place_jobs_holds:
  "holds_jobs ujs s \<Longrightarrow> wf_map (ujs @ vjs) \<Longrightarrow>
    holds_jobs (ujs @ vjs) (foldl (\<lambda>s uj. place_job uj s) s vjs)"
proof (induction vjs arbitrary: ujs s)
  case Nil
  then show ?case by simp
next
  case (Cons uj vjs)
  obtain u j where uj: "uj = (u, j)" by fastforce
  have new: "map_of ujs u = None" using Cons.prems(2) uj by (simp add: map_of_eq_None_iff)
  have m: "map_of (ujs @ [uj]) w = (if w = u then Some j else map_of ujs w)" for w
    using new uj by (auto simp: map_add_def split: option.splits)
  have "holds_jobs (ujs @ [uj]) (place_job uj s)"
    unfolding holds_jobs_def
  proof (intro conjI allI impI)
    show "wf_map (sv_jobs (place_job uj s))"
      using Cons.prems(1) by (simp add: holds_jobs_def place_job_def)
    show "map_of (sv_jobs (place_job uj s)) w = None \<longleftrightarrow> map_of (ujs @ [uj]) w = None" for w
      using Cons.prems(1) m[of w] uj by (simp add: holds_jobs_def place_job_def)
    fix w p
    assume a: "map_of (sv_jobs (place_job uj s)) w = Some p"
    show "p < sv_next (place_job uj s)"
      using a Cons.prems(1) uj by (auto simp: holds_jobs_def place_job_def less_Suc_eq split: if_splits)
    show "map_of (ujs @ [uj]) w = Some (job_at (place_job uj s) p)"
    proof (cases "w = u")
      case True
      then show ?thesis using a m[of w] uj by (simp add: place_job_def)
    next
      case False
      then have "map_of (sv_jobs s) w = Some p" using a uj by (simp add: place_job_def)
      then have "p < sv_next s" "map_of ujs w = Some (job_at s p)"
        using Cons.prems(1) by (auto simp: holds_jobs_def)
      then show ?thesis using m[of w] False by (simp add: place_job_def)
    qed
  qed
  then show ?case using Cons.IH[of "ujs @ [uj]" "place_job uj s"] Cons.prems(2) by simp
qed

section \<open>The loop over the loaded jobs\<close>

text \<open>The invariant when the loop has passed the jobs of \<open>D\<close>.\<close>

definition load_inv :: "ptr set \<Rightarrow> svc \<Rightarrow> bool" where
  "load_inv D s \<longleftrightarrow>
    wf_map (sv_jobs s)
    \<and> (\<forall>u p. map_of (sv_jobs s) u = Some p \<longrightarrow> JobUUID (job_at s p) = u \<and> p < sv_next s)
    \<and> (\<forall>p \<in> live s. History (job_at s p) \<noteq> [] \<and> synced (job_at s p))
    \<and> queue_wf (sv_store s) (sv_queue s) \<and> q_entries (sv_queue s) = in_state s JobQueued \<inter> D
    \<and> wf_map (sv_pending s)
    \<and> (\<forall>u p. map_of (sv_pending s) u = Some p \<longleftrightarrow>
         map_of (sv_jobs s) u = Some p \<and> state (job_at s p) = JobPending \<and> p \<in> D)
    \<and> pq_ok (live s) (sv_retry s) \<and> retr s = in_state s JobHidden \<inter> D
    \<and> pq_ok (live s) (sv_delayed s) \<and> dela s = in_state s JobDelayed \<inter> D
    \<and> wf_map (sv_locked s)
    \<and> (\<forall>r u. map_of (sv_locked s) r = Some u \<longrightarrow> (\<exists>p. map_of (sv_jobs s) u = Some p
         \<and> r \<in> set (LockResources (job_at s p)) \<and> state (job_at s p) \<in> {JobQueued, JobRunning}))
    \<and> \<not> sv_panic s"

lemma load_invD:
  assumes "load_inv D s"
  shows "wf_map (sv_jobs s)"
    "\<forall>u p. map_of (sv_jobs s) u = Some p \<longrightarrow> JobUUID (job_at s p) = u \<and> p < sv_next s"
    "\<forall>p \<in> live s. History (job_at s p) \<noteq> [] \<and> synced (job_at s p)"
    "queue_wf (sv_store s) (sv_queue s)" "q_entries (sv_queue s) = in_state s JobQueued \<inter> D"
    "wf_map (sv_pending s)"
    "\<forall>u p. map_of (sv_pending s) u = Some p \<longleftrightarrow>
         map_of (sv_jobs s) u = Some p \<and> state (job_at s p) = JobPending \<and> p \<in> D"
    "pq_ok (live s) (sv_retry s)" "retr s = in_state s JobHidden \<inter> D"
    "pq_ok (live s) (sv_delayed s)" "dela s = in_state s JobDelayed \<inter> D"
    "wf_map (sv_locked s)"
    "\<forall>r u. map_of (sv_locked s) r = Some u \<longrightarrow> (\<exists>p. map_of (sv_jobs s) u = Some p
         \<and> r \<in> set (LockResources (job_at s p)) \<and> state (job_at s p) \<in> {JobQueued, JobRunning})"
    "\<not> sv_panic s"
  using assms unfolding load_inv_def by - ((elim conjE, assumption)+)

lemma load_inv_final:
  assumes "load_inv (live s) s"
  shows "inv_except {} s"
proof -
  note k = load_invD(2)[OF assms] and c = load_invD(7)[OF assms] and lo = load_invD(13)[OF assms]
    and ds = load_invD(5,9,11)[OF assms]
  have in_live: "in_state s X \<inter> live s = in_state s X" for X by (auto simp: in_state_def)
  have pe: "pend s = in_state s JobPending"
    using c unfolding pend_def in_state_def live_def ran_def by blast
  have "base_inv s" unfolding base_inv_def
  proof (intro conjI)
    show "ran (map_of (sv_locked s)) \<subseteq> dom (map_of (sv_jobs s))"
      using lo unfolding ran_def by blast
    show "q_entries (sv_queue s) = in_state s JobQueued" using ds in_live by simp
    show "\<forall>u p. map_of (sv_pending s) u = Some p \<longrightarrow> map_of (sv_jobs s) u = Some p"
      using c by blast
  qed (insert assms[unfolded load_inv_def], (elim conjE, assumption)+)
  moreover have "placed s p" if p: "p \<in> live s" for p
  proof -
    have "map_of (sv_jobs s) (JobUUID (job_at s p)) = Some p"
      using p k by (auto simp: live_def ran_def)
    then have "r \<in> set (LockResources (job_at s p)) \<and> state (job_at s p) \<in> {JobQueued, JobRunning}"
      if "map_of (sv_locked s) r = Some (JobUUID (job_at s p))" for r
      using lo[rule_format, OF that] by auto
    then show ?thesis using pe ds in_live p by (simp add: placed_def in_state_def)
  qed
  ultimately show ?thesis by (simp add: inv_except_def)
qed

lemma load_inv_emit [simp]: "load_inv D (emit e s) = load_inv D s"
proof -
  have "in_state (emit e s) = in_state s" by (simp add: in_state_def fun_eq_iff)
  then show ?thesis by (simp add: load_inv_def)
qed

lemma load_job_step:
  assumes l: "load_inv D s" and p: "map_of (sv_jobs s) u = Some p" "p \<notin> D"
  shows "load_inv (insert p D) (load_job now u s)"
    "sv_jobs (load_job now u s) = sv_jobs s" "sv_store (load_job now u s) = sv_store s"
proof -
  let ?j = "job_at s p"
  have pl: "p \<in> live s" using p by (auto simp: live_def ran_def)
  have k: "JobUUID ?j = u" using l p by (simp add: load_inv_def)
  have hy: "History ?j \<noteq> []" using l pl by (simp add: load_inv_def)
  define s1 where "s1 = (case state ?j of
      JobPending \<Rightarrow> s\<lparr>sv_pending := AList.update (JobUUID ?j) p (sv_pending s)\<rparr>
    | JobQueued \<Rightarrow> (case add (sv_store s) p (sv_queue s) of
        None \<Rightarrow> s\<lparr>sv_panic := True\<rparr> | Some q \<Rightarrow> s\<lparr>sv_queue := q\<rparr>)
    | JobHidden \<Rightarrow> s\<lparr>sv_retry := Enqueue p (i64 (- now)) (sv_retry s)\<rparr>
    | JobDelayed \<Rightarrow> s\<lparr>sv_delayed := Enqueue p (i64 (- StartAfter ?j)) (sv_delayed s)\<rparr>
    | _ \<Rightarrow> s)"
  have e: "load_job now u s = emit (NLockedCount (Topic ?j) 0)
      (emit (NJob (job_at s1 p) ServiceEventJobLoaded) s1)"
    using p by (simp add: load_job_def lookup_job_def Let_def s1_def[symmetric]
        UpdateResourcesLockedCountMetric_def notify_job_def)
  have st: "sv_jobs s1 = sv_jobs s" "sv_store s1 = sv_store s" "sv_next s1 = sv_next s"
    "sv_locked s1 = sv_locked s"
    by (simp_all add: s1_def split: JobState.splits option.splits)
  then show "sv_jobs (load_job now u s) = sv_jobs s" "sv_store (load_job now u s) = sv_store s"
    by (simp_all add: e)
  have v: "live s1 = live s" "in_state s1 = in_state s"
    using st by (simp_all add: live_def in_state_def fun_eq_iff)
  have ins: "in_state s X \<inter> insert p D =
      (if state ?j = X then insert p (in_state s X \<inter> D) else in_state s X \<inter> D)" for X
    using pl by (auto simp: in_state_def)
  note qD = load_invD(5,9,11,4,8,10,6,14)[OF l] and pc = load_invD(7)[OF l] and kk = load_invD(2)[OF l]
  have qq: "queue_wf (sv_store s) (sv_queue s1) \<and> q_entries (sv_queue s1) = in_state s JobQueued \<inter> insert p D
      \<and> \<not> sv_panic s1"
  proof (cases "state ?j = JobQueued")
    case True
    have c: "GetCreationTimestamp ?j \<noteq> None" using hy by (simp add: GetCreationTimestamp_def split: list.splits)
    have "x = p" if "x \<in> q_entries (sv_queue s)" "JobUUID (job_at s x) = JobUUID ?j" for x
    proof -
      have "x \<in> live s" using that(1) qD(1) by (simp add: in_state_def)
      then have "map_of (sv_jobs s) (JobUUID (job_at s x)) = Some x"
        using kk by (auto simp: live_def ran_def)
      then show ?thesis using that(2) k p(1) by simp
    qed
    then show ?thesis using add_spec[OF qD(4) c] qD(1,8) True ins[of JobQueued] by (auto simp: s1_def)
  next
    case False
    then have "sv_queue s1 = sv_queue s" "sv_panic s1 = sv_panic s"
      by (auto simp: s1_def split: JobState.splits)
    then show ?thesis using qD ins[of JobQueued] False by simp
  qed
  have rr: "pq_ok (live s) (sv_retry s1) \<and> retr s1 = in_state s JobHidden \<inter> insert p D"
  proof (cases "state ?j = JobHidden")
    case True
    then have "p \<notin> retr s" using p(2) qD(2) by simp
    then show ?thesis using pq_ok_Enqueue[OF qD(5) pl, of "i64 (- now)"] True ins[of JobHidden] qD(2)
      by (simp add: s1_def retr_def)
  next
    case False
    then have "sv_retry s1 = sv_retry s" by (auto simp: s1_def split: JobState.splits option.splits)
    then show ?thesis using qD(2,5) ins[of JobHidden] False by (simp add: retr_def)
  qed
  have dd: "pq_ok (live s) (sv_delayed s1) \<and> dela s1 = in_state s JobDelayed \<inter> insert p D"
  proof (cases "state ?j = JobDelayed")
    case True
    then have "p \<notin> dela s" using p(2) qD(3) by simp
    then show ?thesis using pq_ok_Enqueue[OF qD(6) pl, of "i64 (- StartAfter ?j)"] True ins[of JobDelayed] qD(3)
      by (simp add: s1_def dela_def)
  next
    case False
    then have "sv_delayed s1 = sv_delayed s" by (auto simp: s1_def split: JobState.splits option.splits)
    then show ?thesis using qD(3,6) ins[of JobDelayed] False by (simp add: dela_def)
  qed
  have pp: "wf_map (sv_pending s1) \<and> (\<forall>w q. map_of (sv_pending s1) w = Some q \<longleftrightarrow>
         map_of (sv_jobs s) w = Some q \<and> state (job_at s q) = JobPending \<and> q \<in> insert p D)"
  proof (cases "state ?j = JobPending")
    case True
    have "map_of (sv_pending s1) = (map_of (sv_pending s))(u \<mapsto> p)" "wf_map (sv_pending s1)"
      using True k qD(7) by (simp_all add: s1_def)
    moreover have "((map_of (sv_pending s))(u \<mapsto> p)) w = Some q \<longleftrightarrow>
         map_of (sv_jobs s) w = Some q \<and> state (job_at s q) = JobPending \<and> q \<in> insert p D" for w q
    proof (cases "w = u")
      case True
      then show ?thesis using p(1) \<open>state ?j = JobPending\<close> by auto
    next
      case False
      then have "map_of (sv_jobs s) w \<noteq> Some p" using kk k by metis
      then show ?thesis using False pc by auto
    qed
    ultimately show ?thesis by simp
  next
    case False
    then have "sv_pending s1 = sv_pending s" by (auto simp: s1_def split: JobState.splits option.splits)
    then show ?thesis using qD(7) pc False by auto
  qed
  have "load_inv (insert p D) s1"
    unfolding load_inv_def v st
    using load_invD(1-3,12,13)[OF l] qq rr dd pp
    by - (intro conjI; (elim conjE)?; assumption)
  then show "load_inv (insert p D) (load_job now u s)" by (simp add: e)
qed

lemma load_jobs_inv:
  assumes "load_inv D s" "distinct us" "\<forall>u \<in> set us. \<exists>p. map_of (sv_jobs s) u = Some p \<and> p \<notin> D"
  shows "load_inv (D \<union> {p. \<exists>u \<in> set us. map_of (sv_jobs s) u = Some p}) (foldl (\<lambda>s u. load_job now u s) s us)
    \<and> sv_jobs (foldl (\<lambda>s u. load_job now u s) s us) = sv_jobs s
    \<and> sv_store (foldl (\<lambda>s u. load_job now u s) s us) = sv_store s"
  using assms
proof (induction us arbitrary: D s)
  case Nil
  then show ?case by simp
next
  case (Cons u us)
  obtain p where p: "map_of (sv_jobs s) u = Some p" "p \<notin> D" using Cons.prems(3) by auto
  note st = load_job_step[OF Cons.prems(1) p, of now]
  have inj: "q \<noteq> p" if "map_of (sv_jobs s) w = Some q" "w \<noteq> u" for w q
    using load_invD(2)[OF Cons.prems(1)] p(1) that by metis
  have "\<forall>w \<in> set us. \<exists>q. map_of (sv_jobs (load_job now u s)) w = Some q \<and> q \<notin> insert p D"
  proof
    fix w assume w: "w \<in> set us"
    then obtain q where q: "map_of (sv_jobs s) w = Some q" "q \<notin> D" using Cons.prems(3) by auto
    moreover have "w \<noteq> u" using w Cons.prems(2) by auto
    ultimately show "\<exists>q. map_of (sv_jobs (load_job now u s)) w = Some q \<and> q \<notin> insert p D"
      using inj st(2) by (auto simp del: map_of_eq_Some_iff)
  qed
  moreover have "insert p D \<union> {q. \<exists>w \<in> set us. map_of (sv_jobs s) w = Some q} =
      D \<union> {q. \<exists>w \<in> set (u # us). map_of (sv_jobs s) w = Some q}"
    using p(1) by (auto simp del: map_of_eq_Some_iff)
  ultimately show ?case using Cons.IH[OF st(1)] Cons.prems(2) st(2,3) by simp
qed

section \<open>The locks of the loaded jobs\<close>

lemma lock_names_spec:
  "wf_map m \<Longrightarrow> wf_map (foldl (\<lambda>m r. AList.update r v m) m rs)
    \<and> map_of (foldl (\<lambda>m r. AList.update r v m) m rs) =
        (\<lambda>r. if r \<in> set rs then Some v else map_of m r)"
  by (induction rs arbitrary: m) (auto simp: fun_eq_iff)

lemma LockResourcesForJobs_spec:
  "wf_map (LockResourcesForJobs get jm)"
  "map_of (LockResourcesForJobs get jm) r = Some v \<Longrightarrow>
    \<exists>i \<in> dom (map_of jm). JobUUID (get i) = v \<and> r \<in> set (LockResources (get i))
      \<and> state (get i) \<in> {JobQueued, JobRunning}"
proof -
  let ?f = "\<lambda>m i. let j = get i in
        if state j \<in> {JobQueued, JobRunning}
        then foldl (\<lambda>m r. AList.update r (JobUUID j) m) m (LockResources j) else m"
  have g: "wf_map m \<Longrightarrow> wf_map (foldl ?f m is) \<and> (\<forall>r v. map_of (foldl ?f m is) r = Some v \<longrightarrow>
      map_of m r = Some v \<or> (\<exists>i \<in> set is. JobUUID (get i) = v \<and> r \<in> set (LockResources (get i))
        \<and> state (get i) \<in> {JobQueued, JobRunning}))" for "is" m
  proof (induction "is" arbitrary: m)
    case (Cons i "is")
    have w: "wf_map (?f m i)" and o: "map_of (?f m i) =
        (if state (get i) \<in> {JobQueued, JobRunning}
         then (\<lambda>r. if r \<in> set (LockResources (get i)) then Some (JobUUID (get i)) else map_of m r)
         else map_of m)"
      using lock_names_spec[OF Cons.prems, of "JobUUID (get i)" "LockResources (get i)"]
        Cons.prems by (auto simp: Let_def)
    have "map_of m r = Some v \<or> JobUUID (get i) = v \<and> r \<in> set (LockResources (get i))
        \<and> state (get i) \<in> {JobQueued, JobRunning}" if "map_of (?f m i) r = Some v" for r v
      using that unfolding o by (simp split: if_splits)
    then show ?case using Cons.IH[OF w] by (simp del: map_of_eq_Some_iff) blast
  qed simp
  show "wf_map (LockResourcesForJobs get jm)"
    using g[of "[]"] by (simp add: LockResourcesForJobs_def)
  show "\<exists>i \<in> dom (map_of jm). JobUUID (get i) = v \<and> r \<in> set (LockResources (get i))
      \<and> state (get i) \<in> {JobQueued, JobRunning}"
    if "map_of (LockResourcesForJobs get jm) r = Some v"
    using g[of "[]" "sortedJobIDs jm"] that by (simp add: LockResourcesForJobs_def)
qed

section \<open>Loading\<close>

lemma inv_schedule_loaded:
  assumes i: "inv_except {} s" and p: "p \<in> live s" "state (job_at s p) = JobCreated"
  shows "inv_except {} (schedule_loaded_job p s) \<and> touches {p} s (schedule_loaded_job p s)"
proof -
  have pl: "placed s p" using i p by (simp add: inv_except_def)
  define a where "a = (if StartAfter (job_at s p) = 0 then (False, s)
    else (StartAfter (job_at s p) > env_clock (sv_env s) (sv_reads s), s\<lparr>sv_reads := sv_reads s + 1\<rparr>))"
  have a: "inv_except {p} (snd a)" "p \<in> live (snd a)" "p \<notin> pend (snd a)" "p \<notin> retr (snd a)"
    "p \<notin> dela (snd a)" "owned (snd a) p = {}" "touches {p} s (snd a)"
    using inv_except_mono[OF i, of "{p}"] p pl by (simp_all add: a_def placed_iff touches_def)
  have e: "schedule_loaded_job p s =
      (if fst a then setJobStateToDelayedLocked p (snd a) else setJobStateToPendingLocked p (snd a))"
    by (simp add: schedule_loaded_job_def a_def time_now_def)
  have "touches {p} s (setJobStateToDelayedLocked p (snd a))"
    "touches {p} s (setJobStateToPendingLocked p (snd a))"
    using touches_trans[OF a(7)] inv_setDelayed(2)[OF a(1-6)] inv_setPending(2)[OF a(1,2,4-6)]
    by (metis Un_absorb)+
  then show ?thesis using e inv_setDelayed(1)[OF a(1-6)] inv_setPending(1)[OF a(1,2,4-6)] by simp
qed

lemma schedule_all_inv:
  assumes "inv_except {} s" "distinct ps" "\<forall>p \<in> set ps. p \<in> live s \<and> state (job_at s p) = JobCreated"
  shows "inv_except {} (foldl (\<lambda>s p. schedule_loaded_job p s) s ps)"
  using assms
proof (induction ps arbitrary: s)
  case (Cons p ps)
  note st = inv_schedule_loaded[OF Cons.prems(1), of p]
  have "\<forall>q \<in> set ps. q \<in> live (schedule_loaded_job p s)
      \<and> state (job_at (schedule_loaded_job p s) q) = JobCreated"
    using st Cons.prems touches_live[of "{p}" s "schedule_loaded_job p s"] by (auto simp: touches_def)
  then show ?case using Cons.IH[of "schedule_loaded_job p s"] st Cons.prems by simp
qed simp

lemma emit_counts [simp]:
  "inv_except E (foldl (\<lambda>s (t, n). UpdateResourcesLockedCountMetric t n s) s c) = inv_except E s"
  "live (foldl (\<lambda>s (t, n). UpdateResourcesLockedCountMetric t n s) s c) = live s"
  "sv_store (foldl (\<lambda>s (t, n). UpdateResourcesLockedCountMetric t n s) s c) = sv_store s"
  by (induction c arbitrary: s) (auto simp: UpdateResourcesLockedCountMetric_def)

text \<open>
  The start in two phases: the jobs are placed while the restore flag is set (\<open>s3\<close>, with
  its trace), then the jobs that were only created are scheduled.
\<close>

definition load_trace :: "(JobUUID \<times> job) list \<Rightarrow> JobUUID list \<Rightarrow> notif list" where
  "load_trace ujs ids = concat (map (\<lambda>u. let j = the (map_of ujs u)
    in [NJob j ServiceEventJobLoaded, NLockedCount (Topic j) 0]) ids)"

lemma load_job_sel:
  "sv_jobs (load_job now u s) = sv_jobs s" "sv_store (load_job now u s) = sv_store s"
  "sv_conf (load_job now u s) = sv_conf s" "sv_env (load_job now u s) = sv_env s"
  "sv_out (load_job now u s) = sv_out s @ [NJob (job_at s (the (lookup_job u s))) ServiceEventJobLoaded,
     NLockedCount (Topic (job_at s (the (lookup_job u s)))) 0]"
  by (simp_all add: load_job_def Let_def UpdateResourcesLockedCountMetric_def notify_job_def
      split: JobState.splits option.splits)

lemma load_jobs_sel:
  "sv_conf (foldl (\<lambda>s u. load_job now u s) s ids) = sv_conf s"
  "sv_env (foldl (\<lambda>s u. load_job now u s) s ids) = sv_env s"
  "sv_out (foldl (\<lambda>s u. load_job now u s) s ids) = sv_out s @ concat (map (\<lambda>u.
     [NJob (job_at s (the (lookup_job u s))) ServiceEventJobLoaded,
      NLockedCount (Topic (job_at s (the (lookup_job u s)))) 0]) ids)"
  by (induction ids arbitrary: s) (simp_all add: load_job_sel lookup_job_def)

lemma emit_counts_sel:
  "sv_conf (foldl (\<lambda>s (t, n). UpdateResourcesLockedCountMetric t n s) s c) = sv_conf s"
  "sv_env (foldl (\<lambda>s (t, n). UpdateResourcesLockedCountMetric t n s) s c) = sv_env s"
  "sv_jobs (foldl (\<lambda>s (t, n). UpdateResourcesLockedCountMetric t n s) s c) = sv_jobs s"
  "sv_out (foldl (\<lambda>s (t, n). UpdateResourcesLockedCountMetric t n s) s c) =
     sv_out s @ map (\<lambda>(t, n). NLockedCount t n) c"
  by (induction c arbitrary: s) (auto simp: UpdateResourcesLockedCountMetric_def)

lemma place_jobs_out: "sv_out (foldl (\<lambda>s uj. place_job uj s) s ujs) = sv_out s"
  by (induction ujs arbitrary: s) (simp_all add: place_job_def)

lemma LoadJobs_phases:
  assumes ok: "loaded_ok ujs"
  obtains s3 created ids counts where
    "snd (LoadJobs (Inr ujs) (NewService e c)) =
      (let s4 = foldl (\<lambda>s p. schedule_loaded_job p s) s3 created
       in if length created > 0 then tryEnqueuePendingJobsLocked s4 else s4)"
    "inv_except {} s3" "distinct created" "\<forall>p \<in> set created. p \<in> live s3 \<and> state (job_at s3 p) = JobCreated"
    "sv_conf s3 = c" "sv_env s3 = e" "distinct ids" "set ids = fst ` set ujs"
    "sv_out s3 = [NRestoreFlag True] @ load_trace ujs ids @ map (\<lambda>(t, n). NLockedCount t n) counts
      @ [NRestoreFlag False]"
    "\<And>u. map_of (sv_jobs s3) u = None \<longleftrightarrow> map_of ujs u = None"
    "\<And>u p. map_of (sv_jobs s3) u = Some p \<Longrightarrow> map_of ujs u = Some (job_at s3 p)"
proof -
  define s0 where "s0 = foldl (\<lambda>s uj. place_job uj s) ((NewService e c)\<lparr>sv_jobs := []\<rparr>) ujs"
  have "holds_jobs [] ((NewService e c)\<lparr>sv_jobs := []\<rparr>)"
    by (simp add: holds_jobs_def)
  then have h: "holds_jobs ujs s0"
    using place_jobs_holds[of "[]" _ ujs] ok by (simp add: s0_def loaded_ok_def)
  have j: "map_of (sv_jobs s0) u = Some p \<Longrightarrow> p < sv_next s0 \<and> JobUUID (job_at s0 p) = u
      \<and> History (job_at s0 p) \<noteq> [] \<and> synced (job_at s0 p)" for u p
    using h ok map_of_SomeD[of ujs u "job_at s0 p"]
    by (fastforce simp: holds_jobs_def loaded_ok_def simp del: map_of_eq_Some_iff)
  have f0: "sv_pending s0 = []" "sv_queue s0 = newQueuedJobs" "sv_retry s0 = NewPriorityQueue"
    "sv_delayed s0 = NewPriorityQueue" "sv_locked s0 = []" "\<not> sv_panic s0" "wf_map (sv_jobs s0)"
    using h by (simp_all add: s0_def NewService_def holds_jobs_def)
  let ?get = "\<lambda>u. job_at s0 (the (map_of (sv_jobs s0) u))"
  define s1 where "s1 = s0\<lparr>sv_locked := LockResourcesForJobs ?get (sv_jobs s0),
    sv_out := sv_out s0 @ [NRestoreFlag True], sv_pending := [], sv_reads := sv_reads s0 + 1\<rparr>"
  have lo: "\<exists>p. map_of (sv_jobs s0) v = Some p \<and> r \<in> set (LockResources (job_at s0 p))
      \<and> state (job_at s0 p) \<in> {JobQueued, JobRunning}"
    if lm: "map_of (LockResourcesForJobs ?get (sv_jobs s0)) r = Some v" for r v
  proof -
    obtain i where "i \<in> dom (map_of (sv_jobs s0))" and w: "JobUUID (?get i) = v"
      "r \<in> set (LockResources (?get i))" "state (?get i) \<in> {JobQueued, JobRunning}"
      using LockResourcesForJobs_spec(2)[OF lm] by blast
    then obtain p where "map_of (sv_jobs s0) i = Some p" by blast
    then show ?thesis using w j[of i p] by auto
  qed
  have "load_inv {} s1"
    unfolding load_inv_def
  proof (intro conjI)
    show "\<forall>r u. map_of (sv_locked s1) r = Some u \<longrightarrow> (\<exists>p. map_of (sv_jobs s1) u = Some p
         \<and> r \<in> set (LockResources (job_at s1 p)) \<and> state (job_at s1 p) \<in> {JobQueued, JobRunning})"
      using lo by (simp add: s1_def del: map_of_eq_Some_iff)
    show "\<forall>u p. map_of (sv_jobs s1) u = Some p \<longrightarrow> JobUUID (job_at s1 p) = u \<and> p < sv_next s1"
      using j by (simp add: s1_def del: map_of_eq_Some_iff)
    show "\<forall>p\<in>live s1. History (job_at s1 p) \<noteq> [] \<and> synced (job_at s1 p)"
      using j by (auto simp: s1_def live_def ran_def simp del: map_of_eq_Some_iff)
  qed (simp_all add: s1_def f0 LockResourcesForJobs_spec(1) pq_ok_def retr_def dela_def
      NewPriorityQueue_def newQueuedJobs_def pq_wf_def queue_wf_new[unfolded newQueuedJobs_def])
  have us: "distinct (sortedJobIDs (sv_jobs s1))" "set (sortedJobIDs (sv_jobs s1)) = dom (map_of (sv_jobs s1))"
    using f0(7) by (simp_all add: s1_def)
  let ?now = "env_clock (sv_env s0) (sv_reads s0)"
  define s2 where "s2 = foldl (\<lambda>s u. load_job ?now u s) s1 (sortedJobIDs (sv_jobs s1))"
  have "load_inv ({} \<union> {p. \<exists>u \<in> set (sortedJobIDs (sv_jobs s1)). map_of (sv_jobs s1) u = Some p}) s2
      \<and> sv_jobs s2 = sv_jobs s1 \<and> sv_store s2 = sv_store s1"
    unfolding s2_def by (rule load_jobs_inv[OF \<open>load_inv {} s1\<close> us(1)]) (use us(2) in blast)
  moreover have "{p. \<exists>u \<in> set (sortedJobIDs (sv_jobs s1)). map_of (sv_jobs s1) u = Some p} = live s1"
    using us(2) unfolding live_def ran_def by blast
  ultimately have l2: "load_inv (live s2) s2" "sv_jobs s2 = sv_jobs s1" "sv_store s2 = sv_store s1"
    by (simp_all add: live_def)
  have i2: "inv_except {} s2" by (rule load_inv_final[OF l2(1)])
  define s3 where "s3 = emit (NRestoreFlag False)
    (foldl (\<lambda>s (t, n). UpdateResourcesLockedCountMetric t n s) s2 (locked_counts s2))"
  have i3: "inv_except {} s3" "live s3 = live s2" "sv_store s3 = sv_store s2"
    using i2 by (simp_all add: s3_def)
  let ?created = "filter (\<lambda>p. state (job_at s1 p) = JobCreated)
    (map (\<lambda>u. the (map_of (sv_jobs s1) u)) (sortedJobIDs (sv_jobs s1)))"
  have "inj_on (\<lambda>u. the (map_of (sv_jobs s1) u)) (dom (map_of (sv_jobs s1)))"
  proof (rule inj_onI)
    fix u v assume a: "u \<in> dom (map_of (sv_jobs s1))" "v \<in> dom (map_of (sv_jobs s1))"
      "the (map_of (sv_jobs s1) u) = the (map_of (sv_jobs s1) v)"
    then obtain p where "map_of (sv_jobs s1) u = Some p" "map_of (sv_jobs s1) v = Some p" by force
    then show "u = v" using load_invD(2)[OF \<open>load_inv {} s1\<close>] by metis
  qed
  then have d: "distinct ?created" using us by (simp add: distinct_map)
  have cr: "\<forall>p \<in> set ?created. p \<in> live s3 \<and> state (job_at s3 p) = JobCreated"
    using us(2) i3 l2 by (auto simp: live_def ran_def simp del: map_of_eq_Some_iff)
  have h3: "sv_jobs s3 = sv_jobs s0" "sv_store s3 = sv_store s0"
    by (simp_all add: s3_def emit_counts_sel l2(2,3) s1_def)
  have get: "job_at s1 (the (lookup_job u s1)) = the (map_of ujs u)" if u: "u \<in> set (sortedJobIDs (sv_jobs s1))" for u
  proof -
    obtain p where p: "map_of (sv_jobs s0) u = Some p" using u us(2) by (auto simp: s1_def)
    then have "map_of ujs u = Some (job_at s0 p)" using h unfolding holds_jobs_def by blast
    then show ?thesis using p by (simp add: lookup_job_def s1_def)
  qed
  have "concat (map (\<lambda>u. [NJob (job_at s1 (the (lookup_job u s1))) ServiceEventJobLoaded,
      NLockedCount (Topic (job_at s1 (the (lookup_job u s1)))) 0]) (sortedJobIDs (sv_jobs s1)))
    = load_trace ujs (sortedJobIDs (sv_jobs s1))"
    using get by (auto simp: load_trace_def Let_def intro!: arg_cong[where f = concat])
  then have out: "sv_out s3 = [NRestoreFlag True] @ load_trace ujs (sortedJobIDs (sv_jobs s1))
      @ map (\<lambda>(t, n). NLockedCount t n) (locked_counts s2) @ [NRestoreFlag False]"
    by (simp add: s3_def s2_def emit_counts_sel load_jobs_sel s1_def s0_def place_jobs_out NewService_def)
  have res: "snd (LoadJobs (Inr ujs) (NewService e c)) =
      (let s4 = foldl (\<lambda>s p. schedule_loaded_job p s) s3 ?created
       in if length ?created > 0 then tryEnqueuePendingJobsLocked s4 else s4)"
    unfolding LoadJobs_def s3_def s2_def s1_def
    by (simp add: Let_def s0_def[symmetric] time_now_def emit_def lookup_job_def filter_map)
  show thesis
  proof (rule that[OF res i3(1) d cr _ _ us(1) _ out])
    show "sv_conf s3 = c" "sv_env s3 = e"
      by (simp_all add: s3_def s2_def emit_counts_sel load_jobs_sel s1_def s0_def NewService_def)
    have "\<And>u. map_of (sv_jobs s0) u = None \<longleftrightarrow> map_of ujs u = None"
      using h unfolding holds_jobs_def by blast
    then have "dom (map_of (sv_jobs s0)) = dom (map_of ujs)" unfolding dom_def by simp
    then show "set (sortedJobIDs (sv_jobs s1)) = fst ` set ujs"
      using us(2) by (simp add: s1_def fst_set_dom)
    show "map_of (sv_jobs s3) u = None \<longleftrightarrow> map_of ujs u = None" for u
      using h unfolding holds_jobs_def h3 by blast
    show "map_of (sv_jobs s3) u = Some p \<Longrightarrow> map_of ujs u = Some (job_at s3 p)" for u p
      using h unfolding holds_jobs_def h3 by blast
  qed
qed

lemma inv_LoadJobs:
  assumes ok: "loaded_ok ujs"
  shows "svc_inv (snd (LoadJobs (Inr ujs) (NewService e c)))"
proof (rule LoadJobs_phases[OF ok, of e c])
  fix s3 created
  assume e: "snd (LoadJobs (Inr ujs) (NewService e c)) =
      (let s4 = foldl (\<lambda>s p. schedule_loaded_job p s) s3 created
       in if length created > 0 then tryEnqueuePendingJobsLocked s4 else s4)"
    and i: "inv_except {} s3" "distinct created" "\<forall>p \<in> set created. p \<in> live s3 \<and> state (job_at s3 p) = JobCreated"
  have "inv_except {} (foldl (\<lambda>s p. schedule_loaded_job p s) s3 created)" by (rule schedule_all_inv[OF i])
  then show ?thesis using inv_tryEnqueue(1) i(1)
    by (cases "created = []") (simp_all add: e svc_inv_def Let_def)
qed

section \<open>Reachable states\<close>

text \<open>
  One step: a request of the API, or a periodic task. A long poll is the sequence of its
  \<open>pullJobsOnce\<close> attempts. The list \<open>iter\<close> in a retention step is any order in which
  the code may range over the map of jobs.
\<close>

inductive svc_step :: "svc \<Rightarrow> svc \<Rightarrow> bool" where
  create: "CreateJob d s = Some (r, s') \<Longrightarrow> svc_step s s'"
| clone: "CloneJob u s = Some (r, s') \<Longrightarrow> svc_step s s'"
| delete: "deleteJobLocked u s = (e, s') \<Longrightarrow> svc_step s s'"
| delete_all: "svc_step s (DeleteAllJobs s)"
| delete_queued: "DeleteQueuedJobs s = (e, s') \<Longrightarrow> svc_step s s'"
| pull: "pullJobsOnce req l s = (r, s') \<Longrightarrow> svc_step s s'"
| pull_specific: "PullSpecificJob req s = (r, s') \<Longrightarrow> svc_step s s'"
| start: "startJobLocked u req s = (e, s') \<Longrightarrow> svc_step s s'"
| success: "SetJobAsSuccessful u s = (e, s') \<Longrightarrow> svc_step s s'"
| cancel: "CancelJob u s = (e, s') \<Longrightarrow> svc_step s s'"
| fail: "failJobLocked u s = (e, s') \<Longrightarrow> svc_step s s'"
| visibility: "ChangeVisibilityTimeoutJob u v s = (e, s') \<Longrightarrow> svc_step s s'"
| unlock_all: "svc_step s (UnlockAllResources s)"
| unlock: "UnlockResource n s = (e, s') \<Longrightarrow> svc_step s s'"
| shutdown: "svc_step s (BeginShutdown s)"
| tick: "svc_step s (run_tick t s)"

inductive_cases svc_stepE: "svc_step s s'"

inductive reachable :: "env \<Rightarrow> conf \<Rightarrow> svc \<Rightarrow> bool" for e c where
  load: "loaded_ok ujs \<Longrightarrow> reachable e c (snd (LoadJobs (Inr ujs) (NewService e c)))"
| step: "reachable e c s \<Longrightarrow> svc_step s s' \<Longrightarrow> reachable e c s'"

lemma inv_run_tick: "inv_except {} s \<Longrightarrow> inv_except {} (run_tick t s)"
  by (cases t) (simp_all add: inv_tryEnqueue(1) inv_AttemptJobRetries inv_CheckJobsVisibilityTimeout
      inv_CheckDelayedJobs inv_CheckJobsRetention UpdateJobStatistics_def)

lemma inv_PullSpecificJob:
  assumes "inv_except {} s"
  shows "inv_except {} (snd (PullSpecificJob req s))"
proof (cases "pullJobUUID req")
  case None
  then show ?thesis using assms by (simp add: PullSpecificJob_def)
next
  case (Some u)
  obtain e s1 where r: "startJobLocked u req s = (e, s1)" by fastforce
  show ?thesis using assms Some r inv_startJobLocked(1)[OF assms r]
    by (simp add: PullSpecificJob_def split: option.splits)
qed

lemma inv_step:
  assumes i: "svc_inv s" and st: "svc_step s s'"
  shows "svc_inv s'"
proof -
  have j: "inv_except {} s" using i by (simp add: svc_inv_def)
  from st have "inv_except {} s'"
  proof cases
    case (pull req l r)
    then show ?thesis using pullJobsOnce_spec(1)[OF i, of req l "fst r" "snd r" s']
      by (simp add: svc_inv_def)
  next
    case (pull_specific req r)
    then show ?thesis using inv_PullSpecificJob[OF j, of req] by simp
  next
    case (visibility u v e)
    then show ?thesis using inv_ChangeVisibilityTimeoutJob[OF j, of u v] by simp
  next
    case (unlock n e)
    then show ?thesis using inv_UnlockResource[OF j, of n] by simp
  next
    case (delete_queued e)
    then show ?thesis using inv_delete_jobs[OF j] by (metis DeleteQueuedJobs_def snd_conv)
  next
    case shutdown
    then show ?thesis using j by (simp add: BeginShutdown_def)
  qed (insert j, (rule inv_CreateJob inv_CloneJob inv_deleteJobLocked(1) inv_startJobLocked(1)
      inv_SetJobAsSuccessful inv_CancelJob inv_failJobLocked; assumption)
    | (simp only:, rule inv_DeleteAllJobs inv_UnlockAllResources inv_run_tick, assumption))+
  then show ?thesis by (simp add: svc_inv_def)
qed

lemma reachable_inv: "reachable e c s \<Longrightarrow> svc_inv s"
  by (induction rule: reachable.induct) (auto intro: inv_LoadJobs inv_step)

section \<open>What the invariant says\<close>

lemma located_by_state:
  assumes i: "svc_inv s"
  shows "(\<forall>u p. map_of (sv_jobs s) u = Some p \<longrightarrow>
      JobUUID (job_at s p) = u
      \<and> (p \<in> q_entries (sv_queue s) \<longleftrightarrow> state (job_at s p) = JobQueued)
      \<and> (map_of (sv_pending s) u = Some p \<longleftrightarrow> state (job_at s p) = JobPending)
      \<and> (p \<in> fst ` set (pq_nodes (sv_retry s)) \<longleftrightarrow> state (job_at s p) = JobHidden)
      \<and> (p \<in> fst ` set (pq_nodes (sv_delayed s)) \<longleftrightarrow> state (job_at s p) = JobDelayed))
    \<and> \<not> sv_panic s"
proof (intro conjI allI impI)
  have b: "base_inv s" using i by (simp add: svc_inv_def inv_except_def)
  then show "\<not> sv_panic s" by (simp add: base_inv_def)
  fix u p assume m: "map_of (sv_jobs s) u = Some p"
  then have l: "p \<in> live s" "placed s p" using i by (auto simp: live_def ran_def svc_inv_def inv_except_def)
  show u: "JobUUID (job_at s p) = u" using b m by (simp add: base_inv_def)
  show "p \<in> q_entries (sv_queue s) \<longleftrightarrow> state (job_at s p) = JobQueued"
    using b l(1) by (simp add: base_inv_def in_state_def)
  have "map_of (sv_pending s) u = Some p \<longleftrightarrow> p \<in> pend s"
  proof
    assume "p \<in> pend s"
    then obtain v where v: "map_of (sv_pending s) v = Some p" by (auto simp: pend_def ran_def)
    then have "map_of (sv_jobs s) v = Some p" using b unfolding base_inv_def by blast
    then have "v = u" using b u unfolding base_inv_def by metis
    then show "map_of (sv_pending s) u = Some p" using v by simp
  qed (auto simp: pend_def ran_def)
  then show "map_of (sv_pending s) u = Some p \<longleftrightarrow> state (job_at s p) = JobPending"
    using l(2) by (simp add: placed_def)
  show "p \<in> fst ` set (pq_nodes (sv_retry s)) \<longleftrightarrow> state (job_at s p) = JobHidden"
    "p \<in> fst ` set (pq_nodes (sv_delayed s)) \<longleftrightarrow> state (job_at s p) = JobDelayed"
    using l(2) unfolding placed_def retr_def dela_def by blast+
qed

lemma locks_of_active_jobs:
  assumes i: "svc_inv s" and m: "map_of (sv_locked s) r = Some u"
  shows "\<exists>p. map_of (sv_jobs s) u = Some p \<and> r \<in> set (LockResources (job_at s p))
    \<and> state (job_at s p) \<in> {JobQueued, JobRunning}"
proof -
  have b: "base_inv s" using i by (simp add: svc_inv_def inv_except_def)
  have "u \<in> ran (map_of (sv_locked s))" using m by (rule ranI)
  then obtain p where p: "map_of (sv_jobs s) u = Some p" using b unfolding base_inv_def by blast
  then have "p \<in> live s" "JobUUID (job_at s p) = u" using b by (auto simp: live_def ran_def base_inv_def)
  then have "placed s p" using i by (auto simp: svc_inv_def inv_except_def)
  then show ?thesis using p m \<open>JobUUID (job_at s p) = u\<close> unfolding placed_def by blast
qed

end
