(* ===== verification/Text.thy ===== *)
theory Text
  imports Prelude
begin

text \<open>
  The text functions of the Go standard library that the web layer and the event log use:
  UTF-8 decoding (\<^verbatim>\<open>utf8.Valid\<close>, \<^verbatim>\<open>string([]rune(s))\<close>, \<^verbatim>\<open>strings.ToValidUTF8\<close>). A
  Go string is a list of bytes, one \<open>char\<close> each.
\<close>

abbreviation byte :: "char \<Rightarrow> nat" where
  "byte c \<equiv> of_char c"

definition cont :: "char \<Rightarrow> bool" where
  "cont c \<longleftrightarrow> 128 \<le> byte c \<and> byte c \<le> 191"

text \<open>The range of the second byte after a first byte of three or four.\<close>

definition second_ok :: "char \<Rightarrow> char \<Rightarrow> bool" where
  "second_ok a b \<longleftrightarrow>
    (if byte a = 224 then 160 \<le> byte b \<and> byte b \<le> 191
     else if byte a = 237 then 128 \<le> byte b \<and> byte b \<le> 159
     else if byte a = 240 then 144 \<le> byte b \<and> byte b \<le> 191
     else if byte a = 244 then 128 \<le> byte b \<and> byte b \<le> 143
     else cont b)"

text \<open>The width of the first character, 0 when the first byte starts none.\<close>

fun rune_width :: "string \<Rightarrow> nat" where
  "rune_width [] = 0"
| "rune_width (a # rest) =
    (if byte a < 128 then 1
     else if 194 \<le> byte a \<and> byte a \<le> 223
     then (case rest of b # _ \<Rightarrow> if cont b then 2 else 0 | _ \<Rightarrow> 0)
     else if 224 \<le> byte a \<and> byte a \<le> 239
     then (case rest of b # c # _ \<Rightarrow> if second_ok a b \<and> cont c then 3 else 0 | _ \<Rightarrow> 0)
     else if 240 \<le> byte a \<and> byte a \<le> 244
     then (case rest of b # c # d # _ \<Rightarrow> if second_ok a b \<and> cont c \<and> cont d then 4 else 0 | _ \<Rightarrow> 0)
     else 0)"

lemma rune_width_le: "rune_width s \<le> length s"
  by (cases s) (auto split: list.splits)

function valid_utf8 :: "string \<Rightarrow> bool" where
  "valid_utf8 s =
    (if s = [] then True
     else if rune_width s = 0 then False
     else valid_utf8 (drop (rune_width s) s))"
  by pat_completeness auto
termination by (relation "measure length") auto

text \<open>U+FFFD in UTF-8.\<close>

definition rune_error :: string where
  "rune_error = [CHR 0xEF, CHR 0xBF, CHR 0xBD]"

text \<open>\<^verbatim>\<open>string([]rune(s))\<close>: every invalid byte becomes U+FFFD.\<close>

function fix_runes :: "string \<Rightarrow> string" where
  "fix_runes s =
    (if s = [] then []
     else if rune_width s = 0 then rune_error @ fix_runes (tl s)
     else take (rune_width s) s @ fix_runes (drop (rune_width s) s))"
  by pat_completeness auto
termination by (relation "measure length") auto

definition validUTF8 :: "string \<Rightarrow> string" where
  "validUTF8 s = (if valid_utf8 s then s else fix_runes s)"

text \<open>\<^verbatim>\<open>strings.ToValidUTF8\<close>: every run of invalid bytes becomes one U+FFFD.\<close>

fun skip_invalid :: "string \<Rightarrow> string" where
  "skip_invalid [] = []"
| "skip_invalid (c # s) = (if rune_width (c # s) = 0 then skip_invalid s else c # s)"

lemma length_skip_invalid: "length (skip_invalid s) \<le> length s"
  by (induction s) auto

function to_valid_utf8 :: "string \<Rightarrow> string" where
  "to_valid_utf8 s =
    (if s = [] then []
     else if rune_width s = 0 then rune_error @ to_valid_utf8 (skip_invalid (tl s))
     else take (rune_width s) s @ to_valid_utf8 (drop (rune_width s) s))"
  by pat_completeness auto
termination
  by (relation "measure length")
    (auto simp: le_less_trans[OF length_skip_invalid] neq_Nil_conv intro: le_imp_less_Suc length_skip_invalid)

declare valid_utf8.simps [simp del] fix_runes.simps [simp del] to_valid_utf8.simps [simp del]

section \<open>Lemmas\<close>

lemma rune_width_take:
  "rune_width s = w \<Longrightarrow> 0 < w \<Longrightarrow> rune_width (take w s @ t) = w"
  by (cases s) (auto split: list.splits if_splits)

lemma valid_append:
  "rune_width s > 0 \<Longrightarrow> valid_utf8 t \<Longrightarrow> valid_utf8 (take (rune_width s) s @ t)"
  using rune_width_take[of s "rune_width s" t] rune_width_le[of s]
  by (subst valid_utf8.simps) (simp add: min_absorb2)

lemma rune_width_error: "rune_width (rune_error @ t) = 3"
  by (simp add: rune_error_def cont_def second_ok_def)

lemma valid_error: "valid_utf8 t \<Longrightarrow> valid_utf8 (rune_error @ t)"
  using rune_width_error[of t]
  by (subst valid_utf8.simps) (simp add: rune_error_def)

lemma valid_fix_runes: "valid_utf8 (fix_runes s)"
proof (induction s rule: fix_runes.induct)
  case (1 s)
  show ?case
  proof (cases "s = []")
    case True
    then show ?thesis by (simp add: fix_runes.simps[of "[]"] valid_utf8.simps[of "[]"])
  next
    case False
    then show ?thesis using 1 valid_error valid_append[of s]
      by (subst fix_runes.simps) auto
  qed
qed

lemma validUTF8_valid: "valid_utf8 (validUTF8 s)"
  by (simp add: validUTF8_def valid_fix_runes)

lemma valid_to_valid: "valid_utf8 (to_valid_utf8 s)"
proof (induction s rule: to_valid_utf8.induct)
  case (1 s)
  show ?case
  proof (cases "s = []")
    case True
    then show ?thesis by (simp add: to_valid_utf8.simps[of "[]"] valid_utf8.simps[of "[]"])
  next
    case False
    then show ?thesis using 1 valid_error valid_append[of s]
      by (subst to_valid_utf8.simps) auto
  qed
qed

end
