(* ===== verification/Web.thy ===== *)
theory Web
  imports ServiceLoad Text
begin

text \<open>
  The HTTP handlers of \<^verbatim>\<open>src/web\<close>: the parameters of a request
  (\<^verbatim>\<open>apihelpers.go\<close>), the handlers of \<^verbatim>\<open>apijobs.go\<close>, \<^verbatim>\<open>apiresources.go\<close>,
  \<^verbatim>\<open>apiutils.go\<close> and \<^verbatim>\<open>apisystem.go\<close> as functions from a request and the state of
  the service to an answer and a state, and \<^verbatim>\<open>recoverPanics\<close>. Fiber is not modelled: a
  request is what its functions return (\<^verbatim>\<open>c.Params\<close>, \<^verbatim>\<open>c.Query\<close>, the headers, the
  body), an answer is the status and the value written as JSON.

  Parameters (record \<open>web\<close>) are the parser of ids (\<^verbatim>\<open>uuid.Parse\<close>), the JSON decoder of
  a job request, the JSON schema validator and the decompressors. The errors of the service
  are all of type \<^verbatim>\<open>*apierror.APIError\<close>, so the branches of the handlers for another error
  type are never taken and have no counterpart here.
\<close>

section \<open>Requests and answers\<close>

datatype decode_result = DecodeTooLarge string | DecodeFailed string | Decoded string

record web =
  DefaultVisibilityTimeout :: uint
  MaxVisibilityTimeout :: uint
  JsonSchemaEnable :: bool
  BodyLimit :: nat
  uuid_Parse :: "string \<Rightarrow> string + JobUUID"
  decode_request :: "string \<Rightarrow> string + JobRequest"
  ValidateBytes :: "string \<Rightarrow> string + ValidationError list"
  Gunzip :: "nat \<Rightarrow> string \<Rightarrow> decode_result"
  Unbrotli :: "nat \<Rightarrow> string \<Rightarrow> decode_result"
  Inflate :: "nat \<Rightarrow> string \<Rightarrow> decode_result"

text \<open>\<open>hr_now\<close> is the reading of the clock by the handler; a missing parameter is empty.\<close>

record request =
  hr_params :: "string \<Rightarrow> string"
  hr_query :: "string \<Rightarrow> string"
  hr_ContentType :: string
  hr_ContentEncoding :: string
  hr_Body :: string
  hr_now :: int64

record TopOldJobsResult =
  old_JobUUID :: string
  old_DurationMs :: int64

record JobDurationResult =
  dr_JobUUID :: string
  dr_Topic :: string
  dr_State :: string
  dr_Created :: int64
  dr_Duration :: uint

datatype reply =
    Success string
  | ErrorReply APIError
  | JobsReply "JobResponse list"
  | JobReply JobResponse
  | PageReply "JobResponse list" uint uint uint uint
  | ResourcesReply LockedResources
  | OldJobsReply "(string, TopOldJobsResult list) gomap"
  | DurationsReply "JobDurationResult list"
  | TextReply string
  | StatusReply
  | FiberError

type_synonym response = "nat \<times> reply"

abbreviation ok :: "reply \<Rightarrow> response" where
  "ok r \<equiv> (StatusOK, r)"

definition HTTPResponse :: "APIError \<Rightarrow> response" where
  "HTTPResponse e = (HttpCode e, ErrorReply e)"

text \<open>\<^verbatim>\<open>recoverPanics\<close>: \<open>None\<close> is a panic of the handler.\<close>

definition recoverPanics :: "response option \<Rightarrow> response" where
  "recoverPanics r = (case r of Some x \<Rightarrow> x | None \<Rightarrow> (StatusInternalServerError, FiberError))"

text \<open>The conversion of an \<^verbatim>\<open>int\<close> or an \<^verbatim>\<open>int64\<close> to a \<^verbatim>\<open>uint\<close>.\<close>

definition to_uint :: "int \<Rightarrow> uint" where
  "to_uint x = nat (x mod 2 ^ 64)"

section \<open>Parameters of a request\<close>

definition uuid_error :: "string \<Rightarrow> JobUUID \<Rightarrow> string \<Rightarrow> APIError" where
  "uuid_error value u err = (api_error ''invalid job uuid'' ErrorInvalidJobUuid StatusBadRequest 0 (Some err))
    \<lparr>ValidationErrors := [\<lparr>FailedField = ''jobuuid'', Tag = ''parameter'', Value = value\<rparr>]\<rparr>"

definition GetJobUUIDFromParameter :: "web \<Rightarrow> request \<Rightarrow> APIError + JobUUID" where
  "GetJobUUIDFromParameter w c =
    (case uuid_Parse w (hr_params c ''jobuuid'') of
      Inl err \<Rightarrow> Inl (uuid_error (hr_params c ''jobuuid'') 0 err)
    | Inr u \<Rightarrow> Inr u)"

definition GetJobUUIDFromQuery :: "web \<Rightarrow> request \<Rightarrow> APIError + JobUUID option" where
  "GetJobUUIDFromQuery w c =
    (let value = hr_query c ''jobuuid'' in
     if value = [] then Inr None
     else case uuid_Parse w value of
       Inl err \<Rightarrow> Inl (uuid_error value 0 err)
     | Inr u \<Rightarrow> Inr (Some u))"

definition parameter_error :: "string \<Rightarrow> APIError" where
  "parameter_error msg = api_error msg ErrorInvalidParameterValue StatusBadRequest 0 None"

definition GetUintParameterFromQuery ::
    "request \<Rightarrow> string \<Rightarrow> uint \<Rightarrow> uint \<Rightarrow> uint \<Rightarrow> APIError + uint" where
  "GetUintParameterFromQuery c name defaultValue minValue maxValue =
    (let strValue = hr_query c name in
     if strValue = [] then Inr defaultValue
     else case parse_uint 32 strValue of
       None \<Rightarrow> Inl (parameter_error (''invalid value for query parameter: '' @ name))
     | Some value \<Rightarrow>
       if value < minValue
       then Inl (parameter_error (''invalid value for query parameter: '' @ name @ '', found '' @
              strValue @ '', minimum allowed value is '' @ show_nat minValue))
       else if value > maxValue
       then Inl (parameter_error (''invalid value for query parameter: '' @ name @ '', found '' @
              strValue @ '', maximum allowed value is '' @ show_nat maxValue))
       else Inr value)"

section \<open>Body of a request\<close>

definition trim_left_spaces :: "string \<Rightarrow> string" where
  "trim_left_spaces s = dropWhile (\<lambda>c. c = CHR '' '') s"

definition decoder :: "web \<Rightarrow> string \<Rightarrow> (nat \<Rightarrow> string \<Rightarrow> decode_result) option" where
  "decoder w encoding =
    (if encoding = ''gzip'' then Some (Gunzip w)
     else if encoding = ''br'' \<or> encoding = ''brotli'' then Some (Unbrotli w)
     else if encoding = ''deflate'' then Some (Inflate w)
     else None)"

text \<open>
  The loop over the encodings: \<open>raw\<close> is the body the request holds, \<open>body\<close> the last
  decoded one. \<open>Inl\<close> is \<^verbatim>\<open>fasthttp.ErrBodyTooLarge\<close>.
\<close>

fun decode_loop :: "web \<Rightarrow> nat \<Rightarrow> bool \<Rightarrow> string list \<Rightarrow> string \<Rightarrow> string \<Rightarrow> string + string" where
  "decode_loop w maxSize single [] raw body = Inr body"
| "decode_loop w maxSize single (encoding # rest) raw body =
    (case decoder w (trim_left_spaces encoding) of
      None \<Rightarrow> Inr (if single then raw else body)
    | Some decode \<Rightarrow> (case decode maxSize raw of
        DecodeTooLarge err \<Rightarrow> Inl err
      | DecodeFailed err \<Rightarrow> Inr err
      | Decoded b \<Rightarrow> decode_loop w maxSize single rest (if rest \<noteq> [] then b else raw) b))"

definition DecodedBody :: "web \<Rightarrow> request \<Rightarrow> nat \<Rightarrow> string + string" where
  "DecodedBody w c maxSize =
    (if hr_ContentEncoding c = [] then Inr (hr_Body c)
     else let encodings = split_on (CHR '','') (hr_ContentEncoding c)
       in decode_loop w maxSize (length encodings = 1) encodings (hr_Body c) [])"

text \<open>The media type: what precedes the first semicolon, in lower case, without spaces around.\<close>

definition media_type :: "string \<Rightarrow> string" where
  "media_type ctype = trim_space (takeWhile (\<lambda>c. c \<noteq> CHR '';'') (to_lower ctype))"

text \<open>\<^verbatim>\<open>validateJSON\<close>: the errors sorted by the path of the field, by a stable sort.\<close>

definition validateJSON :: "web \<Rightarrow> string \<Rightarrow> string + ValidationError list" where
  "validateJSON w payload = (case ValidateBytes w payload of
    Inl err \<Rightarrow> Inl err | Inr errs \<Rightarrow> Inr (sort_key FailedField errs))"

section \<open>Handlers of jobs\<close>

definition convertJobsToResponses :: "job list \<Rightarrow> JobResponse list" where
  "convertJobsToResponses js = map ToResponse js"

definition handle_GetAllJobs :: "svc \<Rightarrow> response" where
  "handle_GetAllJobs s = ok (JobsReply (convertJobsToResponses (GetAllJobs s)))"

definition handle_GetJobs :: "request \<Rightarrow> svc \<Rightarrow> response option" where
  "handle_GetJobs c s =
    (case GetUintParameterFromQuery c ''page'' 1 1 10000 of
      Inl e \<Rightarrow> Some (HTTPResponse e)
    | Inr page \<Rightarrow> (case GetUintParameterFromQuery c ''limit'' 10 1 1000 of
        Inl e \<Rightarrow> Some (HTTPResponse e)
      | Inr limit \<Rightarrow>
        (let req = \<lparr>gj_Page = int page, gj_Limit = int limit, gj_Status = hr_query c ''status'',
               gj_Topic = hr_query c ''topic'', gj_Sort = hr_query c ''sort'',
               gj_Search = hr_query c ''search''\<rparr>
         in map_option (\<lambda>r. ok (PageReply (convertJobsToResponses (gr_Jobs r)) (to_uint (gr_Total r))
              (to_uint (gr_Page r)) (to_uint (gr_Limit r)) (to_uint (gr_TotalPages r))))
            (GetJobs req s))))"

text \<open>The answer to a request that returns an error or nothing.\<close>

definition success_or :: "APIError option \<Rightarrow> response" where
  "success_or e = (case e of Some err \<Rightarrow> HTTPResponse err | None \<Rightarrow> ok (Success ''success''))"

definition handle_DeleteQueuedJobs :: "svc \<Rightarrow> response \<times> svc" where
  "handle_DeleteQueuedJobs s = (let (e, s) = DeleteQueuedJobs s in (success_or e, s))"

definition handle_DeleteAllJobs :: "svc \<Rightarrow> response \<times> svc" where
  "handle_DeleteAllJobs s = (success_or None, DeleteAllJobs s)"

definition handle_GetJob :: "web \<Rightarrow> request \<Rightarrow> svc \<Rightarrow> response" where
  "handle_GetJob w c s =
    (case GetJobUUIDFromParameter w c of
      Inl e \<Rightarrow> HTTPResponse e
    | Inr u \<Rightarrow> (case GetJob u s of
        None \<Rightarrow> HTTPResponse (api_error ''job not found'' ErrorJobUuidNotFound StatusNotFound u None)
      | Some j \<Rightarrow> ok (JobReply (ToResponse j))))"

text \<open>The answer of a handler that returns a job, or an error.\<close>

definition job_or :: "APIError + job \<Rightarrow> response" where
  "job_or r = (case r of Inl e \<Rightarrow> HTTPResponse e | Inr j \<Rightarrow> ok (JobReply (ToResponse j)))"

definition handle_CreateJob :: "web \<Rightarrow> request \<Rightarrow> svc \<Rightarrow> (response \<times> svc) option" where
  "handle_CreateJob w c s =
    (if media_type (hr_ContentType c) \<noteq> ''application/json''
     then Some (HTTPResponse (api_error ''invalid content type (must be application/json)''
            ErrorInvalidContentType StatusBadRequest 0 None), s)
     else case DecodedBody w c (BodyLimit w) of
       Inl _ \<Rightarrow> Some ((413, FiberError), s)
     | Inr payload \<Rightarrow>
       (let create = map_option (\<lambda>(r, s). (job_or r, s))
              (CreateJob (NewJobFromRequest (hr_now c) (decode_request w payload)) s)
        in if \<not> JsonSchemaEnable w then create
           else case validateJSON w payload of
             Inl _ \<Rightarrow> Some (HTTPResponse (api_error ''invalid json body format''
                 ErrorCantDeserializeJson StatusBadRequest 0 None), s)
           | Inr keyErrors \<Rightarrow>
               if length keyErrors > 0
               then Some (HTTPResponse ((api_error ''invalid json content'' ErrorInvalidJsonData
                      StatusBadRequest 0 None)\<lparr>ValidationErrors := keyErrors\<rparr>), s)
               else create))"

text \<open>The handlers that apply one operation of the service to the job of the path.\<close>

definition on_job :: "web \<Rightarrow> request \<Rightarrow> (JobUUID \<Rightarrow> svc \<Rightarrow> APIError option \<times> svc) \<Rightarrow> svc \<Rightarrow> response \<times> svc" where
  "on_job w c f s =
    (case GetJobUUIDFromParameter w c of
      Inl e \<Rightarrow> (HTTPResponse e, s)
    | Inr u \<Rightarrow> (let (e, s) = f u s in (success_or e, s)))"

definition handle_DeleteJob :: "web \<Rightarrow> request \<Rightarrow> svc \<Rightarrow> response \<times> svc" where
  "handle_DeleteJob w c s = on_job w c deleteJobLocked s"

definition handle_CancelJob :: "web \<Rightarrow> request \<Rightarrow> svc \<Rightarrow> response \<times> svc" where
  "handle_CancelJob w c s = on_job w c CancelJob s"

definition handle_SetJobAsSuccessful :: "web \<Rightarrow> request \<Rightarrow> svc \<Rightarrow> response \<times> svc" where
  "handle_SetJobAsSuccessful w c s = on_job w c SetJobAsSuccessful s"

definition handle_CloneJob :: "web \<Rightarrow> request \<Rightarrow> svc \<Rightarrow> (response \<times> svc) option" where
  "handle_CloneJob w c s =
    (case GetJobUUIDFromParameter w c of
      Inl e \<Rightarrow> Some (HTTPResponse e, s)
    | Inr u \<Rightarrow> map_option (\<lambda>(r, s). (job_or r, s)) (CloneJob u s))"

definition GetPullJobRequest :: "web \<Rightarrow> request \<Rightarrow> APIError + RequestPullJobs" where
  "GetPullJobRequest w c =
    (case GetUintParameterFromQuery c ''numjobs'' 1 1 100 of
      Inl e \<Rightarrow> Inl e
    | Inr numJobs \<Rightarrow> (case GetUintParameterFromQuery c ''visibilitytimeout''
          (DefaultVisibilityTimeout w) 1 (MaxVisibilityTimeout w) of
        Inl e \<Rightarrow> Inl e
      | Inr visibilityTimeout \<Rightarrow> (case GetUintParameterFromQuery c ''waittimeseconds'' 0 0 60 of
          Inl e \<Rightarrow> Inl e
        | Inr waitTimeSeconds \<Rightarrow>
          (let topic = validUTF8 (hr_query c ''topic'')
           in case GetJobUUIDFromQuery w c of
             Inl e \<Rightarrow> Inl e
           | Inr u \<Rightarrow> Inr \<lparr>pullJobUUID = u, pullTopic = topic,
               NumJobs = (if u \<noteq> None then 1 else numJobs),
               pullVisibilityTimeout = visibilityTimeout, WaitTimeSeconds = waitTimeSeconds\<rparr>))))"

text \<open>\<open>None\<close>: the long poll still waits after the waits listed in \<open>ws\<close>.\<close>

definition handle_PullJob :: "web \<Rightarrow> request \<Rightarrow> wait_end list \<Rightarrow> svc \<Rightarrow> (response \<times> svc) option" where
  "handle_PullJob w c ws s =
    (case GetPullJobRequest w c of
      Inl e \<Rightarrow> Some (HTTPResponse e, s)
    | Inr req \<Rightarrow> map_option (\<lambda>(r, s). (case r of
          Inl e \<Rightarrow> HTTPResponse e
        | Inr js \<Rightarrow> ok (JobsReply (convertJobsToResponses js)), s)) (PullJobs req ws s))"

definition handle_FailJob :: "web \<Rightarrow> request \<Rightarrow> svc \<Rightarrow> response \<times> svc" where
  "handle_FailJob w c s =
    (case GetJobUUIDFromParameter w c of
      Inl e \<Rightarrow> (HTTPResponse e, s)
    | Inr u \<Rightarrow> (let ((reachedMaxRetry, e), s) = failJobLocked u s
        in (case e of Some err \<Rightarrow> HTTPResponse err
            | None \<Rightarrow> ok (Success (if reachedMaxRetry then ''job reached max retry'' else ''success'')), s)))"

definition handle_ChangeVisibilityTimeoutJob :: "web \<Rightarrow> request \<Rightarrow> svc \<Rightarrow> response \<times> svc" where
  "handle_ChangeVisibilityTimeoutJob w c s =
    (case GetJobUUIDFromParameter w c of
      Inl e \<Rightarrow> (HTTPResponse e, s)
    | Inr u \<Rightarrow> (case GetUintParameterFromQuery c ''visibilitytimeout''
          (DefaultVisibilityTimeout w) 1 (MaxVisibilityTimeout w) of
        Inl e \<Rightarrow> (HTTPResponse e, s)
      | Inr visibilityTimeout \<Rightarrow>
        (let (e, s) = ChangeVisibilityTimeoutJob u visibilityTimeout s in (success_or e, s))))"

section \<open>Lists of jobs by age\<close>

text \<open>
  \<open>perm\<close> stands for the effect of \<^verbatim>\<open>sort.Slice\<close> on elements of the same duration: the
  sort is not stable. A job without history makes the handler panic (\<open>None\<close>).
\<close>

definition old_results :: "(JobUUID \<Rightarrow> string) \<Rightarrow> int64 \<Rightarrow> int64 \<Rightarrow> string \<Rightarrow> job list \<Rightarrow> TopOldJobsResult list" where
  "old_results uuid_string now minDurationMs topic js =
    map (\<lambda>j. \<lparr>old_JobUUID = uuid_string (JobUUID j), old_DurationMs = i64 (now - creation j)\<rparr>)
      (filter (\<lambda>j. \<not> IsCompleted j \<and> \<not> i64 (now - creation j) < minDurationMs \<and> Topic j = topic) js)"

definition handle_GetOldestJobs ::
    "(TopOldJobsResult list \<Rightarrow> TopOldJobsResult list) \<Rightarrow> request \<Rightarrow> svc \<Rightarrow> response option" where
  "handle_GetOldestJobs perm c s =
    (case GetUintParameterFromQuery c ''limit'' 10 1 100 of
      Inl e \<Rightarrow> Some (HTTPResponse e)
    | Inr limit \<Rightarrow> (case GetUintParameterFromQuery c ''duration'' 0 0 (86400 * 365) of
        Inl e \<Rightarrow> Some (HTTPResponse e)
      | Inr minDuration \<Rightarrow>
        (let minDurationMs = int minDuration * 1000; js = GetAllJobs s; now = hr_now c;
             results = (\<lambda>t. old_results (env_uuid_string (sv_env s)) now minDurationMs t js)
         in if list_ex (\<lambda>j. \<not> IsCompleted j \<and> GetCreationTimestamp j = None) js then None
            else Some (ok (OldJobsReply
              (map (\<lambda>t. (t, take limit (sort_key (\<lambda>r. - old_DurationMs r) (perm (results t)))))
                (filter (\<lambda>t. results t \<noteq> []) (remdups (map Topic js)))))))))"

definition getFilteredJobResults :: "(JobDurationResult list \<Rightarrow> JobDurationResult list)
    \<Rightarrow> (job \<Rightarrow> int64 \<Rightarrow> bool) \<Rightarrow> bool \<Rightarrow> int64 \<Rightarrow> svc \<Rightarrow> JobDurationResult list option" where
  "getFilteredJobResults perm filterFunc sortDescending now s =
    (let js = GetAllJobs s;
         results = map (\<lambda>j. \<lparr>dr_JobUUID = env_uuid_string (sv_env s) (JobUUID j), dr_Topic = Topic j,
             dr_State = GetStateString j, dr_Created = creation j,
             dr_Duration = to_uint (i64 (now - creation j))\<rparr>)
           (filter (\<lambda>j. filterFunc j (i64 (now - creation j))) js)
     in if list_ex (\<lambda>j. GetCreationTimestamp j = None) js then None
        else Some (if sortDescending then sort_key (\<lambda>r. - int (dr_Duration r)) (perm results)
                   else sort_key dr_Duration (perm results)))"

definition stalled_filter :: "int64 \<Rightarrow> job \<Rightarrow> int64 \<Rightarrow> bool" where
  "stalled_filter minDurationMs j jobDurationMs \<longleftrightarrow>
    state j \<in> {JobRunning, JobQueued} \<and> jobDurationMs \<ge> minDurationMs"

definition recent_filter :: "int64 \<Rightarrow> job \<Rightarrow> int64 \<Rightarrow> bool" where
  "recent_filter maxDurationMs j jobDurationMs \<longleftrightarrow>
    state j \<in> {JobRunning, JobQueued} \<and> jobDurationMs \<le> maxDurationMs"

definition handle_GetStalledJobs ::
    "(JobDurationResult list \<Rightarrow> JobDurationResult list) \<Rightarrow> request \<Rightarrow> svc \<Rightarrow> response option" where
  "handle_GetStalledJobs perm c s =
    (case GetUintParameterFromQuery c ''duration'' 60 1 10080 of
      Inl e \<Rightarrow> Some (HTTPResponse e)
    | Inr minDurationMinutes \<Rightarrow> map_option (\<lambda>rs. ok (DurationsReply rs))
        (getFilteredJobResults perm (stalled_filter (int minDurationMinutes * 60 * 1000)) True (hr_now c) s))"

definition handle_GetRecentJobs ::
    "(JobDurationResult list \<Rightarrow> JobDurationResult list) \<Rightarrow> request \<Rightarrow> svc \<Rightarrow> response option" where
  "handle_GetRecentJobs perm c s =
    (case GetUintParameterFromQuery c ''duration'' 10 1 10080 of
      Inl e \<Rightarrow> Some (HTTPResponse e)
    | Inr maxDurationMinutes \<Rightarrow> map_option (\<lambda>rs. ok (DurationsReply rs))
        (getFilteredJobResults perm (recent_filter (int maxDurationMinutes * 60 * 1000)) False (hr_now c) s))"

section \<open>Resources and utilities\<close>

definition unhex :: "char \<Rightarrow> nat option" where
  "unhex c =
    (let n = byte c in
     if 48 \<le> n \<and> n \<le> 57 then Some (n - 48)
     else if 97 \<le> n \<and> n \<le> 102 then Some (n - 97 + 10)
     else if 65 \<le> n \<and> n \<le> 70 then Some (n - 65 + 10)
     else None)"

fun decode_percent :: "string \<Rightarrow> string" where
  "decode_percent (c # h # l # s) =
    (if c = CHR ''%''
     then case (unhex h, unhex l) of
         (Some hi, Some lo) \<Rightarrow> char_of (hi * 16 + lo) # decode_percent s
       | _ \<Rightarrow> c # decode_percent (h # l # s)
     else c # decode_percent (h # l # s))"
| "decode_percent s = s"

definition decodePathSegment :: "string \<Rightarrow> string" where
  "decodePathSegment s =
    (let out = decode_percent s in if valid_utf8 out then out else to_valid_utf8 out)"

definition handle_GetLockedResources :: "svc \<Rightarrow> response" where
  "handle_GetLockedResources s = ok (ResourcesReply (GetLockedResources (sv_locked s)))"

definition handle_UnlockAllResources :: "svc \<Rightarrow> response \<times> svc" where
  "handle_UnlockAllResources s = (ok (Success ''success''), UnlockAllResources s)"

definition handle_UnlockResource :: "request \<Rightarrow> svc \<Rightarrow> response \<times> svc" where
  "handle_UnlockResource c s =
    (let resourceName = hr_query c ''resourcename'';
         resourceName = (if resourceName = []
           then decodePathSegment (hr_params c ''resourcename'') else resourceName);
         (e, s) = UnlockResource resourceName s
     in (success_or e, s))"

definition Home :: response where
  "Home = ok (TextReply ''Welcome to MiniJob!'')"

definition Ping :: response where
  "Ping = ok StatusReply"

text \<open>\<open>healthy\<close> is the answer of \<^verbatim>\<open>Healthcheck\<close> of the backend provider.\<close>

definition Healthcheck :: "bool \<Rightarrow> response" where
  "Healthcheck healthy = (if healthy then ok StatusReply else (StatusServiceUnavailable, StatusReply))"

section \<open>All the requests\<close>

datatype route =
    R_GetJob | R_CreateJob | R_PullJob "wait_end list" | R_SetJobAsSuccessful | R_CancelJob
  | R_FailJob | R_ChangeVisibilityTimeoutJob | R_CloneJob | R_DeleteJob
  | R_GetJobs | R_GetAllJobs
  | R_GetOldestJobs "TopOldJobsResult list \<Rightarrow> TopOldJobsResult list"
  | R_GetStalledJobs "JobDurationResult list \<Rightarrow> JobDurationResult list"
  | R_GetRecentJobs "JobDurationResult list \<Rightarrow> JobDurationResult list"
  | R_DeleteQueuedJobs | R_DeleteAllJobs | R_GetLockedResources | R_UnlockAllResources
  | R_UnlockResource | R_Home | R_Ping | R_Healthcheck bool

text \<open>
  What the server does with a request for a route of \<^verbatim>\<open>AddRoutes\<close>. \<open>None\<close>: no answer yet
  (a long poll that waits, a creation that does not find an unused id).
\<close>

fun serve :: "web \<Rightarrow> route \<Rightarrow> request \<Rightarrow> svc \<Rightarrow> (response \<times> svc) option" where
  "serve w R_GetJob c s = Some (handle_GetJob w c s, s)"
| "serve w R_CreateJob c s = handle_CreateJob w c s"
| "serve w (R_PullJob ws) c s = handle_PullJob w c ws s"
| "serve w R_SetJobAsSuccessful c s = Some (handle_SetJobAsSuccessful w c s)"
| "serve w R_CancelJob c s = Some (handle_CancelJob w c s)"
| "serve w R_FailJob c s = Some (handle_FailJob w c s)"
| "serve w R_ChangeVisibilityTimeoutJob c s = Some (handle_ChangeVisibilityTimeoutJob w c s)"
| "serve w R_CloneJob c s = handle_CloneJob w c s"
| "serve w R_DeleteJob c s = Some (handle_DeleteJob w c s)"
| "serve w R_GetJobs c s = Some (recoverPanics (handle_GetJobs c s), s)"
| "serve w R_GetAllJobs c s = Some (handle_GetAllJobs s, s)"
| "serve w (R_GetOldestJobs perm) c s = Some (recoverPanics (handle_GetOldestJobs perm c s), s)"
| "serve w (R_GetStalledJobs perm) c s = Some (recoverPanics (handle_GetStalledJobs perm c s), s)"
| "serve w (R_GetRecentJobs perm) c s = Some (recoverPanics (handle_GetRecentJobs perm c s), s)"
| "serve w R_DeleteQueuedJobs c s = Some (handle_DeleteQueuedJobs s)"
| "serve w R_DeleteAllJobs c s = Some (handle_DeleteAllJobs s)"
| "serve w R_GetLockedResources c s = Some (handle_GetLockedResources s, s)"
| "serve w R_UnlockAllResources c s = Some (handle_UnlockAllResources s)"
| "serve w R_UnlockResource c s = Some (handle_UnlockResource c s)"
| "serve w R_Home c s = Some (Home, s)"
| "serve w R_Ping c s = Some (Ping, s)"
| "serve w (R_Healthcheck healthy) c s = Some (Healthcheck healthy, s)"

section \<open>Lemmas on the parameters\<close>

lemma GetUintParameter_bounds:
  assumes "GetUintParameterFromQuery c name d lo hi = Inr v"
  shows "hr_query c name = [] \<and> v = d \<or> lo \<le> v \<and> v \<le> hi \<and> v < 2 ^ 32"
  using assms by (auto simp: GetUintParameterFromQuery_def Let_def parse_uint_def
      split: if_splits option.splits)

lemma GetUintParameter_error:
  assumes "GetUintParameterFromQuery c name d lo hi = Inl e"
  shows "HttpCode e = StatusBadRequest \<and> Code e = ErrorInvalidParameterValue"
  using assms by (auto simp: GetUintParameterFromQuery_def Let_def parameter_error_def
      split: if_splits option.splits)

lemma GetPullJobRequest_bounds:
  assumes w: "1 \<le> DefaultVisibilityTimeout w" "DefaultVisibilityTimeout w \<le> MaxVisibilityTimeout w"
    and r: "GetPullJobRequest w c = Inr req"
  shows "1 \<le> NumJobs req \<and> NumJobs req \<le> 100 \<and> WaitTimeSeconds req \<le> 60
    \<and> 1 \<le> pullVisibilityTimeout req \<and> pullVisibilityTimeout req \<le> MaxVisibilityTimeout w
    \<and> valid_utf8 (pullTopic req) \<and> (pullJobUUID req \<noteq> None \<longrightarrow> NumJobs req = 1)"
proof -
  obtain n v t u where q: "GetUintParameterFromQuery c ''numjobs'' 1 1 100 = Inr n"
    "GetUintParameterFromQuery c ''visibilitytimeout'' (DefaultVisibilityTimeout w) 1
      (MaxVisibilityTimeout w) = Inr v"
    "GetUintParameterFromQuery c ''waittimeseconds'' 0 0 60 = Inr t"
    "req = \<lparr>pullJobUUID = u, pullTopic = validUTF8 (hr_query c ''topic''),
       NumJobs = (if u \<noteq> None then 1 else n), pullVisibilityTimeout = v, WaitTimeSeconds = t\<rparr>"
    using r by (auto simp: GetPullJobRequest_def Let_def split: sum.splits)
  show ?thesis
    using GetUintParameter_bounds[OF q(1)] GetUintParameter_bounds[OF q(2)]
      GetUintParameter_bounds[OF q(3)] w
    by (auto simp: q(4) validUTF8_valid)
qed

section \<open>Lemmas on the body\<close>

text \<open>A decoder that keeps its limit: what it returns is not larger.\<close>

definition respects_limit :: "(nat \<Rightarrow> string \<Rightarrow> decode_result) \<Rightarrow> bool" where
  "respects_limit f \<longleftrightarrow> (\<forall>n raw b. f n raw = Decoded b \<longrightarrow> length b \<le> n)"

lemma decode_loop_bounded:
  assumes "respects_limit (Gunzip w)" "respects_limit (Unbrotli w)" "respects_limit (Inflate w)"
    and "decode_loop w n single es raw body = Inr out" "length body \<le> n"
  shows "out = raw \<or> length out \<le> n \<or>
    (\<exists>f raw'. f \<in> {Gunzip w, Unbrotli w, Inflate w} \<and> f n raw' = DecodeFailed out)"
  using assms(4,5)
proof (induction es arbitrary: raw body)
  case (Cons e es)
  show ?case
  proof (cases "decoder w (trim_left_spaces e)")
    case None
    then show ?thesis using Cons.prems by (auto split: if_splits)
  next
    case (Some f)
    then have f: "f \<in> {Gunzip w, Unbrotli w, Inflate w}"
      by (auto simp: decoder_def split: if_splits)
    show ?thesis
    proof (cases "f n raw")
      case (DecodeFailed x)
      then show ?thesis using Cons.prems Some f by auto
    next
      case (Decoded b)
      have b: "length b \<le> n" using f assms(1-3) Decoded by (auto simp: respects_limit_def)
      have "decode_loop w n single es (if es \<noteq> [] then b else raw) b = Inr out"
        using Cons.prems(1) Some Decoded by simp
      from Cons.IH[OF this b] show ?thesis using b by (auto split: if_splits)
    qed (use Cons.prems Some in auto)
  qed
qed simp

section \<open>Lemmas on the handlers\<close>

lemma parse_error_status:
  "GetJobUUIDFromParameter w c = Inl e \<Longrightarrow>
    HttpCode e = StatusBadRequest \<and> Code e = ErrorInvalidJobUuid"
  by (auto simp: GetJobUUIDFromParameter_def uuid_error_def api_error_def split: sum.splits)

lemma all_jobs_history:
  assumes "svc_inv s" and "j \<in> set (GetAllJobs s)"
  shows "GetCreationTimestamp j \<noteq> None"
proof -
  have w: "wf_map (sv_jobs s)" using assms(1) by (simp add: svc_inv_def inv_except_def base_inv_def)
  obtain u where u: "u \<in> dom (map_of (sv_jobs s))" "j = job_at s (the (lookup_job u s))"
    using assms(2) w by (auto simp: GetAllJobs_def)
  then obtain p where "map_of (sv_jobs s) u = Some p" by blast
  then have "the (lookup_job u s) \<in> live s" by (auto simp: lookup_job_def live_def intro: ranI)
  then show ?thesis using assms(1) job_history u(2) by (auto simp: svc_inv_def)
qed

lemma map_jobs_history:
  assumes "svc_inv s" and "j \<in> set (map (\<lambda>(u, p). job_at s p) (sv_jobs s))"
  shows "GetCreationTimestamp j \<noteq> None"
proof -
  have w: "wf_map (sv_jobs s)" using assms(1) by (simp add: svc_inv_def inv_except_def base_inv_def)
  obtain u p where "(u, p) \<in> set (sv_jobs s)" "j = job_at s p" using assms(2) by auto
  then have "p \<in> live s" using w by (force simp: live_def ran_def)
  then show ?thesis using assms(1) job_history \<open>j = job_at s p\<close> by (auto simp: svc_inv_def)
qed

text \<open>The arithmetic of a page fits 64 bits within the bounds of the web layer.\<close>

lemma page_in_range:
  assumes p: "1 \<le> (page :: int)" "page \<le> 10000" and l: "1 \<le> limit" "limit \<le> 1000"
  shows "0 \<le> (page - 1) * limit" "i64 (page - 1) = page - 1"
    "i64 ((page - 1) * limit) = (page - 1) * limit"
    "i64 ((page - 1) * limit + limit) = (page - 1) * limit + limit"
proof -
  have m: "(page - 1) * limit \<le> 9999 * 1000" using p l by (intro mult_mono) auto
  show m0: "0 \<le> (page - 1) * limit" using p l by simp
  have in64: "0 \<le> x \<Longrightarrow> x \<le> 10000000 \<Longrightarrow> i64 x = x" for x by (simp add: in_i64_def)
  show "i64 (page - 1) = page - 1" "i64 ((page - 1) * limit) = (page - 1) * limit"
    "i64 ((page - 1) * limit + limit) = (page - 1) * limit + limit"
    by (rule in64; use p l m m0 in linarith)+
qed

lemma no_undated_job:
  assumes "svc_inv s"
  shows "\<not> list_ex (\<lambda>j. GetCreationTimestamp j = None)
    (filterJobs (env_uuid_string (sv_env s)) (map (\<lambda>(u, p). job_at s p) (sv_jobs s)) req)"
  using map_jobs_history[OF assms] by (auto simp: list_ex_iff filterJobs_def)

lemma GetJobs_no_panic:
  assumes i: "svc_inv s" and p: "1 \<le> gj_Page req" "gj_Page req \<le> 10000"
    and l: "1 \<le> gj_Limit req" "gj_Limit req \<le> 1000"
  shows "GetJobs req s \<noteq> None"
proof -
  obtain k where k: "(gj_Page req - 1) * gj_Limit req = k" by blast
  show ?thesis using no_undated_job[OF i, of req] l page_in_range[OF p l, unfolded k]
    by (simp add: GetJobs_def Let_def k)
qed

lemma GetJobs_page:
  assumes i: "svc_inv s" and p: "1 \<le> gj_Page req" "gj_Page req \<le> 10000"
    and l: "1 \<le> gj_Limit req" "gj_Limit req \<le> 1000" and n: "length (sv_jobs s) < 2 ^ 62"
  defines "matches \<equiv> sortJobs (filterJobs (env_uuid_string (sv_env s))
    (map (\<lambda>(u, p). job_at s p) (sv_jobs s)) req) (gj_Sort req)"
  shows "GetJobs req s = Some \<lparr>
      gr_Jobs = take (nat (gj_Limit req)) (drop (nat ((gj_Page req - 1) * gj_Limit req)) matches),
      gr_Total = int (length matches), gr_Page = gj_Page req, gr_Limit = gj_Limit req,
      gr_TotalPages = (int (length matches) + gj_Limit req - 1) div gj_Limit req\<rparr>"
proof -
  obtain k where k: "(gj_Page req - 1) * gj_Limit req = k" by blast
  note r = page_in_range[OF p l, unfolded k]
  have len: "length matches < 2 ^ 62"
    using n by (simp add: matches_def sortJobs_def filterJobs_def le_less_trans[OF length_filter_le])
  then have t: "i64 (int (length matches) + gj_Limit req) = int (length matches) + gj_Limit req"
    "i64 (int (length matches) + gj_Limit req - 1) = int (length matches) + gj_Limit req - 1"
    using l by (simp_all add: in_i64_def)
  have g: "go_div (int (length matches) + gj_Limit req - 1) (gj_Limit req)
      = (int (length matches) + gj_Limit req - 1) div gj_Limit req"
    using l by (intro go_div_pos) auto
  have s: "take (nat (int (length matches) - k)) (drop (nat k) matches) = take (nat (gj_Limit req)) (drop (nat k) matches)"
    if "int (length matches) < k + gj_Limit req"
    using that r(1) l by (simp add: nat_diff_distrib)
  show ?thesis using no_undated_job[OF i, of req] l r s
    by (auto simp: GetJobs_def Let_def matches_def[symmetric] k t g intro!: map_idI)
qed

lemma handle_GetJobs_no_panic: "svc_inv s \<Longrightarrow> handle_GetJobs c s \<noteq> None"
  using GetJobs_no_panic[of s] by (auto simp: handle_GetJobs_def Let_def split: sum.splits
      dest!: GetUintParameter_bounds)

lemma getFiltered_no_panic: "svc_inv s \<Longrightarrow> getFilteredJobResults perm f d now s \<noteq> None"
  using all_jobs_history[of s] by (auto simp: getFilteredJobResults_def Let_def list_ex_iff)

lemma handle_Get_by_age_no_panic:
  assumes "svc_inv s"
  shows "handle_GetOldestJobs perm c s \<noteq> None" "handle_GetStalledJobs perm' c s \<noteq> None"
    "handle_GetRecentJobs perm'' c s \<noteq> None"
proof -
  have "\<not> list_ex (\<lambda>j. \<not> IsCompleted j \<and> GetCreationTimestamp j = None) (GetAllJobs s)"
    using all_jobs_history[OF assms] by (auto simp: list_ex_iff)
  then show "handle_GetOldestJobs perm c s \<noteq> None"
    by (simp add: handle_GetOldestJobs_def Let_def split: sum.splits)
  show "handle_GetStalledJobs perm' c s \<noteq> None" "handle_GetRecentJobs perm'' c s \<noteq> None"
    using getFiltered_no_panic[OF assms]
    by (auto simp del: not_None_eq simp: handle_GetStalledJobs_def handle_GetRecentJobs_def
        split: sum.splits)
qed

text \<open>The waits of a long poll: meanwhile the other operations keep the invariant.\<close>

fun wait_ok :: "wait_end \<Rightarrow> bool" where
  "wait_ok (Woken f) \<longleftrightarrow> (\<forall>s. svc_inv s \<longrightarrow> svc_inv (f s))"
| "wait_ok (TimerFired f) \<longleftrightarrow> (\<forall>s. svc_inv s \<longrightarrow> svc_inv (f s))"
| "wait_ok (ServiceStops f) \<longleftrightarrow> (\<forall>s. svc_inv s \<longrightarrow> svc_inv (f s))"

lemma svc_inv_reads [simp]: "svc_inv (s\<lparr>sv_reads := n\<rparr>) = svc_inv s"
  by (simp add: svc_inv_def)

lemma pull_once_inv: "svc_inv s \<Longrightarrow> svc_inv (snd (pullJobsOnce req l s))"
  using pullJobsOnce_spec(1)[of s req l "fst (fst (pullJobsOnce req l s))"
      "snd (fst (pullJobsOnce req l s))" "snd (pullJobsOnce req l s)"] by simp

lemma pull_loop_inv:
  assumes "svc_inv s" "\<forall>x \<in> set ws. wait_ok x" "pull_loop req deadline ws s = Some (r, s')"
  shows "svc_inv s'"
  using assms
proof (induction ws arbitrary: s)
  case Nil
  define t where "t = s\<lparr>sv_reads := sv_reads s + 1\<rparr>"
  define l where "l = (env_clock (sv_env s) (sv_reads s) \<ge> deadline)"
  have "s' = snd (pullJobsOnce req l t)"
    using Nil.prems(3) by (auto simp: pull_loop.simps[of _ _ "[]"] time_now_def Let_def t_def l_def
        split: prod.splits if_splits)
  then show ?case using Nil.prems(1) pull_once_inv[of t req l] by (simp add: t_def)
next
  case (Cons w ws)
  define t where "t = s\<lparr>sv_reads := sv_reads s + 1\<rparr>"
  define l where "l = (env_clock (sv_env s) (sv_reads s) \<ge> deadline)"
  define t' where "t' = snd (pullJobsOnce req l t)"
  have t': "svc_inv t'" using Cons.prems(1) pull_once_inv[of t req l] by (simp add: t_def t'_def)
  have e: "s' = t' \<or>
      (\<exists>f. (w = Woken f \<or> w = TimerFired f) \<and> pull_loop req deadline ws (f t') = Some (r, s')) \<or>
      (\<exists>f. w = ServiceStops f \<and> s' = snd (pullJobsOnce req True (f t')))"
    using Cons.prems(3) by (auto simp: pull_loop.simps[of _ _ "w # ws"] time_now_def Let_def t_def
        l_def t'_def split: prod.splits if_splits wait_end.splits)
  show ?case using e t' Cons.IH[of "f t'" for f] Cons.prems(2) pull_once_inv by fastforce
qed

lemma inv_PullJobs:
  assumes "svc_inv s" "\<forall>x \<in> set ws. wait_ok x" "PullJobs req ws s = Some (r, s')"
  shows "svc_inv s'"
  using assms pull_loop_inv[of "s\<lparr>sv_reads := Suc (sv_reads s)\<rparr>" ws req _ r s']
    inv_PullSpecificJob[of s req]
  by (auto simp: PullJobs_def time_now_def svc_inv_def split: if_splits)

lemma handle_PullJob_inv:
  assumes "svc_inv s" "\<forall>x \<in> set ws. wait_ok x" "handle_PullJob w c ws s = Some (resp, s')"
  shows "svc_inv s'"
proof (cases "GetPullJobRequest w c")
  case (Inl e)
  then show ?thesis using assms by (simp add: handle_PullJob_def)
next
  case (Inr req)
  then obtain r where "PullJobs req ws s = Some (r, s')"
    using assms(3) by (auto simp: handle_PullJob_def)
  then show ?thesis using inv_PullJobs[OF assms(1,2)] by simp
qed

fun route_ok :: "route \<Rightarrow> bool" where
  "route_ok (R_PullJob ws) \<longleftrightarrow> (\<forall>x \<in> set ws. wait_ok x)"
| "route_ok _ \<longleftrightarrow> True"

lemma on_job_cases:
  "on_job w c f s = (x, s') \<Longrightarrow> s' = s \<or> (\<exists>u. s' = snd (f u s))"
  by (auto simp: on_job_def split: sum.splits prod.splits) (metis snd_conv)

lemma serve_inv:
  assumes i: "svc_inv s" and r: "route_ok r" and e: "serve w r c s = Some (resp, s')"
  shows "svc_inv s'"
proof -
  have j: "inv_except {} s" using i by (simp add: svc_inv_def)
  have k: "svc_inv s' \<longleftrightarrow> inv_except {} s'" by (simp add: svc_inv_def)
  show ?thesis
  proof (cases r)
    case R_CreateJob
    then show ?thesis using e j
      by (auto simp: k handle_CreateJob_def Let_def dest: inv_CreateJob split: if_splits sum.splits)
  next
    case (R_PullJob ws)
    then show ?thesis using e r handle_PullJob_inv[OF i, of ws w c resp s'] by simp
  next
    case R_SetJobAsSuccessful
    then show ?thesis using e j inv_SetJobAsSuccessful[OF j prod.collapse[symmetric]]
      by (auto simp: k handle_SetJobAsSuccessful_def dest!: on_job_cases)
  next
    case R_CancelJob
    then show ?thesis using e j inv_CancelJob[OF j prod.collapse[symmetric]]
      by (auto simp: k handle_CancelJob_def dest!: on_job_cases)
  next
    case R_DeleteJob
    then show ?thesis using e j inv_deleteJobLocked(1)[OF j prod.collapse[symmetric]]
      by (auto simp: k handle_DeleteJob_def dest!: on_job_cases)
  next
    case R_FailJob
    then show ?thesis using e j
      by (auto simp: k handle_FailJob_def Let_def dest: inv_failJobLocked split: sum.splits prod.splits)
  next
    case R_ChangeVisibilityTimeoutJob
    then show ?thesis using e j inv_ChangeVisibilityTimeoutJob[OF j]
      by (auto simp: k handle_ChangeVisibilityTimeoutJob_def Let_def case_prod_unfold
          split: sum.splits)
  next
    case R_CloneJob
    then show ?thesis using e j
      by (auto simp: k handle_CloneJob_def dest: inv_CloneJob split: sum.splits)
  next
    case R_DeleteQueuedJobs
    then show ?thesis using e inv_delete_jobs[OF j]
      by (auto simp: k handle_DeleteQueuedJobs_def DeleteQueuedJobs_def case_prod_unfold Let_def)
  next
    case R_DeleteAllJobs
    then show ?thesis using e inv_DeleteAllJobs[OF j] by (auto simp: k handle_DeleteAllJobs_def)
  next
    case R_UnlockAllResources
    then show ?thesis using e inv_UnlockAllResources[OF j] by (auto simp: k handle_UnlockAllResources_def)
  next
    case R_UnlockResource
    then show ?thesis using e inv_UnlockResource[OF j]
      by (auto simp: k handle_UnlockResource_def Let_def case_prod_unfold)
  qed (use e i in auto)
qed

text \<open>No answer of the server is the 500 of a recovered panic.\<close>

lemma replies:
  "snd (HTTPResponse x) \<noteq> FiberError" "snd (success_or e) \<noteq> FiberError"
  "snd (job_or y) \<noteq> FiberError"
  by (auto simp: HTTPResponse_def success_or_def job_or_def split: option.splits sum.splits)

lemma on_job_reply: "snd (fst (on_job w c f s)) \<noteq> FiberError"
  by (auto simp: on_job_def replies case_prod_unfold Let_def split: sum.splits)

lemma listing_replies:
  "handle_GetJobs c s = Some x \<Longrightarrow> snd x \<noteq> FiberError"
  "handle_GetOldestJobs p1 c s = Some x \<Longrightarrow> snd x \<noteq> FiberError"
  "handle_GetStalledJobs p2 c s = Some x \<Longrightarrow> snd x \<noteq> FiberError"
  "handle_GetRecentJobs p3 c s = Some x \<Longrightarrow> snd x \<noteq> FiberError"
  by (auto simp: handle_GetJobs_def handle_GetOldestJobs_def handle_GetStalledJobs_def
      handle_GetRecentJobs_def Let_def replies split: sum.splits if_splits)

lemma handle_PullJob_reply:
  assumes "handle_PullJob w c ws s = Some (resp, s')"
  shows "snd resp \<noteq> FiberError"
proof (cases "GetPullJobRequest w c")
  case (Inr req)
  then obtain r where "resp = (case r of Inl e \<Rightarrow> HTTPResponse e
      | Inr js \<Rightarrow> ok (JobsReply (convertJobsToResponses js)))"
    using assms by (auto simp: handle_PullJob_def)
  then show ?thesis by (auto simp: replies split: sum.splits)
qed (use assms in \<open>auto simp: handle_PullJob_def replies\<close>)

lemma recovered_reply:
  "r \<noteq> None \<Longrightarrow> (\<And>x. r = Some x \<Longrightarrow> snd x \<noteq> FiberError) \<Longrightarrow> snd (recoverPanics r) \<noteq> FiberError"
  by (auto simp: recoverPanics_def)

lemma serve_replies:
  assumes i: "svc_inv s" and e: "serve w r c s = Some (resp, s')" and n: "r \<noteq> R_CreateJob"
  shows "snd resp \<noteq> FiberError"
proof (cases r)
  case R_CreateJob
  then show ?thesis using n by simp
next
  case (R_PullJob ws)
  then show ?thesis using e handle_PullJob_reply[of w c ws s resp s'] by simp
next
  case R_CloneJob
  then show ?thesis using e by (auto simp: handle_CloneJob_def replies split: sum.splits)
next
  case R_GetJobs
  then show ?thesis using e recovered_reply[OF handle_GetJobs_no_panic[OF i] listing_replies(1)] by auto
next
  case (R_GetOldestJobs p)
  then show ?thesis using e recovered_reply[OF handle_Get_by_age_no_panic(1)[OF i] listing_replies(2)] by auto
next
  case (R_GetStalledJobs p)
  then show ?thesis using e recovered_reply[OF handle_Get_by_age_no_panic(2)[OF i] listing_replies(3)] by auto
next
  case (R_GetRecentJobs p)
  then show ?thesis using e recovered_reply[OF handle_Get_by_age_no_panic(3)[OF i] listing_replies(4)] by auto
next
  case R_SetJobAsSuccessful
  then show ?thesis using e on_job_reply[of w c SetJobAsSuccessful s]
    by (simp add: handle_SetJobAsSuccessful_def)
next
  case R_CancelJob
  then show ?thesis using e on_job_reply[of w c CancelJob s] by (simp add: handle_CancelJob_def)
next
  case R_DeleteJob
  then show ?thesis using e on_job_reply[of w c deleteJobLocked s] by (simp add: handle_DeleteJob_def)
next
  case R_GetJob
  then show ?thesis using e
    by (auto simp: handle_GetJob_def replies split: sum.splits option.splits)
next
  case R_FailJob
  then show ?thesis using e
    by (auto simp: handle_FailJob_def replies Let_def case_prod_unfold split: sum.splits option.splits)
next
  case R_ChangeVisibilityTimeoutJob
  then show ?thesis using e
    by (auto simp: handle_ChangeVisibilityTimeoutJob_def replies case_prod_unfold Let_def split: sum.splits)
qed (use e in \<open>auto simp: handle_GetAllJobs_def handle_DeleteQueuedJobs_def handle_DeleteAllJobs_def
    handle_GetLockedResources_def handle_UnlockAllResources_def handle_UnlockResource_def
    Home_def Ping_def Healthcheck_def replies Let_def case_prod_unfold split: if_splits\<close>)

lemma serve_no_panic:
  assumes i: "svc_inv s" and e: "serve w r c s = Some (resp, s')"
  shows "resp \<noteq> recoverPanics None"
proof (cases "r = R_CreateJob")
  case True
  then have "snd resp = FiberError \<Longrightarrow> fst resp = 413" using e
    by (auto simp: handle_CreateJob_def Let_def replies split: if_splits sum.splits)
  then show ?thesis by (auto simp: recoverPanics_def)
next
  case False
  then show ?thesis using serve_replies[OF i e] by (auto simp: recoverPanics_def)
qed

section \<open>Percent encoding\<close>

definition hex_digit :: "nat \<Rightarrow> char" where
  "hex_digit n = (if n < 10 then char_of (48 + n) else char_of (55 + n))"

definition percent_encode :: "string \<Rightarrow> string" where
  "percent_encode s = concat (map (\<lambda>c. [CHR ''%'', hex_digit (byte c div 16), hex_digit (byte c mod 16)]) s)"

lemma unhex_hex_digit: "n < 16 \<Longrightarrow> unhex (hex_digit n) = Some n"
  by (auto simp: unhex_def hex_digit_def Let_def)

lemma byte_less: "byte c < 256"
  by (metis char_of_char of_char_of mod_less_divisor zero_less_numeral)

lemma decode_percent_encode: "decode_percent (percent_encode s) = s"
proof (induction s)
  case (Cons c s)
  have "byte c div 16 < 16" by (rule less_mult_imp_div_less) (simp add: byte_less)
  then show ?case using Cons by (simp add: percent_encode_def unhex_hex_digit)
qed (simp add: percent_encode_def)

lemma decodePathSegment_valid: "valid_utf8 (decodePathSegment s)"
  by (simp add: decodePathSegment_def Let_def valid_to_valid)

lemma decodePathSegment_encode: "valid_utf8 s \<Longrightarrow> decodePathSegment (percent_encode s) = s"
  by (simp add: decodePathSegment_def decode_percent_encode)

end
