(* ===== verification/Sample.thy ===== *)
theory Sample
  imports Web
begin

text \<open>
  A small service on which the properties are shown to apply: a constant clock and id
  generator, and a store with queued, pending, running and completed jobs, two of which need
  the same resource.
\<close>

definition sample_env :: env where
  "sample_env = \<lparr>env_clock = (\<lambda>n. 2000), env_uuid = (\<lambda>n. Inr 100),
    env_uuid_string = (\<lambda>u. ''id''), env_exp_ms = (\<lambda>base factor maximum failures. 0)\<rparr>"

definition sample_conf :: conf where
  "sample_conf = \<lparr>MaxAllowedJobs = 10, BackendMaxJobs = 10, RetentionEnable = True,
    RetentionMaxJobAge = 3600, RetentionMaxJobs = 0,
    conf_RetryPolicy = \<lparr>rp_MaxRetry = 2, rp_BackoffStrategy =
      \<lparr>bs_Type = Linear, bs_Base = 100, bs_Factor = 2, bs_MaxDuration = 1000\<rparr>\<rparr>\<rparr>"

definition sample_job :: "JobUUID \<Rightarrow> string \<Rightarrow> int64 \<Rightarrow> string list \<Rightarrow> string list \<Rightarrow> job" where
  "sample_job u topic start resources events = SetStateFromHistory
    \<lparr>JobUUID = u, Topic = topic, Priority = uint u, JobProperties = None,
     History = map (\<lambda>ev. \<lparr>EventType = ev, Timestamp = 500\<rparr>) events, LockResources = resources,
     UserAgent = [], Requester = [], Name = [], SessionId = [], TraceId = [],
     VisibilityTimeout = 1, StartAfter = start, CallbackURL = [], state = JobNoState,
     previousState = JobNoState\<rparr>"

definition sample_jobs :: "(JobUUID \<times> job) list" where
  "sample_jobs =
    [(1, sample_job 1 ''mail'' 0 [''db''] [JobEventCreate, JobEventPending, JobEventEnqueue]),
     (2, sample_job 2 ''mail'' 0 [] [JobEventCreate, JobEventPending, JobEventEnqueue]),
     (3, sample_job 3 ''disk'' 0 [''db''] [JobEventCreate, JobEventPending]),
     (4, sample_job 4 ''disk'' 0 [] [JobEventCreate, JobEventPending, JobEventEnqueue, JobEventStart]),
     (5, sample_job 5 ''disk'' 0 [] [JobEventCreate, JobEventPending, JobEventEnqueue, JobEventStart,
        JobEventSuccess]),
     (6, sample_job 6 ''mail'' 1500 [] [JobEventCreate, JobEventDelay]),
     (7, sample_job 7 ''mail'' 0 [] [JobEventCreate, JobEventPending, JobEventEnqueue, JobEventStart,
        JobEventFail, JobEventHide])]"

definition sample_state :: svc where
  "sample_state = snd (LoadJobs (Inr sample_jobs) (NewService sample_env sample_conf))"

lemma sample_job_sel [simp]:
  "JobUUID (sample_job u t st rs evs) = u" "synced (sample_job u t st rs evs)"
  "StartAfter (sample_job u t st rs evs) = st" "LockResources (sample_job u t st rs evs) = rs"
  "History (sample_job u t st rs evs) = map (\<lambda>ev. \<lparr>EventType = ev, Timestamp = 500\<rparr>) evs"
  by (simp_all add: sample_job_def synced_SetStateFromHistory)
    (simp_all add: SetStateFromHistory_def Let_def)

lemma state_sample_job [simp]: "evs \<noteq> [] \<Longrightarrow> state (sample_job u t st rs evs) = GetStateFromEvent (last evs)"
  by (simp add: sample_job_def SetStateFromHistory_def GetHistoryStates_def Let_def last_conv_nth comp_def)

lemma sample_loaded: "loaded_ok sample_jobs"
  by (simp add: loaded_ok_def sample_jobs_def)

lemma sample_reachable: "reachable sample_env sample_conf sample_state"
  unfolding sample_state_def by (rule reachable.load[OF sample_loaded])

lemma sample_inv: "svc_inv sample_state"
  by (rule reachable_inv[OF sample_reachable])

text \<open>
  What the sample holds: two queued jobs (one has the resource), one pending for the
  resource, one running, one succeeded, one delayed, one hidden. The job at address \<open>p\<close> is the
  one at index \<open>p\<close> of the list.
\<close>

definition overview :: "svc \<Rightarrow> (JobMap \<times> JobState list \<times> JobMap \<times> LockedResources \<times> ptr list
    \<times> (ptr \<times> int64) list \<times> (ptr \<times> int64) list) \<times> nat \<times> nat \<times> bool \<times> bool \<times> bool" where
  "overview s = ((sv_jobs s, map (\<lambda>p. state (sv_store s p)) [0, 1, 2, 3, 4, 5, 6], sv_pending s,
    sv_locked s, q_all (sv_queue s), pq_nodes (sv_retry s), pq_nodes (sv_delayed s)),
    sv_reads s, sv_uuids s, sv_retention_running s, sv_visibility_running s, sv_delay_running s)"

lemma sample_overview: "overview sample_state =
    (([(1, 0), (2, 1), (3, 2), (4, 3), (5, 4), (6, 5), (7, 6)],
     [JobQueued, JobQueued, JobPending, JobRunning, JobSucceeded, JobDelayed, JobHidden],
     [(3, 2)], [(''db'', 1)], [1, 0], [(6, - 2000)], [(5, - 1500)]), 1, 0, False, False, False)"
  by code_simp

lemma sample_fields:
  "sv_jobs sample_state = [(1, 0), (2, 1), (3, 2), (4, 3), (5, 4), (6, 5), (7, 6)]"
  "state (job_at sample_state 0) = JobQueued" "state (job_at sample_state (Suc 0)) = JobQueued"
  "state (job_at sample_state 2) = JobPending" "state (job_at sample_state 3) = JobRunning"
  "state (job_at sample_state 4) = JobSucceeded" "state (job_at sample_state 5) = JobDelayed"
  "state (job_at sample_state 6) = JobHidden"
  "sv_pending sample_state = [(3, 2)]" "sv_locked sample_state = [(''db'', 1)]"
  "pq_nodes (sv_retry sample_state) = [(6, - 2000)]" "pq_nodes (sv_delayed sample_state) = [(5, - 1500)]"
  "sv_reads sample_state = 1" "sv_uuids sample_state = 0" "\<not> sv_retention_running sample_state"
  "\<not> sv_visibility_running sample_state" "\<not> sv_delay_running sample_state"
  using sample_overview by (simp_all add: overview_def)

text \<open>The configuration and the jobs are those given.\<close>

lemma sample_phase:
  "sv_conf sample_state = sample_conf \<and> sv_env sample_state = sample_env \<and> (\<forall>u p. map_of (sv_jobs sample_state) u = Some p \<longrightarrow>
     map_of sample_jobs u = Some (job_at sample_state p))"
proof (rule LoadJobs_phases[OF sample_loaded, of sample_env sample_conf])
  fix s3 created
  assume e: "snd (LoadJobs (Inr sample_jobs) (NewService sample_env sample_conf)) =
      (let s4 = foldl (\<lambda>s p. schedule_loaded_job p s) s3 created
       in if length created > 0 then tryEnqueuePendingJobsLocked s4 else s4)"
    and c: "\<forall>p \<in> set created. p \<in> live s3 \<and> state (job_at s3 p) = JobCreated"
    and f: "sv_conf s3 = sample_conf" "sv_env s3 = sample_env"
    and j: "\<And>u p. map_of (sv_jobs s3) u = Some p \<Longrightarrow> map_of sample_jobs u = Some (job_at s3 p)"
  have n: "state j \<noteq> JobCreated" if "map_of sample_jobs u = Some j" for u j
  proof -
    have "j \<in> snd ` set sample_jobs" using that by (force dest: map_of_SomeD)
    then show ?thesis
      by (auto simp: sample_jobs_def)
  qed
  have "p \<notin> set created" for p
  proof
    assume "p \<in> set created"
    then obtain u where "map_of (sv_jobs s3) u = Some p" "state (job_at s3 p) = JobCreated"
      using c by (auto simp: live_def ran_def simp del: map_of_eq_Some_iff)
    then show False using j n by blast
  qed
  then have "created = []" by (cases created) auto
  then have "sample_state = s3" using e by (simp add: sample_state_def)
  then show ?thesis using f j by blast
qed

lemma sample_conf_eq: "sv_conf sample_state = sample_conf"
  and sample_env_eq: "sv_env sample_state = sample_env"
  using sample_phase by blast+

lemma sample_queued: "in_state sample_state JobQueued = {0, 1}"
  by (auto simp: in_state_def live_def sample_fields)

lemma sample_pull_order:
  "set (take 2 (pull_order (sv_store sample_state) ''*'' (sv_queue sample_state))) = {0, 1}"
proof -
  have w: "queue_wf (sv_store sample_state) (sv_queue sample_state)"
    "q_entries (sv_queue sample_state) = {0, 1}"
    using sample_inv sample_queued by (simp_all add: svc_inv_def inv_except_def base_inv_def)
  let ?o = "pull_order (sv_store sample_state) ''*'' (sv_queue sample_state)"
  have s: "set ?o = {0, 1}" using set_pull_order[OF w(1)] w(2) by (auto simp: queued_of_def)
  have "length ?o = card (set ?o)" by (simp add: distinct_card distinct_pull_order)
  then show ?thesis using s by simp
qed

end
