(* ===== verification/Backend.thy ===== *)
theory Backend
  imports Events
begin

text \<open>
  What the service asks of a backend provider (\<^verbatim>\<open>src/jobbackendprovider\<close>): the
  interface \<^verbatim>\<open>IJobBackendProvider\<close> as a locale on the calls that change what the provider
  stores, and the proof, once for every provider, that replaying the calls of the service
  leaves the provider with the jobs of \<open>replay_jobs\<close>, the abstract job map.
\<close>

section \<open>Provider events\<close>

datatype JobBackendEventType =
    EventJobCreated | EventJobDelayed | EventJobPending | EventJobEnqueued | EventJobDeleted
  | EventJobStarted | EventJobSucceeded | EventJobCanceled | EventJobFailed | EventJobHidden
  | EventJobTerminated | EventJobTimeout | EventAllJobsDeleted | EventAllResourcesUnlocked
  | EventResourceUnlocked | EventFatalError | EventJobUpdated

record backend_event =
  be_Type :: JobBackendEventType
  be_JobUUID :: JobUUID
  be_Resource :: "string option"

definition job_event :: "JobBackendEventType \<Rightarrow> JobUUID \<Rightarrow> backend_event" where
  "job_event t u = \<lparr>be_Type = t, be_JobUUID = u, be_Resource = None\<rparr>"

text \<open>
  Sending to the channel of the service without blocking (\<^verbatim>\<open>select\<close> with a default): an
  event is dropped when the channel is full (its capacity is 1000).
\<close>

definition send_event :: "backend_event \<Rightarrow> backend_event list \<Rightarrow> backend_event list" where
  "send_event ev ch = (if length ch < 1000 then ch @ [ev] else ch)"

section \<open>The abstract job map\<close>

text \<open>
  What a store of the jobs should hold after a call. A job is added when it is created,
  removed when it is deleted, and replaced by its new value by every other notification
  about it; nothing happens while the restore flag is set.
\<close>

record jobs_view =
  jv_restore :: bool
  jv_jobs :: "JobUUID \<Rightarrow> job option"

fun view_step :: "notif \<Rightarrow> jobs_view \<Rightarrow> jobs_view" where
  "view_step (NRestoreFlag b) v = v\<lparr>jv_restore := b\<rparr>"
| "view_step (NJob j ev) v =
    (if jv_restore v then v
     else if ev = ServiceEventJobCreated then v\<lparr>jv_jobs := (jv_jobs v)(JobUUID j \<mapsto> j)\<rparr>
     else if ev = ServiceEventJobDeleted then v\<lparr>jv_jobs := (jv_jobs v)(JobUUID j := None)\<rparr>
     else if jv_jobs v (JobUUID j) = None then v
     else v\<lparr>jv_jobs := (jv_jobs v)(JobUUID j \<mapsto> j)\<rparr>)"
| "view_step (NEvent ServiceEventJobDeletedAll) v =
    (if jv_restore v then v else v\<lparr>jv_jobs := (\<lambda>_. None)\<rparr>)"
| "view_step (NBackendJobUpdated j) v =
    (if jv_jobs v (JobUUID j) = None then v else v\<lparr>jv_jobs := (jv_jobs v)(JobUUID j \<mapsto> j)\<rparr>)"
| "view_step _ v = v"

fun stored_change :: "notif \<Rightarrow> bool" where
  "stored_change (NJob j ev) = True"
| "stored_change (NEvent ev) = (ev = ServiceEventJobDeletedAll)"
| "stored_change (NBackendJobUpdated j) = True"
| "stored_change (NRestoreFlag b) = True"
| "stored_change _ = False"

lemma view_step_other: "\<not> stored_change e \<Longrightarrow> view_step e v = v"
  by (cases "(e, v)" rule: view_step.cases) auto

definition replay_jobs :: "notif list \<Rightarrow> jobs_view \<Rightarrow> jobs_view" where
  "replay_jobs ns v = fold view_step ns v"

lemma view_step_restore:
  "jv_restore (view_step e v) = (case e of NRestoreFlag b \<Rightarrow> b | _ \<Rightarrow> jv_restore v)"
  by (cases "(e, v)" rule: view_step.cases) auto

lemma replay_jobs_append: "replay_jobs (a @ b) v = replay_jobs b (replay_jobs a v)"
  by (simp add: replay_jobs_def)

text \<open>The ids a trace creates beyond what the store has room for.\<close>

definition job_room :: "nat \<Rightarrow> notif \<Rightarrow> jobs_view \<Rightarrow> bool" where
  "job_room n e v \<longleftrightarrow> (\<forall>j. e = NJob j ServiceEventJobCreated \<longrightarrow> \<not> jv_restore v \<longrightarrow>
    card (dom (jv_jobs v)) < n)"

fun room_all :: "nat \<Rightarrow> notif list \<Rightarrow> jobs_view \<Rightarrow> bool" where
  "room_all n [] v = True"
| "room_all n (e # es) v \<longleftrightarrow> job_room n e v \<and> room_all n es (view_step e v)"

text \<open>A change is about a job the store knows; the service sends no other.\<close>

definition known_change :: "notif \<Rightarrow> jobs_view \<Rightarrow> bool" where
  "known_change e v \<longleftrightarrow>
    (\<forall>j ev. e = NJob j ev \<longrightarrow> \<not> jv_restore v \<longrightarrow>
      ev \<notin> {ServiceEventJobCreated, ServiceEventJobDeleted} \<longrightarrow> jv_jobs v (JobUUID j) \<noteq> None)
    \<and> (\<forall>j. e = NBackendJobUpdated j \<longrightarrow> jv_jobs v (JobUUID j) \<noteq> None)"

fun known_all :: "notif list \<Rightarrow> jobs_view \<Rightarrow> bool" where
  "known_all [] v = True"
| "known_all (e # es) v \<longleftrightarrow> known_change e v \<and> known_all es (view_step e v)"

lemma room_all_append: "room_all n (a @ b) v \<longleftrightarrow> room_all n a v \<and> room_all n b (replay_jobs a v)"
  by (induction a arbitrary: v) (auto simp: replay_jobs_def)

lemma known_all_append: "known_all (a @ b) v \<longleftrightarrow> known_all a v \<and> known_all b (replay_jobs a v)"
  by (induction a arbitrary: v) (auto simp: replay_jobs_def)

section \<open>The interface\<close>

text \<open>
  The weaker contract, on the ids only: a store that may keep another form of a job, or not
  save every change of one. \<open>ids\<close> are the jobs it has, \<open>call\<close> its reaction to a call of the
  service, \<open>limit\<close> the number of jobs it takes.
\<close>

locale job_ids =
  fixes ids :: "'p \<Rightarrow> JobUUID set"
    and restoring :: "'p \<Rightarrow> bool"
    and call :: "notif \<Rightarrow> 'p \<Rightarrow> 'p"
    and limit :: "'p \<Rightarrow> nat"
    and wf :: "'p \<Rightarrow> bool"
  assumes ids_wf_call: "wf p \<Longrightarrow> wf (call e p)"
    and ids_limit_call: "limit (call e p) = limit p"
    and ids_finite: "wf p \<Longrightarrow> finite (ids p)"
    and ids_restoring: "restoring (call e p) = (case e of NRestoreFlag b \<Rightarrow> b | _ \<Rightarrow> restoring p)"
    and ids_created: "wf p \<Longrightarrow> \<not> restoring p \<Longrightarrow> card (ids p) < limit p \<Longrightarrow>
      ids (call (NJob j ServiceEventJobCreated) p) = insert (JobUUID j) (ids p)"
    and ids_deleted: "wf p \<Longrightarrow> \<not> restoring p \<Longrightarrow>
      ids (call (NJob j ServiceEventJobDeleted) p) = ids p - {JobUUID j}"
    and ids_changed: "wf p \<Longrightarrow> \<not> restoring p \<Longrightarrow> ev \<notin> {ServiceEventJobCreated, ServiceEventJobDeleted} \<Longrightarrow>
      JobUUID j \<in> ids p \<Longrightarrow> ids (call (NJob j ev) p) = ids p"
    and ids_restored: "wf p \<Longrightarrow> restoring p \<Longrightarrow> ids (call (NJob j ev) p) = ids p"
    and ids_deleted_all: "wf p \<Longrightarrow> ids (call (NEvent ServiceEventJobDeletedAll) p) =
      (if restoring p then ids p else {})"
    and ids_updated: "wf p \<Longrightarrow> JobUUID j \<in> ids p \<Longrightarrow> ids (call (NBackendJobUpdated j) p) = ids p"
    and ids_other: "wf p \<Longrightarrow> \<not> stored_change e \<Longrightarrow> ids (call e p) = ids p"
    and ids_flag: "wf p \<Longrightarrow> ids (call (NRestoreFlag b) p) = ids p"
begin

definition same_ids :: "'p \<Rightarrow> jobs_view \<Rightarrow> bool" where
  "same_ids p v \<longleftrightarrow> wf p \<and> restoring p = jv_restore v \<and> ids p = dom (jv_jobs v)"

lemma same_ids_step:
  assumes a: "same_ids p v" and r: "job_room (limit p) e v" and k: "known_change e v"
  shows "same_ids (call e p) (view_step e v)"
proof -
  have w: "wf p" "restoring p = jv_restore v" "ids p = dom (jv_jobs v)"
    using a by (simp_all add: same_ids_def)
  have "ids (call e p) = dom (jv_jobs (view_step e v))"
  proof (cases e)
    case (NJob j ev)
    show ?thesis
    proof (cases "jv_restore v")
      case True
      then show ?thesis using w ids_restored[of p j ev] NJob by simp
    next
      case False
      then show ?thesis using w r k ids_created[of p j] ids_deleted[of p j] ids_changed[of p ev j] NJob
        by (auto simp: job_room_def known_change_def)
    qed
  next
    case (NEvent ev)
    show ?thesis
    proof (cases "ev = ServiceEventJobDeletedAll")
      case True
      then show ?thesis using NEvent w ids_deleted_all by auto
    next
      case False
      then have "\<not> stored_change e" using NEvent by simp
      then show ?thesis using ids_other[OF w(1)] view_step_other w(3) by simp
    qed
  next
    case (NBackendJobUpdated j)
    then show ?thesis using w ids_updated[of p j] k by (auto simp: known_change_def)
  next
    case (NRestoreFlag b)
    then show ?thesis using w ids_flag[of p b] by simp
  qed (use w ids_other[of p e] in \<open>auto\<close>)
  moreover have "restoring (call e p) = jv_restore (view_step e v)"
    using w(2) ids_restoring[of e p] by (simp add: view_step_restore split: notif.splits)
  ultimately show ?thesis using ids_wf_call[OF w(1)] by (simp add: same_ids_def)
qed

lemma same_ids_replay:
  "same_ids p v \<Longrightarrow> room_all (limit p) es v \<Longrightarrow> known_all es v \<Longrightarrow>
    same_ids (fold call es p) (replay_jobs es v)"
proof (induction es arbitrary: p v)
  case Nil
  then show ?case by (simp add: replay_jobs_def)
next
  case (Cons e es)
  then show ?case using same_ids_step[of p v e] by (simp add: replay_jobs_def ids_limit_call)
qed

end

text \<open>
  The full contract. \<open>content\<close> is what the provider has stored for an id, \<open>keep\<close> the form in which it stores a
  job.
\<close>

locale job_store =
  fixes content :: "'p \<Rightarrow> JobUUID \<Rightarrow> 'v option"
    and restoring :: "'p \<Rightarrow> bool"
    and keep :: "job \<Rightarrow> 'v"
    and call :: "notif \<Rightarrow> 'p \<Rightarrow> 'p"
    and limit :: "'p \<Rightarrow> nat"
    and wf :: "'p \<Rightarrow> bool"
  assumes wf_call: "wf p \<Longrightarrow> wf (call e p)"
    and limit_call: "limit (call e p) = limit p"
    and finite_content: "wf p \<Longrightarrow> finite (dom (content p))"
    and restoring_call: "restoring (call e p) = (case e of NRestoreFlag b \<Rightarrow> b | _ \<Rightarrow> restoring p)"
    and created: "wf p \<Longrightarrow> \<not> restoring p \<Longrightarrow> card (dom (content p)) < limit p \<Longrightarrow>
      content (call (NJob j ServiceEventJobCreated) p) = (content p)(JobUUID j \<mapsto> keep j)"
    and deleted: "wf p \<Longrightarrow> \<not> restoring p \<Longrightarrow>
      content (call (NJob j ServiceEventJobDeleted) p) = (content p)(JobUUID j := None)"
    and changed: "wf p \<Longrightarrow> \<not> restoring p \<Longrightarrow> ev \<notin> {ServiceEventJobCreated, ServiceEventJobDeleted} \<Longrightarrow>
      content (call (NJob j ev) p) =
        (if content p (JobUUID j) = None then content p else (content p)(JobUUID j \<mapsto> keep j))"
    and restored: "wf p \<Longrightarrow> restoring p \<Longrightarrow> content (call (NJob j ev) p) = content p"
    and deleted_all: "wf p \<Longrightarrow> content (call (NEvent ServiceEventJobDeletedAll) p) =
      (if restoring p then content p else (\<lambda>_. None))"
    and updated: "wf p \<Longrightarrow> content (call (NBackendJobUpdated j) p) =
        (if content p (JobUUID j) = None then content p else (content p)(JobUUID j \<mapsto> keep j))"
    and other: "wf p \<Longrightarrow> \<not> stored_change e \<Longrightarrow> content (call e p) = content p"
    and flag: "wf p \<Longrightarrow> content (call (NRestoreFlag b) p) = content p"
begin

definition agrees :: "'p \<Rightarrow> jobs_view \<Rightarrow> bool" where
  "agrees p v \<longleftrightarrow> wf p \<and> restoring p = jv_restore v
    \<and> content p = (\<lambda>u. map_option keep (jv_jobs v u))"

lemma dom_agrees: "agrees p v \<Longrightarrow> dom (content p) = dom (jv_jobs v)"
  by (auto simp: agrees_def dom_def)

lemma agrees_step:
  assumes a: "agrees p v" and r: "job_room (limit p) e v"
  shows "agrees (call e p) (view_step e v)"
proof -
  have w: "wf p" "restoring p = jv_restore v" "\<And>u. content p u = map_option keep (jv_jobs v u)"
    using a by (simp_all add: agrees_def)
  have d: "dom (content p) = dom (jv_jobs v)" by (rule dom_agrees[OF a])
  have "content (call e p) = (\<lambda>u. map_option keep (jv_jobs (view_step e v) u))"
  proof (cases e)
    case (NJob j ev)
    then show ?thesis using w d r created[of p j] deleted[of p j] changed[of p ev j] restored[of p j ev]
      by (auto simp: fun_eq_iff job_room_def)
  next
    case (NEvent ev)
    show ?thesis
    proof (cases "ev = ServiceEventJobDeletedAll")
      case True
      then show ?thesis using NEvent w deleted_all by (auto simp: fun_eq_iff)
    next
      case False
      then have s: "\<not> stored_change e" using NEvent by simp
      then have "content (call e p) = content p" by (rule other[OF w(1)])
      then show ?thesis using view_step_other[OF s] w(3) by (simp add: fun_eq_iff)
    qed
  next
    case (NBackendJobUpdated j)
    then show ?thesis using w updated[of p j] by (auto simp: fun_eq_iff)
  next
    case (NRestoreFlag b)
    then show ?thesis using w flag[of p b] by (auto simp: fun_eq_iff)
  qed (use w other[of p e] in \<open>auto simp: fun_eq_iff\<close>)
  moreover have "restoring (call e p) = jv_restore (view_step e v)"
    using w(2) restoring_call[of e p] by (simp add: view_step_restore split: notif.splits)
  ultimately show ?thesis using wf_call[OF w(1)] by (simp add: agrees_def)
qed

lemma agrees_replay:
  "agrees p v \<Longrightarrow> room_all (limit p) es v \<Longrightarrow> agrees (fold call es p) (replay_jobs es v)"
proof (induction es arbitrary: p v)
  case Nil
  then show ?case by (simp add: replay_jobs_def)
next
  case (Cons e es)
  then show ?case using agrees_step[of p v e] by (simp add: replay_jobs_def limit_call)
qed

end


sublocale job_store \<subseteq> ids: job_ids "\<lambda>p. dom (content p)" restoring call limit wf
proof unfold_locales
  show "wf p \<Longrightarrow> \<not> restoring p \<Longrightarrow> card (dom (content p)) < limit p \<Longrightarrow>
      dom (content (call (NJob j ServiceEventJobCreated) p)) = insert (JobUUID j) (dom (content p))" for p j
    by (simp add: created)
  show "wf p \<Longrightarrow> \<not> restoring p \<Longrightarrow>
      dom (content (call (NJob j ServiceEventJobDeleted) p)) = dom (content p) - {JobUUID j}" for p j
    by (auto simp: deleted)
  show "wf p \<Longrightarrow> \<not> restoring p \<Longrightarrow> ev \<notin> {ServiceEventJobCreated, ServiceEventJobDeleted} \<Longrightarrow>
      JobUUID j \<in> dom (content p) \<Longrightarrow> dom (content (call (NJob j ev) p)) = dom (content p)" for p j ev
    using changed[of p ev j] by auto
  show "wf p \<Longrightarrow> dom (content (call (NEvent ServiceEventJobDeletedAll) p)) =
      (if restoring p then dom (content p) else {})" for p
    by (simp add: deleted_all)
  show "wf p \<Longrightarrow> JobUUID j \<in> dom (content p) \<Longrightarrow>
      dom (content (call (NBackendJobUpdated j) p)) = dom (content p)" for p j
    using updated[of p j] by auto
qed (simp_all add: wf_call limit_call finite_content restoring_call restored other flag)

end
