(* ===== verification/Lifecycle.thy ===== *)
theory Lifecycle
  imports Prelude
begin

text \<open>
  Starting and stopping a background loop exactly once (\<^verbatim>\<open>src/lifecycle/lifecycle.go\<close>).
  The critical sections are functions on the state; the goroutines interleave them, one
  loop that calls \<^verbatim>\<open>Begin\<close> and \<^verbatim>\<open>End\<close>, and any number of callers of \<^verbatim>\<open>Stop\<close>, each of which
  waits for \<^verbatim>\<open>done\<close> when the loop had started.
\<close>

section \<open>Code\<close>

record lifecycle =
  lc_started :: bool
  lc_stopped :: bool
  lc_stop :: bool
  lc_done :: bool

definition New :: lifecycle where
  "New = \<lparr>lc_started = False, lc_stopped = False, lc_stop = False, lc_done = False\<rparr>"

definition Begin :: "lifecycle \<Rightarrow> bool \<times> lifecycle" where
  "Begin l = (if lc_started l \<or> lc_stopped l then (False, l)
              else (True, l\<lparr>lc_started := True\<rparr>))"

text \<open>\<open>None\<close> is the panic of closing a closed channel.\<close>

definition End :: "lifecycle \<Rightarrow> lifecycle option" where
  "End l = (if lc_done l then None else Some (l\<lparr>lc_done := True\<rparr>))"

definition Stopping :: "lifecycle \<Rightarrow> bool" where
  "Stopping l = lc_stop l"

text \<open>The two steps of \<^verbatim>\<open>Stop\<close> before it waits: the locked section, then the close (once).\<close>

definition Stop_mark :: "lifecycle \<Rightarrow> bool \<times> lifecycle" where
  "Stop_mark l = (lc_started l, l\<lparr>lc_stopped := True\<rparr>)"

definition Stop_close :: "lifecycle \<Rightarrow> lifecycle" where
  "Stop_close l = l\<lparr>lc_stop := True\<rparr>"

section \<open>The goroutines\<close>

text \<open>
  A starter calls \<open>Begin\<close> and runs the loop when it succeeds; a stopper is before its mark,
  between mark and close, waiting, or has returned the flag \<open>started\<close>.
\<close>

datatype starter = Idle | Refused | Looping | Ended
datatype stopper = Before | Marked bool | Waiting bool | Returned bool

record world =
  w_lc :: lifecycle
  w_starter :: "nat \<Rightarrow> starter"
  w_stopper :: "nat \<Rightarrow> stopper"
  w_panic :: bool

definition init_world :: world where
  "init_world = \<lparr>w_lc = New, w_starter = (\<lambda>_. Idle), w_stopper = (\<lambda>_. Before), w_panic = False\<rparr>"

inductive lc_step :: "world \<Rightarrow> world \<Rightarrow> bool" where
  begin_ok: "w_starter w i = Idle \<Longrightarrow> Begin (w_lc w) = (True, l) \<Longrightarrow>
    lc_step w (w\<lparr>w_lc := l, w_starter := (w_starter w)(i := Looping)\<rparr>)"
| begin_refused: "w_starter w i = Idle \<Longrightarrow> Begin (w_lc w) = (False, l) \<Longrightarrow>
    lc_step w (w\<lparr>w_lc := l, w_starter := (w_starter w)(i := Refused)\<rparr>)"
| end_ok: "w_starter w i = Looping \<Longrightarrow> End (w_lc w) = Some l \<Longrightarrow>
    lc_step w (w\<lparr>w_lc := l, w_starter := (w_starter w)(i := Ended)\<rparr>)"
| end_panic: "w_starter w i = Looping \<Longrightarrow> End (w_lc w) = None \<Longrightarrow>
    lc_step w (w\<lparr>w_panic := True, w_starter := (w_starter w)(i := Ended)\<rparr>)"
| mark: "w_stopper w k = Before \<Longrightarrow> Stop_mark (w_lc w) = (b, l) \<Longrightarrow>
    lc_step w (w\<lparr>w_lc := l, w_stopper := (w_stopper w)(k := Marked b)\<rparr>)"
| close: "w_stopper w k = Marked b \<Longrightarrow>
    lc_step w (w\<lparr>w_lc := Stop_close (w_lc w),
      w_stopper := (w_stopper w)(k := if b then Waiting b else Returned b)\<rparr>)"
| wake: "w_stopper w k = Waiting b \<Longrightarrow> lc_done (w_lc w) \<Longrightarrow>
    lc_step w (w\<lparr>w_stopper := (w_stopper w)(k := Returned b)\<rparr>)"

inductive lc_reachable :: "world \<Rightarrow> bool" where
  lc_init: "lc_reachable init_world"
| lc_next: "lc_reachable w \<Longrightarrow> lc_step w w' \<Longrightarrow> lc_reachable w'"

inductive_cases lc_stepE: "lc_step w w'"

section \<open>Invariant\<close>

fun began :: "starter \<Rightarrow> bool" where
  "began Idle = False"
| "began Refused = False"
| "began Looping = True"
| "began Ended = True"

fun seen :: "stopper \<Rightarrow> bool option" where
  "seen Before = None"
| "seen (Marked b) = Some b"
| "seen (Waiting b) = Some b"
| "seen (Returned b) = Some b"

definition starters_inv :: "world \<Rightarrow> bool" where
  "starters_inv w \<longleftrightarrow> (\<forall>i j. began (w_starter w i) \<longrightarrow> began (w_starter w j) \<longrightarrow> i = j)
    \<and> (lc_started (w_lc w) \<longleftrightarrow> (\<exists>i. began (w_starter w i)))
    \<and> (lc_done (w_lc w) \<longleftrightarrow> (\<exists>i. w_starter w i = Ended)) \<and> \<not> w_panic w"

definition stopper_inv :: "lifecycle \<Rightarrow> stopper \<Rightarrow> bool" where
  "stopper_inv l t \<longleftrightarrow> (seen t \<noteq> None \<longrightarrow> lc_stopped l \<and> seen t = Some (lc_started l))
    \<and> (\<forall>b. t = Waiting b \<longrightarrow> b \<and> lc_stop l) \<and> (t = Returned True \<longrightarrow> lc_done l)"

definition lc_inv :: "world \<Rightarrow> bool" where
  "lc_inv w \<longleftrightarrow> starters_inv w \<and> (\<forall>k. stopper_inv (w_lc w) (w_stopper w k))"

lemma lc_inv_init: "lc_inv init_world"
  by (simp add: lc_inv_def init_world_def New_def starters_inv_def stopper_inv_def)

lemma lc_inv_step: "lc_step w w' \<Longrightarrow> lc_inv w \<Longrightarrow> lc_inv w'"
proof (induction rule: lc_step.induct)
  case (begin_ok w i l)
  then have n: "\<not> lc_started (w_lc w)" "\<not> lc_stopped (w_lc w)" "l = (w_lc w)\<lparr>lc_started := True\<rparr>"
    by (auto simp: Begin_def split: if_splits)
  then have j: "\<not> began (w_starter w j)" for j using begin_ok.prems by (auto simp: lc_inv_def starters_inv_def)
  then have "w_starter w j \<noteq> Ended" for j by (metis began.simps(4))
  then have "starters_inv (w\<lparr>w_lc := l, w_starter := (w_starter w)(i := Looping)\<rparr>)"
    using begin_ok.prems n j by (simp add: lc_inv_def starters_inv_def) 
  moreover have "seen (w_stopper w k) = None" for k
    using begin_ok.prems n by (auto simp: lc_inv_def stopper_inv_def)
  then have "w_stopper w k = Before" for k by (metis option.distinct(1) seen.elims)
  ultimately show ?case by (simp add: lc_inv_def stopper_inv_def)
next
  case (begin_refused w i l)
  then have l: "l = w_lc w" "lc_started l \<or> lc_stopped l" by (auto simp: Begin_def split: if_splits)
  have "began (((w_starter w)(i := Refused)) j) = began (w_starter w j)"
    "((w_starter w)(i := Refused)) j = Ended \<longleftrightarrow> w_starter w j = Ended" for j
    using begin_refused.hyps(1) by simp_all
  then have "starters_inv (w\<lparr>w_lc := l, w_starter := (w_starter w)(i := Refused)\<rparr>)"
    using begin_refused.prems l(1) unfolding lc_inv_def starters_inv_def by simp
  then show ?case using begin_refused.prems l by (simp add: lc_inv_def)
next
  case (end_ok w i l)
  then have l: "l = (w_lc w)\<lparr>lc_done := True\<rparr>" by (auto simp: End_def split: if_splits)
  have "began (((w_starter w)(i := Ended)) j) = began (w_starter w j)" for j
    using end_ok.hyps(1) by simp
  then have "starters_inv (w\<lparr>w_lc := l, w_starter := (w_starter w)(i := Ended)\<rparr>)"
    using end_ok.prems l unfolding lc_inv_def starters_inv_def by auto
  moreover have "stopper_inv l t" if "stopper_inv (w_lc w) t" for t
    using that l by (auto simp: stopper_inv_def)
  ultimately show ?case using end_ok.prems by (simp add: lc_inv_def)
next
  case (end_panic w i)
  then have "lc_done (w_lc w)" by (auto simp: End_def split: if_splits)
  then obtain j where j: "w_starter w j = Ended"
    using end_panic.prems by (auto simp: lc_inv_def starters_inv_def)
  then have "j = i" using end_panic.prems end_panic.hyps(1)
    by (metis began.simps(3,4) lc_inv_def starters_inv_def)
  then show ?case using j end_panic.hyps(1) by simp
next
  case (mark w k b l)
  then have b: "b = lc_started (w_lc w)" "l = (w_lc w)\<lparr>lc_stopped := True\<rparr>" by (auto simp: Stop_mark_def)
  have "starters_inv (w\<lparr>w_lc := l, w_stopper := (w_stopper w)(k := Marked b)\<rparr>)"
    using mark.prems b by (simp add: lc_inv_def starters_inv_def)
  moreover have "stopper_inv l t" if "stopper_inv (w_lc w) t" for t
    using that b by (auto simp: stopper_inv_def)
  moreover have "stopper_inv l (Marked b)" using b by (simp add: stopper_inv_def)
  ultimately show ?case using mark.prems by (simp add: lc_inv_def)
next
  case (close w k b)
  have "stopper_inv (w_lc w) (Marked b)" using close by (metis lc_inv_def)
  then have b: "b = lc_started (w_lc w)" "lc_stopped (w_lc w)" by (simp_all add: stopper_inv_def)
  have "starters_inv (w\<lparr>w_lc := Stop_close (w_lc w),
      w_stopper := (w_stopper w)(k := if b then Waiting b else Returned b)\<rparr>)"
    using close.prems by (simp add: lc_inv_def starters_inv_def Stop_close_def)
  moreover have "stopper_inv (Stop_close (w_lc w)) t" if "stopper_inv (w_lc w) t" for t
    using that by (auto simp: stopper_inv_def Stop_close_def)
  moreover have "stopper_inv (Stop_close (w_lc w)) (if b then Waiting b else Returned b)"
    using b by (auto simp: stopper_inv_def Stop_close_def)
  ultimately show ?case using close.prems by (cases b) (simp_all add: lc_inv_def)
next
  case (wake w k b)
  have "stopper_inv (w_lc w) (Waiting b)" using wake by (metis lc_inv_def)
  then have b: "b = lc_started (w_lc w)" "lc_stopped (w_lc w)" by (simp_all add: stopper_inv_def)
  have "starters_inv (w\<lparr>w_stopper := (w_stopper w)(k := Returned b)\<rparr>)"
    using wake.prems by (simp add: lc_inv_def starters_inv_def)
  moreover have "stopper_inv (w_lc w) (Returned b)"
    using b wake.hyps(2) by (auto simp: stopper_inv_def)
  ultimately show ?case using wake.prems by (simp add: lc_inv_def)
qed

lemma lc_reachable_inv: "lc_reachable w \<Longrightarrow> lc_inv w"
  by (induction rule: lc_reachable.induct) (auto intro: lc_inv_init lc_inv_step)

text \<open>What a caller of \<^verbatim>\<open>Stop\<close> knows when it has returned.\<close>

lemma lc_returned:
  assumes "lc_inv w"
  shows "\<not> w_panic w \<and> (\<forall>i j. began (w_starter w i) \<and> began (w_starter w j) \<longrightarrow> i = j)
    \<and> (\<forall>k b i. w_stopper w k = Returned b \<longrightarrow> w_starter w i \<noteq> Looping)
    \<and> (\<forall>k. w_stopper w k = Returned True \<longrightarrow> (\<exists>i. w_starter w i = Ended))"
proof -
  have st: "starters_inv w" and sp: "\<And>k. stopper_inv (w_lc w) (w_stopper w k)"
    using assms by (simp_all add: lc_inv_def)
  have e: "\<exists>i. w_starter w i = Ended" if "w_stopper w k = Returned True" for k
    using sp[of k] that st by (simp add: stopper_inv_def starters_inv_def)
  have "w_starter w i \<noteq> Looping" if r: "w_stopper w k = Returned b" for k b i
  proof
    assume l: "w_starter w i = Looping"
    then have s: "lc_started (w_lc w)" using st by (metis began.simps(3) starters_inv_def)
    then have "b" using sp[of k] r by (simp add: stopper_inv_def)
    then obtain j where "w_starter w j = Ended" using e[of k] r by auto
    then show False using st l by (metis began.simps(3,4) starter.distinct(11) starters_inv_def)
  qed
  then show ?thesis using st e unfolding starters_inv_def by blast
qed

end
