(* ===== verification/InMemory.thy ===== *)
theory InMemory
  imports Backend Lifecycle
begin

text \<open>
  The in-memory provider (\<^verbatim>\<open>src/jobbackendprovider/inmemoryprovider\<close>): its copies of the
  jobs, the generation counters that decide when to save, and the JSON file they are saved
  to. With persistent storage a job is kept as a copy (\<open>Some\<close>); without, only its id is
  kept (\<open>None\<close>). The file stores the exported fields of the jobs; the state of a job is
  recomputed from its history when it is loaded. Reading and writing files may fail: each
  operation that does I/O gets the outcome of its system calls.
\<close>

section \<open>The JSON file\<close>

text \<open>
  What \<^verbatim>\<open>json.Marshal\<close> keeps of a job: everything but its two unexported fields. A file
  holds the map of the stored jobs.
\<close>

type_synonym file_content = "(JobUUID, job) gomap"

definition marshal_job :: "job \<Rightarrow> job" where
  "marshal_job j = j\<lparr>state := JobNoState, previousState := JobNoState\<rparr>"

definition marshal_jobs :: "(JobUUID, job) gomap \<Rightarrow> file_content" where
  "marshal_jobs m = map (\<lambda>(u, j). (u, marshal_job j)) m"

text \<open>\<^verbatim>\<open>Load\<close> decodes the file and recomputes the states.\<close>

definition unmarshal_jobs :: "file_content \<Rightarrow> (JobUUID, job) gomap" where
  "unmarshal_jobs f = map (\<lambda>(u, j). (u, SetStateFromHistory j)) f"

text \<open>
  \<^verbatim>\<open>writeFileAtomic\<close>: the system calls on the file and its temporary file. \<open>outs\<close> gives
  the outcome of open, write, sync, close and rename, in this order (\<open>True\<close> is success).
  A write that fails leaves some prefix; a file with a partial content is \<open>Torn\<close>.
\<close>

datatype 'c fcontent = Missing | Torn | Complete 'c

record 'c disk =
  d_file :: "'c fcontent"
  d_tmp :: "'c fcontent"

datatype 'c syscall =
    OpenTmp | WriteTmp 'c | SyncTmp | CloseTmp | RenameTmp | RemoveTmp

fun exec_syscall :: "'c syscall \<Rightarrow> bool \<Rightarrow> 'c disk \<Rightarrow> 'c disk" where
  "exec_syscall OpenTmp ok d = (if ok then d\<lparr>d_tmp := Torn\<rparr> else d)"
| "exec_syscall (WriteTmp c) ok d = d\<lparr>d_tmp := (if ok then Complete c else Torn)\<rparr>"
| "exec_syscall SyncTmp ok d = d"
| "exec_syscall CloseTmp ok d = d"
| "exec_syscall RenameTmp ok d = (if ok then \<lparr>d_file = d_tmp d, d_tmp = Missing\<rparr> else d)"
| "exec_syscall RemoveTmp ok d = (if ok then d\<lparr>d_tmp := Missing\<rparr> else d)"

record outcomes =
  o_open :: bool
  o_write :: bool
  o_sync :: bool
  o_close :: bool
  o_rename :: bool
  o_remove :: bool

text \<open>The calls made, with their outcomes, and whether the function returns an error.\<close>

definition writeFileAtomic :: "outcomes \<Rightarrow> 'c \<Rightarrow> ('c syscall \<times> bool) list \<times> bool" where
  "writeFileAtomic r c =
    (if \<not> o_open r then ([(OpenTmp, False)], True)
     else let ok1 = o_write r;
              calls = [(OpenTmp, True), (WriteTmp c, ok1)];
              (calls, ok2) = (if ok1 then (calls @ [(SyncTmp, o_sync r)], o_sync r) else (calls, False));
              calls = calls @ [(CloseTmp, o_close r)];
              ok3 = (ok2 \<and> o_close r);
              (calls, ok4) = (if ok3 then (calls @ [(RenameTmp, o_rename r)], o_rename r) else (calls, False));
              calls = (if ok4 then calls else calls @ [(RemoveTmp, o_remove r)])
          in (calls, \<not> ok4))"

definition run_calls :: "('c syscall \<times> bool) list \<Rightarrow> 'c disk \<Rightarrow> 'c disk" where
  "run_calls cs d = fold (\<lambda>(c, ok). exec_syscall c ok) cs d"

section \<open>The provider\<close>

record inmem =
  im_generation :: nat
  im_savedGeneration :: nat
  im_jobs :: "(JobUUID, job option) gomap"
  im_maxJobs :: uint
  im_writeFrequency :: int64
  im_persistent :: bool
  im_chan :: "backend_event list"
  im_restore :: bool
  im_file :: "file_content option"

definition NotifyChange :: "backend_event \<Rightarrow> inmem \<Rightarrow> inmem" where
  "NotifyChange ev p = p\<lparr>im_generation := (im_generation p + 1) mod 2 ^ 64,
    im_chan := send_event ev (im_chan p)\<rparr>"

definition keepLocked :: "job \<Rightarrow> inmem \<Rightarrow> inmem" where
  "keepLocked j p = p\<lparr>im_jobs := AList.update (JobUUID j)
    (if im_persistent p then Some (Snapshot j) else None) (im_jobs p)\<rparr>"

definition im_SetRestoreFlag :: "bool \<Rightarrow> inmem \<Rightarrow> inmem" where
  "im_SetRestoreFlag enabled p = p\<lparr>im_restore := enabled\<rparr>"

definition im_JobExists :: "JobUUID \<Rightarrow> inmem \<Rightarrow> bool" where
  "im_JobExists u p \<longleftrightarrow> map_of (im_jobs p) u \<noteq> None"

definition im_OnJobCreated :: "job \<Rightarrow> inmem \<Rightarrow> bool \<times> inmem" where
  "im_OnJobCreated j p =
    (if length (im_jobs p) = im_maxJobs p then (True, p)
     else (False, NotifyChange (job_event EventJobCreated (JobUUID j)) (keepLocked j p)))"

definition im_OnJobDeleted :: "JobUUID \<Rightarrow> inmem \<Rightarrow> inmem" where
  "im_OnJobDeleted u p =
    NotifyChange (job_event EventJobDeleted u) (p\<lparr>im_jobs := AList.delete u (im_jobs p)\<rparr>)"

definition im_OnJobUpdated :: "job \<Rightarrow> inmem \<Rightarrow> inmem" where
  "im_OnJobUpdated j p = NotifyChange (job_event EventJobUpdated (JobUUID j))
    (if map_of (im_jobs p) (JobUUID j) \<noteq> None then keepLocked j p else p)"

definition im_OnJobsDeleted :: "inmem \<Rightarrow> inmem" where
  "im_OnJobsDeleted p = NotifyChange (job_event EventAllJobsDeleted 0) (p\<lparr>im_jobs := []\<rparr>)"

definition im_OnAllResourcesUnlocked :: "inmem \<Rightarrow> inmem" where
  "im_OnAllResourcesUnlocked p = NotifyChange (job_event EventAllResourcesUnlocked 0) p"

definition im_OnResourceUnlocked :: "job \<Rightarrow> string \<Rightarrow> inmem \<Rightarrow> inmem" where
  "im_OnResourceUnlocked j resource p = NotifyChange
    \<lparr>be_Type = EventResourceUnlocked, be_JobUUID = JobUUID j, be_Resource = Some resource\<rparr> p"

text \<open>The handlers that only announce the change (\<^verbatim>\<open>OnJobDelayed\<close> to \<^verbatim>\<open>OnJobTimeout\<close>).\<close>

definition im_OnJobDelayed :: "job \<Rightarrow> inmem \<Rightarrow> inmem" where
  "im_OnJobDelayed j p = NotifyChange (job_event EventJobDelayed (JobUUID j)) p"
definition im_OnJobPending :: "job \<Rightarrow> inmem \<Rightarrow> inmem" where
  "im_OnJobPending j p = NotifyChange (job_event EventJobPending (JobUUID j)) p"
definition im_OnJobEnqueued :: "job \<Rightarrow> inmem \<Rightarrow> inmem" where
  "im_OnJobEnqueued j p = NotifyChange (job_event EventJobEnqueued (JobUUID j)) p"
definition im_OnJobCanceled :: "job \<Rightarrow> inmem \<Rightarrow> inmem" where
  "im_OnJobCanceled j p = NotifyChange (job_event EventJobCanceled (JobUUID j)) p"
definition im_OnJobFailed :: "job \<Rightarrow> inmem \<Rightarrow> inmem" where
  "im_OnJobFailed j p = NotifyChange (job_event EventJobFailed (JobUUID j)) p"
definition im_OnJobHidden :: "job \<Rightarrow> inmem \<Rightarrow> inmem" where
  "im_OnJobHidden j p = NotifyChange (job_event EventJobHidden (JobUUID j)) p"
definition im_OnJobTerminated :: "job \<Rightarrow> inmem \<Rightarrow> inmem" where
  "im_OnJobTerminated j p = NotifyChange (job_event EventJobTerminated (JobUUID j)) p"
definition im_OnJobStarted :: "job \<Rightarrow> inmem \<Rightarrow> inmem" where
  "im_OnJobStarted j p = NotifyChange (job_event EventJobStarted (JobUUID j)) p"
definition im_OnJobSucceeded :: "job \<Rightarrow> inmem \<Rightarrow> inmem" where
  "im_OnJobSucceeded j p = NotifyChange (job_event EventJobSucceeded (JobUUID j)) p"

definition im_OnJobTimeout :: "job \<Rightarrow> inmem \<Rightarrow> inmem" where
  "im_OnJobTimeout j p = NotifyChange (job_event EventJobTimeout (JobUUID j)) p"

lemmas im_On_defs = im_OnJobDelayed_def im_OnJobPending_def im_OnJobEnqueued_def
  im_OnJobCanceled_def im_OnJobFailed_def im_OnJobHidden_def im_OnJobTerminated_def
  im_OnJobStarted_def im_OnJobSucceeded_def im_OnJobTimeout_def

definition im_NotifyEvent :: "ServiceEventType \<Rightarrow> inmem \<Rightarrow> inmem" where
  "im_NotifyEvent ev p =
    (if im_restore p then p
     else if ev = ServiceEventJobDeletedAll then im_OnJobsDeleted p else p)"

text \<open>An error of \<^verbatim>\<open>OnJobCreated\<close> is only logged.\<close>

definition im_NotifyJobEvent :: "job \<Rightarrow> ServiceEventType \<Rightarrow> inmem \<Rightarrow> inmem" where
  "im_NotifyJobEvent j ev p =
    (if im_restore p then p
     else let p = (if im_persistent p \<and> ev \<noteq> ServiceEventJobDeleted \<and> ev \<noteq> ServiceEventJobCreated
                   then if map_of (im_jobs p) (JobUUID j) \<noteq> None then keepLocked j p else p
                   else p)
     in case ev of
       ServiceEventJobCreated \<Rightarrow> snd (im_OnJobCreated j p)
     | ServiceEventJobDelayed \<Rightarrow> im_OnJobDelayed j p
     | ServiceEventJobPending \<Rightarrow> im_OnJobPending j p
     | ServiceEventJobEnqueued \<Rightarrow> im_OnJobEnqueued j p
     | ServiceEventJobDeleted \<Rightarrow> im_OnJobDeleted (JobUUID j) p
     | ServiceEventJobStarted \<Rightarrow> im_OnJobStarted j p
     | ServiceEventJobSucceeded \<Rightarrow> im_OnJobSucceeded j p
     | ServiceEventJobCanceled \<Rightarrow> im_OnJobCanceled j p
     | ServiceEventJobFailed \<Rightarrow> im_OnJobFailed j p
     | ServiceEventJobHidden \<Rightarrow> im_OnJobHidden j p
     | ServiceEventJobTerminated \<Rightarrow> im_OnJobTerminated j p
     | _ \<Rightarrow> p)"

text \<open>The calls of the service, as they reach this provider.\<close>

fun im_call :: "notif \<Rightarrow> inmem \<Rightarrow> inmem" where
  "im_call (NJob j ev) p = im_NotifyJobEvent j ev p"
| "im_call (NEvent ev) p = im_NotifyEvent ev p"
| "im_call (NBackendJobUpdated j) p = im_OnJobUpdated j p"
| "im_call NBackendAllResourcesUnlocked p = im_OnAllResourcesUnlocked p"
| "im_call (NBackendResourceUnlocked j r) p = im_OnResourceUnlocked j r p"
| "im_call (NRestoreFlag b) p = im_SetRestoreFlag b p"
| "im_call _ p = p"

section \<open>Saving and loading\<close>

text \<open>
  \<open>saved\<close> is whether the file was written. The saved jobs are copies that are replaced and
  never changed. Without persistent storage nothing is saved.
\<close>

definition saveLocked :: "bool \<Rightarrow> inmem \<Rightarrow> bool \<times> inmem" where
  "saveLocked saved p =
    (let generation = im_generation p;
         copy = List.map_filter (\<lambda>(u, v). map_option (Pair u) v) (im_jobs p)
     in if saved then (False, p\<lparr>im_file := Some (marshal_jobs copy), im_savedGeneration := generation\<rparr>)
        else (True, p))"

definition SaveToFile :: "bool \<Rightarrow> inmem \<Rightarrow> bool \<times> inmem" where
  "SaveToFile saved p = (if \<not> im_persistent p then (False, p) else saveLocked saved p)"

definition im_sync :: "bool \<Rightarrow> inmem \<Rightarrow> bool \<times> inmem" where
  "im_sync saved p =
    (if \<not> im_persistent p then (False, p)
     else if im_generation p = im_savedGeneration p then (False, p)
     else saveLocked saved p)"

text \<open>
  \<^verbatim>\<open>Load\<close> of the storage: a missing file is created with no job; \<open>readable\<close> is whether the
  file can be opened and decoded, \<open>saved\<close> whether a new file can be written.
\<close>

definition storage_Load :: "bool \<Rightarrow> bool \<Rightarrow> file_content option
    \<Rightarrow> (string + (JobUUID, job) gomap) \<times> file_content option" where
  "storage_Load readable saved f =
    (case f of
      None \<Rightarrow> if saved then (Inr [], Some (marshal_jobs [])) else (Inl ''cannot save'', None)
    | Some c \<Rightarrow> if readable then (Inr (unmarshal_jobs c), f) else (Inl ''cannot load'', f))"

definition im_LoadJobs :: "bool \<Rightarrow> bool \<Rightarrow> inmem \<Rightarrow> (string + (JobUUID, job) gomap) \<times> inmem" where
  "im_LoadJobs readable saved p =
    (if im_persistent p
     then let (r, f) = storage_Load readable saved (im_file p)
       in case r of
         Inl err \<Rightarrow> (Inl err, p\<lparr>im_jobs := [], im_file := f\<rparr>)
       | Inr js \<Rightarrow> (Inr (map (\<lambda>(u, j). (u, Snapshot j)) js),
           p\<lparr>im_jobs := map (\<lambda>(u, j). (u, Some j)) js, im_file := f,
             im_savedGeneration := im_generation p\<rparr>)
     else (Inr [], p\<lparr>im_savedGeneration := im_generation p, im_jobs := []\<rparr>))"

definition NewInMemoryJobBackendProvider ::
    "uint \<Rightarrow> int64 \<Rightarrow> bool \<Rightarrow> file_content option \<Rightarrow> string + inmem" where
  "NewInMemoryJobBackendProvider maxJobs writeFrequency persistent f =
    (if maxJobs = 0 then Inl ''invalid value for configuration backend.inMemory.maxJobs''
     else if writeFrequency < 0
     then Inl ''invalid value for configuration backend.inMemory.writeFrequency''
     else Inr \<lparr>im_generation = 0, im_savedGeneration = 0, im_jobs = [], im_maxJobs = maxJobs,
       im_writeFrequency = (if writeFrequency = 0 then 300 else writeFrequency),
       im_persistent = persistent, im_chan = [], im_restore = False, im_file = f\<rparr>)"

definition im_GetMaxJobs :: "inmem \<Rightarrow> uint" where
  "im_GetMaxJobs p = im_maxJobs p"

section \<open>Lemmas\<close>

lemma NotifyChange_sel [simp]:
  "im_jobs (NotifyChange ev p) = im_jobs p" "im_maxJobs (NotifyChange ev p) = im_maxJobs p"
  "im_persistent (NotifyChange ev p) = im_persistent p" "im_restore (NotifyChange ev p) = im_restore p"
  "im_file (NotifyChange ev p) = im_file p"
  "im_savedGeneration (NotifyChange ev p) = im_savedGeneration p"
  by (simp_all add: NotifyChange_def)

lemma keepLocked_sel [simp]:
  "im_maxJobs (keepLocked j p) = im_maxJobs p" "im_persistent (keepLocked j p) = im_persistent p"
  "im_restore (keepLocked j p) = im_restore p"
  "im_jobs (keepLocked j p) =
    AList.update (JobUUID j) (if im_persistent p then Some j else None) (im_jobs p)"
  by (simp_all add: keepLocked_def)

text \<open>The stored values: copies with persistent storage (\<open>b\<close>), nothing without.\<close>

definition im_wf :: "bool \<Rightarrow> inmem \<Rightarrow> bool" where
  "im_wf b p \<longleftrightarrow> wf_map (im_jobs p) \<and> im_persistent p = b
    \<and> (\<forall>v \<in> ran (map_of (im_jobs p)). (v = None) = (\<not> b))"

definition im_keep :: "bool \<Rightarrow> job \<Rightarrow> job option" where
  "im_keep b j = (if b then Some j else None)"

lemma im_NotifyJobEvent_sel [simp]:
  "im_maxJobs (im_NotifyJobEvent j ev p) = im_maxJobs p"
  "im_persistent (im_NotifyJobEvent j ev p) = im_persistent p"
  "im_restore (im_NotifyJobEvent j ev p) = im_restore p"
  by (cases ev; simp add: im_NotifyJobEvent_def im_On_defs im_OnJobCreated_def im_OnJobDeleted_def)+

lemma im_NotifyJobEvent_jobs:
  "im_jobs (im_NotifyJobEvent j ev p) =
    (if im_restore p then im_jobs p
     else if ev = ServiceEventJobCreated
     then if length (im_jobs p) = im_maxJobs p then im_jobs p
          else AList.update (JobUUID j) (im_keep (im_persistent p) j) (im_jobs p)
     else if ev = ServiceEventJobDeleted then AList.delete (JobUUID j) (im_jobs p)
     else if im_persistent p \<and> map_of (im_jobs p) (JobUUID j) \<noteq> None
     then AList.update (JobUUID j) (im_keep (im_persistent p) j) (im_jobs p)
     else im_jobs p)"
  by (cases ev; simp add: im_NotifyJobEvent_def im_On_defs im_OnJobCreated_def im_OnJobDeleted_def im_keep_def)

lemma ran_update_subset: "ran (m(k \<mapsto> v)) \<subseteq> insert v (ran m)"
  by (auto simp: ran_def)

lemma ran_None_subset: "ran (m(k := None)) \<subseteq> ran m"
  by (auto simp: ran_def)

lemma im_wf_call: "im_wf b p \<Longrightarrow> im_wf b (im_call e p)"
proof -
  assume w: "im_wf b p"
  have up: "wf_map (AList.update u (im_keep b j) (im_jobs p))
      \<and> (\<forall>v \<in> ran (map_of (AList.update u (im_keep b j) (im_jobs p))). (v = None) = (\<not> b))" for u j
    using w ran_update_subset[of "map_of (im_jobs p)" u "im_keep b j"]
    by (auto simp: im_wf_def im_keep_def)
  have de: "wf_map (AList.delete u (im_jobs p))
      \<and> (\<forall>v \<in> ran (map_of (AList.delete u (im_jobs p))). (v = None) = (\<not> b))" for u
    using w ran_None_subset[of "map_of (im_jobs p)" u] by (auto simp: im_wf_def)
  have k: "(if im_persistent p then Some j else None) = im_keep b j" for j
    using w by (simp add: im_wf_def im_keep_def)
  have "wf_map (im_jobs (im_call e p)) \<and> im_persistent (im_call e p) = b
      \<and> (\<forall>v \<in> ran (map_of (im_jobs (im_call e p))). (v = None) = (\<not> b))"
  proof (cases e)
    case (NJob j ev)
    have "im_jobs (im_NotifyJobEvent j ev p) \<in>
        {im_jobs p, AList.update (JobUUID j) (im_keep b j) (im_jobs p), AList.delete (JobUUID j) (im_jobs p)}"
      using w by (simp add: im_NotifyJobEvent_jobs im_wf_def)
    then have "wf_map (im_jobs (im_NotifyJobEvent j ev p))
        \<and> (\<forall>v \<in> ran (map_of (im_jobs (im_NotifyJobEvent j ev p))). (v = None) = (\<not> b))"
      using up[of "JobUUID j" j] de[of "JobUUID j"] w unfolding im_wf_def by (elim insertE emptyE) simp_all
    then show ?thesis using NJob w by (simp add: im_wf_def)
  next
    case (NBackendJobUpdated j)
    then show ?thesis using up w k by (simp add: im_OnJobUpdated_def im_wf_def)
  qed (use w in \<open>simp_all add: im_wf_def im_NotifyEvent_def im_OnJobsDeleted_def
      im_OnAllResourcesUnlocked_def im_OnResourceUnlocked_def im_SetRestoreFlag_def\<close>)
  then show ?thesis by (simp add: im_wf_def)
qed

interpretation im: job_store "\<lambda>p. map_of (im_jobs p)" im_restore "im_keep b" im_call im_maxJobs "im_wf b" for b
proof unfold_locales
  fix p :: inmem and e j ev u and f :: bool
  show "im_wf b p \<Longrightarrow> im_wf b (im_call e p)" by (rule im_wf_call)
  show "im_maxJobs (im_call e p) = im_maxJobs p"
    by (cases e) (simp_all add: im_NotifyEvent_def im_OnJobsDeleted_def im_OnJobUpdated_def
      im_OnAllResourcesUnlocked_def im_OnResourceUnlocked_def im_SetRestoreFlag_def)
  show "im_wf b p \<Longrightarrow> finite (dom (map_of (im_jobs p)))" by (rule finite_dom_map_of)
  show "im_restore (im_call e p) = (case e of NRestoreFlag b \<Rightarrow> b | _ \<Rightarrow> im_restore p)"
    by (cases e) (simp_all add: im_NotifyEvent_def im_OnJobsDeleted_def im_OnJobUpdated_def
      im_OnAllResourcesUnlocked_def im_OnResourceUnlocked_def im_SetRestoreFlag_def)
  show "map_of (im_jobs (im_call (NJob j ServiceEventJobCreated) p)) =
      (map_of (im_jobs p))(JobUUID j \<mapsto> im_keep b j)"
    if "im_wf b p" "\<not> im_restore p" "card (dom (map_of (im_jobs p))) < im_maxJobs p"
    using that card_dom_length[of "im_jobs p"] by (simp add: im_NotifyJobEvent_jobs im_wf_def)
  show "map_of (im_jobs (im_call (NJob j ServiceEventJobDeleted) p)) = (map_of (im_jobs p))(JobUUID j := None)"
    if "im_wf b p" "\<not> im_restore p"
    using that by (simp add: im_NotifyJobEvent_jobs)
  show "map_of (im_jobs (im_call (NJob j ev) p)) =
      (if map_of (im_jobs p) (JobUUID j) = None then map_of (im_jobs p)
       else (map_of (im_jobs p))(JobUUID j \<mapsto> im_keep b j))"
    if w: "im_wf b p" "\<not> im_restore p" "ev \<notin> {ServiceEventJobCreated, ServiceEventJobDeleted}"
  proof (cases "im_persistent p \<or> map_of (im_jobs p) (JobUUID j) = None")
    case True
    then show ?thesis using w by (auto simp: im_NotifyJobEvent_jobs im_wf_def)
  next
    case False
    then obtain v where v: "map_of (im_jobs p) (JobUUID j) = Some v" by auto
    then have "v \<in> ran (map_of (im_jobs p))" by (auto simp: ran_def)
    then have "v = im_keep b j" using w(1) False by (auto simp: im_wf_def im_keep_def)
    then show ?thesis using w v False by (simp add: im_NotifyJobEvent_jobs map_upd_triv)
  qed
  show "map_of (im_jobs (im_call (NJob j ev) p)) = map_of (im_jobs p)"
    if "im_wf b p" "im_restore p" using that by (simp add: im_NotifyJobEvent_jobs)
  show "map_of (im_jobs (im_call (NEvent ServiceEventJobDeletedAll) p)) =
      (if im_restore p then map_of (im_jobs p) else (\<lambda>_. None))" if "im_wf b p"
    by (simp add: im_NotifyEvent_def im_OnJobsDeleted_def fun_eq_iff)
  show "map_of (im_jobs (im_call (NBackendJobUpdated j) p)) =
      (if map_of (im_jobs p) (JobUUID j) = None then map_of (im_jobs p)
       else (map_of (im_jobs p))(JobUUID j \<mapsto> im_keep b j))" if "im_wf b p"
    using that by (auto simp: im_OnJobUpdated_def im_wf_def im_keep_def simp del: map_of_eq_Some_iff)
  show "map_of (im_jobs (im_call e p)) = map_of (im_jobs p)" if "im_wf b p" "\<not> stored_change e"
    using that by (cases e) (simp_all add: im_NotifyEvent_def im_OnAllResourcesUnlocked_def
        im_OnResourceUnlocked_def)
  show "map_of (im_jobs (im_call (NRestoreFlag f) p)) = map_of (im_jobs p)" if "im_wf b p"
    by (simp add: im_SetRestoreFlag_def)
qed

section \<open>Files\<close>

lemma marshal_roundtrip:
  assumes "\<forall>(u, j) \<in> set m. synced j"
  shows "unmarshal_jobs (marshal_jobs m) = m"
proof -
  have "SetStateFromHistory (marshal_job j) = j" if "synced j" for j
    using that
    by (simp add: synced_def SetStateFromHistory_def marshal_job_def Let_def GetHistoryStates_def)
  then show ?thesis using assms
    by (auto simp: unmarshal_jobs_def marshal_jobs_def intro!: map_idI)
qed

text \<open>The calls before the rename do not touch the file.\<close>

lemma run_calls_file:
  "\<forall>(c, ok) \<in> set cs. c \<noteq> RenameTmp \<or> \<not> ok \<Longrightarrow> d_file (run_calls cs d) = d_file d"
proof (induction cs arbitrary: d)
  case Nil
  then show ?case by (simp add: run_calls_def)
next
  case (Cons x cs)
  obtain c ok where x: "x = (c, ok)" by fastforce
  have "d_file (exec_syscall c ok d) = d_file d" using Cons.prems x by (cases c) auto
  then show ?case using Cons x by (simp add: run_calls_def)
qed

lemma run_calls_append: "run_calls (a @ b) d = run_calls b (run_calls a d)"
  by (simp add: run_calls_def)

lemma writeFileAtomic_shape:
  "writeFileAtomic r c =
    (if o_open r \<and> o_write r \<and> o_sync r \<and> o_close r \<and> o_rename r
     then ([(OpenTmp, True), (WriteTmp c, True), (SyncTmp, True), (CloseTmp, True), (RenameTmp, True)], False)
     else (fst (writeFileAtomic r c), True))
   \<and> (\<not> (o_open r \<and> o_write r \<and> o_sync r \<and> o_close r \<and> o_rename r) \<longrightarrow>
      (\<forall>(k, ok) \<in> set (fst (writeFileAtomic r c)). k \<noteq> RenameTmp \<or> \<not> ok))"
  by (cases "o_open r"; cases "o_write r"; cases "o_sync r"; cases "o_close r"; cases "o_rename r")
    (simp_all add: writeFileAtomic_def)

lemma writeFileAtomic_crash:
  "d_file (run_calls (take n (fst (writeFileAtomic r c))) d) \<in> {d_file d, Complete c}"
proof (cases "o_open r \<and> o_write r \<and> o_sync r \<and> o_close r \<and> o_rename r")
  case False
  then have "\<forall>(k, ok) \<in> set (take n (fst (writeFileAtomic r c))). k \<noteq> RenameTmp \<or> \<not> ok"
    using writeFileAtomic_shape[of r c] by (auto dest: in_set_takeD)
  then show ?thesis using run_calls_file by auto
next
  case True
  let ?cs = "[(OpenTmp, True), (WriteTmp c, True), (SyncTmp, True), (CloseTmp, True), (RenameTmp, True)]"
  have w: "fst (writeFileAtomic r c) = ?cs" using True writeFileAtomic_shape[of r c] by simp
  show ?thesis
  proof (cases "n < 5")
    case True
    have "\<forall>(k, ok) \<in> set (take n ?cs). k \<noteq> RenameTmp \<or> \<not> ok"
      using True by (auto simp: take_Cons' split: if_splits)
    then show ?thesis using run_calls_file w by auto
  next
    case False
    then have "take n ?cs = ?cs" by simp
    then show ?thesis unfolding w by (simp add: run_calls_def)
  qed
qed

lemma writeFileAtomic_result:
  "snd (writeFileAtomic r c) \<longleftrightarrow> d_file (run_calls (fst (writeFileAtomic r c)) d) \<noteq> Complete c"
  if "d_file d \<noteq> Complete c"
proof (cases "o_open r \<and> o_write r \<and> o_sync r \<and> o_close r \<and> o_rename r")
  case True
  then show ?thesis using writeFileAtomic_shape[of r c] by (simp add: run_calls_def)
next
  case False
  then have "d_file (run_calls (fst (writeFileAtomic r c)) d) = d_file d" "snd (writeFileAtomic r c)"
    using run_calls_file writeFileAtomic_shape[of r c] by (blast, metis snd_conv)
  then show ?thesis using that by simp
qed

section \<open>No change is lost\<close>

definition saved_jobs :: "inmem \<Rightarrow> file_content" where
  "saved_jobs p = marshal_jobs (List.map_filter (\<lambda>(u, v). map_option (Pair u) v) (im_jobs p))"

definition saved_ok :: "inmem \<Rightarrow> bool" where
  "saved_ok p \<longleftrightarrow> im_savedGeneration p \<le> im_generation p
    \<and> (im_generation p = im_savedGeneration p \<longrightarrow> im_file p = Some (saved_jobs p))"

lemma saved_ok_sync: "saved_ok p \<Longrightarrow> im_persistent p \<Longrightarrow>
    saved_ok (snd (im_sync ok p)) \<and> (ok \<longrightarrow> im_file (snd (im_sync ok p)) = Some (saved_jobs p))
    \<and> im_jobs (snd (im_sync ok p)) = im_jobs p"
  by (auto simp: saved_ok_def im_sync_def saveLocked_def saved_jobs_def Let_def)

text \<open>The events that count a change; the service sends no other once the jobs are loaded.\<close>

definition counted :: "notif \<Rightarrow> bool" where
  "counted e \<longleftrightarrow> (\<forall>j ev. e = NJob j ev \<longrightarrow> ev \<in> {ServiceEventJobCreated, ServiceEventJobDelayed,
    ServiceEventJobPending, ServiceEventJobEnqueued, ServiceEventJobDeleted, ServiceEventJobStarted,
    ServiceEventJobSucceeded, ServiceEventJobCanceled, ServiceEventJobFailed, ServiceEventJobHidden,
    ServiceEventJobTerminated})"

lemma NotifyChange_generation:
  "im_generation p + 1 < 2 ^ 64 \<Longrightarrow> im_generation (NotifyChange ev p) = im_generation p + 1"
  by (simp add: NotifyChange_def)

lemma keepLocked_generation [simp]:
  "im_generation (keepLocked j p) = im_generation p" "im_file (keepLocked j p) = im_file p"
  "im_savedGeneration (keepLocked j p) = im_savedGeneration p"
  by (simp_all add: keepLocked_def)

lemma counted_call:
  assumes "counted e" "im_generation p + 1 < 2 ^ 64"
  shows "im_savedGeneration (im_call e p) = im_savedGeneration p \<and> im_file (im_call e p) = im_file p
    \<and> (im_generation (im_call e p) = im_generation p + 1
       \<or> im_generation (im_call e p) = im_generation p \<and> im_jobs (im_call e p) = im_jobs p)"
proof (cases e)
  case (NJob j ev)
  have "ev \<in> {ServiceEventJobCreated, ServiceEventJobDelayed,
    ServiceEventJobPending, ServiceEventJobEnqueued, ServiceEventJobDeleted, ServiceEventJobStarted,
    ServiceEventJobSucceeded, ServiceEventJobCanceled, ServiceEventJobFailed, ServiceEventJobHidden,
    ServiceEventJobTerminated}" using assms(1) NJob by (simp add: counted_def)
  then show ?thesis using assms(2) NJob
    by (elim insertE emptyE) (simp_all add: im_NotifyJobEvent_def im_OnJobCreated_def im_On_defs
        im_OnJobDeleted_def NotifyChange_generation Let_def)
qed (use assms in \<open>simp_all add: im_NotifyEvent_def im_OnJobsDeleted_def im_OnJobUpdated_def
      im_OnAllResourcesUnlocked_def im_OnResourceUnlocked_def im_SetRestoreFlag_def NotifyChange_generation\<close>)

lemma saved_ok_call:
  "saved_ok p \<Longrightarrow> counted e \<Longrightarrow> im_generation p + 1 < 2 ^ 64 \<Longrightarrow>
    saved_ok (im_call e p) \<and> im_generation (im_call e p) \<le> im_generation p + 1"
  using counted_call[of e p] by (auto simp: saved_ok_def saved_jobs_def)

lemma saved_ok_calls:
  "saved_ok p \<Longrightarrow> list_all counted es \<Longrightarrow> im_generation p + length es < 2 ^ 64 \<Longrightarrow>
    saved_ok (fold im_call es p)"
proof (induction es arbitrary: p)
  case (Cons e es)
  then show ?case using saved_ok_call[of p e] by simp
qed simp

lemma persistent_calls: "im_persistent (fold im_call es p) = im_persistent p"
proof (induction es arbitrary: p)
  case (Cons e es)
  have "im_persistent (im_call e p) = im_persistent p"
    by (cases e) (simp_all add: im_NotifyEvent_def im_OnJobsDeleted_def im_OnJobUpdated_def
      im_OnAllResourcesUnlocked_def im_OnResourceUnlocked_def im_SetRestoreFlag_def)
  then show ?case using Cons by simp
qed simp

end
