(* ===== verification/SaveLoop.thy ===== *)
theory SaveLoop
  imports InMemory
begin

text \<open>
  The save loop of the in-memory provider (\<^verbatim>\<open>Run\<close>, \<^verbatim>\<open>Stop\<close>, \<^verbatim>\<open>sync\<close> and \<^verbatim>\<open>saveLocked\<close> of
  \<^verbatim>\<open>src/jobbackendprovider/inmemoryprovider/inmemoryprovider.go\<close>) with its goroutines: the loop, any number of callers of
  \<^verbatim>\<open>Stop\<close>, and the notifications of the service, which arrive one at a time because the service sends them under its
  mutex. A save has three steps, the generation, the copy of the jobs, the file; a notification has two, the change
  of the jobs and the new generation. The lemmas show that the steps in a row are the functions of
  \<open>InMemory\<close>, that no interleaving loses a change, and that a stopped provider has saved every change.
\<close>

section \<open>One save\<close>

text \<open>\<open>SaveGen\<close> and \<open>SaveCopied\<close> hold the mutex.\<close>

datatype save_pc = SaveLock | SaveGen nat | SaveCopied nat file_content

text \<open>
  The next step of a save: \<open>always\<close> is false for \<^verbatim>\<open>sync\<close>, which skips a save when nothing changed; \<open>mu\<close> is
  whether the mutex is held, \<open>ok\<close> whether the file is written. The result is the next place or whether the save failed;
  \<open>None\<close> while the mutex is taken.
\<close>

fun save_next :: "bool \<Rightarrow> bool \<Rightarrow> bool \<times> inmem \<Rightarrow> save_pc \<Rightarrow> ((bool \<times> inmem) \<times> (save_pc + bool)) option" where
  "save_next always ok (mu, p) SaveLock =
    (if \<not> im_persistent p then Some ((mu, p), Inr False)
     else if mu then None
     else if \<not> always \<and> im_generation p = im_savedGeneration p then Some ((mu, p), Inr False)
     else Some ((True, p), Inl (SaveGen (im_generation p))))"
| "save_next always ok (mu, p) (SaveGen g) = Some ((mu, p), Inl (SaveCopied g (saved_jobs p)))"
| "save_next always ok (mu, p) (SaveCopied g c) =
    (if ok then Some ((False, p\<lparr>im_file := Some c, im_savedGeneration := g\<rparr>), Inr False) else Some ((False, p), Inr True))"

text \<open>Without interleaving a save is the function \<open>SaveToFile\<close> or \<open>im_sync\<close>.\<close>

fun save_run :: "nat \<Rightarrow> bool \<Rightarrow> bool \<Rightarrow> bool \<times> inmem \<Rightarrow> save_pc \<Rightarrow> (bool \<times> (bool \<times> inmem)) option" where
  "save_run 0 always ok st pc = None"
| "save_run (Suc n) always ok st pc = (case save_next always ok st pc of
      None \<Rightarrow> None
    | Some (st, Inr err) \<Rightarrow> Some (err, st)
    | Some (st, Inl pc) \<Rightarrow> save_run n always ok st pc)"

lemma save_run_SaveToFile:
  "save_run 3 True ok (False, p) SaveLock = Some (fst (SaveToFile ok p), (False, snd (SaveToFile ok p)))"
  by (simp add: numeral_3_eq_3 SaveToFile_def saveLocked_def saved_jobs_def Let_def)

lemma save_run_sync:
  "save_run 3 False ok (False, p) SaveLock = Some (fst (im_sync ok p), (False, snd (im_sync ok p)))"
  by (simp add: numeral_3_eq_3 im_sync_def saveLocked_def saved_jobs_def Let_def)

section \<open>The goroutines\<close>

text \<open>The flag of \<open>Finished\<close>, \<open>LoopReturned\<close> and \<open>StopReturned\<close> is whether the last save failed.\<close>

datatype loop_pc = LoopIdle | LoopRefused | LoopRunning | Ticking save_pc | Final save_pc | Finished bool | LoopReturned bool

datatype stop_pc = StopBefore | StopMarked bool | StopWaiting | StopSaving save_pc | StopReturned bool

record saver =
  sl_lc :: lifecycle
  sl_mu :: bool
  sl_p :: inmem
  sl_loop :: loop_pc
  sl_stop :: "nat \<Rightarrow> stop_pc"
  sl_pending :: "backend_event option"

definition saver_init :: "inmem \<Rightarrow> saver" where
  "saver_init p = \<lparr>sl_lc = New, sl_mu = False, sl_p = p, sl_loop = LoopIdle, sl_stop = (\<lambda>_. StopBefore), sl_pending = None\<rparr>"

text \<open>A notification changes the stored jobs, then counts the change.\<close>

definition store_jobs :: "notif \<Rightarrow> inmem \<Rightarrow> inmem" where
  "store_jobs e p = p\<lparr>im_jobs := im_jobs (im_call e p)\<rparr>"

inductive notify_step :: "saver \<Rightarrow> saver \<Rightarrow> bool" where
  store: "sl_pending s = None \<Longrightarrow> notify_step s (s\<lparr>sl_p := store_jobs e (sl_p s), sl_pending := Some ev\<rparr>)"
| count: "sl_pending s = Some ev \<Longrightarrow> notify_step s (s\<lparr>sl_p := NotifyChange ev (sl_p s), sl_pending := None\<rparr>)"

definition after_save :: "(save_pc \<Rightarrow> 'a) \<Rightarrow> (bool \<Rightarrow> 'a) \<Rightarrow> save_pc + bool \<Rightarrow> 'a" where
  "after_save going ended r = (case r of Inl pc \<Rightarrow> going pc | Inr err \<Rightarrow> ended err)"

text \<open>The loop and the callers of \<^verbatim>\<open>Stop\<close>; the error of a save on a tick is ignored.\<close>

inductive save_step :: "saver \<Rightarrow> saver \<Rightarrow> bool" where
  loop_begins: "sl_loop s = LoopIdle \<Longrightarrow> Begin (sl_lc s) = (True, l) \<Longrightarrow>
    save_step s (s\<lparr>sl_lc := l, sl_loop := LoopRunning\<rparr>)"
| loop_refused: "sl_loop s = LoopIdle \<Longrightarrow> Begin (sl_lc s) = (False, l) \<Longrightarrow>
    save_step s (s\<lparr>sl_lc := l, sl_loop := LoopRefused\<rparr>)"
| tick: "sl_loop s = LoopRunning \<Longrightarrow> save_step s (s\<lparr>sl_loop := Ticking SaveLock\<rparr>)"
| ticking: "sl_loop s = Ticking pc \<Longrightarrow> save_next False ok (sl_mu s, sl_p s) pc = Some ((mu, p), r) \<Longrightarrow>
    save_step s (s\<lparr>sl_mu := mu, sl_p := p, sl_loop := after_save Ticking (\<lambda>_. LoopRunning) r\<rparr>)"
| stopping: "sl_loop s = LoopRunning \<Longrightarrow> Stopping (sl_lc s) \<Longrightarrow> save_step s (s\<lparr>sl_loop := Final SaveLock\<rparr>)"
| final: "sl_loop s = Final pc \<Longrightarrow> save_next True ok (sl_mu s, sl_p s) pc = Some ((mu, p), r) \<Longrightarrow>
    save_step s (s\<lparr>sl_mu := mu, sl_p := p, sl_loop := after_save Final Finished r\<rparr>)"
| loop_ends: "sl_loop s = Finished err \<Longrightarrow> End (sl_lc s) = Some l \<Longrightarrow>
    save_step s (s\<lparr>sl_lc := l, sl_loop := LoopReturned err\<rparr>)"
| stop_marks: "sl_stop s k = StopBefore \<Longrightarrow> Stop_mark (sl_lc s) = (b, l) \<Longrightarrow>
    save_step s (s\<lparr>sl_lc := l, sl_stop := (sl_stop s)(k := StopMarked b)\<rparr>)"
| stop_closes: "sl_stop s k = StopMarked b \<Longrightarrow>
    save_step s (s\<lparr>sl_lc := Stop_close (sl_lc s), sl_stop := (sl_stop s)(k := if b then StopWaiting else StopSaving SaveLock)\<rparr>)"
| stop_waited: "sl_stop s k = StopWaiting \<Longrightarrow> lc_done (sl_lc s) \<Longrightarrow>
    save_step s (s\<lparr>sl_stop := (sl_stop s)(k := StopReturned False)\<rparr>)"
| stop_saves: "sl_stop s k = StopSaving pc \<Longrightarrow> save_next True ok (sl_mu s, sl_p s) pc = Some ((mu, p), r) \<Longrightarrow>
    save_step s (s\<lparr>sl_mu := mu, sl_p := p, sl_stop := (sl_stop s)(k := after_save StopSaving StopReturned r)\<rparr>)"

text \<open>The two steps of a notification in a row are \<open>im_call\<close>, for the changes the service sends.\<close>

lemma notify_is_call:
  assumes "counted (NJob j ev)" and "\<not> im_restore p" and "\<not> (ev = ServiceEventJobCreated \<and> length (im_jobs p) = im_maxJobs p)"
  shows "\<exists>b. im_call (NJob j ev) p = NotifyChange b (store_jobs (NJob j ev) p)"
proof -
  have "ev \<in> {ServiceEventJobCreated, ServiceEventJobDelayed,
    ServiceEventJobPending, ServiceEventJobEnqueued, ServiceEventJobDeleted, ServiceEventJobStarted,
    ServiceEventJobSucceeded, ServiceEventJobCanceled, ServiceEventJobFailed, ServiceEventJobHidden,
    ServiceEventJobTerminated}" using assms(1) by (simp add: counted_def)
  then show ?thesis using assms(2,3)
    by (elim insertE emptyE) (auto simp: im_NotifyJobEvent_def im_OnJobCreated_def im_On_defs store_jobs_def
        im_OnJobDeleted_def NotifyChange_def keepLocked_def Let_def)
qed

section \<open>No interleaving loses a change\<close>

lemma save_next_same:
  assumes "save_next always ok (mu, p) pc = Some ((mu', p'), r)"
  shows "im_jobs p' = im_jobs p \<and> im_generation p' = im_generation p \<and> im_persistent p' = im_persistent p
    \<and> saved_jobs p' = saved_jobs p"
  using assms by (cases pc) (auto simp: saved_jobs_def split: if_splits)

lemma save_next_result:
  assumes "save_next True ok (mu, p) pc = Some ((mu', p'), r)" and "im_persistent p"
  shows "r = Inl (SaveCopied g c) \<Longrightarrow> c = saved_jobs p"
    and "im_file p' = im_file p \<or> (\<exists>g c. pc = SaveCopied g c \<and> im_file p' = Some c)"
    and "r = Inr False \<Longrightarrow> \<exists>g c. pc = SaveCopied g c \<and> im_file p' = Some c"
  using assms by (cases pc; auto split: if_splits)+

text \<open>
  What a save in flight knows: unless the generation has moved on or a notification is pending, its copy is that of
  the current jobs.
\<close>

definition knows :: "saver \<Rightarrow> save_pc \<Rightarrow> bool" where
  "knows s pc \<longleftrightarrow> (case pc of
      SaveLock \<Rightarrow> True
    | SaveGen g \<Rightarrow> g \<le> im_generation (sl_p s)
    | SaveCopied g c \<Rightarrow> g \<le> im_generation (sl_p s)
        \<and> (g = im_generation (sl_p s) \<longrightarrow> sl_pending s = None \<longrightarrow> c = saved_jobs (sl_p s)))"

definition up_to_date :: "saver \<Rightarrow> bool" where
  "up_to_date s \<longleftrightarrow> im_savedGeneration (sl_p s) \<le> im_generation (sl_p s)
    \<and> (im_generation (sl_p s) = im_savedGeneration (sl_p s) \<longrightarrow> sl_pending s = None \<longrightarrow>
        im_file (sl_p s) = Some (saved_jobs (sl_p s)))"

definition gen_inv :: "saver \<Rightarrow> bool" where
  "gen_inv s \<longleftrightarrow> up_to_date s \<and> (\<forall>pc. sl_loop s = Ticking pc \<or> sl_loop s = Final pc \<longrightarrow> knows s pc)
    \<and> (\<forall>k pc. sl_stop s k = StopSaving pc \<longrightarrow> knows s pc)"

lemma knows_notify:
  "notify_step s t \<Longrightarrow> im_generation (sl_p s) + 1 < 2 ^ 64 \<Longrightarrow> knows s pc \<Longrightarrow> knows t pc"
  by (induction rule: notify_step.induct)
    (auto simp: knows_def store_jobs_def NotifyChange_def split: save_pc.splits)

lemma up_to_date_notify:
  "notify_step s t \<Longrightarrow> im_generation (sl_p s) + 1 < 2 ^ 64 \<Longrightarrow> up_to_date s \<Longrightarrow> up_to_date t"
  by (induction rule: notify_step.induct) (auto simp: up_to_date_def store_jobs_def NotifyChange_def)

lemma notify_same: "notify_step s t \<Longrightarrow> sl_lc t = sl_lc s \<and> sl_loop t = sl_loop s \<and> sl_stop t = sl_stop s"
  by (auto elim: notify_step.cases)

lemma gen_inv_notify:
  assumes "notify_step s t" and "im_generation (sl_p s) + 1 < 2 ^ 64" and "gen_inv s"
  shows "gen_inv t"
proof -
  have "sl_loop t = sl_loop s" "sl_stop t = sl_stop s" using notify_same[OF assms(1)] by simp_all
  then show ?thesis using assms knows_notify[OF assms(1,2)] up_to_date_notify[OF assms(1,2)]
    by (simp add: gen_inv_def)
qed

text \<open>A step of a save keeps what the others know, and the provider up to date.\<close>

lemma save_next_knows:
  assumes "save_next always ok (sl_mu s, sl_p s) pc = Some ((mu, p), r)" and "knows s pc" and "up_to_date s"
    and "sl_p t = p" and "sl_pending t = sl_pending s"
  shows "up_to_date t \<and> (\<forall>pc'. knows s pc' \<longrightarrow> knows t pc') \<and> (\<forall>pc'. r = Inl pc' \<longrightarrow> knows t pc')"
proof -
  have same: "im_generation p = im_generation (sl_p s)" "saved_jobs p = saved_jobs (sl_p s)"
    using save_next_same[OF assms(1)] by simp_all
  have "\<forall>pc'. knows s pc' \<longrightarrow> knows t pc'" using same assms(4,5) by (auto simp: knows_def split: save_pc.splits)
  moreover have "up_to_date t \<and> (\<forall>pc'. r = Inl pc' \<longrightarrow> knows t pc')"
  proof (cases pc)
    case SaveLock
    then have "p = sl_p s" and r: "\<forall>pc'. r = Inl pc' \<longrightarrow> pc' = SaveGen (im_generation (sl_p s))"
      using assms(1) by (auto split: if_splits)
    then show ?thesis using assms(3-5) by (auto simp: up_to_date_def knows_def)
  next
    case (SaveGen g)
    then have "p = sl_p s" and "\<forall>pc'. r = Inl pc' \<longrightarrow> pc' = SaveCopied g (saved_jobs (sl_p s))"
      using assms(1) by auto
    then show ?thesis using assms(2-5) SaveGen by (auto simp: up_to_date_def knows_def)
  next
    case (SaveCopied g c)
    then consider "p = sl_p s" "r = Inr True" | "p = (sl_p s)\<lparr>im_file := Some c, im_savedGeneration := g\<rparr>" "r = Inr False"
      using assms(1) by (auto split: if_splits)
    then show ?thesis
    proof cases
      case 1
      then show ?thesis using assms(3-5) by (simp add: up_to_date_def)
    next
      case 2
      then show ?thesis using assms(2,4,5) SaveCopied by (simp add: up_to_date_def knows_def saved_jobs_def)
    qed
  qed
  ultimately show ?thesis by blast
qed

lemma knows_lock [simp]: "knows s SaveLock"
  by (simp add: knows_def)

lemma knows_same: "sl_p t = sl_p s \<Longrightarrow> sl_pending t = sl_pending s \<Longrightarrow> knows t pc = knows s pc"
  by (simp add: knows_def split: save_pc.splits)

lemma saver_upd [simp]:
  "knows (s\<lparr>sl_lc := l\<rparr>) pc = knows s pc" "knows (s\<lparr>sl_loop := x\<rparr>) pc = knows s pc" "knows (s\<lparr>sl_stop := f\<rparr>) pc = knows s pc"
  "up_to_date (s\<lparr>sl_lc := l\<rparr>) = up_to_date s" "up_to_date (s\<lparr>sl_loop := x\<rparr>) = up_to_date s"
  "up_to_date (s\<lparr>sl_stop := f\<rparr>) = up_to_date s"
  by (simp_all add: knows_def up_to_date_def split: save_pc.split)

lemma gen_inv_save:
  assumes "save_step s t" and "gen_inv s"
  shows "gen_inv t"
  using assms
proof (induction rule: save_step.induct)
  case (ticking s pc ok mu p r)
  let ?t = "s\<lparr>sl_mu := mu, sl_p := p, sl_loop := after_save Ticking (\<lambda>_. LoopRunning) r\<rparr>"
  have "up_to_date ?t \<and> (\<forall>pc'. knows s pc' \<longrightarrow> knows ?t pc') \<and> (\<forall>pc'. r = Inl pc' \<longrightarrow> knows ?t pc')"
    by (rule save_next_knows[OF ticking(2)]) (use ticking(1,3) in \<open>simp_all add: gen_inv_def\<close>)
  then show ?case using ticking(1,3) by (auto simp: gen_inv_def after_save_def split: sum.splits)
next
  case (final s pc ok mu p r)
  let ?t = "s\<lparr>sl_mu := mu, sl_p := p, sl_loop := after_save Final Finished r\<rparr>"
  have "up_to_date ?t \<and> (\<forall>pc'. knows s pc' \<longrightarrow> knows ?t pc') \<and> (\<forall>pc'. r = Inl pc' \<longrightarrow> knows ?t pc')"
    by (rule save_next_knows[OF final(2)]) (use final(1,3) in \<open>simp_all add: gen_inv_def\<close>)
  then show ?case using final(1,3) by (auto simp: gen_inv_def after_save_def split: sum.splits)
next
  case (stop_saves s k pc ok mu p r)
  let ?t = "s\<lparr>sl_mu := mu, sl_p := p, sl_stop := (sl_stop s)(k := after_save StopSaving StopReturned r)\<rparr>"
  have "up_to_date ?t \<and> (\<forall>pc'. knows s pc' \<longrightarrow> knows ?t pc') \<and> (\<forall>pc'. r = Inl pc' \<longrightarrow> knows ?t pc')"
    by (rule save_next_knows[OF stop_saves(2)]) (use stop_saves(1,3) in \<open>simp_all add: gen_inv_def\<close>)
  then show ?case using stop_saves(1,3) by (auto simp: gen_inv_def after_save_def split: sum.splits)
qed (auto simp: gen_inv_def)

text \<open>
  The whole system, as long as the generation does not wrap: when no save and no notification is in
  flight and the generations agree, so that \<^verbatim>\<open>sync\<close> would skip the save, the file has the current jobs.
\<close>

definition saver_step :: "saver \<Rightarrow> saver \<Rightarrow> bool" where
  "saver_step s t \<longleftrightarrow> save_step s t \<or> notify_step s t \<and> im_generation (sl_p s) + 1 < 2 ^ 64"

lemma gen_inv_reachable:
  assumes "saver_step\<^sup>*\<^sup>* (saver_init p) s" and "saved_ok p"
  shows "gen_inv s"
  using assms(1)
proof (induction rule: rtranclp_induct)
  case base
  then show ?case using assms(2) by (simp add: gen_inv_def up_to_date_def saver_init_def saved_ok_def)
next
  case (step s t)
  then show ?case using gen_inv_save gen_inv_notify by (auto simp: saver_step_def)
qed

lemma skipped_save_loses_nothing:
  assumes "saver_step\<^sup>*\<^sup>* (saver_init p) s" and "saved_ok p"
    and "sl_pending s = None" and "im_generation (sl_p s) = im_savedGeneration (sl_p s)"
  shows "im_file (sl_p s) = Some (saved_jobs (sl_p s))"
  using gen_inv_reachable[OF assms(1,2)] assms(3,4) by (simp add: gen_inv_def up_to_date_def)

section \<open>A stopped provider has saved every change\<close>

text \<open>How the places of the goroutines and the state of the lifecycle go together.\<close>

fun loop_ok :: "lifecycle \<Rightarrow> loop_pc \<Rightarrow> bool" where
  "loop_ok l LoopIdle = (\<not> lc_started l \<and> \<not> lc_done l)"
| "loop_ok l LoopRefused = (\<not> lc_started l \<and> \<not> lc_done l)"
| "loop_ok l LoopRunning = (lc_started l \<and> \<not> lc_done l)"
| "loop_ok l (Ticking _) = (lc_started l \<and> \<not> lc_done l)"
| "loop_ok l (Final _) = (lc_started l \<and> \<not> lc_done l \<and> lc_stop l)"
| "loop_ok l (Finished _) = (lc_started l \<and> \<not> lc_done l \<and> lc_stop l)"
| "loop_ok l (LoopReturned _) = (lc_started l \<and> lc_done l \<and> lc_stop l)"

fun stop_ok :: "lifecycle \<Rightarrow> stop_pc \<Rightarrow> bool" where
  "stop_ok l StopBefore = True"
| "stop_ok l (StopMarked b) = (lc_stopped l \<and> b = lc_started l)"
| "stop_ok l StopWaiting = (lc_stopped l \<and> lc_started l)"
| "stop_ok l (StopSaving _) = (lc_stopped l \<and> \<not> lc_started l)"
| "stop_ok l (StopReturned _) = (lc_stopped l \<and> (lc_started l \<longrightarrow> lc_done l))"

definition places :: "saver \<Rightarrow> bool" where
  "places s \<longleftrightarrow> (lc_stop (sl_lc s) \<longrightarrow> lc_stopped (sl_lc s)) \<and> loop_ok (sl_lc s) (sl_loop s)
    \<and> (\<forall>k. stop_ok (sl_lc s) (sl_stop s k))"

lemma stop_ok_begin: "stop_ok l pc \<Longrightarrow> \<not> lc_stopped l \<Longrightarrow> pc = StopBefore"
  by (cases pc) auto

lemma stop_ok_mono:
  "stop_ok l pc \<Longrightarrow> stop_ok (l\<lparr>lc_done := True\<rparr>) pc" "stop_ok l pc \<Longrightarrow> stop_ok (l\<lparr>lc_stopped := True\<rparr>) pc"
  "stop_ok (l\<lparr>lc_stop := b\<rparr>) pc = stop_ok l pc"
  by (cases pc; simp)+

lemma loop_ok_mono:
  "loop_ok (l\<lparr>lc_stopped := b\<rparr>) pc = loop_ok l pc" "loop_ok l pc \<Longrightarrow> loop_ok (l\<lparr>lc_stop := True\<rparr>) pc"
  by (cases pc; simp)+

lemma places_init: "places (saver_init p)"
  by (simp add: places_def saver_init_def New_def)

lemma places_notify: "notify_step s t \<Longrightarrow> places s \<Longrightarrow> places t"
  using notify_same[of s t] by (simp add: places_def)

lemma places_save: "save_step s t \<Longrightarrow> places s \<Longrightarrow> places t"
proof (induction rule: save_step.induct)
  case (loop_begins s l)
  then have n: "\<not> lc_stopped (sl_lc s)" and l: "l = (sl_lc s)\<lparr>lc_started := True\<rparr>"
    by (auto simp: Begin_def split: if_splits)
  have "sl_stop s k = StopBefore" for k using loop_begins(3) n by (auto simp: places_def intro: stop_ok_begin)
  then show ?case using loop_begins(1,3) l by (simp add: places_def)
next
  case (loop_refused s l)
  then have "l = sl_lc s" by (auto simp: Begin_def split: if_splits)
  then show ?case using loop_refused(1,3) by (simp add: places_def)
next
  case (ticking s pc ok mu p r)
  then show ?case by (cases r) (simp_all add: places_def after_save_def)
next
  case (final s pc ok mu p r)
  then show ?case by (cases r) (simp_all add: places_def after_save_def)
next
  case (loop_ends s err l)
  then have "l = (sl_lc s)\<lparr>lc_done := True\<rparr>" by (auto simp: End_def split: if_splits)
  then show ?case using loop_ends(1,3) by (simp add: places_def stop_ok_mono)
next
  case (stop_marks s k b l)
  then show ?case by (auto simp: places_def Stop_mark_def stop_ok_mono loop_ok_mono)
next
  case (stop_closes s k b)
  then have "stop_ok (sl_lc s) (StopMarked b)" by (metis places_def)
  then show ?case using stop_closes by (simp add: places_def Stop_close_def stop_ok_mono loop_ok_mono)
next
  case (stop_waited s k)
  then have "stop_ok (sl_lc s) StopWaiting" by (metis places_def)
  then show ?case using stop_waited by (simp add: places_def)
next
  case (stop_saves s k pc ok mu p r)
  then have "stop_ok (sl_lc s) (StopSaving pc)" by (metis places_def)
  then show ?case using stop_saves by (cases r) (simp_all add: places_def after_save_def)
qed (simp_all add: places_def Stopping_def)

lemma places_reachable: "saver_step\<^sup>*\<^sup>* (saver_init p) s \<Longrightarrow> places s"
  by (induction rule: rtranclp_induct) (auto simp: saver_step_def places_init intro: places_notify places_save)

text \<open>
  After the last notification, with the jobs \<open>J\<close>: what a save that must happen copies, and what it left in the file.
\<close>

fun final_ok :: "file_content \<Rightarrow> file_content option \<Rightarrow> loop_pc \<Rightarrow> bool" where
  "final_ok J f (Final (SaveCopied g c)) = (c = J)"
| "final_ok J f (Finished err) = (err \<or> f = Some J)"
| "final_ok J f (LoopReturned err) = (err \<or> f = Some J)"
| "final_ok J f _ = True"

fun stopper_ok :: "file_content \<Rightarrow> file_content option \<Rightarrow> bool \<Rightarrow> stop_pc \<Rightarrow> bool" where
  "stopper_ok J f started (StopSaving (SaveCopied g c)) = (c = J)"
| "stopper_ok J f started (StopReturned err) = (started \<or> err \<or> f = Some J)"
| "stopper_ok J f started _ = True"

definition settled :: "file_content \<Rightarrow> saver \<Rightarrow> bool" where
  "settled J s \<longleftrightarrow> im_persistent (sl_p s) \<and> saved_jobs (sl_p s) = J \<and> final_ok J (im_file (sl_p s)) (sl_loop s)
    \<and> (\<forall>k. stopper_ok J (im_file (sl_p s)) (lc_started (sl_lc s)) (sl_stop s k))"

lemma final_ok_file: "final_ok J f pc \<Longrightarrow> f' = f \<or> f' = Some J \<Longrightarrow> final_ok J f' pc"
  by (cases "(J, f, pc)" rule: final_ok.cases) auto

lemma stopper_ok_file: "stopper_ok J f b pc \<Longrightarrow> f' = f \<or> f' = Some J \<Longrightarrow> stopper_ok J f' b pc"
  by (cases "(J, f, b, pc)" rule: stopper_ok.cases) auto

lemma stopper_ok_started: "stopper_ok J f b pc \<Longrightarrow> stopper_ok J f' True pc"
  by (cases "(J, f, b, pc)" rule: stopper_ok.cases) auto

text \<open>A save that must happen leaves the jobs in the file, unless it fails.\<close>

lemma must_save:
  assumes "save_next True ok (mu, p) pc = Some ((mu', p'), r)" and "im_persistent p" and "saved_jobs p = J"
    and "\<And>g c. pc = SaveCopied g c \<Longrightarrow> c = J"
  shows "im_persistent p' \<and> saved_jobs p' = J \<and> (im_file p' = im_file p \<or> im_file p' = Some J)"
    and "r = Inl (SaveCopied g c) \<Longrightarrow> c = J" and "r = Inr err \<Longrightarrow> err \<or> im_file p' = Some J"
proof -
  note same = save_next_same[OF assms(1)] and res = save_next_result[OF assms(1,2)]
  have written: "im_file p' = im_file p \<or> im_file p' = Some J" using res(2) assms(4) by blast
  then show "im_persistent p' \<and> saved_jobs p' = J \<and> (im_file p' = im_file p \<or> im_file p' = Some J)"
    using same assms(2,3) by simp
  show "r = Inl (SaveCopied g c) \<Longrightarrow> c = J" using res(1) assms(3) by simp
  show "r = Inr err \<Longrightarrow> err \<or> im_file p' = Some J" using res(3) assms(4) by (cases err) auto
qed

lemma settled_step:
  assumes "save_step s t" and "places s" and "settled J s"
  shows "settled J t"
  using assms
proof (induction rule: save_step.induct)
  case (loop_begins s l)
  then have "l = (sl_lc s)\<lparr>lc_started := True\<rparr>" by (auto simp: Begin_def split: if_splits)
  then show ?case using loop_begins by (auto simp: settled_def intro: stopper_ok_started)
next
  case (loop_refused s l)
  then have "l = sl_lc s" by (auto simp: Begin_def split: if_splits)
  then show ?case using loop_refused by (simp add: settled_def)
next
  case (ticking s pc ok mu p r)
  have st: "lc_started (sl_lc s)" using ticking(1,3) by (simp add: places_def)
  have same: "im_persistent p \<and> saved_jobs p = J"
    using save_next_same[OF ticking(2)] ticking(4) by (simp add: settled_def)
  have stops: "stopper_ok J (im_file p) True (sl_stop s k)" for k
    using ticking(4) stopper_ok_started[of J "im_file (sl_p s)" "lc_started (sl_lc s)" "sl_stop s k"]
    by (auto simp: settled_def)
  show ?case using same stops st by (cases r) (simp_all add: settled_def after_save_def)
next
  case (final s pc ok mu p r)
  have pre: "im_persistent (sl_p s)" "saved_jobs (sl_p s) = J" "\<And>g c. pc = SaveCopied g c \<Longrightarrow> c = J"
    using final(1,4) by (auto simp: settled_def)
  note m = must_save[OF final(2) pre]
  have "final_ok J (im_file p) (after_save Final Finished r)"
  proof (cases r)
    case (Inl q)
    then show ?thesis using m(2) by (cases q) (auto simp: after_save_def)
  qed (use m(3) in \<open>auto simp: after_save_def\<close>)
  then show ?case using m(1) final(4) by (auto simp: settled_def intro: stopper_ok_file)
next
  case (loop_ends s err l)
  then have "l = (sl_lc s)\<lparr>lc_done := True\<rparr>" by (auto simp: End_def split: if_splits)
  then show ?case using loop_ends by (simp add: settled_def)
next
  case (stop_marks s k b l)
  then show ?case by (auto simp: settled_def Stop_mark_def)
next
  case (stop_closes s k b)
  then show ?case by (auto simp: settled_def Stop_close_def)
next
  case (stop_waited s k)
  have "stop_ok (sl_lc s) StopWaiting" using stop_waited(1,3) by (metis places_def)
  then show ?case using stop_waited by (auto simp: settled_def)
next
  case (stop_saves s k pc ok mu p r)
  have pre: "im_persistent (sl_p s)" "saved_jobs (sl_p s) = J" "\<And>g c. pc = SaveCopied g c \<Longrightarrow> c = J"
    using stop_saves(1,4) by (auto simp: settled_def dest: spec[of _ k])
  note m = must_save[OF stop_saves(2) pre]
  have "stopper_ok J (im_file p) (lc_started (sl_lc s)) (after_save StopSaving StopReturned r)"
  proof (cases r)
    case (Inl q)
    then show ?thesis using m(2) by (cases q) (auto simp: after_save_def)
  qed (use m(3) in \<open>auto simp: after_save_def\<close>)
  then show ?case using m(1) stop_saves(4) by (auto simp: settled_def intro: stopper_ok_file final_ok_file)
qed (simp_all add: settled_def)

lemma save_step_jobs:
  "save_step s t \<Longrightarrow> saved_jobs (sl_p t) = saved_jobs (sl_p s) \<and> im_persistent (sl_p t) = im_persistent (sl_p s)"
  by (induction rule: save_step.induct) (auto dest: save_next_same)

lemma save_steps_jobs: "save_step\<^sup>*\<^sup>* s t \<Longrightarrow> saved_jobs (sl_p t) = saved_jobs (sl_p s)"
  by (induction rule: rtranclp_induct) (auto dest: save_step_jobs)

lemma persistent_reachable: "saver_step\<^sup>*\<^sup>* (saver_init p) s \<Longrightarrow> im_persistent (sl_p s) = im_persistent p"
proof (induction rule: rtranclp_induct)
  case (step s t)
  have "im_persistent (sl_p t) = im_persistent (sl_p s)" if "notify_step s t"
    using that by (auto elim!: notify_step.cases simp: store_jobs_def)
  then show ?case using step save_step_jobs by (auto simp: saver_step_def)
qed (simp add: saver_init_def)

text \<open>Before the first call of \<^verbatim>\<open>Stop\<close> nobody is in a save that must happen.\<close>

lemma settled_before_stop:
  assumes "places s" and "\<not> lc_stopped (sl_lc s)" and "im_persistent (sl_p s)"
  shows "settled (saved_jobs (sl_p s)) s"
proof -
  have "sl_stop s k = StopBefore" for k using assms(1,2) by (auto simp: places_def intro: stop_ok_begin)
  moreover have "final_ok J f (sl_loop s)" for J f using assms(1,2) by (cases "sl_loop s") (auto simp: places_def)
  ultimately show ?thesis using assms(3) by (simp add: settled_def)
qed

lemma settled_steps:
  assumes "save_step\<^sup>*\<^sup>* s t" and "places s" and "settled J s"
  shows "places t \<and> settled J t"
  using assms(1) by (induction rule: rtranclp_induct) (use assms in \<open>auto intro: places_save settled_step\<close>)

text \<open>
  When a call of \<^verbatim>\<open>Stop\<close> has returned without error and the loop, if it ran, reported none, the file holds the
  jobs as the last notification left them.
\<close>

lemma stop_saves_the_jobs:
  assumes "saver_step\<^sup>*\<^sup>* (saver_init p) s" and "\<not> lc_stopped (sl_lc s)" and "im_persistent (sl_p s)"
    and "save_step\<^sup>*\<^sup>* s t" and "sl_stop t k = StopReturned False" and "sl_loop t \<noteq> LoopReturned True"
  shows "im_file (sl_p t) = Some (saved_jobs (sl_p s))"
proof -
  have pl: "places t" and st: "settled (saved_jobs (sl_p s)) t"
    using settled_steps[OF assms(4) places_reachable[OF assms(1)]]
      settled_before_stop[OF places_reachable[OF assms(1)] assms(2,3)] by blast+
  have stop: "stop_ok (sl_lc t) (StopReturned False)"
    "stopper_ok (saved_jobs (sl_p s)) (im_file (sl_p t)) (lc_started (sl_lc t)) (StopReturned False)"
    using pl st assms(5) by (metis places_def, metis settled_def)
  show ?thesis
  proof (cases "lc_started (sl_lc t)")
    case True
    then have "lc_done (sl_lc t)" using stop(1) by simp
    then obtain err where "sl_loop t = LoopReturned err" using pl by (cases "sl_loop t") (auto simp: places_def)
    then show ?thesis using st assms(6) by (simp add: settled_def)
  qed (use stop in simp)
qed

end
