(* ===== verification/SampleSave.thy ===== *)
theory SampleSave
  imports SaveLoop
begin

text \<open>
  A run of the save loop of the in-memory provider: the loop begins, a job is started, \<^verbatim>\<open>Stop\<close> is
  called, the loop saves and ends, and \<^verbatim>\<open>Stop\<close> returns.
\<close>

definition before_stop :: "inmem \<Rightarrow> notif \<Rightarrow> backend_event \<Rightarrow> saver" where
  "before_stop p e ev = (saver_init p)\<lparr>sl_lc := New\<lparr>lc_started := True\<rparr>, sl_loop := LoopRunning,
    sl_p := NotifyChange ev (store_jobs e p)\<rparr>"

definition after_stop :: "saver \<Rightarrow> saver" where
  "after_stop s = s\<lparr>sl_lc := (sl_lc s)\<lparr>lc_stopped := True, lc_stop := True, lc_done := True\<rparr>,
    sl_p := (sl_p s)\<lparr>im_file := Some (saved_jobs (sl_p s)), im_savedGeneration := im_generation (sl_p s)\<rparr>,
    sl_loop := LoopReturned False, sl_stop := (\<lambda>k. if k = 0 then StopReturned False else StopBefore)\<rparr>"

lemmas saver_cons = converse_rtranclp_into_rtranclp[of saver_step]
lemmas save_cons = converse_rtranclp_into_rtranclp[of save_step]

lemma before_stop_reachable:
  assumes "im_generation p + 1 < 2 ^ 64"
  shows "saver_step\<^sup>*\<^sup>* (saver_init p) (before_stop p e ev)"
proof -
  let ?s0 = "saver_init p"
  let ?s1 = "?s0\<lparr>sl_lc := New\<lparr>lc_started := True\<rparr>, sl_loop := LoopRunning\<rparr>"
  let ?s2 = "?s1\<lparr>sl_p := store_jobs e (sl_p ?s1), sl_pending := Some ev\<rparr>"
  let ?s3 = "?s2\<lparr>sl_p := NotifyChange ev (sl_p ?s2), sl_pending := None\<rparr>"
  have "save_step ?s0 ?s1" by (rule loop_begins) (simp_all add: saver_init_def Begin_def New_def)
  then have a: "saver_step ?s0 ?s1" by (simp add: saver_step_def)
  have "notify_step ?s1 ?s2" by (rule store) (simp add: saver_init_def)
  then have b: "saver_step ?s1 ?s2" using assms by (simp add: saver_step_def saver_init_def)
  have "notify_step ?s2 ?s3" by (rule count) simp
  then have c: "saver_step ?s2 ?s3" using assms by (simp add: saver_step_def saver_init_def store_jobs_def)
  have "?s3 = before_stop p e ev" by (simp add: before_stop_def saver_init_def)
  moreover have "saver_step\<^sup>*\<^sup>* ?s0 ?s3"
    by (rule saver_cons[OF a], rule saver_cons[OF b], rule saver_cons[OF c], rule rtranclp.rtrancl_refl)
  ultimately show ?thesis by (simp only:)
qed

lemma after_stop_reachable:
  assumes "im_persistent p"
  shows "save_step\<^sup>*\<^sup>* (before_stop p e ev) (after_stop (before_stop p e ev))"
proof -
  let ?s = "before_stop p e ev"
  let ?q = "sl_p ?s"
  let ?l = "sl_lc ?s"
  have s: "sl_lc ?s = New\<lparr>lc_started := True\<rparr>" "sl_loop ?s = LoopRunning" "sl_mu ?s = False"
    "sl_stop ?s = (\<lambda>_. StopBefore)" "im_persistent ?q"
    using assms by (simp_all add: before_stop_def saver_init_def store_jobs_def)
  let ?t1 = "?s\<lparr>sl_lc := ?l\<lparr>lc_stopped := True\<rparr>, sl_stop := (sl_stop ?s)(0 := StopMarked True)\<rparr>"
  let ?t2 = "?t1\<lparr>sl_lc := Stop_close (sl_lc ?t1), sl_stop := (sl_stop ?t1)(0 := if True then StopWaiting else StopSaving SaveLock)\<rparr>"
  let ?t3 = "?t2\<lparr>sl_loop := Final SaveLock\<rparr>"
  let ?t4 = "?t3\<lparr>sl_mu := True, sl_p := ?q, sl_loop := after_save Final Finished (Inl (SaveGen (im_generation ?q)))\<rparr>"
  let ?t5 = "?t4\<lparr>sl_mu := True, sl_p := ?q, sl_loop := after_save Final Finished (Inl (SaveCopied (im_generation ?q) (saved_jobs ?q)))\<rparr>"
  let ?t6 = "?t5\<lparr>sl_mu := False, sl_p := ?q\<lparr>im_file := Some (saved_jobs ?q), im_savedGeneration := im_generation ?q\<rparr>,
    sl_loop := after_save Final Finished (Inr False)\<rparr>"
  let ?t7 = "?t6\<lparr>sl_lc := (sl_lc ?t6)\<lparr>lc_done := True\<rparr>, sl_loop := LoopReturned False\<rparr>"
  let ?t8 = "?t7\<lparr>sl_stop := (sl_stop ?t7)(0 := StopReturned False)\<rparr>"
  have 1: "save_step ?s ?t1" by (rule stop_marks) (simp_all add: s Stop_mark_def)
  have 2: "save_step ?t1 ?t2" by (rule stop_closes) simp
  have 3: "save_step ?t2 ?t3" by (rule stopping) (simp_all add: s Stopping_def Stop_close_def)
  have 4: "save_step ?t3 ?t4" by (rule final[of _ SaveLock True]) (simp_all add: s)
  have 5: "save_step ?t4 ?t5" by (rule final[of _ "SaveGen (im_generation ?q)" True]) (simp_all add: after_save_def)
  have 6: "save_step ?t5 ?t6"
    by (rule final[of _ "SaveCopied (im_generation ?q) (saved_jobs ?q)" True]) (simp_all add: after_save_def)
  have 7: "save_step ?t6 ?t7" by (rule loop_ends) (simp_all add: after_save_def End_def s Stop_close_def New_def)
  have 8: "save_step ?t7 ?t8" by (rule stop_waited) simp_all
  have "?t8 = after_stop ?s" by (simp add: after_stop_def s Stop_close_def fun_eq_iff)
  moreover have "save_step\<^sup>*\<^sup>* ?s ?t8"
    by (rule save_cons[OF 1], rule save_cons[OF 2], rule save_cons[OF 3], rule save_cons[OF 4], rule save_cons[OF 5],
        rule save_cons[OF 6], rule save_cons[OF 7], rule save_cons[OF 8], rule rtranclp.rtrancl_refl)
  ultimately show ?thesis by (simp only:)
qed

end
