(* ===== verification/Mock.thy ===== *)
theory Mock
  imports Backend
begin

text \<open>
  The mock provider (\<^verbatim>\<open>src/jobbackendprovider/mockprovider\<close>). It stores pointers to the jobs
  and never reads them, so the model keeps the ids. It announces no limit but takes at
  most 100 jobs.
\<close>

record mock =
  mk_hasChanged :: bool
  mk_jobs :: "(JobUUID, unit) gomap"
  mk_maxJobs :: uint
  mk_chan :: "backend_event list"
  mk_restore :: bool

definition NewMockJobBackendProvider :: mock where
  "NewMockJobBackendProvider = \<lparr>mk_hasChanged = False, mk_jobs = [], mk_maxJobs = 100,
    mk_chan = [], mk_restore = False\<rparr>"

definition mk_GetMaxJobs :: "mock \<Rightarrow> uint" where
  "mk_GetMaxJobs p = 0"

definition mk_NotifyChange :: "backend_event \<Rightarrow> mock \<Rightarrow> mock" where
  "mk_NotifyChange ev p = p\<lparr>mk_hasChanged := True, mk_chan := send_event ev (mk_chan p)\<rparr>"

definition mk_SetRestoreFlag :: "bool \<Rightarrow> mock \<Rightarrow> mock" where
  "mk_SetRestoreFlag enabled p = p\<lparr>mk_restore := enabled\<rparr>"

definition mk_JobExists :: "JobUUID \<Rightarrow> mock \<Rightarrow> bool" where
  "mk_JobExists u p \<longleftrightarrow> map_of (mk_jobs p) u \<noteq> None"

definition mk_LoadJobs :: "mock \<Rightarrow> (JobUUID, job) gomap \<times> mock" where
  "mk_LoadJobs p = ([], p\<lparr>mk_hasChanged := False, mk_jobs := []\<rparr>)"

definition mk_OnJobCreated :: "job \<Rightarrow> mock \<Rightarrow> bool \<times> mock" where
  "mk_OnJobCreated j p =
    (if length (mk_jobs p) = mk_maxJobs p then (True, p)
     else (False, mk_NotifyChange (job_event EventJobCreated (JobUUID j))
       (p\<lparr>mk_jobs := AList.update (JobUUID j) () (mk_jobs p)\<rparr>)))"

definition mk_OnJobDeleted :: "JobUUID \<Rightarrow> mock \<Rightarrow> mock" where
  "mk_OnJobDeleted u p =
    mk_NotifyChange (job_event EventJobDeleted u) (p\<lparr>mk_jobs := AList.delete u (mk_jobs p)\<rparr>)"

definition mk_OnJobDelayed :: "job \<Rightarrow> mock \<Rightarrow> mock" where
  "mk_OnJobDelayed j p = mk_NotifyChange (job_event EventJobDelayed (JobUUID j)) p"
definition mk_OnJobPending :: "job \<Rightarrow> mock \<Rightarrow> mock" where
  "mk_OnJobPending j p = mk_NotifyChange (job_event EventJobPending (JobUUID j)) p"
definition mk_OnJobEnqueued :: "job \<Rightarrow> mock \<Rightarrow> mock" where
  "mk_OnJobEnqueued j p = mk_NotifyChange (job_event EventJobEnqueued (JobUUID j)) p"
definition mk_OnJobCanceled :: "job \<Rightarrow> mock \<Rightarrow> mock" where
  "mk_OnJobCanceled j p = mk_NotifyChange (job_event EventJobCanceled (JobUUID j)) p"
definition mk_OnJobFailed :: "job \<Rightarrow> mock \<Rightarrow> mock" where
  "mk_OnJobFailed j p = mk_NotifyChange (job_event EventJobFailed (JobUUID j)) p"
definition mk_OnJobHidden :: "job \<Rightarrow> mock \<Rightarrow> mock" where
  "mk_OnJobHidden j p = mk_NotifyChange (job_event EventJobHidden (JobUUID j)) p"
definition mk_OnJobTerminated :: "job \<Rightarrow> mock \<Rightarrow> mock" where
  "mk_OnJobTerminated j p = mk_NotifyChange (job_event EventJobTerminated (JobUUID j)) p"
definition mk_OnJobStarted :: "job \<Rightarrow> mock \<Rightarrow> mock" where
  "mk_OnJobStarted j p = mk_NotifyChange (job_event EventJobStarted (JobUUID j)) p"
definition mk_OnJobSucceeded :: "job \<Rightarrow> mock \<Rightarrow> mock" where
  "mk_OnJobSucceeded j p = mk_NotifyChange (job_event EventJobSucceeded (JobUUID j)) p"
definition mk_OnJobTimeout :: "job \<Rightarrow> mock \<Rightarrow> mock" where
  "mk_OnJobTimeout j p = mk_NotifyChange (job_event EventJobTimeout (JobUUID j)) p"
definition mk_OnJobUpdated :: "job \<Rightarrow> mock \<Rightarrow> mock" where
  "mk_OnJobUpdated j p = mk_NotifyChange (job_event EventJobUpdated (JobUUID j)) p"

lemmas mk_On_defs = mk_OnJobDelayed_def mk_OnJobPending_def mk_OnJobEnqueued_def
  mk_OnJobCanceled_def mk_OnJobFailed_def mk_OnJobHidden_def mk_OnJobTerminated_def
  mk_OnJobStarted_def mk_OnJobSucceeded_def mk_OnJobTimeout_def mk_OnJobUpdated_def

definition mk_OnJobsDeleted :: "mock \<Rightarrow> mock" where
  "mk_OnJobsDeleted p = mk_NotifyChange (job_event EventAllJobsDeleted 0) (p\<lparr>mk_jobs := []\<rparr>)"

definition mk_OnAllResourcesUnlocked :: "mock \<Rightarrow> mock" where
  "mk_OnAllResourcesUnlocked p = mk_NotifyChange (job_event EventAllResourcesUnlocked 0) p"

definition mk_OnResourceUnlocked :: "job \<Rightarrow> string \<Rightarrow> mock \<Rightarrow> mock" where
  "mk_OnResourceUnlocked j resource p = mk_NotifyChange
    \<lparr>be_Type = EventResourceUnlocked, be_JobUUID = JobUUID j, be_Resource = Some resource\<rparr> p"

definition mk_sync :: "mock \<Rightarrow> mock" where
  "mk_sync p = (if mk_hasChanged p then p\<lparr>mk_hasChanged := False\<rparr> else p)"

definition mk_NotifyEvent :: "ServiceEventType \<Rightarrow> mock \<Rightarrow> mock" where
  "mk_NotifyEvent ev p =
    (if mk_restore p then p
     else if ev = ServiceEventJobDeletedAll then mk_OnJobsDeleted p else p)"

definition mk_NotifyJobEvent :: "job \<Rightarrow> ServiceEventType \<Rightarrow> mock \<Rightarrow> mock" where
  "mk_NotifyJobEvent j ev p =
    (if mk_restore p then p
     else case ev of
       ServiceEventJobCreated \<Rightarrow> snd (mk_OnJobCreated j p)
     | ServiceEventJobDelayed \<Rightarrow> mk_OnJobDelayed j p
     | ServiceEventJobPending \<Rightarrow> mk_OnJobPending j p
     | ServiceEventJobEnqueued \<Rightarrow> mk_OnJobEnqueued j p
     | ServiceEventJobDeleted \<Rightarrow> mk_OnJobDeleted (JobUUID j) p
     | ServiceEventJobStarted \<Rightarrow> mk_OnJobStarted j p
     | ServiceEventJobSucceeded \<Rightarrow> mk_OnJobSucceeded j p
     | ServiceEventJobCanceled \<Rightarrow> mk_OnJobCanceled j p
     | ServiceEventJobFailed \<Rightarrow> mk_OnJobFailed j p
     | ServiceEventJobHidden \<Rightarrow> mk_OnJobHidden j p
     | ServiceEventJobTerminated \<Rightarrow> mk_OnJobTerminated j p
     | _ \<Rightarrow> p)"

fun mk_call :: "notif \<Rightarrow> mock \<Rightarrow> mock" where
  "mk_call (NJob j ev) p = mk_NotifyJobEvent j ev p"
| "mk_call (NEvent ev) p = mk_NotifyEvent ev p"
| "mk_call (NBackendJobUpdated j) p = mk_OnJobUpdated j p"
| "mk_call NBackendAllResourcesUnlocked p = mk_OnAllResourcesUnlocked p"
| "mk_call (NBackendResourceUnlocked j r) p = mk_OnResourceUnlocked j r p"
| "mk_call (NRestoreFlag b) p = mk_SetRestoreFlag b p"
| "mk_call _ p = p"

section \<open>The interface\<close>

lemma mk_NotifyChange_sel [simp]:
  "mk_jobs (mk_NotifyChange ev p) = mk_jobs p" "mk_maxJobs (mk_NotifyChange ev p) = mk_maxJobs p"
  "mk_restore (mk_NotifyChange ev p) = mk_restore p"
  by (simp_all add: mk_NotifyChange_def)

lemma mk_NotifyJobEvent_sel [simp]:
  "mk_maxJobs (mk_NotifyJobEvent j ev p) = mk_maxJobs p"
  "mk_restore (mk_NotifyJobEvent j ev p) = mk_restore p"
  by (cases ev; simp add: mk_NotifyJobEvent_def mk_On_defs mk_OnJobCreated_def mk_OnJobDeleted_def)+

lemma mk_NotifyJobEvent_jobs:
  "mk_jobs (mk_NotifyJobEvent j ev p) =
    (if mk_restore p then mk_jobs p
     else if ev = ServiceEventJobCreated
     then if length (mk_jobs p) = mk_maxJobs p then mk_jobs p
          else AList.update (JobUUID j) () (mk_jobs p)
     else if ev = ServiceEventJobDeleted then AList.delete (JobUUID j) (mk_jobs p)
     else mk_jobs p)"
  by (cases ev; simp add: mk_NotifyJobEvent_def mk_On_defs mk_OnJobCreated_def mk_OnJobDeleted_def)

lemmas mk_call_defs = mk_NotifyEvent_def mk_OnJobsDeleted_def mk_OnJobUpdated_def
  mk_OnAllResourcesUnlocked_def mk_OnResourceUnlocked_def mk_SetRestoreFlag_def

lemma unit_upd_known: "m u \<noteq> None \<Longrightarrow> m = m(u \<mapsto> ())"
  by (auto simp: fun_eq_iff)

interpretation mk: job_store "\<lambda>p. map_of (mk_jobs p)" mk_restore "\<lambda>_. ()" mk_call mk_maxJobs
  "\<lambda>p. wf_map (mk_jobs p)"
proof unfold_locales
  fix p :: mock and e j ev and f :: bool
  show "wf_map (mk_jobs p) \<Longrightarrow> wf_map (mk_jobs (mk_call e p))"
    by (cases e) (simp_all add: mk_NotifyJobEvent_jobs mk_call_defs)
  show "mk_maxJobs (mk_call e p) = mk_maxJobs p" by (cases e) (simp_all add: mk_call_defs)
  show "wf_map (mk_jobs p) \<Longrightarrow> finite (dom (map_of (mk_jobs p)))" by (rule finite_dom_map_of)
  show "mk_restore (mk_call e p) = (case e of NRestoreFlag b \<Rightarrow> b | _ \<Rightarrow> mk_restore p)"
    by (cases e) (simp_all add: mk_call_defs)
  show "map_of (mk_jobs (mk_call (NJob j ServiceEventJobCreated) p)) = (map_of (mk_jobs p))(JobUUID j \<mapsto> ())"
    if "wf_map (mk_jobs p)" "\<not> mk_restore p" "card (dom (map_of (mk_jobs p))) < mk_maxJobs p"
    using that card_dom_length[of "mk_jobs p"] by (simp add: mk_NotifyJobEvent_jobs)
  show "map_of (mk_jobs (mk_call (NJob j ServiceEventJobDeleted) p)) = (map_of (mk_jobs p))(JobUUID j := None)"
    if "wf_map (mk_jobs p)" "\<not> mk_restore p"
    using that by (simp add: mk_NotifyJobEvent_jobs)
  show "map_of (mk_jobs (mk_call (NJob j ev) p)) =
      (if map_of (mk_jobs p) (JobUUID j) = None then map_of (mk_jobs p)
       else (map_of (mk_jobs p))(JobUUID j \<mapsto> ()))"
    if "wf_map (mk_jobs p)" "\<not> mk_restore p" "ev \<notin> {ServiceEventJobCreated, ServiceEventJobDeleted}"
    using that unit_upd_known[of "map_of (mk_jobs p)" "JobUUID j"]
    by (simp add: mk_NotifyJobEvent_jobs)
  show "map_of (mk_jobs (mk_call (NJob j ev) p)) = map_of (mk_jobs p)"
    if "wf_map (mk_jobs p)" "mk_restore p" using that by (simp add: mk_NotifyJobEvent_jobs)
  show "map_of (mk_jobs (mk_call (NEvent ServiceEventJobDeletedAll) p)) =
      (if mk_restore p then map_of (mk_jobs p) else (\<lambda>_. None))" if "wf_map (mk_jobs p)"
    by (simp add: mk_call_defs fun_eq_iff)
  show "map_of (mk_jobs (mk_call (NBackendJobUpdated j) p)) =
      (if map_of (mk_jobs p) (JobUUID j) = None then map_of (mk_jobs p)
       else (map_of (mk_jobs p))(JobUUID j \<mapsto> ()))" if "wf_map (mk_jobs p)"
    using unit_upd_known[of "map_of (mk_jobs p)" "JobUUID j"] by (simp add: mk_call_defs)
  show "map_of (mk_jobs (mk_call e p)) = map_of (mk_jobs p)" if "wf_map (mk_jobs p)" "\<not> stored_change e"
    using that by (cases e) (simp_all add: mk_call_defs)
  show "map_of (mk_jobs (mk_call (NRestoreFlag f) p)) = map_of (mk_jobs p)" if "wf_map (mk_jobs p)"
    by (simp add: mk_call_defs)
qed

end
