(* ===== verification/RedisWriter.thy ===== *)
theory RedisWriter
  imports Prelude "HOL-Library.Sublist"
begin

text \<open>
  The writer of the Redis provider (\<^verbatim>\<open>src/jobbackendprovider/redisprovider/writer.go\<close>):
  a queue of operations, sent in order in pipelines by one goroutine, retried after a
  failure in a coalesced form. The server is not part of the repository: the client calls are
  the record \<open>redis_client\<close> on an abstract server state, and \<open>redis_laws\<close> states what their
  documentation promises. The main result: whatever fails on the way, the operations still to
  write always bring the server to the state all the changes lead to.
\<close>

section \<open>The server\<close>

text \<open>
  Keys, values and expirations (0 for none) as the client passes them. An expiration is kept
  in seconds: the code multiplies it by \<^verbatim>\<open>time.Second\<close>, which fits an \<^verbatim>\<open>int64\<close> up to 292 years.
\<close>

type_synonym rkey = string
type_synonym entry = "string \<times> nat"
type_synonym db = "rkey \<Rightarrow> entry option"

datatype redis_cmd = CSet rkey string nat | CDel rkey

record 'r redis_client =
  rc_exec :: "redis_cmd list \<Rightarrow> 'r \<Rightarrow> string option \<times> 'r"
  rc_scan :: "nat \<Rightarrow> 'r \<Rightarrow> string + (rkey list \<times> nat)"
  rc_del :: "rkey list \<Rightarrow> 'r \<Rightarrow> string option \<times> 'r"
  rc_keys :: "'r \<Rightarrow> string + rkey list"
  rc_mget :: "rkey list \<Rightarrow> 'r \<Rightarrow> string + string option list"
  rc_exists :: "rkey \<Rightarrow> 'r \<Rightarrow> string + nat"
  rc_ping :: "'r \<Rightarrow> bool"

text \<open>The pattern \<^verbatim>\<open>job:*\<close>.\<close>

definition is_job_key :: "rkey \<Rightarrow> bool" where
  "is_job_key k \<longleftrightarrow> take 4 k = ''job:''"

section \<open>Code\<close>

record writeOp =
  wo_key :: rkey
  wo_value :: string
  wo_ttl :: nat
  wo_del :: bool
  wo_delAll :: bool

definition maxBatch :: nat where "maxBatch = 1024"
definition minBackoff :: nat where "minBackoff = 100"
definition maxBackoff :: nat where "maxBackoff = 5000"

text \<open>
  The last three fields belong to the loop: its variables (backoff in milliseconds) and
  whether it waits for the end of the backoff.
\<close>

record writer =
  w_queue :: "writeOp list"
  w_pushed :: uint
  w_done :: uint
  w_running :: bool
  w_closed :: bool
  w_exited :: bool
  w_abandon :: bool
  w_ok :: bool
  w_retry :: "writeOp list"
  w_backoff :: nat
  w_waiting :: bool

definition newWriter :: writer where
  "newWriter = \<lparr>w_queue = [], w_pushed = 0, w_done = 0, w_running = False, w_closed = False,
    w_exited = False, w_abandon = False, w_ok = True, w_retry = [], w_backoff = minBackoff,
    w_waiting = False\<rparr>"

text \<open>The flag tells whether the loop is started.\<close>

definition writer_start :: "writer \<Rightarrow> bool \<times> writer" where
  "writer_start w = (if w_running w \<or> w_closed w then (False, w) else (True, w\<lparr>w_running := True\<rparr>))"

definition push :: "writeOp \<Rightarrow> writer \<Rightarrow> writer" where
  "push op w = (if w_closed w then w
     else w\<lparr>w_queue := w_queue w @ [op], w_pushed := u64 (w_pushed w + 1)\<rparr>)"

definition healthy :: "writer \<Rightarrow> bool" where
  "healthy w = w_ok w"

text \<open>\<^verbatim>\<open>wait\<close>: the target it takes on entry, and when it returns.\<close>

definition wait_target :: "writer \<Rightarrow> uint" where
  "wait_target w = w_pushed w"

definition wait_over :: "uint \<Rightarrow> writer \<Rightarrow> bool" where
  "wait_over target w \<longleftrightarrow> \<not> (w_running w \<and> w_done w < target \<and> \<not> w_exited w)"

text \<open>
  \<^verbatim>\<open>stop\<close>: closes the writer; when the loop runs it then waits for its exit, or gives up
  after the timeout and closes \<open>abandon\<close>.
\<close>

definition stop_close :: "writer \<Rightarrow> writer" where
  "stop_close w = w\<lparr>w_closed := True\<rparr>"

definition stop_timeout :: "writer \<Rightarrow> writer" where
  "stop_timeout w = (if w_running w \<and> \<not> w_exited w then w\<lparr>w_abandon := True\<rparr> else w)"

definition coalesce :: "writeOp list \<Rightarrow> writeOp list" where
  "coalesce ops = foldl (\<lambda>out op.
     (if wo_delAll op then [] else filter (\<lambda>o'. wo_delAll o' \<or> wo_key o' \<noteq> wo_key op) out) @ [op]) [] ops"

text \<open>\<open>None\<close> is a scan that never ends.\<close>

partial_function (option) deleteAllJobs ::
    "'r redis_client \<Rightarrow> nat \<Rightarrow> 'r \<Rightarrow> (string option \<times> 'r) option" where
  "deleteAllJobs c cursor r =
    (case rc_scan c cursor r of
      Inl err \<Rightarrow> Some (Some err, r)
    | Inr (keys, next) \<Rightarrow>
        (case (if length keys > 0 then rc_del c keys r else (None, r)) of
          (Some err, r) \<Rightarrow> Some (Some err, r)
        | (None, r) \<Rightarrow> if next = 0 then Some (None, r) else deleteAllJobs c next r))"

definition flush :: "'r redis_client \<Rightarrow> redis_cmd list \<Rightarrow> 'r \<Rightarrow> string option \<times> 'r" where
  "flush c pipe r = (if length pipe = 0 then (None, r) else rc_exec c pipe r)"

text \<open>The loop of \<^verbatim>\<open>execute\<close> with the commands waiting in the pipeline.\<close>

fun execute_loop :: "'r redis_client \<Rightarrow> writeOp list \<Rightarrow> redis_cmd list \<Rightarrow> 'r \<Rightarrow> (string option \<times> 'r) option" where
  "execute_loop c [] pipe r = Some (flush c pipe r)"
| "execute_loop c (op # ops) pipe r =
    (if wo_delAll op
     then case flush c pipe r of
         (Some err, r) \<Rightarrow> Some (Some err, r)
       | (None, r) \<Rightarrow> (case deleteAllJobs c 0 r of
           None \<Rightarrow> None
         | Some (Some err, r) \<Rightarrow> Some (Some err, r)
         | Some (None, r) \<Rightarrow> execute_loop c ops [] r)
     else if wo_del op then execute_loop c ops (pipe @ [CDel (wo_key op)]) r
     else execute_loop c ops (pipe @ [CSet (wo_key op) (wo_value op) (wo_ttl op)]) r)"

definition execute :: "'r redis_client \<Rightarrow> writeOp list \<Rightarrow> 'r \<Rightarrow> (string option \<times> 'r) option" where
  "execute c ops r = execute_loop c ops [] r"

text \<open>
  One turn of the loop: the batch taken under the lock, the attempt, what follows. The flag
  is false when the loop ends. Operations pushed during the attempt stay in the queue: a
  push between two turns.
\<close>

definition idle :: "writer \<Rightarrow> bool" where
  "idle w \<longleftrightarrow> w_queue w = [] \<and> w_retry w = [] \<and> \<not> w_closed w"

definition loop_turn :: "'r redis_client \<Rightarrow> writer \<times> 'r \<Rightarrow> (bool \<times> writer \<times> 'r) option" where
  "loop_turn c = (\<lambda>(w, r).
    (let n = min (length (w_queue w)) maxBatch;
         batch = take n (w_queue w);
         w = w\<lparr>w_queue := drop n (w_queue w)\<rparr>;
         attempted = u64 (w_done w + n)
     in if n = 0 \<and> length (w_retry w) = 0 then Some (False, w\<lparr>w_exited := True\<rparr>, r)
        else let ops = w_retry w @ batch in
          case execute c ops r of
            None \<Rightarrow> None
          | Some (err, r) \<Rightarrow>
              (let w = w\<lparr>w_done := attempted\<rparr> in
               if err = None
               then Some (True, w\<lparr>w_retry := [], w_backoff := minBackoff, w_ok := True\<rparr>, r)
               else Some (True, w\<lparr>w_ok := False, w_retry := coalesce ops, w_waiting := True\<rparr>, r))))"

text \<open>The \<^verbatim>\<open>select\<close> after a failure: the backoff is over, or the stop gave up.\<close>

definition backoff_over :: "writer \<Rightarrow> writer" where
  "backoff_over w = w\<lparr>w_waiting := False, w_backoff := min (w_backoff w * 2) maxBackoff\<rparr>"

definition give_up :: "writer \<Rightarrow> writer" where
  "give_up w = w\<lparr>w_exited := True\<rparr>"

text \<open>The interleavings of the callers with the loop.\<close>

datatype writer_event = EPush writeOp | ETurn | EBackoffOver | EStop | EStopTimeout | EGiveUp

definition turn_ready :: "writer \<Rightarrow> bool" where
  "turn_ready w \<longleftrightarrow> w_running w \<and> \<not> w_exited w \<and> \<not> w_waiting w \<and> \<not> idle w"

definition writer_step :: "'r redis_client \<Rightarrow> writer_event \<Rightarrow> writer \<times> 'r \<Rightarrow> (writer \<times> 'r) option" where
  "writer_step c e = (\<lambda>(w, r). case e of
      EPush op \<Rightarrow> Some (push op w, r)
    | EStop \<Rightarrow> Some (stop_close w, r)
    | EStopTimeout \<Rightarrow> (if w_closed w then Some (stop_timeout w, r) else None)
    | ETurn \<Rightarrow> (if turn_ready w then map_option snd (loop_turn c (w, r)) else None)
    | EBackoffOver \<Rightarrow> (if w_waiting w \<and> \<not> w_exited w then Some (backoff_over w, r) else None)
    | EGiveUp \<Rightarrow> (if w_waiting w \<and> \<not> w_exited w \<and> w_abandon w then Some (give_up w, r) else None))"

fun writer_run :: "'r redis_client \<Rightarrow> writer_event list \<Rightarrow> writer \<times> 'r \<Rightarrow> (writer \<times> 'r) option" where
  "writer_run c [] wr = Some wr"
| "writer_run c (e # es) wr =
    (case writer_step c e wr of None \<Rightarrow> None | Some wr' \<Rightarrow> writer_run c es wr')"


section \<open>What the server promises\<close>

fun apply_cmd :: "redis_cmd \<Rightarrow> db \<Rightarrow> db" where
  "apply_cmd (CSet k v ttl) d = d(k \<mapsto> (v, ttl))"
| "apply_cmd (CDel k) d = d(k := None)"

text \<open>The pages of one iteration of SCAN, each with the state of the server it was read in.\<close>

fun scan_trace :: "'r redis_client \<Rightarrow> nat \<Rightarrow> ('r \<times> rkey list) list \<Rightarrow> bool" where
  "scan_trace c cursor [] = False"
| "scan_trace c cursor [(r, ks)] = (rc_scan c cursor r = Inr (ks, 0))"
| "scan_trace c cursor ((r, ks) # p # tr) =
    (\<exists>next. rc_scan c cursor r = Inr (ks, next) \<and> next \<noteq> 0 \<and> scan_trace c next (p # tr))"

text \<open>
  \<open>content\<close> is what the server stores. A pipeline runs its commands in order, some of them
  when it fails; a deletion removes its keys, some of them when it fails; a full iteration of
  SCAN returns every key that was there all along, and only keys of the pattern. (The
  expiration of keys is not modelled.)
\<close>

definition redis_laws :: "'r redis_client \<Rightarrow> ('r \<Rightarrow> db) \<Rightarrow> bool" where
  "redis_laws c content \<longleftrightarrow>
    (\<forall>cmds r e r'. rc_exec c cmds r = (e, r') \<longrightarrow>
      (\<exists>part \<in> set (subseqs cmds). content r' = fold apply_cmd part (content r))
      \<and> (e = None \<longrightarrow> content r' = fold apply_cmd cmds (content r)))
    \<and> (\<forall>ks r e r'. rc_del c ks r = (e, r') \<longrightarrow>
      (\<exists>part \<subseteq> set ks. content r' = content r |` (- part))
      \<and> (e = None \<longrightarrow> content r' = content r |` (- set ks)))
    \<and> (\<forall>tr k. scan_trace c 0 tr \<longrightarrow> is_job_key k \<longrightarrow> (\<forall>(r, ks) \<in> set tr. content r k \<noteq> None) \<longrightarrow>
      (\<exists>(r, ks) \<in> set tr. k \<in> set ks))
    \<and> (\<forall>cursor r ks next k. rc_scan c cursor r = Inr (ks, next) \<longrightarrow> k \<in> set ks \<longrightarrow> is_job_key k)"

section \<open>The effect of the operations\<close>

definition op_effect :: "writeOp \<Rightarrow> db \<Rightarrow> db" where
  "op_effect op d = (if wo_delAll op then d |` {k. \<not> is_job_key k}
     else if wo_del op then d(wo_key op := None)
     else d(wo_key op \<mapsto> (wo_value op, wo_ttl op)))"

definition apply_ops :: "writeOp list \<Rightarrow> db \<Rightarrow> db" where
  "apply_ops ops d = fold op_effect ops d"

definition op_touches :: "writeOp \<Rightarrow> rkey \<Rightarrow> bool" where
  "op_touches op k \<longleftrightarrow> (if wo_delAll op then is_job_key k else wo_key op = k)"

definition job_op :: "writeOp \<Rightarrow> bool" where
  "job_op op \<longleftrightarrow> wo_delAll op \<or> is_job_key (wo_key op)"

lemma apply_ops_simps [simp]:
  "apply_ops [] d = d" "apply_ops (op # ops) d = apply_ops ops (op_effect op d)"
  "apply_ops (a @ b) d = apply_ops b (apply_ops a d)"
  by (simp_all add: apply_ops_def)

lemma op_effect_other: "\<not> op_touches op k \<Longrightarrow> op_effect op d k = d k"
  by (auto simp: op_touches_def op_effect_def restrict_map_def split: if_splits)

lemma op_effect_same: "op_touches op k \<Longrightarrow> op_effect op d k = op_effect op d' k"
  by (auto simp: op_touches_def op_effect_def restrict_map_def split: if_splits)

lemma apply_ops_other: "\<forall>op \<in> set ops. \<not> op_touches op k \<Longrightarrow> apply_ops ops d k = d k"
  by (induction ops arbitrary: d) (simp_all add: op_effect_other)

lemma apply_ops_same: "d k = d' k \<Longrightarrow> apply_ops ops d k = apply_ops ops d' k"
proof (induction ops arbitrary: d d')
  case (Cons op ops)
  have "op_effect op d k = op_effect op d' k"
    using Cons.prems op_effect_same[of op k d d'] op_effect_other[of op k d] op_effect_other[of op k d']
    by (cases "op_touches op k") simp_all
  then show ?case using Cons.IH[of "op_effect op d" "op_effect op d'"] by simp
qed simp

lemma apply_ops_touched: "\<exists>op \<in> set ops. op_touches op k \<Longrightarrow> apply_ops ops d k = apply_ops ops d' k"
proof (induction ops arbitrary: d d')
  case (Cons op ops)
  then show ?case using apply_ops_same[of "op_effect op d" k "op_effect op d'" ops] op_effect_same[of op k d d']
    by (cases "op_touches op k") simp_all
qed simp

text \<open>A partly written batch does not matter: writing it again gives the same result.\<close>

lemma apply_ops_redo:
  "(\<And>k. \<forall>op \<in> set ops. \<not> op_touches op k \<Longrightarrow> d' k = d k) \<Longrightarrow> apply_ops ops d' = apply_ops ops d"
proof
  fix k assume "\<And>k. \<forall>op \<in> set ops. \<not> op_touches op k \<Longrightarrow> d' k = d k"
  then show "apply_ops ops d' k = apply_ops ops d k"
    using apply_ops_touched[of ops k d' d] apply_ops_other[of ops k d] apply_ops_other[of ops k d']
    by (cases "\<exists>op \<in> set ops. op_touches op k") auto
qed

lemma apply_ops_filter:
  "\<forall>op \<in> set ops. \<not> P op \<longrightarrow> \<not> op_touches op k \<Longrightarrow> apply_ops (filter P ops) d k = apply_ops ops d k"
proof (induction ops arbitrary: d)
  case (Cons op ops)
  then show ?case using apply_ops_same[of d k "op_effect op d" "filter P ops"] op_effect_other[of op k d]
    by auto
qed simp

section \<open>Coalescing\<close>

lemma coalesce_snoc: "coalesce (ops @ [op]) =
    (if wo_delAll op then [] else filter (\<lambda>o'. wo_delAll o' \<or> wo_key o' \<noteq> wo_key op) (coalesce ops)) @ [op]"
  by (simp add: coalesce_def)

lemma coalesce_Nil [simp]: "coalesce [] = []"
  by (simp add: coalesce_def)

lemma coalesce_subset: "set (coalesce ops) \<subseteq> set ops"
  by (induction ops rule: rev_induct) (auto simp: coalesce_snoc)

lemma coalesce_effect:
  "\<forall>op \<in> set ops. job_op op \<Longrightarrow> apply_ops (coalesce ops) d = apply_ops ops d"
proof (induction ops rule: rev_induct)
  case (snoc op ops)
  have ih: "apply_ops (coalesce ops) d = apply_ops ops d" using snoc by simp
  show ?case
  proof
    fix k
    show "apply_ops (coalesce (ops @ [op])) d k = apply_ops (ops @ [op]) d k"
    proof (cases "op_touches op k")
      case True
      then show ?thesis by (auto simp: coalesce_snoc intro: op_effect_same)
    next
      case False
      show ?thesis
      proof (cases "wo_delAll op")
        case True
        then have "\<not> is_job_key k" using False by (simp add: op_touches_def)
        then have "\<forall>o' \<in> set ops. \<not> op_touches o' k" using snoc.prems
          by (auto simp: op_touches_def job_op_def)
        then show ?thesis using True False apply_ops_other[of ops k d]
          by (simp add: coalesce_snoc op_effect_other)
      next
        case False': False
        then have "apply_ops (filter (\<lambda>o'. wo_delAll o' \<or> wo_key o' \<noteq> wo_key op) (coalesce ops)) d k
            = apply_ops (coalesce ops) d k"
          using False by (intro apply_ops_filter) (auto simp: op_touches_def)
        then show ?thesis using False False' ih by (simp add: coalesce_snoc op_effect_other)
      qed
    qed
  qed
qed simp

text \<open>What is left holds each job at most once: a retry does not grow with the failures.\<close>

lemma coalesce_distinct: "distinct (map wo_key (filter (\<lambda>o'. \<not> wo_delAll o') (coalesce ops)))"
proof (induction ops rule: rev_induct)
  case (snoc op ops)
  have "filter (\<lambda>o'. \<not> wo_delAll o') (filter (\<lambda>o'. wo_delAll o' \<or> wo_key o' \<noteq> wo_key op) (coalesce ops))
      = filter (\<lambda>o'. wo_key o' \<noteq> wo_key op) (filter (\<lambda>o'. \<not> wo_delAll o') (coalesce ops))"
    by (auto simp: filter_filter intro!: filter_cong)
  then show ?case using snoc distinct_map_filter[OF snoc]
    by (auto simp: coalesce_snoc)
qed simp


section \<open>Writing\<close>

fun cmd_key :: "redis_cmd \<Rightarrow> rkey" where
  "cmd_key (CSet k v ttl) = k"
| "cmd_key (CDel k) = k"

lemma apply_cmds_other: "k \<notin> cmd_key ` set cs \<Longrightarrow> fold apply_cmd cs d k = d k"
proof (induction cs arbitrary: d)
  case (Cons x cs)
  have "apply_cmd x d k = d k" using Cons.prems by (cases x) auto
  then show ?case using Cons by simp
qed simp

lemma subseqs_set: "xs \<in> set (subseqs ys) \<Longrightarrow> set xs \<subseteq> set ys"
  by (metis PowI image_eqI PowD subseqs_powset)

lemma flush_spec:
  assumes l: "redis_laws c content" and f: "flush c pipe r = (e, r')"
  shows "k \<notin> cmd_key ` set pipe \<Longrightarrow> content r' k = content r k"
    "e = None \<Longrightarrow> content r' = fold apply_cmd pipe (content r)"
proof -
  have *: "(k \<notin> cmd_key ` set pipe \<longrightarrow> content r' k = content r k)
      \<and> (e = None \<longrightarrow> content r' = fold apply_cmd pipe (content r))"
  proof (cases "pipe = []")
    case True
    then show ?thesis using f by (simp add: flush_def)
  next
    case False
    then have x: "rc_exec c pipe r = (e, r')" using f by (simp add: flush_def)
    obtain part where p: "part \<in> set (subseqs pipe)" "content r' = fold apply_cmd part (content r)"
      using l x unfolding redis_laws_def by blast
    have "k \<notin> cmd_key ` set pipe \<Longrightarrow> k \<notin> cmd_key ` set part" using subseqs_set[OF p(1)] by blast
    then show ?thesis using p(2) apply_cmds_other[of k part "content r"] l x
      unfolding redis_laws_def by auto
  qed
  show "k \<notin> cmd_key ` set pipe \<Longrightarrow> content r' k = content r k"
    "e = None \<Longrightarrow> content r' = fold apply_cmd pipe (content r)" using * by blast+
qed

text \<open>What a run of the scan loop read and deleted.\<close>

definition scanned :: "'r redis_client \<Rightarrow> ('r \<Rightarrow> db) \<Rightarrow> nat \<Rightarrow> 'r \<Rightarrow> string option \<times> 'r \<Rightarrow> bool" where
  "scanned c content cursor r res \<longleftrightarrow>
    (\<exists>gone. (\<forall>k \<in> gone. is_job_key k) \<and> content (snd res) = content r |` (- gone))
    \<and> (fst res = None \<longrightarrow> (\<exists>tr. scan_trace c cursor tr
        \<and> (\<forall>(s, ks) \<in> set tr. content (snd res) \<subseteq>\<^sub>m content s
            \<and> (\<forall>k \<in> set ks. content (snd res) k = None))))"

lemma restrict_le: "m |` A \<subseteq>\<^sub>m m"
  by (auto simp: map_le_def restrict_map_def)

lemma scanned_step:
  assumes l: "redis_laws c content" and s: "rc_scan c cursor r = Inr (ks, next)"
    and d: "(if length ks > 0 then rc_del c ks r else (None, r)) = (e, r1)"
  shows "e \<noteq> None \<Longrightarrow> scanned c content cursor r (e, r1)"
    "e = None \<Longrightarrow> next = 0 \<Longrightarrow> scanned c content cursor r (None, r1)"
    "e = None \<Longrightarrow> next \<noteq> 0 \<Longrightarrow> scanned c content next r1 res \<Longrightarrow> scanned c content cursor r res"
proof -
  have jk: "\<forall>k \<in> set ks. is_job_key k" using l s unfolding redis_laws_def by blast
  have "(\<exists>part \<subseteq> set ks. content r1 = content r |` (- part))
      \<and> (e = None \<longrightarrow> content r1 = content r |` (- set ks))"
  proof (cases "ks = []")
    case True
    then show ?thesis using d by (auto simp: restrict_map_def)
  next
    case False
    then show ?thesis using d l unfolding redis_laws_def by simp
  qed
  then obtain part where p: "part \<subseteq> set ks" "content r1 = content r |` (- part)"
    and ok: "e = None \<Longrightarrow> content r1 = content r |` (- set ks)" by blast
  show "e \<noteq> None \<Longrightarrow> scanned c content cursor r (e, r1)"
    using p jk by (auto simp: scanned_def)
  have gone: "\<forall>k \<in> set ks. content r1 k = None" if "e = None" using ok[OF that] by simp
  show "scanned c content cursor r (None, r1)" if z: "e = None" "next = 0"
  proof -
    have "scan_trace c cursor [(r, ks)]" using s z by simp
    moreover have "\<forall>(s, ks) \<in> set [(r, ks)]. content r1 \<subseteq>\<^sub>m content s \<and> (\<forall>k \<in> set ks. content r1 k = None)"
      using gone[OF z(1)] ok[OF z(1)] restrict_le[of "content r" "- set ks"] by simp
    ultimately show ?thesis unfolding scanned_def fst_conv snd_conv using jk ok[OF z(1)] by blast
  qed
  show "scanned c content cursor r res" if z: "e = None" "next \<noteq> 0" "scanned c content next r1 res"
  proof -
    obtain g where g: "\<forall>k \<in> g. is_job_key k" "content (snd res) = content r1 |` (- g)"
      using z(3) by (auto simp: scanned_def)
    have c2: "content (snd res) = content r |` (- (set ks \<union> g))"
      using g(2) ok[OF z(1)] by (simp add: Int_commute)
    have le: "content (snd res) \<subseteq>\<^sub>m content r" unfolding c2 by (rule restrict_le)
    have ks: "\<forall>k \<in> set ks. content (snd res) k = None" using c2 by simp
    have "\<exists>tr. scan_trace c cursor tr \<and> (\<forall>(s, ks) \<in> set tr. content (snd res) \<subseteq>\<^sub>m content s
            \<and> (\<forall>k \<in> set ks. content (snd res) k = None))" if "fst res = None"
    proof -
      obtain tr where tr: "scan_trace c next tr" "\<forall>(s, ks) \<in> set tr. content (snd res) \<subseteq>\<^sub>m content s
            \<and> (\<forall>k \<in> set ks. content (snd res) k = None)"
        using z(3) \<open>fst res = None\<close> by (auto simp: scanned_def)
      then obtain p tr' where "tr = p # tr'" by (cases tr) auto
      then have "scan_trace c cursor ((r, ks) # tr)" using tr(1) s z(2) by simp
      then show ?thesis using tr(2) le ks by (intro exI[of _ "(r, ks) # tr"]) simp
    qed
    then show ?thesis using g(1) jk c2 by (auto simp: scanned_def intro!: exI[of _ "set ks \<union> g"])
  qed
qed

lemma deleteAllJobs_scanned:
  fixes c :: "'r redis_client"
  assumes l: "redis_laws c content" and d: "deleteAllJobs c cursor r = Some res"
  shows "scanned c content cursor r res"
proof -
  have "c' = c \<longrightarrow> scanned c' content cursor r res" if "deleteAllJobs c' cursor r = Some res" for c' cursor r res
  proof (rule deleteAllJobs.raw_induct[OF _ that,
        where P = "\<lambda>c' cursor r res. c' = c \<longrightarrow> scanned c' content cursor r res"])
    fix loop :: "'r redis_client \<Rightarrow> nat \<Rightarrow> 'r \<Rightarrow> (string option \<times> 'r) option" and c' cursor r res
    assume ih: "\<And>c' cursor r res. loop c' cursor r = Some res \<Longrightarrow> c' = c \<longrightarrow> scanned c' content cursor r res"
    assume b: "(case rc_scan c' cursor r of
        Inl err \<Rightarrow> Some (Some err, r)
      | Inr (keys, next) \<Rightarrow>
          (case (if length keys > 0 then rc_del c' keys r else (None, r)) of
            (Some err, r) \<Rightarrow> Some (Some err, r)
          | (None, r) \<Rightarrow> if next = 0 then Some (None, r) else loop c' next r)) = Some res"
    show "c' = c \<longrightarrow> scanned c' content cursor r res"
    proof (intro impI)
      assume c': "c' = c"
      show "scanned c' content cursor r res"
      proof (cases "rc_scan c cursor r")
        case (Inl err)
        then show ?thesis using b c' by (auto simp: scanned_def intro!: exI[of _ "{}"])
      next
        case (Inr x)
        obtain ks nx where s: "rc_scan c cursor r = Inr (ks, nx)" using Inr by (cases x) auto
        obtain e r1 where d: "(if length ks > 0 then rc_del c ks r else (None, r)) = (e, r1)" by fastforce
        note st = scanned_step[OF l s d] and b' = b[unfolded c' s sum.case prod.case d]
        show ?thesis
        proof (cases e)
          case None
          then show ?thesis using b' st(2) st(3)[of res] ih[of c nx r1 res] c'
            by (cases "nx = 0") simp_all
        next
          case (Some err)
          then show ?thesis using b' st(1) c' by simp
        qed
      qed
    qed
  qed
  then show ?thesis using d by blast
qed

lemma deleteAllJobs_spec:
  assumes l: "redis_laws c content" and d: "deleteAllJobs c 0 r = Some (e, r')"
  shows "\<not> is_job_key k \<Longrightarrow> content r' k = content r k"
    "e = None \<Longrightarrow> content r' = content r |` {k. \<not> is_job_key k}"
proof -
  note s = deleteAllJobs_scanned[OF l d]
  obtain gone where g: "\<forall>k \<in> gone. is_job_key k" "content r' = content r |` (- gone)"
    using s by (auto simp: scanned_def)
  show o: "\<not> is_job_key k \<Longrightarrow> content r' k = content r k" for k
    using g by (auto simp: restrict_map_def)
  assume "e = None"
  then obtain tr where tr: "scan_trace c 0 tr" "\<forall>(s, ks) \<in> set tr. content r' \<subseteq>\<^sub>m content s
      \<and> (\<forall>k \<in> set ks. content r' k = None)"
    using s by (auto simp: scanned_def)
  have "content r' k = None" if k: "is_job_key k" for k
  proof (rule ccontr)
    assume n: "content r' k \<noteq> None"
    then have "\<forall>(s, ks) \<in> set tr. content s k \<noteq> None" using tr(2) by (fastforce simp: map_le_def dom_def)
    then have "\<exists>(s, ks) \<in> set tr. k \<in> set ks" using l tr(1) k unfolding redis_laws_def by blast
    then show False using tr(2) n by auto
  qed
  then show "content r' = content r |` {k. \<not> is_job_key k}"
    using o by (auto simp: restrict_map_def fun_eq_iff)
qed


lemma execute_loop_spec:
  assumes l: "redis_laws c content"
  shows "execute_loop c ops pipe r = Some (e, r') \<Longrightarrow>
    (\<forall>k. k \<notin> cmd_key ` set pipe \<longrightarrow> (\<forall>op \<in> set ops. \<not> op_touches op k) \<longrightarrow> content r' k = content r k)
    \<and> (e = None \<longrightarrow> content r' = apply_ops ops (fold apply_cmd pipe (content r)))"
proof (induction ops arbitrary: pipe r)
  case Nil
  then show ?case using flush_spec[OF l, of pipe r e r'] by auto
next
  case (Cons op ops)
  show ?case
  proof (cases "wo_delAll op")
    case False
    define cmd where "cmd = (if wo_del op then CDel (wo_key op) else CSet (wo_key op) (wo_value op) (wo_ttl op))"
    have "execute_loop c ops (pipe @ [cmd]) r = Some (e, r')"
      using Cons.prems False by (simp add: cmd_def split: if_splits)
    moreover have "fold apply_cmd (pipe @ [cmd]) d = op_effect op (fold apply_cmd pipe d)" for d
      using False by (simp add: cmd_def op_effect_def)
    moreover have "cmd_key cmd = wo_key op" by (simp add: cmd_def)
    ultimately show ?thesis using Cons.IH[of "pipe @ [cmd]" r] False by (auto simp: op_touches_def)
  next
    case True
    obtain e1 r1 where f: "flush c pipe r = (e1, r1)" by fastforce
    note fs = flush_spec[OF l f]
    show ?thesis
    proof (cases e1)
      case (Some err)
      then show ?thesis using Cons.prems True f fs by auto
    next
      case None
      obtain e2 r2 where d: "deleteAllJobs c 0 r1 = Some (e2, r2)"
        using Cons.prems True f None by (auto split: option.splits prod.splits)
      note ds = deleteAllJobs_spec[OF l d]
      show ?thesis
      proof (cases e2)
        case (Some err)
        then have "r' = r2" "e \<noteq> None" using Cons.prems True f None d by auto
        then show ?thesis using True fs(1) ds(1) by (auto simp: op_touches_def)
      next
        case None': None
        have x: "execute_loop c ops [] r2 = Some (e, r')" using Cons.prems True f None d None' by simp
        have "content r2 = op_effect op (fold apply_cmd pipe (content r))"
          using ds(2) fs(2) None None' True by (simp add: op_effect_def)
        then show ?thesis using Cons.IH[OF x] fs(1) ds(1) True by (auto simp: op_touches_def)
      qed
    qed
  qed
qed

text \<open>An attempt, complete or not: after a failure the same operations, or their coalesced
  form, still lead to the same state.\<close>

lemma execute_spec:
  assumes l: "redis_laws c content" and x: "execute c ops r = Some (e, r')"
  shows "e = None \<Longrightarrow> content r' = apply_ops ops (content r)"
    "\<forall>op \<in> set ops. job_op op \<Longrightarrow> apply_ops (coalesce ops) (content r') = apply_ops ops (content r)"
proof -
  note s = execute_loop_spec[OF l x[unfolded execute_def]]
  show "e = None \<Longrightarrow> content r' = apply_ops ops (content r)" using s by simp
  have "apply_ops ops (content r') = apply_ops ops (content r)"
    using s by (intro apply_ops_redo) simp
  then show "\<forall>op \<in> set ops. job_op op \<Longrightarrow> apply_ops (coalesce ops) (content r') = apply_ops ops (content r)"
    using coalesce_effect by simp
qed

section \<open>The writer converges\<close>

definition backlog :: "writer \<Rightarrow> writeOp list" where
  "backlog w = w_retry w @ w_queue w"

text \<open>The operations accepted: those pushed before the stop.\<close>

fun accepted :: "bool \<Rightarrow> writer_event list \<Rightarrow> writeOp list" where
  "accepted shut [] = []"
| "accepted shut (EPush op # es) = (if shut then [] else [op]) @ accepted shut es"
| "accepted shut (EStop # es) = accepted True es"
| "accepted shut (_ # es) = accepted shut es"

definition writer_inv :: "writer \<Rightarrow> bool" where
  "writer_inv w \<longleftrightarrow> (\<forall>op \<in> set (backlog w). job_op op)
    \<and> (w_ok w \<longrightarrow> w_retry w = [])
    \<and> (w_exited w \<longrightarrow> w_abandon w \<or> backlog w = [])
    \<and> (w_exited w \<longrightarrow> w_closed w) \<and> (w_abandon w \<longrightarrow> w_closed w)"

lemma loop_turn_cases:
  assumes "loop_turn c (w, r) = Some (go, w', r')" and "turn_ready w"
  obtains (done_all) "backlog w = []" "w_closed w" "w' = w\<lparr>w_exited := True\<rparr>" "r' = r"
  | (attempt) n err where "n = min (length (w_queue w)) maxBatch"
      "execute c (w_retry w @ take n (w_queue w)) r = Some (err, r')"
      "w_queue w' = drop n (w_queue w)" "w_exited w' = w_exited w" "w_closed w' = w_closed w"
      "w_abandon w' = w_abandon w" "w_pushed w' = w_pushed w" "w_done w' = u64 (w_done w + n)"
      "w_running w' = w_running w"
      "w_retry w' = (if err = None then [] else coalesce (w_retry w @ take n (w_queue w)))"
      "w_ok w' = (err = None)"
proof -
  define n where "n = min (length (w_queue w)) maxBatch"
  show thesis
  proof (cases "n = 0 \<and> w_retry w = []")
    case True
    then have b: "backlog w = []" by (simp add: backlog_def n_def maxBatch_def min_def split: if_splits)
    moreover have "w_closed w" using assms(2) b by (auto simp: turn_ready_def idle_def backlog_def)
    ultimately show thesis using True assms(1)
      by (intro done_all) (auto simp: loop_turn_def n_def[symmetric] Let_def backlog_def)
  next
    case False
    then obtain err r1 where x: "execute c (w_retry w @ take n (w_queue w)) r = Some (err, r1)"
      using assms(1) by (auto simp: loop_turn_def n_def[symmetric] Let_def split: option.splits prod.splits)
    then show thesis using False assms(1)
      by (intro attempt[of n err])
        (auto simp: loop_turn_def n_def[symmetric] Let_def split: if_splits)
  qed
qed

lemma writer_step_inv:
  assumes l: "redis_laws c content" and i: "writer_inv w" and s: "writer_step c e (w, r) = Some (w', r')"
    and j: "\<And>op. e = EPush op \<Longrightarrow> job_op op"
  shows "writer_inv w'"
    "apply_ops (backlog w') (content r') = apply_ops (backlog w @ accepted (w_closed w) [e]) (content r)"
    "w_closed w' \<longleftrightarrow> w_closed w \<or> e = EStop"
proof -
  have "writer_inv w' \<and>
    apply_ops (backlog w') (content r') = apply_ops (backlog w @ accepted (w_closed w) [e]) (content r)
    \<and> (w_closed w' \<longleftrightarrow> w_closed w \<or> e = EStop)"
  proof (cases e)
    case ETurn
    then have t: "turn_ready w" and lt: "map_option snd (loop_turn c (w, r)) = Some (w', r')"
      using s by (auto simp: writer_step_def split: if_splits)
    then obtain go where lt': "loop_turn c (w, r) = Some (go, w', r')" by auto
    from lt' t show ?thesis
    proof (cases rule: loop_turn_cases)
      case done_all
      then show ?thesis using i ETurn by (auto simp: writer_inv_def backlog_def)
    next
      case (attempt n err)
      let ?ops = "w_retry w @ take n (w_queue w)"
      have b: "backlog w = ?ops @ w_queue w'" using attempt(3) by (simp add: backlog_def)
      have jo: "\<forall>op \<in> set ?ops. job_op op" using i b by (auto simp: writer_inv_def)
      have "apply_ops (w_retry w') (content r') = apply_ops ?ops (content r)"
        using execute_spec[OF l attempt(2)] jo attempt(10) by auto
      then have a: "apply_ops (backlog w') (content r') = apply_ops (backlog w) (content r)"
        unfolding b by (simp add: backlog_def)
      have "set (w_retry w') \<subseteq> set ?ops"
      proof (cases "err = None")
        case False
        then show ?thesis using attempt(10) coalesce_subset[of ?ops] by simp
      qed (use attempt(10) in simp)
      then have "set (backlog w') \<subseteq> set (backlog w)"
        unfolding b backlog_def[of w'] set_append[of _ "w_queue w'"] by blast
      then have "\<forall>op \<in> set (backlog w'). job_op op" using i unfolding writer_inv_def by blast
      moreover have "\<not> w_exited w'" using t attempt(4) by (simp add: turn_ready_def)
      ultimately have "writer_inv w'" using i attempt(5,6,10,11) by (auto simp: writer_inv_def)
      then show ?thesis using a attempt(5) ETurn by simp
    qed
  next
    case (EPush op)
    then have w': "w' = push op w" "r' = r" using s by (simp_all add: writer_step_def)
    show ?thesis
    proof (cases "w_closed w")
      case True
      then show ?thesis using w' i EPush by (simp add: push_def)
    next
      case False
      then have "backlog w' = backlog w @ [op]" "w_closed w' = w_closed w" "w_ok w' = w_ok w"
        "w_retry w' = w_retry w" "w_exited w' = w_exited w" "w_abandon w' = w_abandon w"
        using w' by (simp_all add: push_def backlog_def)
      then show ?thesis using i j EPush False w'(2) by (simp add: writer_inv_def)
    qed
  next
    case EBackoffOver
    then have "w' = backoff_over w" "r' = r" using s by (simp_all add: writer_step_def split: if_splits)
    then show ?thesis using i EBackoffOver by (simp add: writer_inv_def backoff_over_def backlog_def)
  next
    case EStop
    then have "w' = stop_close w" "r' = r" using s by (simp_all add: writer_step_def)
    then show ?thesis using i EStop by (simp add: writer_inv_def stop_close_def backlog_def)
  next
    case EStopTimeout
    then have "w' = stop_timeout w" "r' = r" "w_closed w" using s i
      by (simp_all add: writer_step_def split: if_splits)
    then show ?thesis using i EStopTimeout by (simp add: writer_inv_def stop_timeout_def backlog_def)
  next
    case EGiveUp
    then have "w' = give_up w" "r' = r" "w_abandon w" using s by (simp_all add: writer_step_def split: if_splits)
    then show ?thesis using i EGiveUp by (simp add: writer_inv_def give_up_def backlog_def)
  qed
  then show "writer_inv w'"
    "apply_ops (backlog w') (content r') = apply_ops (backlog w @ accepted (w_closed w) [e]) (content r)"
    "w_closed w' \<longleftrightarrow> w_closed w \<or> e = EStop" by blast+
qed


text \<open>
  The state after the operations \<open>A\<close> were accepted on a server that held \<open>d\<close>: the first
  \<open>w_done\<close> were attempted, the others wait in the queue, and writing what is to be retried
  gives the effect of the attempted ones.
\<close>

definition tracks :: "('r \<Rightarrow> db) \<Rightarrow> db \<Rightarrow> writeOp list \<Rightarrow> writer \<times> 'r \<Rightarrow> bool" where
  "tracks content d A = (\<lambda>(w, r). writer_inv w \<and> w_running w \<and> w_pushed w = length A
    \<and> w_done w \<le> length A \<and> w_queue w = drop (w_done w) A
    \<and> apply_ops (w_retry w) (content r) = apply_ops (take (w_done w) A) d)"

lemma tracks_step:
  assumes l: "redis_laws c content" and t: "tracks content d A (w, r)"
    and s: "writer_step c e (w, r) = Some (w', r')" and j: "\<And>op. e = EPush op \<Longrightarrow> job_op op"
    and big: "length (A @ accepted (w_closed w) [e]) < 2 ^ 64"
  shows "tracks content d (A @ accepted (w_closed w) [e]) (w', r')"
proof -
  have i: "writer_inv w" "w_running w" "w_pushed w = length A" "w_done w \<le> length A"
    "w_queue w = drop (w_done w) A" "apply_ops (w_retry w) (content r) = apply_ops (take (w_done w) A) d"
    using t by (simp_all add: tracks_def)
  note i' = writer_step_inv(1)[OF l i(1) s j]
  show ?thesis
  proof (cases e)
    case (EPush op)
    then have w': "w' = push op w" "r' = r" using s by (simp_all add: writer_step_def)
    then show ?thesis using i i' big EPush by (simp add: tracks_def push_def split: if_splits)
  next
    case ETurn
    then have tr: "turn_ready w" and "map_option snd (loop_turn c (w, r)) = Some (w', r')"
      using s by (auto simp: writer_step_def split: if_splits)
    then obtain go where "loop_turn c (w, r) = Some (go, w', r')" by auto
    from this tr show ?thesis
    proof (cases rule: loop_turn_cases)
      case done_all
      then show ?thesis using i i' ETurn by (simp add: tracks_def)
    next
      case (attempt n err)
      let ?ops = "w_retry w @ take n (w_queue w)"
      have jo: "\<forall>op \<in> set ?ops. job_op op"
        using i(1) by (auto simp: writer_inv_def backlog_def dest: in_set_takeD)
      have "n \<le> length A - w_done w" using attempt(1) i(5) by simp
      then have n: "w_done w + n \<le> length A" using i(4) by simp
      then have dn: "w_done w' = w_done w + n" using attempt(8) big ETurn by simp
      have "apply_ops (w_retry w') (content r') = apply_ops ?ops (content r)"
        using execute_spec[OF l attempt(2)] jo attempt(10) by auto
      also have "\<dots> = apply_ops (take (w_done w + n) A) d" using i(5,6) by (simp add: take_add)
      finally show ?thesis using i i' n dn attempt(3,7,9) ETurn by (simp add: tracks_def add.commute)
    qed
  next
    case EBackoffOver
    then show ?thesis using s i i' by (auto simp: tracks_def writer_step_def backoff_over_def split: if_splits)
  next
    case EStop
    then show ?thesis using s i i' by (auto simp: tracks_def writer_step_def stop_close_def)
  next
    case EStopTimeout
    then show ?thesis using s i i' by (auto simp: tracks_def writer_step_def stop_timeout_def split: if_splits)
  next
    case EGiveUp
    then show ?thesis using s i i' by (auto simp: tracks_def writer_step_def give_up_def split: if_splits)
  qed
qed

lemma accepted_Cons: "accepted shut (e # es) = accepted shut [e] @ accepted (shut \<or> e = EStop) es"
  by (cases e) auto

lemma accepted_append: "accepted shut (a @ b) = accepted shut a @ accepted (shut \<or> EStop \<in> set a) b"
proof (induction a arbitrary: shut)
  case (Cons e a)
  then show ?case using accepted_Cons[of shut e "a @ b"] accepted_Cons[of shut e a]
    by (simp add: disj_assoc eq_commute[of EStop e])
qed simp

lemma tracks_run:
  assumes l: "redis_laws c content"
  shows "tracks content d A (w, r) \<Longrightarrow> writer_run c es (w, r) = Some (w', r') \<Longrightarrow>
    \<forall>op. EPush op \<in> set es \<longrightarrow> job_op op \<Longrightarrow>
    length (A @ accepted (w_closed w) es) < 2 ^ 64 \<Longrightarrow>
    tracks content d (A @ accepted (w_closed w) es) (w', r')"
proof (induction es arbitrary: A w r)
  case (Cons e es)
  obtain w1 r1 where s: "writer_step c e (w, r) = Some (w1, r1)"
    and rr: "writer_run c es (w1, r1) = Some (w', r')"
    using Cons.prems(2) by (auto split: option.splits)
  have j: "\<And>op. e = EPush op \<Longrightarrow> job_op op" using Cons.prems(3) by simp
  have i: "writer_inv w" using Cons.prems(1) by (simp add: tracks_def)
  have c1: "w_closed w1 \<longleftrightarrow> w_closed w \<or> e = EStop" using writer_step_inv(3)[OF l i s j] .
  have a: "A @ accepted (w_closed w) (e # es) = (A @ accepted (w_closed w) [e]) @ accepted (w_closed w1) es"
    using accepted_Cons[of "w_closed w" e es] c1 by simp
  have "tracks content d (A @ accepted (w_closed w) [e]) (w1, r1)"
    using tracks_step[OF l Cons.prems(1) s j] Cons.prems(4) a by simp
  moreover have "\<forall>op. EPush op \<in> set es \<longrightarrow> job_op op" using Cons.prems(3) by simp
  ultimately show ?case using Cons.IH[OF _ rr] Cons.prems(4) unfolding a by (simp only:)
qed simp

definition started_writer :: writer where
  "started_writer = snd (writer_start newWriter)"

lemma tracks_start: "tracks content (content r) [] (started_writer, r)"
  by (simp add: tracks_def started_writer_def writer_start_def newWriter_def writer_inv_def backlog_def)

lemma writer_converges:
  assumes l: "redis_laws c content" and r: "writer_run c es (started_writer, r) = Some (w', r')"
    and j: "\<forall>op. EPush op \<in> set es \<longrightarrow> job_op op" and big: "length (accepted False es) < 2 ^ 64"
  shows "backlog w' = [] \<Longrightarrow> content r' = apply_ops (accepted False es) (content r)"
    "w_exited w' \<Longrightarrow> \<not> w_abandon w' \<Longrightarrow> backlog w' = []"
    "healthy w' \<Longrightarrow> content r' = apply_ops (take (w_done w') (accepted False es)) (content r)"
    "w_pushed w' = length (accepted False es)"
proof -
  have nc: "w_closed started_writer = False"
    by (simp add: started_writer_def writer_start_def newWriter_def)
  have t: "tracks content (content r) (accepted False es) (w', r')"
    using tracks_run[OF l tracks_start r j] big nc by simp
  then have f: "writer_inv w'" "w_pushed w' = length (accepted False es)" "w_done w' \<le> length (accepted False es)"
    "w_queue w' = drop (w_done w') (accepted False es)"
    "apply_ops (w_retry w') (content r') = apply_ops (take (w_done w') (accepted False es)) (content r)"
    by (simp_all add: tracks_def)
  show "content r' = apply_ops (accepted False es) (content r)" if "backlog w' = []"
  proof -
    have "w_retry w' = []" "length (accepted False es) \<le> w_done w'" using that f(4) by (simp_all add: backlog_def)
    then show ?thesis using f(5) by simp
  qed
  show "w_exited w' \<Longrightarrow> \<not> w_abandon w' \<Longrightarrow> backlog w' = []" using f(1) by (auto simp: writer_inv_def)
  show "healthy w' \<Longrightarrow> content r' = apply_ops (take (w_done w') (accepted False es)) (content r)"
    using f(1,5) by (simp add: writer_inv_def healthy_def)
  show "w_pushed w' = length (accepted False es)" by (rule f(2))
qed

text \<open>When the server answers, the loop catches up.\<close>

lemma writer_catches_up:
  assumes up: "\<And>ops r. \<exists>r'. execute c ops r = Some (None, r')"
  shows "w_running w \<Longrightarrow> \<not> w_exited w \<Longrightarrow> \<not> w_waiting w \<Longrightarrow>
    \<exists>k w' r'. writer_run c (replicate k ETurn) (w, r) = Some (w', r') \<and> backlog w' = []"
proof (induction "length (backlog w)" arbitrary: w r rule: less_induct)
  case less
  show ?case
  proof (cases "backlog w = []")
    case True
    then show ?thesis by (intro exI[of _ 0] exI[of _ w] exI[of _ r]) simp
  next
    case False
    define n where "n = min (length (w_queue w)) maxBatch"
    obtain r1 where x: "execute c (w_retry w @ take n (w_queue w)) r = Some (None, r1)"
      using up by blast
    let ?w1 = "w\<lparr>w_queue := drop n (w_queue w), w_done := u64 (w_done w + n), w_retry := [],
      w_backoff := minBackoff, w_ok := True\<rparr>"
    have nz: "\<not> (n = 0 \<and> w_retry w = [])" using False by (auto simp: n_def maxBatch_def backlog_def)
    have "turn_ready w" using less.prems False by (auto simp: turn_ready_def idle_def backlog_def)
    then have s: "writer_step c ETurn (w, r) = Some (?w1, r1)"
      using x nz by (auto simp: writer_step_def loop_turn_def n_def[symmetric] Let_def)
    have "length (backlog ?w1) < length (backlog w)"
    proof (cases "n = 0")
      case True
      then show ?thesis using nz by (simp add: backlog_def)
    next
      case n0: False
      then have "n \<le> length (w_queue w)" by (simp add: n_def)
      then show ?thesis using n0 by (simp add: backlog_def)
    qed
    then obtain k w' r' where k: "writer_run c (replicate k ETurn) (?w1, r1) = Some (w', r')" "backlog w' = []"
      using less.hyps[of ?w1 r1] less.prems by auto
    then show ?thesis using s by (intro exI[of _ "Suc k"] exI[of _ w'] exI[of _ r']) simp
  qed
qed

end
