(* ===== verification/Redis.thy ===== *)
theory Redis
  imports Backend RedisWriter Lifecycle "HOL-Library.Char_ord" "HOL-Library.List_Lexorder"
begin

text \<open>
  The Redis provider (\<^verbatim>\<open>src/jobbackendprovider/redisprovider/redisprovider.go\<close>): each
  event of the service becomes an operation of the writer; loading reads the keys and the
  values in chunks. Parameters: the text of an id, the JSON codec, and the client of
  \<open>RedisWriter\<close>.
\<close>

record redis_env =
  re_uuid :: "JobUUID \<Rightarrow> string"
  re_json :: "job \<Rightarrow> string + string"
  re_unjson :: "string \<Rightarrow> string + job"

record redis =
  rd_maxJobs :: uint
  rd_finishedJobTTL :: uint
  rd_writer :: writer
  rd_lc :: lifecycle
  rd_closed :: bool
  rd_chan :: "backend_event list"
  rd_restore :: bool

text \<open>\<^verbatim>\<open>Init\<close> makes the writer; \<open>url\<close> is the answer of \<^verbatim>\<open>redis.ParseURL\<close>.\<close>

definition NewRedisJobBackendProvider :: "uint \<Rightarrow> int64 \<Rightarrow> string option \<Rightarrow> string + redis" where
  "NewRedisJobBackendProvider maxJobs finishedJobTTL url =
    (if maxJobs = 0 then Inl ''invalid value for configuration backend.redis.maxJobs: 0''
     else case url of
         Some err \<Rightarrow> Inl (''error while parsing redis URL: '' @ err)
       | None \<Rightarrow> Inr \<lparr>rd_maxJobs = maxJobs, rd_finishedJobTTL = nat (max 0 finishedJobTTL),
           rd_writer = newWriter, rd_lc = Lifecycle.New, rd_closed = False, rd_chan = [],
           rd_restore = False\<rparr>)"

definition rd_Init :: "redis \<Rightarrow> redis" where
  "rd_Init p = p\<lparr>rd_writer := newWriter\<rparr>"

definition JobUUID2RedisKey :: "redis_env \<Rightarrow> JobUUID \<Rightarrow> rkey" where
  "JobUUID2RedisKey e u = ''job:'' @ re_uuid e u"

definition rd_push :: "writeOp \<Rightarrow> redis \<Rightarrow> redis" where
  "rd_push op p = p\<lparr>rd_writer := push op (rd_writer p)\<rparr>"

text \<open>The flag is an error of the JSON encoder (logged; nothing is queued).\<close>

definition rd_saveJob :: "redis_env \<Rightarrow> job \<Rightarrow> nat \<Rightarrow> redis \<Rightarrow> bool \<times> redis" where
  "rd_saveJob e j ttl p =
    (case re_json e j of
      Inl err \<Rightarrow> (True, p)
    | Inr v \<Rightarrow> (False, rd_push \<lparr>wo_key = JobUUID2RedisKey e (JobUUID j), wo_value = v, wo_ttl = ttl,
        wo_del = False, wo_delAll = False\<rparr> p))"

definition rd_SaveJob :: "redis_env \<Rightarrow> job \<Rightarrow> redis \<Rightarrow> bool \<times> redis" where
  "rd_SaveJob e j p = rd_saveJob e j 0 p"

definition rd_OnJobCanceled :: "redis_env \<Rightarrow> job \<Rightarrow> redis \<Rightarrow> bool \<times> redis" where
  "rd_OnJobCanceled e j p = rd_SaveJob e j p"
definition rd_OnJobFailed :: "redis_env \<Rightarrow> job \<Rightarrow> redis \<Rightarrow> bool \<times> redis" where
  "rd_OnJobFailed e j p = rd_SaveJob e j p"
definition rd_OnJobHidden :: "redis_env \<Rightarrow> job \<Rightarrow> redis \<Rightarrow> bool \<times> redis" where
  "rd_OnJobHidden e j p = rd_SaveJob e j p"
definition rd_OnJobTerminated :: "redis_env \<Rightarrow> job \<Rightarrow> redis \<Rightarrow> bool \<times> redis" where
  "rd_OnJobTerminated e j p = rd_SaveJob e j p"
definition rd_OnJobStarted :: "redis_env \<Rightarrow> job \<Rightarrow> redis \<Rightarrow> bool \<times> redis" where
  "rd_OnJobStarted e j p = rd_SaveJob e j p"
definition rd_OnJobTimeout :: "redis_env \<Rightarrow> job \<Rightarrow> redis \<Rightarrow> bool \<times> redis" where
  "rd_OnJobTimeout e j p = rd_SaveJob e j p"
definition rd_OnJobCreated :: "redis_env \<Rightarrow> job \<Rightarrow> redis \<Rightarrow> bool \<times> redis" where
  "rd_OnJobCreated e j p = rd_SaveJob e j p"
definition rd_OnJobDelayed :: "redis_env \<Rightarrow> job \<Rightarrow> redis \<Rightarrow> bool \<times> redis" where
  "rd_OnJobDelayed e j p = rd_SaveJob e j p"
definition rd_OnJobPending :: "redis_env \<Rightarrow> job \<Rightarrow> redis \<Rightarrow> bool \<times> redis" where
  "rd_OnJobPending e j p = rd_SaveJob e j p"
definition rd_OnJobEnqueued :: "redis_env \<Rightarrow> job \<Rightarrow> redis \<Rightarrow> bool \<times> redis" where
  "rd_OnJobEnqueued e j p = rd_SaveJob e j p"

definition rd_OnJobDeleted :: "redis_env \<Rightarrow> JobUUID \<Rightarrow> redis \<Rightarrow> redis" where
  "rd_OnJobDeleted e u p = rd_push \<lparr>wo_key = JobUUID2RedisKey e u, wo_value = [], wo_ttl = 0,
    wo_del = True, wo_delAll = False\<rparr> p"

definition rd_OnJobSucceeded :: "redis_env \<Rightarrow> job \<Rightarrow> redis \<Rightarrow> bool \<times> redis" where
  "rd_OnJobSucceeded e j p = rd_saveJob e j (rd_finishedJobTTL p) p"

definition rd_OnJobUpdated :: "redis_env \<Rightarrow> job \<Rightarrow> redis \<Rightarrow> bool \<times> redis" where
  "rd_OnJobUpdated e j p = (if IsCompleted j then (False, p) else rd_SaveJob e j p)"

lemmas rd_On_defs = rd_OnJobCanceled_def rd_OnJobFailed_def rd_OnJobHidden_def
  rd_OnJobTerminated_def rd_OnJobStarted_def rd_OnJobTimeout_def rd_OnJobCreated_def
  rd_OnJobDelayed_def rd_OnJobPending_def rd_OnJobEnqueued_def rd_OnJobSucceeded_def
  rd_OnJobUpdated_def rd_SaveJob_def

definition rd_OnJobsDeleted :: "redis \<Rightarrow> redis" where
  "rd_OnJobsDeleted p = rd_push \<lparr>wo_key = [], wo_value = [], wo_ttl = 0, wo_del = False,
    wo_delAll = True\<rparr> p"

definition rd_NotifyChange :: "backend_event \<Rightarrow> redis \<Rightarrow> redis" where
  "rd_NotifyChange ev p = p\<lparr>rd_chan := send_event ev (rd_chan p)\<rparr>"

definition rd_OnAllResourcesUnlocked :: "redis \<Rightarrow> redis" where
  "rd_OnAllResourcesUnlocked p = rd_NotifyChange (job_event EventAllResourcesUnlocked 0) p"

definition rd_OnResourceUnlocked :: "job \<Rightarrow> string \<Rightarrow> redis \<Rightarrow> redis" where
  "rd_OnResourceUnlocked j resource p = rd_NotifyChange
    \<lparr>be_Type = EventResourceUnlocked, be_JobUUID = JobUUID j, be_Resource = Some resource\<rparr> p"

definition rd_SetRestoreFlag :: "bool \<Rightarrow> redis \<Rightarrow> redis" where
  "rd_SetRestoreFlag enabled p = p\<lparr>rd_restore := enabled\<rparr>"

definition rd_GetMaxJobs :: "redis \<Rightarrow> uint" where
  "rd_GetMaxJobs p = rd_maxJobs p"

definition rd_NotifyEvent :: "ServiceEventType \<Rightarrow> redis \<Rightarrow> redis" where
  "rd_NotifyEvent ev p =
    (if rd_restore p then p
     else if ev = ServiceEventJobDeletedAll then rd_OnJobsDeleted p else p)"

definition rd_NotifyJobEvent :: "redis_env \<Rightarrow> job \<Rightarrow> ServiceEventType \<Rightarrow> redis \<Rightarrow> redis" where
  "rd_NotifyJobEvent e j ev p =
    (if rd_restore p then p
     else case ev of
       ServiceEventJobCreated \<Rightarrow> snd (rd_OnJobCreated e j p)
     | ServiceEventJobDelayed \<Rightarrow> snd (rd_OnJobDelayed e j p)
     | ServiceEventJobPending \<Rightarrow> snd (rd_OnJobPending e j p)
     | ServiceEventJobEnqueued \<Rightarrow> snd (rd_OnJobEnqueued e j p)
     | ServiceEventJobDeleted \<Rightarrow> rd_OnJobDeleted e (JobUUID j) p
     | ServiceEventJobStarted \<Rightarrow> snd (rd_OnJobStarted e j p)
     | ServiceEventJobSucceeded \<Rightarrow> snd (rd_OnJobSucceeded e j p)
     | ServiceEventJobCanceled \<Rightarrow> snd (rd_OnJobCanceled e j p)
     | ServiceEventJobFailed \<Rightarrow> snd (rd_OnJobFailed e j p)
     | ServiceEventJobHidden \<Rightarrow> snd (rd_OnJobHidden e j p)
     | ServiceEventJobTerminated \<Rightarrow> snd (rd_OnJobTerminated e j p)
     | _ \<Rightarrow> p)"

fun rd_call :: "redis_env \<Rightarrow> notif \<Rightarrow> redis \<Rightarrow> redis" where
  "rd_call e (NJob j ev) p = rd_NotifyJobEvent e j ev p"
| "rd_call e (NEvent ev) p = rd_NotifyEvent ev p"
| "rd_call e (NBackendJobUpdated j) p = snd (rd_OnJobUpdated e j p)"
| "rd_call e NBackendAllResourcesUnlocked p = rd_OnAllResourcesUnlocked p"
| "rd_call e (NBackendResourceUnlocked j r) p = rd_OnResourceUnlocked j r p"
| "rd_call e (NRestoreFlag b) p = rd_SetRestoreFlag b p"
| "rd_call e _ p = p"

section \<open>Reading\<close>

definition rd_unavailable :: "string \<Rightarrow> JobUUID \<Rightarrow> string \<Rightarrow> APIError" where
  "rd_unavailable msg u err = api_error msg ErrorDatabaseUnavailable StatusServiceUnavailable u (Some err)"

definition rd_JobExists :: "'r redis_client \<Rightarrow> redis_env \<Rightarrow> JobUUID \<Rightarrow> 'r \<Rightarrow> APIError + bool" where
  "rd_JobExists c e u r =
    (case rc_exists c (JobUUID2RedisKey e u) r of
      Inl err \<Rightarrow> Inl (rd_unavailable ''cannot create job'' u ''error checking if job exists in Redis'')
    | Inr n \<Rightarrow> Inr (n > 0))"

text \<open>\<open>rc_keys\<close> is what the iterator of the client returns for the pattern.\<close>

definition scanJobKeys :: "'r redis_client \<Rightarrow> 'r \<Rightarrow> string + rkey list" where
  "scanJobKeys c r = (case rc_keys c r of Inl err \<Rightarrow> Inl err | Inr ks \<Rightarrow> Inr (remdups_adj (sort ks)))"

definition mgetCount :: nat where "mgetCount = 500"

text \<open>The values of one chunk; a key that is gone (\<open>None\<close>) is skipped.\<close>

fun decode_values :: "redis_env \<Rightarrow> string option list \<Rightarrow> (JobUUID, job) gomap \<Rightarrow> APIError + (JobUUID, job) gomap" where
  "decode_values e [] m = Inr m"
| "decode_values e (None # vs) m = decode_values e vs m"
| "decode_values e (Some v # vs) m =
    (case NewJob (re_unjson e v) of
      Inl err \<Rightarrow> Inl (api_error ''cannot load job'' ErrorCantCreateJob StatusBadRequest 0 (Some (Message err)))
    | Inr j \<Rightarrow> decode_values e vs (AList.update (JobUUID j) j m))"

function getJobs_loop :: "'r redis_client \<Rightarrow> redis_env \<Rightarrow> rkey list \<Rightarrow> 'r \<Rightarrow> (JobUUID, job) gomap
    \<Rightarrow> APIError + (JobUUID, job) gomap" where
  "getJobs_loop c e ks r m =
    (if ks = [] then Inr m
     else case rc_mget c (take mgetCount ks) r of
         Inl err \<Rightarrow> Inl (rd_unavailable ''cannot load job'' 0 ''error getting job from Redis'')
       | Inr vs \<Rightarrow> (case decode_values e vs m of
           Inl err \<Rightarrow> Inl err
         | Inr m \<Rightarrow> getJobs_loop c e (drop mgetCount ks) r m))"
  by pat_completeness auto
termination
  by (relation "measure (\<lambda>(c, e, ks, r, m). length ks)") (auto simp: mgetCount_def)

declare getJobs_loop.simps [simp del]

definition rd_getJobs :: "'r redis_client \<Rightarrow> redis_env \<Rightarrow> rkey list \<Rightarrow> 'r \<Rightarrow> APIError + (JobUUID, job) gomap" where
  "rd_getJobs c e ks r = getJobs_loop c e ks r []"

definition rd_LoadJobs :: "'r redis_client \<Rightarrow> redis_env \<Rightarrow> 'r \<Rightarrow> redis
    \<Rightarrow> (APIError + (JobUUID, job) gomap) \<times> redis" where
  "rd_LoadJobs c e r p =
    (case scanJobKeys c r of
      Inl err \<Rightarrow> (Inl (rd_unavailable ''cannot load jobs'' 0 ''error getting job keys from Redis''), p)
    | Inr ks \<Rightarrow> (case rd_getJobs c e ks r of
        Inl err \<Rightarrow> (Inl err, p)
      | Inr m \<Rightarrow> (Inr m, p\<lparr>rd_writer := snd (writer_start (rd_writer p))\<rparr>)))"

text \<open>What \<^verbatim>\<open>WaitWrites\<close> waits for: the end of \<open>wait_over\<close> on the target it takes.\<close>

definition rd_WaitWrites :: "redis \<Rightarrow> uint" where
  "rd_WaitWrites p = wait_target (rd_writer p)"

text \<open>
  \<^verbatim>\<open>Stop\<close>, called by the service and again by the shutdown of the observers: the loop of
  \<^verbatim>\<open>Run\<close> is stopped each time, the writer once.
\<close>

definition rd_Stop :: "redis \<Rightarrow> redis" where
  "rd_Stop p =
    (let p = p\<lparr>rd_lc := Stop_close (snd (Stop_mark (rd_lc p)))\<rparr>
     in if rd_closed p then p else p\<lparr>rd_closed := True, rd_writer := stop_close (rd_writer p)\<rparr>)"

text \<open>\<open>opened\<close> is false before \<^verbatim>\<open>Init\<close> made the client.\<close>

definition rd_Healthcheck :: "'r redis_client \<Rightarrow> bool \<Rightarrow> 'r \<Rightarrow> redis \<Rightarrow> bool" where
  "rd_Healthcheck c opened r p =
    (if \<not> opened then True else if \<not> rc_ping c r then False else healthy (rd_writer p))"


section \<open>The interface\<close>

text \<open>What the server holds once the writer has nothing left to write; \<open>d\<close> is what it holds now.\<close>

definition rd_target :: "redis \<times> db \<Rightarrow> db" where
  "rd_target = (\<lambda>(p, d). apply_ops (backlog (rd_writer p)) d)"

definition rd_ids :: "redis_env \<Rightarrow> redis \<times> db \<Rightarrow> JobUUID set" where
  "rd_ids e pd = {u. rd_target pd (JobUUID2RedisKey e u) \<noteq> None}"

definition env_ok :: "redis_env \<Rightarrow> bool" where
  "env_ok e \<longleftrightarrow> inj (re_uuid e) \<and> (\<forall>j. \<exists>v. re_json e j = Inr v)"

definition rd_wf :: "redis_env \<Rightarrow> redis \<times> db \<Rightarrow> bool" where
  "rd_wf e = (\<lambda>(p, d). env_ok e \<and> \<not> w_closed (rd_writer p) \<and> finite (dom d))"

definition rd_step :: "redis_env \<Rightarrow> notif \<Rightarrow> redis \<times> db \<Rightarrow> redis \<times> db" where
  "rd_step e n = (\<lambda>(p, d). (rd_call e n p, d))"

lemma key_inj: "env_ok e \<Longrightarrow> JobUUID2RedisKey e u = JobUUID2RedisKey e v \<longleftrightarrow> u = v"
  by (auto simp: JobUUID2RedisKey_def env_ok_def inj_eq)

lemma key_job [simp]: "is_job_key (JobUUID2RedisKey e u)"
  by (simp add: is_job_key_def JobUUID2RedisKey_def)

lemma rd_push_sel [simp]:
  "rd_maxJobs (rd_push op p) = rd_maxJobs p" "rd_restore (rd_push op p) = rd_restore p"
  "rd_finishedJobTTL (rd_push op p) = rd_finishedJobTTL p"
  "w_closed (rd_writer (rd_push op p)) = w_closed (rd_writer p)"
  by (simp_all add: rd_push_def push_def)

lemma rd_push_target:
  "\<not> w_closed (rd_writer p) \<Longrightarrow> rd_target (rd_push op p, d) = op_effect op (rd_target (p, d))"
  by (simp add: rd_target_def rd_push_def push_def backlog_def)

text \<open>Every call queues at most one operation, determined by the notification.\<close>

definition set_op :: "redis_env \<Rightarrow> nat \<Rightarrow> job \<Rightarrow> writeOp" where
  "set_op e ttl j = \<lparr>wo_key = JobUUID2RedisKey e (JobUUID j),
    wo_value = (case re_json e j of Inr v \<Rightarrow> v | Inl _ \<Rightarrow> []), wo_ttl = ttl, wo_del = False, wo_delAll = False\<rparr>"

lemma rd_saveJob_push: "env_ok e \<Longrightarrow> rd_saveJob e j ttl p = (False, rd_push (set_op e ttl j) p)"
proof -
  assume "env_ok e"
  then obtain v where "re_json e j = Inr v" by (auto simp: env_ok_def)
  then show ?thesis by (simp add: rd_saveJob_def set_op_def)
qed

fun saved_event :: "ServiceEventType \<Rightarrow> bool" where
  "saved_event ServiceEventJobCreated = True"
| "saved_event ServiceEventJobDelayed = True"
| "saved_event ServiceEventJobPending = True"
| "saved_event ServiceEventJobEnqueued = True"
| "saved_event ServiceEventJobStarted = True"
| "saved_event ServiceEventJobSucceeded = True"
| "saved_event ServiceEventJobCanceled = True"
| "saved_event ServiceEventJobFailed = True"
| "saved_event ServiceEventJobHidden = True"
| "saved_event ServiceEventJobTerminated = True"
| "saved_event _ = False"

lemma rd_NotifyJobEvent_push:
  "env_ok e \<Longrightarrow> rd_NotifyJobEvent e j ev p =
    (if rd_restore p then p
     else if ev = ServiceEventJobDeleted then rd_OnJobDeleted e (JobUUID j) p
     else if saved_event ev
     then rd_push (set_op e (if ev = ServiceEventJobSucceeded then rd_finishedJobTTL p else 0) j) p
     else p)"
  by (cases ev) (simp_all add: rd_NotifyJobEvent_def rd_On_defs rd_saveJob_push)

lemma rd_call_sel:
  "rd_maxJobs (rd_call e n p) = rd_maxJobs p"
  "rd_restore (rd_call e n p) = (case n of NRestoreFlag b \<Rightarrow> b | _ \<Rightarrow> rd_restore p)"
  "w_closed (rd_writer (rd_call e n p)) = w_closed (rd_writer p)"
proof -
  have s: "rd_maxJobs (snd (rd_saveJob e j ttl p)) = rd_maxJobs p
      \<and> rd_restore (snd (rd_saveJob e j ttl p)) = rd_restore p
      \<and> w_closed (rd_writer (snd (rd_saveJob e j ttl p))) = w_closed (rd_writer p)" for j ttl
    by (simp add: rd_saveJob_def split: sum.splits)
  have "rd_maxJobs (rd_NotifyJobEvent e j ev p) = rd_maxJobs p
      \<and> rd_restore (rd_NotifyJobEvent e j ev p) = rd_restore p
      \<and> w_closed (rd_writer (rd_NotifyJobEvent e j ev p)) = w_closed (rd_writer p)" for j ev
    using s by (cases ev) (simp_all add: rd_NotifyJobEvent_def rd_On_defs rd_OnJobDeleted_def)
  then have "rd_maxJobs (rd_call e n p) = rd_maxJobs p
      \<and> rd_restore (rd_call e n p) = (case n of NRestoreFlag b \<Rightarrow> b | _ \<Rightarrow> rd_restore p)
      \<and> w_closed (rd_writer (rd_call e n p)) = w_closed (rd_writer p)"
    using s by (cases n) (simp_all add: rd_NotifyEvent_def rd_OnJobsDeleted_def rd_OnJobUpdated_def
        rd_SaveJob_def rd_OnAllResourcesUnlocked_def rd_OnResourceUnlocked_def rd_NotifyChange_def
        rd_SetRestoreFlag_def)
  then show "rd_maxJobs (rd_call e n p) = rd_maxJobs p"
    "rd_restore (rd_call e n p) = (case n of NRestoreFlag b \<Rightarrow> b | _ \<Rightarrow> rd_restore p)"
    "w_closed (rd_writer (rd_call e n p)) = w_closed (rd_writer p)" by blast+
qed

lemma rd_ids_set:
  assumes "rd_wf e (p, d)"
  shows "rd_ids e (rd_push (set_op e ttl j) p, d) = insert (JobUUID j) (rd_ids e (p, d))"
  using assms key_inj[of e] by (auto simp: rd_wf_def rd_ids_def rd_push_target op_effect_def set_op_def)

lemma rd_ids_del:
  assumes "rd_wf e (p, d)"
  shows "rd_ids e (rd_OnJobDeleted e u p, d) = rd_ids e (p, d) - {u}"
  using assms key_inj[of e] by (auto simp: rd_wf_def rd_ids_def rd_OnJobDeleted_def rd_push_target op_effect_def)

lemma finite_dom_effect: "finite (dom d) \<Longrightarrow> finite (dom (op_effect op d))"
  by (simp add: op_effect_def)

lemma finite_dom_apply: "finite (dom d) \<Longrightarrow> finite (dom (apply_ops ops d))"
  by (induction ops arbitrary: d) (simp_all add: finite_dom_effect)

interpretation rd: job_ids "rd_ids e" "\<lambda>(p, d). rd_restore p" "rd_step e" "\<lambda>(p, d). rd_maxJobs p" "rd_wf e" for e
proof unfold_locales
  fix pd :: "redis \<times> db" and n j ev b
  obtain p d where pd: "pd = (p, d)" by fastforce
  show "rd_wf e (rd_step e n pd)" if "rd_wf e pd" for n
    using that by (simp add: pd rd_wf_def rd_step_def rd_call_sel)
  show "(case rd_step e n pd of (p, d) \<Rightarrow> rd_maxJobs p) = (case pd of (p, d) \<Rightarrow> rd_maxJobs p)"
    by (simp add: pd rd_step_def rd_call_sel)
  show "finite (rd_ids e pd)" if "rd_wf e pd"
  proof -
    have "rd_ids e pd \<subseteq> JobUUID2RedisKey e -` dom (rd_target pd)" by (auto simp: rd_ids_def)
    moreover have "finite (dom (rd_target pd))" using that
      by (simp add: pd rd_wf_def rd_target_def finite_dom_apply)
    moreover have "inj (JobUUID2RedisKey e)" using that key_inj[of e] by (auto simp: pd rd_wf_def inj_def)
    ultimately show ?thesis by (meson finite_subset finite_vimageI)
  qed
  show "(case rd_step e n pd of (p, d) \<Rightarrow> rd_restore p) =
      (case n of NRestoreFlag b \<Rightarrow> b | _ \<Rightarrow> (case pd of (p, d) \<Rightarrow> rd_restore p))" for n
    using rd_call_sel(2)[of e n p] by (cases n) (simp_all add: pd rd_step_def)
  show "rd_ids e (rd_step e (NJob j ServiceEventJobCreated) pd) = insert (JobUUID j) (rd_ids e pd)"
    if "rd_wf e pd" "\<not> (case pd of (p, d) \<Rightarrow> rd_restore p)"
    using that rd_ids_set[of e p d] by (simp add: pd rd_step_def rd_NotifyJobEvent_push rd_wf_def)
  show "rd_ids e (rd_step e (NJob j ServiceEventJobDeleted) pd) = rd_ids e pd - {JobUUID j}"
    if "rd_wf e pd" "\<not> (case pd of (p, d) \<Rightarrow> rd_restore p)"
    using that rd_ids_del[of e p d] by (simp add: pd rd_step_def rd_NotifyJobEvent_push rd_wf_def)
  show "rd_ids e (rd_step e (NJob j ev) pd) = rd_ids e pd"
    if "rd_wf e pd" "ev \<notin> {ServiceEventJobCreated, ServiceEventJobDeleted}" "JobUUID j \<in> rd_ids e pd"
    using that rd_ids_set[of e p d] by (auto simp: pd rd_step_def rd_NotifyJobEvent_push rd_wf_def)
  show "rd_ids e (rd_step e (NJob j ev) pd) = rd_ids e pd"
    if "rd_wf e pd" "case pd of (p, d) \<Rightarrow> rd_restore p"
    using that by (simp add: pd rd_step_def rd_NotifyJobEvent_push rd_wf_def)
  show "rd_ids e (rd_step e (NEvent ServiceEventJobDeletedAll) pd) =
      (if case pd of (p, d) \<Rightarrow> rd_restore p then rd_ids e pd else {})" if "rd_wf e pd"
    using that by (auto simp: pd rd_step_def rd_NotifyEvent_def rd_OnJobsDeleted_def rd_ids_def rd_wf_def
        rd_push_target op_effect_def)
  show "rd_ids e (rd_step e (NBackendJobUpdated j) pd) = rd_ids e pd"
    if "rd_wf e pd" "JobUUID j \<in> rd_ids e pd"
    using that rd_ids_set[of e p d] by (auto simp: pd rd_step_def rd_OnJobUpdated_def rd_SaveJob_def
        rd_saveJob_push rd_wf_def)
  show "rd_ids e (rd_step e n pd) = rd_ids e pd" if "rd_wf e pd" "\<not> stored_change n"
    using that by (cases n) (simp_all add: pd rd_step_def rd_ids_def rd_target_def rd_NotifyEvent_def
        rd_OnAllResourcesUnlocked_def rd_OnResourceUnlocked_def rd_NotifyChange_def)
  show "rd_ids e (rd_step e (NRestoreFlag b) pd) = rd_ids e pd"
    by (simp add: pd rd_step_def rd_ids_def rd_target_def rd_SetRestoreFlag_def)
qed


section \<open>Loading\<close>

text \<open>Reading, as the documentation of SCAN and MGET promises it.\<close>

definition read_laws :: "'r redis_client \<Rightarrow> ('r \<Rightarrow> db) \<Rightarrow> bool" where
  "read_laws c content \<longleftrightarrow>
    (\<forall>r ks. rc_keys c r = Inr ks \<longrightarrow> set ks = {k. is_job_key k \<and> content r k \<noteq> None})
    \<and> (\<forall>r ks vs. rc_mget c ks r = Inr vs \<longrightarrow> vs = map (\<lambda>k. map_option fst (content r k)) ks)"

lemma decode_values_append:
  "decode_values e (a @ b) m = (case decode_values e a m of Inl err \<Rightarrow> Inl err | Inr m' \<Rightarrow> decode_values e b m')"
  by (induction e a m rule: decode_values.induct) (auto split: sum.splits)

text \<open>The chunks do not matter.\<close>

lemma getJobs_chunks:
  assumes l: "read_laws c content" and up: "\<And>ks. \<exists>vs. rc_mget c ks r = Inr vs"
  shows "getJobs_loop c e ks r m = decode_values e (map (\<lambda>k. map_option fst (content r k)) ks) m"
proof (induction "length ks" arbitrary: ks m rule: less_induct)
  case less
  show ?case
  proof (cases "ks = []")
    case True
    then show ?thesis by (simp add: getJobs_loop.simps)
  next
    case False
    let ?v = "\<lambda>k. map_option fst (content r k)"
    have v: "rc_mget c (take mgetCount ks) r = Inr (map ?v (take mgetCount ks))"
      using up l unfolding read_laws_def by metis
    have "getJobs_loop c e (drop mgetCount ks) r m' = decode_values e (map ?v (drop mgetCount ks)) m'" for m'
      using less[of "drop mgetCount ks"] False by (simp add: mgetCount_def)
    then have "getJobs_loop c e ks r m =
        decode_values e (map ?v (take mgetCount ks) @ map ?v (drop mgetCount ks)) m"
      using False v by (simp add: getJobs_loop.simps[of c e ks] decode_values_append split: sum.splits)
    then show ?thesis by (simp flip: map_append)
  qed
qed

lemma decode_values_stored:
  assumes "\<And>k. k \<in> set ks \<Longrightarrow> \<exists>v. f k = Some v \<and> NewJob (re_unjson e v) = Inr (js k)"
  shows "decode_values e (map f ks) m = Inr (foldl (\<lambda>m k. AList.update (JobUUID (js k)) (js k) m) m ks)"
  using assms
proof (induction ks arbitrary: m)
  case (Cons k ks)
  obtain v where v: "f k = Some v" "NewJob (re_unjson e v) = Inr (js k)" using Cons.prems by auto
  show ?case using Cons.IH Cons.prems v by simp
qed simp

lemma foldl_update_map:
  assumes "\<And>a b. a \<in> set ks \<Longrightarrow> b \<in> set ks \<Longrightarrow> g a = g b \<Longrightarrow> a = b"
  shows "map_of (foldl (\<lambda>m k. AList.update (g k) (h k) m) m ks) =
    (\<lambda>u. case List.find (\<lambda>k. g k = u) ks of Some k \<Rightarrow> Some (h k) | None \<Rightarrow> map_of m u)"
  using assms
proof (induction ks arbitrary: m)
  case (Cons k ks)
  have "List.find (\<lambda>x. g x = g k) ks = (if k \<in> set ks then Some k else None)"
  proof (cases "List.find (\<lambda>x. g x = g k) ks")
    case None
    then show ?thesis by (auto simp: find_None_iff)
  next
    case (Some x)
    then have "x \<in> set ks" "g x = g k" by (auto simp: find_Some_iff)
    then show ?thesis using Some Cons.prems by auto
  qed
  then show ?case using Cons by (auto simp: fun_eq_iff split: option.splits)
qed simp

text \<open>
  What was written is what is loaded: when the job keys of the server are those of the jobs \<open>J\<close>, each
  with a value that decodes to its job, loading returns exactly \<open>J\<close> and starts the writer.
\<close>

lemma LoadJobs_restores:
  assumes l: "read_laws c content" and up: "\<And>ks. \<exists>vs. rc_mget c ks r = Inr vs" "rc_keys c r = Inr keys"
    and e: "env_ok e"
    and stored: "\<And>u j. J u = Some j \<Longrightarrow> JobUUID j = u
      \<and> (\<exists>v ttl. content r (JobUUID2RedisKey e u) = Some (v, ttl) \<and> NewJob (re_unjson e v) = Inr j)"
    and only: "\<And>k. is_job_key k \<Longrightarrow> content r k \<noteq> None \<Longrightarrow> \<exists>u \<in> dom J. k = JobUUID2RedisKey e u"
  shows "\<exists>m. rd_LoadJobs c e r p = (Inr m, p\<lparr>rd_writer := snd (writer_start (rd_writer p))\<rparr>) \<and> map_of m = J"
proof -
  let ?ks = "remdups_adj (sort keys)"
  let ?key = "JobUUID2RedisKey e"
  define uu where "uu k = (SOME u. k = ?key u)" for k
  have uk [simp]: "uu (?key u) = u" for u unfolding uu_def using key_inj[OF e] by (auto intro: some_equality)
  have sk: "set ?ks = {k. is_job_key k \<and> content r k \<noteq> None}"
    using l up(2) unfolding read_laws_def by simp
  have ks: "set ?ks = ?key ` dom J"
  proof (intro equalityI subsetI)
    fix k assume "k \<in> set ?ks"
    then have "is_job_key k" "content r k \<noteq> None" using sk by blast+
    then show "k \<in> ?key ` dom J" using only by blast
  next
    fix k assume "k \<in> ?key ` dom J"
    then obtain u j where "k = ?key u" "J u = Some j" by blast
    then have "is_job_key k" "content r k \<noteq> None" using stored[of u j] by auto
    then show "k \<in> set ?ks" using sk by blast
  qed
  define js where "js k = the (J (uu k))" for k
  have js: "\<exists>u j. k = ?key u \<and> J u = Some j \<and> js k = j \<and> JobUUID j = u" if "k \<in> set ?ks" for k
    using that ks stored by (auto simp: js_def)
  have jk: "k = ?key (JobUUID (js k))" if "k \<in> set ?ks" for k using js[OF that] by auto
  have dv: "decode_values e (map (\<lambda>k. map_option fst (content r k)) ?ks) [] =
      Inr (foldl (\<lambda>m k. AList.update (JobUUID (js k)) (js k) m) [] ?ks)"
  proof (rule decode_values_stored)
    fix k assume "k \<in> set ?ks"
    then obtain u j where "k = ?key u" "J u = Some j" "js k = j" using js by blast
    then show "\<exists>v. map_option fst (content r k) = Some v \<and> NewJob (re_unjson e v) = Inr (js k)"
      using stored[of u j] by auto
  qed
  define m where "m = foldl (\<lambda>m k. AList.update (JobUUID (js k)) (js k) m) [] ?ks"
  have "map_of m u = J u" for u
  proof -
    have mo: "map_of m = (\<lambda>u. case List.find (\<lambda>k. JobUUID (js k) = u) ?ks of Some k \<Rightarrow> Some (js k) | None \<Rightarrow> map_of [] u)"
      unfolding m_def
    proof (rule foldl_update_map)
      fix a b assume "a \<in> set ?ks" "b \<in> set ?ks" "JobUUID (js a) = JobUUID (js b)"
      then show "a = b" using jk[of a] jk[of b] by simp
    qed
    show ?thesis
    proof (cases "J u")
      case None
      then have "List.find (\<lambda>k. JobUUID (js k) = u) ?ks = None" using js by (fastforce simp: find_None_iff)
      then show ?thesis using None mo by simp
    next
      case (Some j)
      then have k: "?key u \<in> set ?ks" "JobUUID (js (?key u)) = u" using ks stored[OF Some] by (auto simp: js_def)
      obtain k where f: "List.find (\<lambda>k. JobUUID (js k) = u) ?ks = Some k"
      proof (cases "List.find (\<lambda>k. JobUUID (js k) = u) ?ks")
        case None
        then show ?thesis using k unfolding find_None_iff by blast
      qed (use that in blast)
      then have "k \<in> set ?ks" "JobUUID (js k) = u" unfolding find_Some_iff by (metis nth_mem)+
      then have "js k = j" using js[of k] Some by auto
      then show ?thesis using f mo Some by simp
    qed
  qed
  moreover have "rd_LoadJobs c e r p = (Inr m, p\<lparr>rd_writer := snd (writer_start (rd_writer p))\<rparr>)"
    using getJobs_chunks[OF l up(1), of e ?ks "[]"] dv
    by (simp add: rd_LoadJobs_def scanJobKeys_def up(2) rd_getJobs_def m_def)
  ultimately show ?thesis by blast
qed

end
