(* ===== verification/SampleRedis.thy ===== *)
theory SampleRedis
  imports Redis
begin

text \<open>
  A concrete Redis server on which the properties of the Redis provider are shown to apply:
  its state is an association list, a pipeline and a deletion always succeed, SCAN gives
  every job key in one page. It satisfies \<open>redis_laws\<close> and \<open>read_laws\<close>.
\<close>

fun list_cmd :: "redis_cmd \<Rightarrow> (rkey, entry) gomap \<Rightarrow> (rkey, entry) gomap" where
  "list_cmd (CSet k v ttl) r = AList.update k (v, ttl) r"
| "list_cmd (CDel k) r = AList.delete k r"

definition sample_client :: "(rkey, entry) gomap redis_client" where
  "sample_client = \<lparr>rc_exec = (\<lambda>cmds r. (None, fold list_cmd cmds r)),
    rc_scan = (\<lambda>cursor r. Inr (filter is_job_key (map fst r), 0)),
    rc_del = (\<lambda>ks r. (None, filter (\<lambda>(k, v). k \<notin> set ks) r)),
    rc_keys = (\<lambda>r. Inr (filter is_job_key (map fst r))),
    rc_mget = (\<lambda>ks r. Inr (map (\<lambda>k. map_option fst (map_of r k)) ks)),
    rc_exists = (\<lambda>k r. Inr (if map_of r k = None then 0 else 1)),
    rc_ping = (\<lambda>r. True)\<rparr>"

lemma list_cmd_content: "map_of (list_cmd c r) = apply_cmd c (map_of r)"
  by (cases c) (simp_all add: update_conv' delete_conv')

lemma list_cmds_content: "map_of (fold list_cmd cmds r) = fold apply_cmd cmds (map_of r)"
  by (induction cmds arbitrary: r) (simp_all add: list_cmd_content)

lemma map_of_filter_keys: "map_of (filter (\<lambda>(k, v). k \<notin> A) r) = map_of r |` (- A)"
  by (induction r) (auto simp: restrict_map_def fun_eq_iff)

lemma sample_scan: "scan_trace sample_client 0 tr \<Longrightarrow>
    \<exists>r. tr = [(r, filter is_job_key (map fst r))]"
  by (cases "(sample_client, 0 :: nat, tr)" rule: scan_trace.cases) (auto simp: sample_client_def)

lemma sample_redis_laws: "redis_laws sample_client map_of"
proof -
  have "content \<noteq> None \<Longrightarrow> content = Some (the content)" for content :: "entry option" by auto
  have k: "map_of r k \<noteq> None \<Longrightarrow> k \<in> fst ` set r" for r :: "(rkey, entry) gomap" and k
    by (simp add: map_of_eq_None_iff)
  show ?thesis unfolding redis_laws_def
  proof (intro conjI allI impI)
    fix cmds r e r' assume "rc_exec sample_client cmds r = (e, r')"
    then have r': "map_of r' = fold apply_cmd cmds (map_of r)"
      by (auto simp: sample_client_def list_cmds_content)
    then show "\<exists>part \<in> set (subseqs cmds). map_of r' = fold apply_cmd part (map_of r)"
      by (intro bexI[of _ cmds]) (auto simp: subseqs_refl)
    show "map_of r' = fold apply_cmd cmds (map_of r)" by (rule r')
  next
    fix ks :: "rkey list" and r e r' assume "rc_del sample_client ks r = (e, r')"
    then have r': "map_of r' = map_of r |` (- set ks)"
      by (auto simp: sample_client_def map_of_filter_keys)
    then show "\<exists>part \<subseteq> set ks. map_of r' = map_of r |` (- part)" by blast
    show "map_of r' = map_of r |` (- set ks)" by (rule r')
  next
    fix tr k assume t: "scan_trace sample_client 0 tr" and j: "is_job_key k"
      and a: "\<forall>(r, ks) \<in> set tr. map_of r k \<noteq> None"
    obtain r where r: "tr = [(r, filter is_job_key (map fst r))]" using sample_scan[OF t] by blast
    then have "k \<in> fst ` set r" using a k by auto
    then show "\<exists>(r, ks) \<in> set tr. k \<in> set ks" using r j by auto
  qed (auto simp: sample_client_def)
qed

lemma sample_read_laws: "read_laws sample_client map_of"
  by (auto simp: read_laws_def sample_client_def map_of_eq_None_iff image_iff)

text \<open>Every attempt succeeds.\<close>

lemma sample_delete_all: "\<exists>r'. deleteAllJobs sample_client cursor r = Some (None, r')"
  by (subst deleteAllJobs.simps) (simp add: sample_client_def)

lemma sample_execute: "\<exists>r'. execute sample_client ops r = Some (None, r')"
proof -
  have f: "\<exists>r'. flush sample_client pipe r = (None, r')" for pipe r
    by (simp add: flush_def sample_client_def)
  have "\<exists>r'. execute_loop sample_client ops pipe r = Some (None, r')" for pipe
  proof (induction ops arbitrary: pipe r)
    case Nil
    then show ?case using f by simp
  next
    case (Cons op ops)
    obtain r1 where r1: "flush sample_client pipe r = (None, r1)" using f by blast
    obtain r2 where r2: "deleteAllJobs sample_client 0 r1 = Some (None, r2)" using sample_delete_all by blast
    show ?case using Cons.IH r1 r2 by simp
  qed
  then show ?thesis by (simp add: execute_def)
qed

end
