(* ===== verification/Float64.thy ===== *)
theory Float64
  imports Prelude "HOL-Library.Log_Nat"
begin

text \<open>
  Go's \<^verbatim>\<open>float64\<close>, for the values the metrics compute: finite numbers far from the ends
  of the exponent range, so a value is a rational number and an operation is the exact
  operation followed by \<open>f64\<close>, the rounding to 53 significant bits, to nearest and ties to even
  (IEEE 754, the Go default). Overflow, subnormal numbers and NaN do not occur there: every operand
  comes from a counter or a duration, or is a constant, and no divisor is 0. The lemmas give
  what the metrics rely on: rounding is monotone and keeps the integers up to \<open>2^53\<close>.
\<close>

type_synonym float64 = rat

text \<open>The integer nearest to \<open>r\<close>, the even one of two.\<close>

definition round_even :: "rat \<Rightarrow> int" where
  "round_even r = (let f = \<lfloor>r\<rfloor>; d = r - of_int f in
    if d < 1 / 2 then f else if 1 / 2 < d then f + 1 else if even f then f else f + 1)"

text \<open>The binary exponent of a positive number.\<close>

definition exponent2 :: "rat \<Rightarrow> int" where
  "exponent2 x = (let (p, q) = quotient_of x; d = bitlen p - bitlen q
    in if x < 2 powi d then d - 1 else d)"

definition round_pos :: "rat \<Rightarrow> float64" where
  "round_pos x = (let e = exponent2 x - 52 in of_int (round_even (x / 2 powi e)) * 2 powi e)"

definition f64 :: "rat \<Rightarrow> float64" where
  "f64 x = (if x = 0 then 0 else if 0 < x then round_pos x else - round_pos (- x))"

definition f64_of_int :: "int \<Rightarrow> float64" where
  "f64_of_int n = f64 (of_int n)"

definition f64_mul :: "float64 \<Rightarrow> float64 \<Rightarrow> float64" where
  "f64_mul a b = f64 (a * b)"

definition f64_div :: "float64 \<Rightarrow> float64 \<Rightarrow> float64" where
  "f64_div a b = f64 (a / b)"

section \<open>Rounding to an integer\<close>

lemma round_even_int [simp]: "round_even (of_int n) = n"
  by (simp add: round_even_def)

lemma round_even_bounds: "\<lfloor>r\<rfloor> \<le> round_even r" "round_even r \<le> \<lfloor>r\<rfloor> + 1"
  by (simp_all add: round_even_def Let_def)

lemma round_even_mono:
  assumes "a \<le> b"
  shows "round_even a \<le> round_even b"
proof (cases "\<lfloor>a\<rfloor> = \<lfloor>b\<rfloor>")
  case True
  then show ?thesis using assms by (auto simp: round_even_def Let_def)
next
  case False
  then have "\<lfloor>a\<rfloor> + 1 \<le> \<lfloor>b\<rfloor>" using floor_mono[OF assms] by linarith
  then show ?thesis using round_even_bounds[of a] round_even_bounds[of b] by linarith
qed

section \<open>The exponent\<close>

lemma exponent2_bounds:
  assumes "0 < x"
  shows "2 powi exponent2 x \<le> x" "x < 2 powi (exponent2 x + 1)"
proof -
  obtain p q where pq: "quotient_of x = (p, q)" by fastforce
  have q: "0 < q" using quotient_of_denom_pos[OF pq] .
  have x: "x = of_int p / of_int q" by (rule quotient_of_div[OF pq])
  then have p: "0 < p" using assms q by (simp add: zero_less_divide_iff)
  have b: "2 powi (bitlen n - 1) \<le> (of_int n :: rat) \<and> of_int n < (2 :: rat) powi bitlen n" if n: "0 < n" for n
  proof -
    note l = bitlen_bounds[OF n]
    have g: "1 \<le> bitlen n" using n by (simp add: bitlen_nonneg le_less bitlen_def floorlog_def)
    have "(of_int (2 ^ nat (bitlen n - 1)) :: rat) \<le> of_int n" "(of_int n :: rat) < of_int (2 ^ nat (bitlen n))"
      using l by (simp_all only: of_int_le_iff of_int_less_iff)
    then show ?thesis using g by (simp add: power_int_def)
  qed
  let ?d = "bitlen p - bitlen q"
  have "2 powi (?d - 1) * (of_int q :: rat) \<le> 2 powi (?d - 1) * 2 powi bitlen q"
    using b[OF q] by (intro mult_left_mono) simp_all
  also have "\<dots> = 2 powi (bitlen p - 1)" by (simp flip: power_int_add)
  also have "\<dots> \<le> of_int p" using b[OF p] by simp
  finally have lo: "2 powi (?d - 1) \<le> x" using q by (simp add: x le_divide_eq)
  have "of_int p < (2 :: rat) powi bitlen p" using b[OF p] by simp
  also have "\<dots> = 2 powi (?d + 1) * 2 powi (bitlen q - 1)" by (simp flip: power_int_add)
  also have "\<dots> \<le> 2 powi (?d + 1) * of_int q" using b[OF q] by (intro mult_left_mono) simp_all
  finally have hi: "x < 2 powi (?d + 1)" using q by (simp add: x divide_less_eq)
  show "2 powi exponent2 x \<le> x" "x < 2 powi (exponent2 x + 1)"
    using lo hi by (simp_all add: exponent2_def pq Let_def)
qed

lemma exponent2_le:
  assumes "0 < x" "x < 2 powi n"
  shows "exponent2 x < n"
proof (rule ccontr)
  assume "\<not> ?thesis"
  then have "(2 :: rat) powi n \<le> 2 powi exponent2 x" by (intro power_int_increasing) simp_all
  then show False using exponent2_bounds(1)[OF assms(1)] assms(2) by linarith
qed

section \<open>Rounding to a float\<close>

text \<open>The mantissa has 53 bits.\<close>

lemma round_pos_bounds:
  assumes "0 < x"
  shows "2 powi exponent2 x \<le> round_pos x" "round_pos x \<le> 2 powi (exponent2 x + 1)"
proof -
  let ?e = "exponent2 x - 52"
  have s: "2 powi exponent2 x / 2 powi ?e = (of_int (2 ^ 52) :: rat)"
    "2 powi (exponent2 x + 1) / 2 powi ?e = (of_int (2 ^ 53) :: rat)"
    by (simp_all flip: power_int_diff)
  have "of_int (2 ^ 52) \<le> x / 2 powi ?e" "x / 2 powi ?e \<le> of_int (2 ^ 53)"
    using exponent2_bounds[OF assms] unfolding s[symmetric]
    by (intro divide_right_mono; simp)+
  then have "2 ^ 52 \<le> round_even (x / 2 powi ?e)" "round_even (x / 2 powi ?e) \<le> 2 ^ 53"
    using round_even_mono[of "of_int (2 ^ 52)" "x / 2 powi ?e"]
      round_even_mono[of "x / 2 powi ?e" "of_int (2 ^ 53)"] unfolding round_even_int by blast+
  then have "of_int (2 ^ 52) * 2 powi ?e \<le> round_pos x" "round_pos x \<le> of_int (2 ^ 53) * 2 powi ?e"
    unfolding round_pos_def Let_def by (intro mult_right_mono; simp only: of_int_le_iff zero_le_power_int; simp)+
  then show "2 powi exponent2 x \<le> round_pos x" "round_pos x \<le> 2 powi (exponent2 x + 1)"
    unfolding s[symmetric] by simp_all
qed

lemma round_pos_mono:
  assumes "0 < x" "x \<le> y"
  shows "round_pos x \<le> round_pos y"
proof (cases "exponent2 x = exponent2 y")
  case True
  then show ?thesis using assms
    by (auto simp: round_pos_def Let_def intro!: mult_right_mono round_even_mono divide_right_mono)
next
  case False
  have "exponent2 x < exponent2 y + 1"
    using assms exponent2_bounds(2)[of y] by (intro exponent2_le) simp_all
  then have "(2 :: rat) powi (exponent2 x + 1) \<le> 2 powi exponent2 y"
    using False by (intro power_int_increasing) simp_all
  then show ?thesis using round_pos_bounds[of x] round_pos_bounds[of y] assms by linarith
qed

lemma round_pos_int:
  assumes "0 < n" "n \<le> 2 ^ 53"
  shows "round_pos (of_int n) = of_int n"
proof -
  let ?k = "exponent2 (of_int n)"
  have "\<exists>m. (of_int n :: rat) / 2 powi (?k - 52) = of_int m"
  proof (cases "n = 2 ^ 53")
    case True
    have "?k < 54" using True by (intro exponent2_le) (simp_all add: power_int_def)
    moreover have "\<not> ?k < 53"
    proof
      assume "?k < 53"
      then have "(2 :: rat) powi (?k + 1) \<le> 2 powi 53" by (intro power_int_increasing) simp_all
      then show False using exponent2_bounds(2)[of "of_int n"] True by simp
    qed
    ultimately have "?k = 53" by linarith
    then show ?thesis using True by (intro exI[of _ "2 ^ 52"]) simp
  next
    case False
    then have "n < 2 ^ 53" using assms by linarith
    then have "(of_int n :: rat) < of_int (2 ^ 53)" by (simp only: of_int_less_iff)
    then have "?k < 53" using assms by (intro exponent2_le) (simp_all add: power_int_def)
    then have "(2 :: rat) powi (52 - ?k) = of_int (2 ^ nat (52 - ?k))" by (simp add: power_int_def)
    moreover have "(of_int n :: rat) / 2 powi (?k - 52) = of_int n * 2 powi (52 - ?k)"
      using power_int_minus[of "2 :: rat" "?k - 52"] by (simp add: field_simps)
    ultimately show ?thesis by (metis of_int_mult)
  qed
  then show ?thesis by (auto simp: round_pos_def Let_def) (metis divide_eq_eq power_int_eq_0_iff zero_neq_numeral)
qed

lemma f64_pos:
  assumes "0 < x"
  shows "0 < f64 x"
proof -
  have "0 < (2 :: rat) powi exponent2 x" by (simp add: zero_less_power_int)
  also have "\<dots> \<le> round_pos x" by (rule round_pos_bounds(1)[OF assms])
  finally show ?thesis using assms by (simp add: f64_def)
qed

lemma f64_0 [simp]: "f64 0 = 0"
  by (simp add: f64_def)

lemma f64_minus: "f64 (- x) = - f64 x"
  by (simp add: f64_def)

lemma f64_mono:
  assumes "x \<le> y"
  shows "f64 x \<le> f64 y"
proof -
  consider "x \<le> 0" "0 \<le> y" | "0 < x" | "y < 0" using assms by linarith
  then show ?thesis
  proof cases
    case 1
    then show ?thesis using f64_pos[of "- x"] f64_pos[of y] by (cases "x = 0"; cases "y = 0") (simp_all add: f64_minus)
  next
    case 2
    then show ?thesis using assms round_pos_mono[of x y] by (simp add: f64_def)
  next
    case 3
    then show ?thesis using assms round_pos_mono[of "- y" "- x"] by (simp add: f64_def)
  qed
qed

lemma f64_int:
  assumes "\<bar>n\<bar> \<le> 2 ^ 53"
  shows "f64 (of_int n) = of_int n"
  using round_pos_int[of n] round_pos_int[of "- n"] assms by (simp add: f64_def)

lemma f64_unit:
  assumes "0 \<le> x" "x \<le> 1"
  shows "0 \<le> f64 x" "f64 x \<le> 1"
  using f64_mono[OF assms(1)] f64_mono[OF assms(2)] f64_int[of 1] by simp_all

lemma f64_of_int_nonneg: "0 \<le> n \<Longrightarrow> 0 \<le> f64_of_int n"
  using f64_mono[of 0 "of_int n"] by (simp add: f64_of_int_def)

lemma f64_of_int_mono: "m \<le> n \<Longrightarrow> f64_of_int m \<le> f64_of_int n"
  by (simp add: f64_of_int_def f64_mono)

lemma f64_of_int_pos: "0 < n \<Longrightarrow> 0 < f64_of_int n"
  by (simp add: f64_of_int_def f64_pos)

text \<open>The quotient of two counters, the first the smaller one, is a rate.\<close>

lemma f64_rate:
  assumes "0 \<le> a" "a \<le> b" "0 < b"
  shows "0 \<le> f64_div (f64_of_int a) (f64_of_int b)" "f64_div (f64_of_int a) (f64_of_int b) \<le> 1"
proof -
  have "0 \<le> f64_of_int a / f64_of_int b \<and> f64_of_int a / f64_of_int b \<le> 1"
    using f64_of_int_nonneg[OF assms(1)] f64_of_int_mono[OF assms(2)] f64_of_int_pos[OF assms(3)] by simp
  then show "0 \<le> f64_div (f64_of_int a) (f64_of_int b)" "f64_div (f64_of_int a) (f64_of_int b) \<le> 1"
    using f64_unit unfolding f64_div_def by blast+
qed

end
