(* ===== verification/Percentiles.thy ===== *)
theory Percentiles
  imports Float64
begin

text \<open>
  The percentiles of the job durations (\<^verbatim>\<open>src/metrics/percentiles.go\<close> and
  \<^verbatim>\<open>percentilesmetrics.go\<close>): the nearest-rank value in a sorted slice, computed in
  floating point, and the calculator that keeps its labels and its result slice. \<open>None\<close> is
  the panic of an index out of range. The main lemma is that no percentile of the
  configuration indexes out of the slice, whatever its length, although the rank is a
  rounded product.
\<close>

section \<open>Definitions\<close>

definition percentile_index :: "nat \<Rightarrow> float64 \<Rightarrow> int" where
  "percentile_index lenInputData percentile =
    (let index = \<lceil>f64_mul (f64_of_int (int lenInputData)) percentile\<rceil>
     in if index > 0 then index - 1 else index)"

fun percentiles_loop :: "int64 list \<Rightarrow> float64 list \<Rightarrow> nat \<Rightarrow> int64 list \<Rightarrow> int64 list option" where
  "percentiles_loop inputData [] i outputData = Some outputData"
| "percentiles_loop inputData (percentile # ps) i outputData =
    (let index = percentile_index (length inputData) percentile in
     if 0 \<le> index \<and> index < int (length inputData) \<and> i < length outputData
     then percentiles_loop inputData ps (i + 1) (outputData[i := inputData ! nat index])
     else None)"

fun zeros_loop :: "float64 list \<Rightarrow> nat \<Rightarrow> int64 list \<Rightarrow> int64 list option" where
  "zeros_loop [] i outputData = Some outputData"
| "zeros_loop (_ # ps) i outputData =
    (if i < length outputData then zeros_loop ps (i + 1) (outputData[i := 0]) else None)"

definition Percentiles :: "int64 list \<Rightarrow> float64 list \<Rightarrow> int64 list \<Rightarrow> int64 list option" where
  "Percentiles inputData percentiles outputData =
    (if length inputData = 0 then zeros_loop percentiles 0 outputData
     else percentiles_loop inputData percentiles 0 outputData)"

record PercentilesMetrics =
  CptPercentiles :: nat
  PercentileLabels :: "string list"
  BucketsPercentiles :: "float64 list"
  pm_Values :: "int64 list"

text \<open>The conversion to \<^verbatim>\<open>int\<close> truncates towards zero.\<close>

definition percentile_label :: "float64 \<Rightarrow> string" where
  "percentile_label percentile =
    (let v = f64_mul percentile (f64_of_int 100)
     in ''p'' @ show_int (if v < 0 then \<lceil>v\<rceil> else \<lfloor>v\<rfloor>))"

definition pm_Init :: "PercentilesMetrics \<Rightarrow> PercentilesMetrics" where
  "pm_Init m = m\<lparr>CptPercentiles := length (BucketsPercentiles m),
    pm_Values := replicate (length (BucketsPercentiles m)) 0,
    PercentileLabels := map percentile_label (BucketsPercentiles m)\<rparr>"

definition pm_Reset :: "PercentilesMetrics \<Rightarrow> PercentilesMetrics" where
  "pm_Reset m = m\<lparr>pm_Values := replicate (CptPercentiles m) 0 @ drop (CptPercentiles m) (pm_Values m)\<rparr>"

definition pm_Compute :: "int64 list \<Rightarrow> PercentilesMetrics \<Rightarrow> PercentilesMetrics option" where
  "pm_Compute inputData m =
    (let m = pm_Reset m
     in map_option (\<lambda>v. m\<lparr>pm_Values := v\<rparr>) (Percentiles inputData (BucketsPercentiles m) (pm_Values m)))"

definition NewPercentilesMetrics :: "float64 list \<Rightarrow> PercentilesMetrics" where
  "NewPercentilesMetrics buckets = pm_Init \<lparr>CptPercentiles = 0, PercentileLabels = [],
    BucketsPercentiles = buckets, pm_Values = []\<rparr>"

definition BucketsJobDurationPercentiles :: "float64 list" where
  "BucketsJobDurationPercentiles = map f64 [5/100, 1/10, 25/100, 5/10, 75/100, 9/10, 95/100, 99/100, 1]"

section \<open>The rank\<close>

definition rank :: "nat \<Rightarrow> float64 \<Rightarrow> int" where
  "rank n p = max 1 \<lceil>f64_mul (f64_of_int (int n)) p\<rceil>"

lemma rank_bounds:
  assumes "0 < n" "n \<le> 2 ^ 53" "0 \<le> p" "p \<le> 1"
  shows "1 \<le> rank n p" "rank n p \<le> int n"
proof -
  have "\<bar>int n\<bar> \<le> 2 ^ 53" using assms(2) by simp
  then have n: "f64_of_int (int n) = of_int (int n)" unfolding f64_of_int_def by (rule f64_int)
  have "of_int (int n) * p \<le> of_int (int n)" using assms by (intro mult_left_le) simp_all
  then have "f64_mul (f64_of_int (int n)) p \<le> f64 (of_int (int n))"
    unfolding n f64_mul_def by (rule f64_mono)
  also have "\<dots> = of_int (int n)" using n by (simp add: f64_of_int_def)
  finally have "\<lceil>f64_mul (f64_of_int (int n)) p\<rceil> \<le> int n" by (simp only: ceiling_le_iff)
  then show "1 \<le> rank n p" "rank n p \<le> int n" using assms(1) by (simp_all add: rank_def)
qed

lemma percentile_index_rank:
  assumes "0 \<le> p"
  shows "percentile_index n p = rank n p - 1"
proof -
  have "0 \<le> f64_mul (f64_of_int (int n)) p"
    using assms f64_of_int_nonneg[of "int n"] f64_mono[of 0] by (simp add: f64_mul_def)
  then show ?thesis by (auto simp: percentile_index_def rank_def Let_def)
qed

lemma rank_mono:
  assumes "p \<le> q"
  shows "rank n p \<le> rank n q"
proof -
  have "f64_mul (f64_of_int (int n)) p \<le> f64_mul (f64_of_int (int n)) q"
    unfolding f64_mul_def using assms f64_of_int_nonneg[of "int n"] by (intro f64_mono mult_left_mono) simp_all
  then have "\<lceil>f64_mul (f64_of_int (int n)) p\<rceil> \<le> \<lceil>f64_mul (f64_of_int (int n)) q\<rceil>" by (rule ceiling_mono)
  then show ?thesis by (simp add: rank_def)
qed

lemma percentiles_loop_some:
  assumes "0 < length xs" "length xs \<le> 2 ^ 53" "\<forall>p \<in> set ps. 0 \<le> p \<and> p \<le> 1"
    and "length out = i + length ps"
  shows "percentiles_loop xs ps i out
    = Some (take i out @ map (\<lambda>p. xs ! nat (rank (length xs) p - 1)) ps)"
  using assms(3-)
proof (induction ps arbitrary: i out)
  case (Cons p ps)
  have b: "1 \<le> rank (length xs) p" "rank (length xs) p \<le> int (length xs)"
    using Cons.prems by (intro rank_bounds[OF assms(1,2)]; simp)+
  then show ?case using Cons.prems
    by (simp add: Let_def percentile_index_rank Cons.IH take_Suc_conv_app_nth)
qed simp

lemma zeros_loop_some:
  "length out = i + length ps \<Longrightarrow> zeros_loop ps i out = Some (take i out @ replicate (length ps) 0)"
  by (induction ps arbitrary: i out) (simp_all add: take_Suc_conv_app_nth)

text \<open>The calculator: no panic, and the nearest rank of each percentile.\<close>

lemma Percentiles_some:
  assumes "length xs \<le> 2 ^ 53" "\<forall>p \<in> set ps. 0 \<le> p \<and> p \<le> 1" "length out = length ps"
  shows "Percentiles xs ps out = Some (if xs = [] then replicate (length ps) 0
    else map (\<lambda>p. xs ! nat (rank (length xs) p - 1)) ps)"
  using assms percentiles_loop_some[of xs ps out 0] zeros_loop_some[of out 0 ps]
  by (auto simp: Percentiles_def)

lemma buckets_range: "\<forall>p \<in> set BucketsJobDurationPercentiles. 0 \<le> p \<and> p \<le> 1"
  using f64_unit by (simp add: BucketsJobDurationPercentiles_def)

lemma bucket_labels:
  "PercentileLabels (NewPercentilesMetrics BucketsJobDurationPercentiles)
    = [''p5'', ''p10'', ''p25'', ''p50'', ''p75'', ''p90'', ''p95'', ''p99'', ''p100'']"
  by code_simp

lemma pm_Compute_some:
  assumes "length xs \<le> 2 ^ 53"
  shows "\<exists>m'. pm_Compute xs (NewPercentilesMetrics BucketsJobDurationPercentiles) = Some m'
    \<and> PercentileLabels m' = PercentileLabels (NewPercentilesMetrics BucketsJobDurationPercentiles)
    \<and> length (pm_Values m') = length (PercentileLabels m')"
  using Percentiles_some[OF assms buckets_range, of "replicate (length BucketsJobDurationPercentiles) 0"]
  by (simp add: pm_Compute_def NewPercentilesMetrics_def pm_Init_def pm_Reset_def)

text \<open>At least as many values as the rank are not above the percentile.\<close>

lemma rank_covers:
  assumes "sorted xs" "0 < k" "k \<le> length xs"
  shows "k \<le> length (filter (\<lambda>x. x \<le> xs ! (k - 1)) xs)"
proof -
  have "\<forall>x \<in> set (take k xs). x \<le> xs ! (k - 1)"
    using assms by (auto simp: in_set_conv_nth) (rule sorted_nth_mono[OF assms(1)]; simp)
  then have "filter (\<lambda>x. x \<le> xs ! (k - 1)) (take k xs) = take k xs" by (simp add: filter_id_conv)
  then have "length (filter (\<lambda>x. x \<le> xs ! (k - 1)) (take k xs)) = k" using assms by simp
  moreover have "length (filter P xs) = length (filter P (take k xs)) + length (filter P (drop k xs))" for P
    by (metis append_take_drop_id filter_append length_append)
  ultimately show ?thesis by simp
qed

end
