(* ===== verification/Prometheus.thy ===== *)
theory Prometheus
  imports Percentiles Events
begin

text \<open>
  What the metrics send to Prometheus (\<^verbatim>\<open>src/metrics/prometheusmetrics.go\<close>). The client
  is a library: a call of one of its vectors is an entry of \<open>prom_calls\<close>, and what the code
  reads back from a vector is a parameter (\<open>prom_lib\<close>), a function of the calls made so far.
  The counters of a topic are natural numbers: a \<^verbatim>\<open>uint\<close> counts jobs in memory, or
  events one by one, and none reaches \<open>2^64\<close>; durations are \<open>int64\<close> with their wrap-around.
\<close>

section \<open>Calls and counters\<close>

datatype prom_call =
    JobsEventsAdd string string float64
  | AppEventsInc string string
  | JobsStatusSet string string float64
  | JobsStatusReset
  | CompletionObserve string float64
  | ActiveObserve string float64
  | ActiveReset
  | PercentilesSet string string string float64
  | PercentilesReset

record prom_lib =
  lib_status_labels :: "prom_call list \<Rightarrow> (string \<times> string) list"
  lib_event_counters :: "prom_call list \<Rightarrow> ((string \<times> string) \<times> float64) list"

record PrometheusMetrics =
  ActiveJobsPercentiles :: PercentilesMetrics
  CompletedJobsPercentiles :: PercentilesMetrics
  prom_calls :: "prom_call list"

definition prom_emit :: "prom_call list \<Rightarrow> PrometheusMetrics \<Rightarrow> PrometheusMetrics" where
  "prom_emit cs m = m\<lparr>prom_calls := prom_calls m @ cs\<rparr>"

definition prom_Init :: "PrometheusMetrics \<Rightarrow> PrometheusMetrics" where
  "prom_Init m = m\<lparr>ActiveJobsPercentiles := NewPercentilesMetrics BucketsJobDurationPercentiles,
    CompletedJobsPercentiles := NewPercentilesMetrics BucketsJobDurationPercentiles\<rparr>"

record JobMetrics =
  ResourcesLockedCount :: nat
  JobsCounterDeleted :: nat
  JobsExisting :: nat
  JobsStatusCreated :: nat
  JobsStatusDelayed :: nat
  JobsStatusPending :: nat
  JobsStatusQueued :: nat
  JobsStatusRunning :: nat
  JobsStatusSucceeded :: nat
  JobsStatusFailed :: nat
  JobsStatusHidden :: nat
  JobsStatusCanceled :: nat

definition NewJobMetrics :: JobMetrics where
  "NewJobMetrics = \<lparr>ResourcesLockedCount = 0, JobsCounterDeleted = 0, JobsExisting = 0,
    JobsStatusCreated = 0, JobsStatusDelayed = 0, JobsStatusPending = 0, JobsStatusQueued = 0,
    JobsStatusRunning = 0, JobsStatusSucceeded = 0, JobsStatusFailed = 0, JobsStatusHidden = 0,
    JobsStatusCanceled = 0\<rparr>"

definition InitCustomMetrics :: "string \<Rightarrow> PrometheusMetrics \<Rightarrow> PrometheusMetrics" where
  "InitCustomMetrics topic m = prom_emit
    ([CompletionObserve topic 0, ActiveObserve topic 0]
     @ map (\<lambda>ev. JobsEventsAdd (event_name ev) topic 0)
        [ServiceEventJobCreated, ServiceEventJobDelayed, ServiceEventJobEnqueued,
         ServiceEventJobStarted, ServiceEventJobSucceeded, ServiceEventJobCanceled,
         ServiceEventJobFailed, ServiceEventJobHidden, ServiceEventJobDeleted,
         ServiceEventJobTimeout, ServiceEventJobTerminated]) m"

definition gauges :: "JobMetrics \<Rightarrow> (string \<times> nat) list" where
  "gauges jm = [(''Existing'', JobsExisting jm), (''Created'', JobsStatusCreated jm),
    (''Delayed'', JobsStatusDelayed jm), (''Pending'', JobsStatusPending jm),
    (''Queued'', JobsStatusQueued jm), (''Running'', JobsStatusRunning jm),
    (''Succeeded'', JobsStatusSucceeded jm), (''Failed'', JobsStatusFailed jm),
    (''Hidden'', JobsStatusHidden jm), (''Canceled'', JobsStatusCanceled jm)]"

definition SetGauges :: "string \<Rightarrow> JobMetrics \<Rightarrow> PrometheusMetrics \<Rightarrow> PrometheusMetrics" where
  "SetGauges topic jm m =
    prom_emit (map (\<lambda>(status, n). JobsStatusSet status topic (f64_of_int (int n))) (gauges jm)) m"

text \<open>The pairs of labels the gauge has, without those of an empty status, are created again.\<close>

definition ResetAllGauges :: "prom_lib \<Rightarrow> PrometheusMetrics \<Rightarrow> PrometheusMetrics" where
  "ResetAllGauges lib m =
    (let labels = filter (\<lambda>(status, topic). status \<noteq> '''') (lib_status_labels lib (prom_calls m))
     in prom_emit (JobsStatusReset # map (\<lambda>(status, topic). JobsStatusSet status topic 0) labels) m)"

record ServiceEvent =
  se_Type :: ServiceEventType
  se_JobUUID :: JobUUID
  se_Topic :: string
  se_JobLifetime :: int64

definition updateJobMetrics :: "ServiceEvent \<Rightarrow> JobMetrics \<Rightarrow> PrometheusMetrics \<Rightarrow> PrometheusMetrics" where
  "updateJobMetrics ev jm m =
    (let m = prom_emit [JobsEventsAdd (event_name (se_Type ev)) (se_Topic ev) 1] m;
         m = SetGauges (se_Topic ev) jm m
     in if se_Type ev \<in> {ServiceEventJobSucceeded, ServiceEventJobDeleted, ServiceEventJobTerminated}
        then prom_emit [CompletionObserve (se_Topic ev)
          (f64_div (f64_of_int (se_JobLifetime ev)) (f64_of_int 1000))] m
        else m)"

text \<open>\<open>jm\<close> is the pointer of the counters, nil (\<open>None\<close>) for an event that is not about a job.\<close>

definition OnEvent :: "prom_lib \<Rightarrow> ServiceEvent \<Rightarrow> JobMetrics option \<Rightarrow> PrometheusMetrics \<Rightarrow> PrometheusMetrics" where
  "OnEvent lib ev jm m =
    (if se_Type ev \<in> {ServiceEventJobCreated, ServiceEventJobDelayed, ServiceEventJobPending,
         ServiceEventJobEnqueued, ServiceEventJobStarted, ServiceEventJobSucceeded,
         ServiceEventJobCanceled, ServiceEventJobFailed, ServiceEventJobHidden,
         ServiceEventJobDeleted, ServiceEventJobTimeout, ServiceEventJobTerminated}
     then updateJobMetrics ev (the jm) m
     else if se_Type ev = ServiceEventJobDeletedAll then ResetAllGauges lib m
     else if se_Type ev = ServiceEventReady
     then SetGauges (se_Topic ev) NewJobMetrics (InitCustomMetrics (se_Topic ev) m)
     else if se_Type ev = ServiceEventEmptyPollReceived
     then prom_emit [AppEventsInc (event_name (se_Type ev)) (se_Topic ev)] m
     else m)"

record JobActivityMetrics =
  Created :: nat
  Delayed :: nat
  Pending :: nat
  Enqueued :: nat
  Started :: nat
  Succeeded :: nat
  Failed :: nat
  Canceled :: nat
  Hidden :: nat
  Deleted :: nat
  Timeout :: nat
  Terminated :: nat

definition NoActivity :: JobActivityMetrics where
  "NoActivity = \<lparr>Created = 0, Delayed = 0, Pending = 0, Enqueued = 0, Started = 0, Succeeded = 0,
    Failed = 0, Canceled = 0, Hidden = 0, Deleted = 0, Timeout = 0, Terminated = 0\<rparr>"

definition add_activity :: "string \<Rightarrow> nat \<Rightarrow> JobActivityMetrics \<Rightarrow> JobActivityMetrics" where
  "add_activity eventType v a =
    (if eventType = ''Created'' then a\<lparr>Created := u64 (Created a + v)\<rparr>
     else if eventType = ''Delayed'' then a\<lparr>Delayed := u64 (Delayed a + v)\<rparr>
     else if eventType = ''Pending'' then a\<lparr>Pending := u64 (Pending a + v)\<rparr>
     else if eventType = ''Enqueued'' then a\<lparr>Enqueued := u64 (Enqueued a + v)\<rparr>
     else if eventType = ''Started'' then a\<lparr>Started := u64 (Started a + v)\<rparr>
     else if eventType = ''Succeeded'' then a\<lparr>Succeeded := u64 (Succeeded a + v)\<rparr>
     else if eventType = ''Failed'' then a\<lparr>Failed := u64 (Failed a + v)\<rparr>
     else if eventType = ''Canceled'' then a\<lparr>Canceled := u64 (Canceled a + v)\<rparr>
     else if eventType = ''Hidden'' then a\<lparr>Hidden := u64 (Hidden a + v)\<rparr>
     else if eventType = ''Deleted'' then a\<lparr>Deleted := u64 (Deleted a + v)\<rparr>
     else if eventType = ''Timeout'' then a\<lparr>Timeout := u64 (Timeout a + v)\<rparr>
     else if eventType = ''Terminated'' then a\<lparr>Terminated := u64 (Terminated a + v)\<rparr>
     else a)"

definition GetJobEventCounters :: "prom_lib \<Rightarrow> PrometheusMetrics \<Rightarrow> JobActivityMetrics" where
  "GetJobEventCounters lib m =
    foldl (\<lambda>a ((eventType, _), v). add_activity eventType (nat \<lfloor>v\<rfloor>) a) NoActivity
      (lib_event_counters lib (prom_calls m))"

section \<open>Percentile gauges\<close>

record PercentilesDetail =
  ActiveJobsDurations :: "int64 list"
  CompletedJobsDurations :: "int64 list"

definition percentile_sets :: "string \<Rightarrow> string \<Rightarrow> string list \<Rightarrow> float64 list \<Rightarrow> prom_call list" where
  "percentile_sets topic status labels vs = map (\<lambda>(l, v). PercentilesSet topic status l v) (zip labels vs)"

text \<open>
  The gauges of one list of durations: the seconds of each percentile, or 0. \<open>None\<close> is a
  panic. The calculator, reused between topics, is returned with its new values.
\<close>

definition duration_gauges ::
    "string \<Rightarrow> string \<Rightarrow> int64 list \<Rightarrow> PercentilesMetrics \<Rightarrow> (PercentilesMetrics \<times> prom_call list) option" where
  "duration_gauges topic status durations pm =
    (if length durations > 0
     then map_option (\<lambda>pm. (pm, percentile_sets topic status (PercentileLabels pm)
         (map (\<lambda>v. f64_div (f64_of_int v) (f64_of_int 1000)) (pm_Values pm)))) (pm_Compute durations pm)
     else Some (pm, percentile_sets topic status (PercentileLabels pm)
         (replicate (length BucketsJobDurationPercentiles) 0)))"

fun duration_gauges_loop ::
    "(string \<times> PercentilesDetail) list \<Rightarrow> PrometheusMetrics \<Rightarrow> PrometheusMetrics option" where
  "duration_gauges_loop [] m = Some m"
| "duration_gauges_loop ((topic, detail) # p) m =
    (case duration_gauges topic ''active'' (ActiveJobsDurations detail) (ActiveJobsPercentiles m) of
      None \<Rightarrow> None
    | Some (a, as) \<Rightarrow>
      (case duration_gauges topic ''completed'' (CompletedJobsDurations detail) (CompletedJobsPercentiles m) of
        None \<Rightarrow> None
      | Some (c, cs) \<Rightarrow> duration_gauges_loop p (prom_emit (as @ cs)
          (m\<lparr>ActiveJobsPercentiles := a, CompletedJobsPercentiles := c\<rparr>))))"

definition UpdateJobDurationGauges ::
    "(string \<times> PercentilesDetail) list \<Rightarrow> PrometheusMetrics \<Rightarrow> PrometheusMetrics option" where
  "UpdateJobDurationGauges p m = duration_gauges_loop p (prom_emit [PercentilesReset] m)"

end
