(* ===== verification/Metrics.thy ===== *)
theory Metrics
  imports Prometheus "HOL-Library.Char_ord" "HOL-Library.List_Lexorder"
begin

text \<open>
  The service metrics of \<^verbatim>\<open>src/metrics/servicemetrics.go\<close>: the counters of each topic,
  the statistics of the topics, the locked resources and the list of topics, as the state
  the calls of the scheduler change (theory \<open>Events\<close>). A \<^verbatim>\<open>sync.Map\<close> is an association
  list; the mutexes make each operation one step, so the counters shared by pointer are those
  of the map. \<open>sm_reads\<close> counts the readings of the clock.
\<close>

section \<open>State\<close>

record ResourceMetrics =
  rm_ResourceName :: string
  rm_JobUUID :: JobUUID
  rm_Topic :: string
  StartTime :: int64
  LockDuration :: int64

record TopicMetrics =
  TopicName :: string
  TotalJobs :: nat
  PercentJobs :: float64
  ActiveJobs :: nat
  SuccessRate :: float64
  AverageDuration :: float64

record TopicCompletedJobStats =
  CompletedJobsCount :: nat
  CumulativeDurationMs :: int64

record JobStatsMetrics =
  ExistingJobs :: nat
  CreatedJobs :: nat
  DelayedJobs :: nat
  PendingJobs :: nat
  QueuedJobs :: nat
  RunningJobs :: nat
  SucceededJobs :: nat
  FailedJobs :: nat
  HiddenJobs :: nat
  CanceledJobs :: nat
  DeletedJobs :: nat

record ServiceMetrics =
  JobMetricsByTopicMap :: "(string, JobMetrics) gomap"
  TopicMetricsByTopicMap :: "(string, TopicMetrics) gomap"
  CompletedJobsStatsByTopic :: "(string, TopicCompletedJobStats) gomap"
  ResourceMetricsMap :: "(string, ResourceMetrics) gomap"
  Topics :: "string list"
  sm_prom :: PrometheusMetrics
  enabledCollect :: bool
  sm_reads :: nat

record metrics_env =
  me_lib :: prom_lib
  me_now_ms :: "nat \<Rightarrow> int64"

definition NewServiceMetrics :: "bool \<Rightarrow> ServiceMetrics" where
  "NewServiceMetrics enabled = \<lparr>JobMetricsByTopicMap = [], TopicMetricsByTopicMap = [],
    CompletedJobsStatsByTopic = [], ResourceMetricsMap = [], Topics = [],
    sm_prom = \<lparr>ActiveJobsPercentiles = NewPercentilesMetrics [],
      CompletedJobsPercentiles = NewPercentilesMetrics [], prom_calls = []\<rparr>,
    enabledCollect = enabled, sm_reads = 0\<rparr>"

definition sm_Init :: "ServiceMetrics \<Rightarrow> ServiceMetrics" where
  "sm_Init s = s\<lparr>sm_prom := prom_Init (sm_prom s)\<rparr>"

text \<open>The zero counters but for the number of deleted jobs, which is never cleared.\<close>

definition JobMetrics_Clear :: "JobMetrics \<Rightarrow> JobMetrics" where
  "JobMetrics_Clear jm = jm\<lparr>ResourcesLockedCount := 0, JobsExisting := 0, JobsStatusCreated := 0,
    JobsStatusDelayed := 0, JobsStatusPending := 0, JobsStatusQueued := 0, JobsStatusRunning := 0,
    JobsStatusSucceeded := 0, JobsStatusFailed := 0, JobsStatusHidden := 0,
    JobsCounterDeleted := 0, JobsStatusCanceled := 0\<rparr>"

section \<open>Topics\<close>

definition AddTopicMetrics :: "string \<Rightarrow> ServiceMetrics \<Rightarrow> TopicMetrics \<times> ServiceMetrics" where
  "AddTopicMetrics topic s =
    (let tm = \<lparr>TopicName = topic, TotalJobs = 0, PercentJobs = 0, ActiveJobs = 0, SuccessRate = 0,
       AverageDuration = 0\<rparr>
     in (tm, s\<lparr>TopicMetricsByTopicMap := AList.update topic tm (TopicMetricsByTopicMap s)\<rparr>))"

definition GetTopicMetrics :: "string \<Rightarrow> ServiceMetrics \<Rightarrow> TopicMetrics \<times> ServiceMetrics" where
  "GetTopicMetrics topic s = (case map_of (TopicMetricsByTopicMap s) topic of
      None \<Rightarrow> AddTopicMetrics topic s | Some tm \<Rightarrow> (tm, s))"

definition AddCompletedJobStats :: "string \<Rightarrow> ServiceMetrics \<Rightarrow> TopicCompletedJobStats \<times> ServiceMetrics" where
  "AddCompletedJobStats topic s =
    (let st = \<lparr>CompletedJobsCount = 0, CumulativeDurationMs = 0\<rparr>
     in (st, s\<lparr>CompletedJobsStatsByTopic := AList.update topic st (CompletedJobsStatsByTopic s)\<rparr>))"

definition GetCompletedJobStats :: "string \<Rightarrow> ServiceMetrics \<Rightarrow> TopicCompletedJobStats \<times> ServiceMetrics" where
  "GetCompletedJobStats topic s = (case map_of (CompletedJobsStatsByTopic s) topic of
      None \<Rightarrow> AddCompletedJobStats topic s | Some st \<Rightarrow> (st, s))"

definition AddTopic :: "string \<Rightarrow> ServiceMetrics \<Rightarrow> JobMetrics \<times> ServiceMetrics" where
  "AddTopic topic s =
    (case map_of (JobMetricsByTopicMap s) topic of
      Some jm \<Rightarrow> (jm, s)
    | None \<Rightarrow>
      (let s = s\<lparr>JobMetricsByTopicMap := AList.update topic NewJobMetrics (JobMetricsByTopicMap s)\<rparr>;
           s = s\<lparr>Topics := Topics s @ [topic]\<rparr>;
           (_, s) = AddTopicMetrics topic s;
           (_, s) = AddCompletedJobStats topic s
       in (NewJobMetrics, s)))"

definition GetMetricByTopic :: "string \<Rightarrow> ServiceMetrics \<Rightarrow> JobMetrics \<times> ServiceMetrics" where
  "GetMetricByTopic topic s = (case map_of (JobMetricsByTopicMap s) topic of
      None \<Rightarrow> AddTopic topic s | Some jm \<Rightarrow> (jm, s))"

definition EnsureTopicExists :: "string \<Rightarrow> ServiceMetrics \<Rightarrow> ServiceMetrics" where
  "EnsureTopicExists topic s = (case map_of (JobMetricsByTopicMap s) topic of
      None \<Rightarrow> snd (AddTopic topic s) | Some _ \<Rightarrow> s)"

text \<open>A store through the pointers of the maps.\<close>

definition put_metrics :: "string \<Rightarrow> JobMetrics \<Rightarrow> ServiceMetrics \<Rightarrow> ServiceMetrics" where
  "put_metrics topic jm s = s\<lparr>JobMetricsByTopicMap := AList.update topic jm (JobMetricsByTopicMap s)\<rparr>"

definition put_topic :: "string \<Rightarrow> TopicMetrics \<Rightarrow> ServiceMetrics \<Rightarrow> ServiceMetrics" where
  "put_topic topic tm s = s\<lparr>TopicMetricsByTopicMap := AList.update topic tm (TopicMetricsByTopicMap s)\<rparr>"

section \<open>Counters\<close>

definition decrement :: "nat \<Rightarrow> nat" where
  "decrement v = (if v > 0 then v - 1 else v)"

fun leave_state :: "JobState \<Rightarrow> JobMetrics \<Rightarrow> JobMetrics" where
  "leave_state JobCreated jm = jm\<lparr>JobsStatusCreated := decrement (JobsStatusCreated jm)\<rparr>"
| "leave_state JobDelayed jm = jm\<lparr>JobsStatusDelayed := decrement (JobsStatusDelayed jm)\<rparr>"
| "leave_state JobPending jm = jm\<lparr>JobsStatusPending := decrement (JobsStatusPending jm)\<rparr>"
| "leave_state JobQueued jm = jm\<lparr>JobsStatusQueued := decrement (JobsStatusQueued jm)\<rparr>"
| "leave_state JobRunning jm = jm\<lparr>JobsStatusRunning := decrement (JobsStatusRunning jm)\<rparr>"
| "leave_state JobSucceeded jm = jm\<lparr>JobsStatusSucceeded := decrement (JobsStatusSucceeded jm)\<rparr>"
| "leave_state JobFailed jm = jm\<lparr>JobsStatusFailed := decrement (JobsStatusFailed jm)\<rparr>"
| "leave_state JobHidden jm = jm\<lparr>JobsStatusHidden := decrement (JobsStatusHidden jm)\<rparr>"
| "leave_state JobDeleted jm = jm\<lparr>JobsCounterDeleted := decrement (JobsCounterDeleted jm)\<rparr>"
| "leave_state JobCanceled jm = jm\<lparr>JobsStatusCanceled := decrement (JobsStatusCanceled jm)\<rparr>"
| "leave_state JobNoState jm = jm"

fun enter_state :: "JobState \<Rightarrow> JobMetrics \<Rightarrow> JobMetrics" where
  "enter_state JobCreated jm = jm\<lparr>JobsExisting := JobsExisting jm + 1, JobsStatusCreated := JobsStatusCreated jm + 1\<rparr>"
| "enter_state JobDelayed jm = jm\<lparr>JobsStatusDelayed := JobsStatusDelayed jm + 1\<rparr>"
| "enter_state JobPending jm = jm\<lparr>JobsStatusPending := JobsStatusPending jm + 1\<rparr>"
| "enter_state JobQueued jm = jm\<lparr>JobsStatusQueued := JobsStatusQueued jm + 1\<rparr>"
| "enter_state JobRunning jm = jm\<lparr>JobsStatusRunning := JobsStatusRunning jm + 1\<rparr>"
| "enter_state JobSucceeded jm = jm\<lparr>JobsStatusSucceeded := JobsStatusSucceeded jm + 1\<rparr>"
| "enter_state JobFailed jm = jm\<lparr>JobsStatusFailed := JobsStatusFailed jm + 1\<rparr>"
| "enter_state JobHidden jm = jm\<lparr>JobsStatusHidden := JobsStatusHidden jm + 1\<rparr>"
| "enter_state JobCanceled jm = jm\<lparr>JobsStatusCanceled := JobsStatusCanceled jm + 1\<rparr>"
| "enter_state JobDeleted jm = jm\<lparr>JobsExisting := decrement (JobsExisting jm), JobsCounterDeleted := JobsCounterDeleted jm + 1\<rparr>"
| "enter_state JobNoState jm = jm"

definition OnJobStateChange :: "JobState \<Rightarrow> JobState \<Rightarrow> JobMetrics \<Rightarrow> JobMetrics" where
  "OnJobStateChange previous new jm =
    (if previous = new then jm else enter_state new (leave_state previous jm))"

definition isJobCompleted :: "JobState \<Rightarrow> bool" where
  "isJobCompleted st \<longleftrightarrow> st \<in> {JobSucceeded, JobFailed, JobCanceled}"

definition UpdateCompletedJobStats :: "string \<Rightarrow> int64 \<Rightarrow> ServiceMetrics \<Rightarrow> ServiceMetrics" where
  "UpdateCompletedJobStats topic durationMs s =
    (let (st, s) = GetCompletedJobStats topic s;
         st = st\<lparr>CompletedJobsCount := CompletedJobsCount st + 1,
           CumulativeDurationMs := i64 (CumulativeDurationMs st + durationMs)\<rparr>
     in s\<lparr>CompletedJobsStatsByTopic := AList.update topic st (CompletedJobsStatsByTopic s)\<rparr>)"

definition active_state :: "JobState \<Rightarrow> bool" where
  "active_state st \<longleftrightarrow> st \<in> {JobPending, JobQueued, JobRunning}"

definition topic_counts :: "JobState \<Rightarrow> JobState \<Rightarrow> TopicMetrics \<Rightarrow> TopicMetrics" where
  "topic_counts previous new tm =
    (let tm = (if active_state previous then tm\<lparr>ActiveJobs := decrement (ActiveJobs tm)\<rparr> else tm)
     in if active_state new then tm\<lparr>ActiveJobs := ActiveJobs tm + 1\<rparr>
        else if new = JobCreated then tm\<lparr>TotalJobs := TotalJobs tm + 1\<rparr>
        else if new = JobDeleted then tm\<lparr>TotalJobs := decrement (TotalJobs tm)\<rparr>
        else tm)"

definition topic_average :: "TopicCompletedJobStats \<Rightarrow> TopicMetrics \<Rightarrow> TopicMetrics" where
  "topic_average st tm =
    (if CompletedJobsCount st > 0
     then let avgDurationMs = go_div (CumulativeDurationMs st) (int (CompletedJobsCount st))
          in tm\<lparr>AverageDuration := f64_div (f64_of_int avgDurationMs) (f64_of_int 1000)\<rparr>
     else tm)"

definition topic_rate :: "JobMetrics \<Rightarrow> TopicMetrics \<Rightarrow> TopicMetrics" where
  "topic_rate jm tm =
    (let completedJobs = JobsStatusSucceeded jm + JobsStatusFailed jm + JobsStatusCanceled jm
     in tm\<lparr>SuccessRate := if completedJobs > 0
        then f64_div (f64_of_int (int (JobsStatusSucceeded jm))) (f64_of_int (int completedJobs)) else 0\<rparr>)"

text \<open>
  The last lines write through the pointer read first: adding the topic here would put other
  statistics in the map.
\<close>

definition UpdateTopicMetrics ::
    "string \<Rightarrow> JobState \<Rightarrow> JobState \<Rightarrow> int64 \<Rightarrow> ServiceMetrics \<Rightarrow> ServiceMetrics" where
  "UpdateTopicMetrics topic previous new jobDurationMs s =
    (if \<not> enabledCollect s then s
     else let (tm, s) = GetTopicMetrics topic s;
              tm = topic_counts previous new tm;
              (tm, s) = (if isJobCompleted new \<and> \<not> isJobCompleted previous \<and> jobDurationMs > 0
                then let s = UpdateCompletedJobStats topic jobDurationMs s;
                         (st, s) = GetCompletedJobStats topic s
                     in (topic_average st tm, s)
                else (tm, s));
              known = map_of (JobMetricsByTopicMap s) topic \<noteq> None;
              (jm, s) = GetMetricByTopic topic s
          in if known then put_topic topic (topic_rate jm tm) s else s)"

section \<open>Locked resources\<close>

definition updateResourcesLockedCount :: "string \<Rightarrow> int \<Rightarrow> ServiceMetrics \<Rightarrow> ServiceMetrics" where
  "updateResourcesLockedCount topic inc s =
    (let (jm, s) = GetMetricByTopic topic s;
         n = ResourcesLockedCount jm
     in put_metrics topic (jm\<lparr>ResourcesLockedCount :=
          if inc < 0 then (if nat (- inc) \<ge> n then 0 else n - nat (- inc)) else n + nat inc\<rparr>) s)"

text \<open>With the mutex: the topic is registered, also when metrics are disabled.\<close>

definition sm_UpdateResourcesLockedCountMetric :: "string \<Rightarrow> int \<Rightarrow> ServiceMetrics \<Rightarrow> ServiceMetrics" where
  "sm_UpdateResourcesLockedCountMetric topic inc s = updateResourcesLockedCount topic inc s"

definition OnUnlockAllResources :: "ServiceMetrics \<Rightarrow> ServiceMetrics" where
  "OnUnlockAllResources s =
    (if \<not> enabledCollect s then s
     else s\<lparr>ResourceMetricsMap := [],
       JobMetricsByTopicMap := map (\<lambda>(t, jm). (t, jm\<lparr>ResourcesLockedCount := 0\<rparr>)) (JobMetricsByTopicMap s)\<rparr>)"

definition OnResourceUnlocked :: "string \<Rightarrow> string \<Rightarrow> ServiceMetrics \<Rightarrow> ServiceMetrics" where
  "OnResourceUnlocked resource topic s =
    (if \<not> enabledCollect s then s
     else updateResourcesLockedCount topic (-1)
       (s\<lparr>ResourceMetricsMap := AList.delete resource (ResourceMetricsMap s)\<rparr>))"

definition hold_resources :: "job \<Rightarrow> (string, ResourceMetrics) gomap \<Rightarrow> (string, ResourceMetrics) gomap" where
  "hold_resources j m = foldl (\<lambda>m r. AList.update r \<lparr>rm_ResourceName = r, rm_JobUUID = JobUUID j,
    rm_Topic = Topic j, StartTime = GetQueuedOrRunningTimestamp j, LockDuration = 0\<rparr> m) m (LockResources j)"

definition release_resources :: "job \<Rightarrow> (string, ResourceMetrics) gomap \<Rightarrow> (string, ResourceMetrics) gomap" where
  "release_resources j m = foldl (\<lambda>m r. case map_of m r of
      None \<Rightarrow> m
    | Some rm \<Rightarrow> if rm_JobUUID rm = JobUUID j then AList.delete r m else m) m (LockResources j)"

section \<open>Events\<close>

definition prom_event :: "metrics_env \<Rightarrow> ServiceEvent \<Rightarrow> JobMetrics option \<Rightarrow> ServiceMetrics \<Rightarrow> ServiceMetrics" where
  "prom_event e ev jm s = s\<lparr>sm_prom := OnEvent (me_lib e) ev jm (sm_prom s)\<rparr>"

definition OnDeleteAllJobs :: "ServiceMetrics \<Rightarrow> ServiceMetrics" where
  "OnDeleteAllJobs s = s\<lparr>
    JobMetricsByTopicMap := map (\<lambda>(t, jm). (t, let n = JobsCounterDeleted jm + JobsExisting jm
      in (JobMetrics_Clear jm)\<lparr>JobsCounterDeleted := n\<rparr>)) (JobMetricsByTopicMap s),
    TopicMetricsByTopicMap := map (\<lambda>(t, tm). (t, tm\<lparr>TotalJobs := 0, ActiveJobs := 0, SuccessRate := 0\<rparr>))
      (TopicMetricsByTopicMap s),
    ResourceMetricsMap := []\<rparr>"

text \<open>The event of a notification that is not about a job has the zero id, topic and lifetime.\<close>

definition plain_event :: "ServiceEventType \<Rightarrow> string \<Rightarrow> ServiceEvent" where
  "plain_event ev topic = \<lparr>se_Type = ev, se_JobUUID = 0, se_Topic = topic, se_JobLifetime = 0\<rparr>"

definition sm_NotifyEvent :: "metrics_env \<Rightarrow> ServiceEventType \<Rightarrow> ServiceMetrics \<Rightarrow> ServiceMetrics" where
  "sm_NotifyEvent e ev s =
    (if ev = ServiceEventJobDeletedAll then prom_event e (plain_event ev []) None (OnDeleteAllJobs s)
     else if ev = ServiceEventEmptyPollReceived then prom_event e (plain_event ev []) None s
     else s)"

definition sm_NotifyTopicEvent ::
    "metrics_env \<Rightarrow> ServiceEventType \<Rightarrow> string \<Rightarrow> ServiceMetrics \<Rightarrow> ServiceMetrics" where
  "sm_NotifyTopicEvent e ev topic s =
    (if \<not> enabledCollect s then s
     else let s = (if topic \<noteq> ''*'' then EnsureTopicExists topic s else s)
          in if ev = ServiceEventEmptyPollReceived then prom_event e (plain_event ev topic) None s else s)"

fun history_changes :: "JobState \<Rightarrow> JobState list \<Rightarrow> JobMetrics \<Rightarrow> JobMetrics" where
  "history_changes previous [] jm = jm"
| "history_changes previous (new # states) jm = history_changes new states (OnJobStateChange previous new jm)"

definition UpdateMetricsFromJobHistory :: "job \<Rightarrow> ServiceMetrics \<Rightarrow> ServiceMetrics" where
  "UpdateMetricsFromJobHistory j s =
    (let states = GetHistoryStates j;
         (jm, s) = GetMetricByTopic (Topic j) s;
         s = put_metrics (Topic j) (history_changes JobNoState states jm) s;
         (tm, s) = GetTopicMetrics (Topic j) s;
         tm = tm\<lparr>TotalJobs := TotalJobs tm + 1\<rparr>;
         tm = (if active_state (state j) then tm\<lparr>ActiveJobs := ActiveJobs tm + 1\<rparr> else tm);
         s = put_topic (Topic j) tm s
     in if state j = JobQueued \<or> state j = JobRunning
        then s\<lparr>ResourceMetricsMap := hold_resources j (ResourceMetricsMap s)\<rparr> else s)"

definition resource_metrics :: "job \<Rightarrow> JobState \<Rightarrow> (string, ResourceMetrics) gomap \<Rightarrow> (string, ResourceMetrics) gomap" where
  "resource_metrics j new m =
    (if new \<in> {JobQueued, JobRunning} then hold_resources j m
     else if new \<in> {JobSucceeded, JobFailed, JobCanceled, JobDeleted, JobHidden} then release_resources j m
     else m)"

definition sm_NotifyJobEvent ::
    "metrics_env \<Rightarrow> job \<Rightarrow> ServiceEventType \<Rightarrow> ServiceMetrics \<Rightarrow> ServiceMetrics" where
  "sm_NotifyJobEvent e j ev s =
    (if \<not> enabledCollect s then s
     else if ev = ServiceEventJobLoaded
     then let s = UpdateMetricsFromJobHistory j s;
              (jm, s) = GetMetricByTopic (Topic j) s
          in s\<lparr>sm_prom := SetGauges (Topic j) jm (sm_prom s)\<rparr>
     else let previous = previousState j;
              new = (if ev = ServiceEventJobDeleted then JobDeleted else state j);
              (jm, s) = GetMetricByTopic (Topic j) s;
              jm = OnJobStateChange previous new jm;
              s = put_metrics (Topic j) jm s;
              s = UpdateTopicMetrics (Topic j) previous new (GetDurationMsSinceLastAndFirstEvent j) s;
              s = s\<lparr>ResourceMetricsMap := resource_metrics j new (ResourceMetricsMap s)\<rparr>
          in prom_event e \<lparr>se_Type = ev, se_JobUUID = JobUUID j, se_Topic = Topic j,
               se_JobLifetime = GetDurationMsSinceLastAndFirstEvent j\<rparr> (Some jm) s)"

section \<open>Statistics of the jobs\<close>

text \<open>A clock reading in milliseconds; \<^verbatim>\<open>time.Now().Unix()\<close> is the same clock in seconds.\<close>

definition sm_time_now :: "metrics_env \<Rightarrow> ServiceMetrics \<Rightarrow> int64 \<times> ServiceMetrics" where
  "sm_time_now e s = (me_now_ms e (sm_reads s), s\<lparr>sm_reads := sm_reads s + 1\<rparr>)"

definition sm_emit :: "prom_call list \<Rightarrow> ServiceMetrics \<Rightarrow> ServiceMetrics" where
  "sm_emit cs s = s\<lparr>sm_prom := prom_emit cs (sm_prom s)\<rparr>"

text \<open>The flag tells that the loop panicked (a job without history has no creation time).\<close>

fun observe_active :: "int64 \<Rightarrow> job list \<Rightarrow> ServiceMetrics \<Rightarrow> bool \<times> ServiceMetrics" where
  "observe_active now [] s = (False, s)"
| "observe_active now (j # js) s =
    (if IsCompleted j then observe_active now js s
     else case GetCreationTimestamp j of
       None \<Rightarrow> (True, s)
     | Some t \<Rightarrow> observe_active now js (sm_emit [ActiveObserve (Topic j)
         (f64_div (f64_of_int (i64 (now - t))) (f64_of_int 1000))] s))"

definition no_durations :: PercentilesDetail where
  "no_durations = \<lparr>ActiveJobsDurations = [], CompletedJobsDurations = []\<rparr>"

definition detail_of :: "string \<Rightarrow> (string, PercentilesDetail) gomap \<Rightarrow> PercentilesDetail" where
  "detail_of topic p = (case map_of p topic of None \<Rightarrow> no_durations | Some d \<Rightarrow> d)"

fun job_durations :: "int64 \<Rightarrow> job list \<Rightarrow> (string, PercentilesDetail) gomap \<Rightarrow> (string, PercentilesDetail) gomap option" where
  "job_durations now [] p = Some p"
| "job_durations now (j # js) p =
    (let d = detail_of (Topic j) p in
     if IsCompleted j
     then job_durations now js (AList.update (Topic j) (d\<lparr>CompletedJobsDurations :=
       CompletedJobsDurations d @ [GetDurationMsSinceLastAndFirstEvent j]\<rparr>) p)
     else case GetCreationTimestamp j of
       None \<Rightarrow> None
     | Some t \<Rightarrow> job_durations now js (AList.update (Topic j) (d\<lparr>ActiveJobsDurations :=
         ActiveJobsDurations d @ [i64 (now - t)]\<rparr>) p))"

definition sort_durations :: "PercentilesDetail \<Rightarrow> PercentilesDetail" where
  "sort_durations d = d\<lparr>CompletedJobsDurations := sort (CompletedJobsDurations d),
    ActiveJobsDurations := sort (ActiveJobsDurations d)\<rparr>"

text \<open>
  The topics of the list have an entry, also without jobs. The map is ranged over in an
  order Go does not fix; here it is the order of the first appearance of each topic.
\<close>

definition topic_durations :: "int64 \<Rightarrow> job list \<Rightarrow> string list \<Rightarrow> (string, PercentilesDetail) gomap option" where
  "topic_durations now js topics =
    map_option (map (\<lambda>(t, d). (t, sort_durations d)))
      (job_durations now js (foldl (\<lambda>p t. AList.update t no_durations p) [] topics))"

definition UpdateJobDurationPercentiles :: "job list \<Rightarrow> int64 \<Rightarrow> ServiceMetrics \<Rightarrow> bool \<times> ServiceMetrics" where
  "UpdateJobDurationPercentiles js now s =
    (case topic_durations now js (Topics s) of
      None \<Rightarrow> (True, s)
    | Some p \<Rightarrow> (case UpdateJobDurationGauges p (sm_prom s) of
        None \<Rightarrow> (True, s)
      | Some m \<Rightarrow> (False, s\<lparr>sm_prom := m\<rparr>)))"

definition sm_UpdateJobStatistics :: "metrics_env \<Rightarrow> job list \<Rightarrow> ServiceMetrics \<Rightarrow> bool \<times> ServiceMetrics" where
  "sm_UpdateJobStatistics e js s =
    (if \<not> enabledCollect s then (False, s)
     else let s = sm_emit [ActiveReset] s;
              s = sm_emit (map (\<lambda>t. ActiveObserve t 0) (Topics s)) s;
              (now, s) = sm_time_now e s;
              (panic, s) = observe_active now js s
          in if panic then (True, s) else UpdateJobDurationPercentiles js now s)"

section \<open>Reading the metrics\<close>

definition GetTopics :: "ServiceMetrics \<Rightarrow> string list" where
  "GetTopics s = Topics s"

text \<open>The lock durations, at the time \<open>now\<close> (seconds), in the order of the resource names.\<close>

definition GetResourcesMetrics :: "int64 \<Rightarrow> ServiceMetrics \<Rightarrow> ResourceMetrics list" where
  "GetResourcesMetrics now s =
    sort_func (\<lambda>a b. cmp_compare (rm_ResourceName a) (rm_ResourceName b))
      (map (\<lambda>(r, rm). \<lparr>rm_ResourceName = r, rm_JobUUID = rm_JobUUID rm, rm_Topic = rm_Topic rm,
          StartTime = StartTime rm, LockDuration = i64 (now - StartTime rm)\<rparr>) (ResourceMetricsMap s))"

fun topics_stats :: "string list \<Rightarrow> ServiceMetrics \<Rightarrow> TopicMetrics list \<times> nat \<times> ServiceMetrics" where
  "topics_stats [] s = ([], 0, s)"
| "topics_stats (t # ts) s =
    (let (tm, s) = GetTopicMetrics t s; (stats, n, s) = topics_stats ts s
     in (tm # stats, TotalJobs tm + n, s))"

definition percent_of :: "nat \<Rightarrow> TopicMetrics \<Rightarrow> TopicMetrics" where
  "percent_of n tm = tm\<lparr>PercentJobs := if n > 0
    then f64_mul (f64_div (f64_of_int (int (TotalJobs tm))) (f64_of_int (int n))) (f64_of_int 100)
    else 0\<rparr>"

definition GetTopicsStats :: "ServiceMetrics \<Rightarrow> TopicMetrics list \<times> ServiceMetrics" where
  "GetTopicsStats s =
    (let (stats, totalJobsAllTopics, s) = topics_stats (Topics s) s
     in (map (percent_of totalJobsAllTopics) stats, s))"

definition add_stats :: "JobMetrics \<Rightarrow> JobStatsMetrics \<Rightarrow> JobStatsMetrics" where
  "add_stats jm st = \<lparr>ExistingJobs = ExistingJobs st + JobsExisting jm,
    CreatedJobs = CreatedJobs st + JobsStatusCreated jm, DelayedJobs = DelayedJobs st + JobsStatusDelayed jm,
    PendingJobs = PendingJobs st + JobsStatusPending jm, QueuedJobs = QueuedJobs st + JobsStatusQueued jm,
    RunningJobs = RunningJobs st + JobsStatusRunning jm,
    SucceededJobs = SucceededJobs st + JobsStatusSucceeded jm,
    FailedJobs = FailedJobs st + JobsStatusFailed jm, HiddenJobs = HiddenJobs st + JobsStatusHidden jm,
    CanceledJobs = CanceledJobs st + JobsStatusCanceled jm, DeletedJobs = DeletedJobs st + JobsCounterDeleted jm\<rparr>"

definition GetJobMetricsByStatus :: "ServiceMetrics \<Rightarrow> JobStatsMetrics" where
  "GetJobMetricsByStatus s = foldl (\<lambda>st (_, jm). add_stats jm st)
    \<lparr>ExistingJobs = 0, CreatedJobs = 0, DelayedJobs = 0, PendingJobs = 0, QueuedJobs = 0, RunningJobs = 0,
     SucceededJobs = 0, FailedJobs = 0, HiddenJobs = 0, CanceledJobs = 0, DeletedJobs = 0\<rparr>
    (JobMetricsByTopicMap s)"

definition GetJobMetricsByTopicMap :: "ServiceMetrics \<Rightarrow> (string, JobMetrics list) gomap" where
  "GetJobMetricsByTopicMap s = map (\<lambda>(t, jm). (t, [jm])) (JobMetricsByTopicMap s)"

definition GetJobActivityMetrics :: "metrics_env \<Rightarrow> ServiceMetrics \<Rightarrow> JobActivityMetrics" where
  "GetJobActivityMetrics e s = GetJobEventCounters (me_lib e) (sm_prom s)"

section \<open>The calls of the scheduler\<close>

text \<open>
  The service registers the metrics as an observer when they are enabled, and calls them
  itself for the locks and the statistics. A panic of the statistics is logged by the caller.
\<close>

definition metrics_observer :: "metrics_env \<Rightarrow> ServiceMetrics observer" where
  "metrics_observer e = \<lparr>ob_Init = (\<lambda>s. (None, sm_Init s)), ob_Shutdown = (\<lambda>s. s),
    ob_NotifyEvent = sm_NotifyEvent e, ob_NotifyTopicEvent = sm_NotifyTopicEvent e,
    ob_NotifyJobEvent = sm_NotifyJobEvent e\<rparr>"

fun metrics_call :: "metrics_env \<Rightarrow> notif \<Rightarrow> ServiceMetrics \<Rightarrow> ServiceMetrics" where
  "metrics_call e (NLockedCount topic inc) s = sm_UpdateResourcesLockedCountMetric topic inc s"
| "metrics_call e NMetricsUnlockAll s = OnUnlockAllResources s"
| "metrics_call e (NMetricsResourceUnlocked resource topic) s = OnResourceUnlocked resource topic s"
| "metrics_call e (NJobStatistics js) s = snd (sm_UpdateJobStatistics e js s)"
| "metrics_call e n s = (if enabledCollect s then observe (metrics_observer e) n s else s)"

definition metrics_replay :: "metrics_env \<Rightarrow> notif list \<Rightarrow> ServiceMetrics \<Rightarrow> ServiceMetrics" where
  "metrics_replay e ns s = fold (metrics_call e) ns s"

end
