(* ===== verification/ServiceOps.thy ===== *)
theory ServiceOps
  imports ServiceLoad
begin

text \<open>
  What the operations do to the jobs, branch by branch: the end of a job (success,
  cancel, failure), the periodic tasks (visibility timeout, delayed jobs, retries,
  retention), creation and deletion. An operation that frees resources also enqueues pending
  jobs, so the jobs it may change are its own and the pending ones.
\<close>

section \<open>Frames\<close>

abbreviation pending_jobs :: "svc \<Rightarrow> ptr set" where
  "pending_jobs s \<equiv> in_state s JobPending"

lemma tryEnqueue_keeps:
  "inv_except {} s \<Longrightarrow> state (job_at s p) \<noteq> JobPending \<Longrightarrow>
    job_at (tryEnqueuePendingJobsLocked s) p = job_at s p"
  using inv_tryEnqueue(2)[of s] by (simp add: touches_def in_state_def)

lemma in_state_touches: "touches {p} s s1 \<Longrightarrow> in_state s1 X \<subseteq> insert p (in_state s X)"
  using touches_live[of "{p}" s s1] by (auto simp: in_state_def touches_def)

text \<open>An operation on one job that ends by enqueueing the pending ones.\<close>

lemma then_enqueue:
  assumes i: "inv_except {} s1" and t: "touches {p} s s1" and n: "state (job_at s1 p) \<noteq> JobPending"
  shows "touches (insert p (pending_jobs s)) s (tryEnqueuePendingJobsLocked s1)"
    "job_at (tryEnqueuePendingJobsLocked s1) p = job_at s1 p"
proof -
  have "touches ({p} \<union> in_state s1 JobPending) s (tryEnqueuePendingJobsLocked s1)"
    by (rule touches_trans[OF t inv_tryEnqueue(2)[OF i]])
  then show "touches (insert p (pending_jobs s)) s (tryEnqueuePendingJobsLocked s1)"
    by (rule touches_mono) (use in_state_touches[OF t] in blast)
  show "job_at (tryEnqueuePendingJobsLocked s1) p = job_at s1 p" by (rule tryEnqueue_keeps[OF i n])
qed

lemma touches_add_event [simp]: "touches {p} s (add_event_now p ev s)"
  by (simp add: touches_def)

lemma touches_notify [simp]: "touches P s (notify_job p ev s1) = touches P s s1"
  by (simp add: touches_def)

lemma touches_emit [simp]: "touches P s (emit e s1) = touches P s s1"
  by (simp add: touches_def)

lemma touches_unlock [simp]: "touches P s (unlockJobResourcesLocked p s1) = touches P s s1"
  by (simp add: touches_def)

lemma touches_add_event_after: "touches {p} s s1 \<Longrightarrow> touches {p} s (add_event_now p ev s1)"
  using touches_trans[of "{p}" s s1 "{p}"] by simp

section \<open>End of a job\<close>

lemma SetJobAsSuccessful_outcome:
  assumes i: "svc_inv s" and r: "SetJobAsSuccessful u s = (e, s')"
  shows "case lookup_job u s of
      None \<Rightarrow> s' = s \<and> map_option HttpCode e = Some StatusBadRequest
    | Some p \<Rightarrow>
      if state (job_at s p) \<noteq> JobRunning
      then s' = s \<and> map_option HttpCode e = Some StatusBadRequest
      else e = None \<and> touches (insert p (pending_jobs s)) s s'
        \<and> (\<exists>t. job_at s' p = AddHistoryEvent JobEventSuccess t (job_at s p))
        \<and> (\<forall>x. map_of (sv_locked s') x \<noteq> Some u)"
proof (cases "\<exists>p. lookup_job u s = Some p \<and> state (job_at s p) = JobRunning")
  case False
  then show ?thesis using r by (auto simp: SetJobAsSuccessful_def split: option.splits)
next
  case True
  then obtain p where lk: "lookup_job u s = Some p" and q: "state (job_at s p) = JobRunning" by blast
  have j: "inv_except {} s" using i by (simp add: svc_inv_def)
  note p = lookup_placed[OF j lk]
  define s2 where "s2 = notify_job p ServiceEventJobSucceeded
    (add_event_now p JobEventSuccess (unlockJobResourcesLocked p s))"
  have s': "s' = tryEnqueuePendingJobsLocked s2" "e = None"
    using r lk q by (simp_all add: SetJobAsSuccessful_def Let_def s2_def)
  note i1 = inv_unlock[OF j p(1)]
  have i2: "inv_except {p} s2" using inv_add_event_now[OF i1(1), of p] p by (simp add: s2_def)
  have "placed s2 p" using p(2) i1(2) q by (auto simp: placed_iff s2_def)
  then have i3: "inv_except {} s2" using inv_close[OF i2] by simp
  have t: "touches {p} s s2" "state (job_at s2 p) \<noteq> JobPending"
    by (simp_all add: s2_def touches_def)
  note k = then_enqueue[OF i3 t]
  have j2: "\<exists>t. job_at s2 p = AddHistoryEvent JobEventSuccess t (job_at s p)" by (simp add: s2_def) blast
  have "inv_except {} s'" using inv_SetJobAsSuccessful[OF j r] .
  moreover have "p \<in> live s'" using p(1) touches_live[OF k(1)] s' by simp
  ultimately have "placed s' p" by (simp add: inv_except_def)
  moreover have "state (job_at s' p) = JobSucceeded" "JobUUID (job_at s' p) = u"
    using k(2) j2 s' p(3) by auto
  ultimately have "map_of (sv_locked s') x \<noteq> Some u" for x unfolding placed_def by auto
  then show ?thesis using lk q k j2 s' by simp
qed

lemma CancelJob_outcome:
  assumes i: "svc_inv s" and r: "CancelJob u s = (e, s')"
  shows "case lookup_job u s of
      None \<Rightarrow> s' = s \<and> map_option HttpCode e = Some StatusBadRequest
    | Some p \<Rightarrow>
      if state (job_at s p) \<noteq> JobRunning
      then s' = s \<and> map_option HttpCode e = Some StatusBadRequest
      else e = None \<and> touches (insert p (pending_jobs s)) s s'
        \<and> (\<exists>t t'. job_at s' p =
             AddHistoryEvent JobEventEnqueue t' (AddHistoryEvent JobEventCancel t (job_at s p)))
        \<and> p \<in> q_entries (sv_queue s')"
proof (cases "\<exists>p. lookup_job u s = Some p \<and> state (job_at s p) = JobRunning")
  case False
  then show ?thesis using r by (auto simp: CancelJob_def split: option.splits)
next
  case True
  then obtain p where lk: "lookup_job u s = Some p" and q: "state (job_at s p) = JobRunning" by blast
  have j: "inv_except {} s" using i by (simp add: svc_inv_def)
  note p = lookup_placed[OF j lk]
  define s1 where "s1 = notify_job p ServiceEventJobCanceled (add_event_now p JobEventCancel s)"
  define s2 where "s2 = notifyQueuedLocked (notify_job p ServiceEventJobEnqueued
    (add_event_now p JobEventEnqueue s1))"
  have s': "s' = tryEnqueuePendingJobsLocked s2" "e = None"
    using r lk q by (simp_all add: CancelJob_def Let_def s1_def s2_def)
  have i1: "inv_except {p} s1" using inv_add_event_now[OF j p(1)] by (simp add: s1_def)
  have i2: "inv_except {p} s2" using inv_add_event_now[OF i1, of p] p
    by (simp add: s2_def s1_def notifyQueuedLocked_def)
  have "placed s2 p" using p(2) q
    by (intro placed_queued) (auto simp: placed_iff s1_def s2_def notifyQueuedLocked_def)
  then have i3: "inv_except {} s2" using inv_close[OF i2] by simp
  have t: "touches {p} s s2" "state (job_at s2 p) \<noteq> JobPending"
    by (simp_all add: s1_def s2_def touches_def notifyQueuedLocked_def)
  note k = then_enqueue[OF i3 t]
  have j2: "\<exists>t t'. job_at s2 p =
      AddHistoryEvent JobEventEnqueue t' (AddHistoryEvent JobEventCancel t (job_at s p))"
    by (simp add: s1_def s2_def notifyQueuedLocked_def) blast
  have "inv_except {} s'" using inv_CancelJob[OF j r] .
  moreover have "p \<in> live s'" using p(1) touches_live[OF k(1)] s' by simp
  moreover have "state (job_at s' p) = JobQueued" using k(2) j2 s' by auto
  ultimately have "p \<in> q_entries (sv_queue s')" by (simp add: inv_except_def base_inv_def in_state_def)
  then show ?thesis using lk q k j2 s' by simp
qed


lemma enqueueJobLocked_queues [simp]:
  "sv_retry (snd (enqueueJobLocked p s)) = sv_retry s"
  "sv_delayed (snd (enqueueJobLocked p s)) = sv_delayed s"
proof -
  obtain e s' where r: "enqueueJobLocked p s = (e, s')" by fastforce
  have "sv_retry s' = sv_retry s \<and> sv_delayed s' = sv_delayed s"
    using r by (cases rule: enqueueJobLocked_cases)
      (simp_all add: lockResourcesLocked_frame notify_job_def)
  then show "sv_retry (snd (enqueueJobLocked p s)) = sv_retry s"
    "sv_delayed (snd (enqueueJobLocked p s)) = sv_delayed s" using r by simp_all
qed

lemma tryEnqueue_queues [simp]:
  "sv_retry (tryEnqueuePendingJobsLocked s) = sv_retry s"
  "sv_delayed (tryEnqueuePendingJobsLocked s) = sv_delayed s"
proof -
  have "sv_retry (foldl (\<lambda>s p. snd (enqueueJobLocked p s)) t ps) = sv_retry t
      \<and> sv_delayed (foldl (\<lambda>s p. snd (enqueueJobLocked p s)) t ps) = sv_delayed t" for t ps
    by (induction ps arbitrary: t) simp_all
  then show "sv_retry (tryEnqueuePendingJobsLocked s) = sv_retry s"
    "sv_delayed (tryEnqueuePendingJobsLocked s) = sv_delayed s"
    by (simp_all add: tryEnqueuePendingJobsLocked_def Let_def)
qed

lemma touches_fields [simp]:
  "touches P s (s1\<lparr>sv_retry := rq\<rparr>) = touches P s s1"
  "touches P s (s1\<lparr>sv_delayed := dq\<rparr>) = touches P s s1"
  "touches P s (s1\<lparr>sv_pending := pm\<rparr>) = touches P s s1"
  "touches P s (s1\<lparr>sv_reads := n\<rparr>) = touches P s s1"
  "touches P s (s1\<lparr>sv_visibility_running := b\<rparr>) = touches P s s1"
  "touches P s (s1\<lparr>sv_delay_running := b\<rparr>) = touches P s s1"
  by (simp_all add: touches_def)

lemma reads_add_event_now: "sv_reads (add_event_now p ev s) = Suc (sv_reads s)"
  by (simp add: add_event_now_eq)

section \<open>Failure\<close>

lemma retryJobLocked_event:
  assumes "retryJobLocked p s = (None, s')"
  shows "\<exists>t. job_at s' p = AddHistoryEvent JobEventEnqueue t (job_at s p)"
proof -
  obtain e s1 where l: "lockResourcesLocked p s = (e, s1)" by fastforce
  have "e = None" "s' = notifyQueuedLocked (notify_job p ServiceEventJobEnqueued
      (add_event_now p JobEventEnqueue s1))"
    using assms by (simp_all add: retryJobLocked_def Let_def l split: option.splits)
  then show ?thesis using lockResourcesLocked_frame(3)[OF l]
    by (auto simp: notifyQueuedLocked_def)
qed

lemma GetCountFaillures_add:
  "GetCountFaillures (AddHistoryEvent JobEventFail t j) = u64 (GetCountFaillures j + 1)"
  by (simp add: GetCountFaillures_def)

text \<open>The two ways out of a failure: the final state, and the retry queue.\<close>

lemma terminate_outcome:
  assumes i: "inv_except {p} s1" and t: "touches {p} s s1"
    and v: "p \<in> live s1" "p \<notin> pend s1" "p \<notin> retr s1" "p \<notin> dela s1"
    "owned s1 p \<subseteq> set (LockResources (job_at s1 p))"
  shows "touches (insert p (pending_jobs s)) s (onJobFailedTooManyTimesLocked p s1)"
    "\<exists>t. job_at (onJobFailedTooManyTimesLocked p s1) p = AddHistoryEvent JobEventTerminate t (job_at s1 p)"
proof -
  define s2 where "s2 = notify_job p ServiceEventJobTerminated
    (unlockJobResourcesLocked p (add_event_now p JobEventTerminate s1))"
  have e: "onJobFailedTooManyTimesLocked p s1 = tryEnqueuePendingJobsLocked s2"
    by (simp add: onJobFailedTooManyTimesLocked_def Let_def s2_def)
  have i1: "inv_except {p} (add_event_now p JobEventTerminate s1)"
    using inv_add_event_now[OF i v(1)] by simp
  note i2 = inv_unlock[OF i1, of p]
  have "placed s2 p" using v i2(2) by (auto simp: placed_iff s2_def)
  then have i3: "inv_except {} s2" using inv_close[of p "{}" s2] i2(1) v by (simp add: s2_def)
  have t2: "touches {p} s s2" "state (job_at s2 p) \<noteq> JobPending"
    using touches_add_event_after[OF t] by (simp_all add: s2_def)
  show "touches (insert p (pending_jobs s)) s (onJobFailedTooManyTimesLocked p s1)"
    "\<exists>t. job_at (onJobFailedTooManyTimesLocked p s1) p = AddHistoryEvent JobEventTerminate t (job_at s1 p)"
    using then_enqueue[OF i3 t2] e by (auto simp: s2_def)
qed

lemma retryLater_outcome:
  assumes i: "inv_except {p} s1" and t: "touches {p} s s1"
    and v: "p \<in> live s1" "p \<notin> pend s1" "p \<notin> retr s1" "p \<notin> dela s1"
    "owned s1 p \<subseteq> set (LockResources (job_at s1 p))"
  shows "touches (insert p (pending_jobs s)) s (retryJobLaterLocked p next s1)"
    "\<exists>t. job_at (retryJobLaterLocked p next s1) p = AddHistoryEvent JobEventHide t (job_at s1 p)"
    "pq_nodes (sv_retry (retryJobLaterLocked p next s1)) =
       stable_insert (p, i64 (- next)) (pq_nodes (sv_retry s1))"
proof -
  define s2 where "s2 = notify_job p ServiceEventJobHidden
    (unlockJobResourcesLocked p (add_event_now p JobEventHide s1))"
  define s3 where "s3 = s2\<lparr>sv_retry := Enqueue p (i64 (- next)) (sv_retry s2)\<rparr>"
  have e: "retryJobLaterLocked p next s1 = tryEnqueuePendingJobsLocked s3"
    by (simp add: retryJobLaterLocked_def Let_def s2_def s3_def)
  have i1: "inv_except {p} (add_event_now p JobEventHide s1)"
    using inv_add_event_now[OF i v(1)] by simp
  note u = inv_unlock[OF i1, of p]
  have i2: "inv_except {p} s2" using u(1) v by (simp add: s2_def)
  have l2: "p \<in> live s2" "p \<notin> retr s2" using v by (simp_all add: s2_def)
  note i3 = inv_retry_enqueue[OF i2 l2, of "i64 (- next)", folded s3_def]
  have "placed s3 p" using v i3(2) u(2) by (auto simp: placed_iff s2_def s3_def)
  then have i4: "inv_except {} s3" using inv_close[of p "{}" s3] i3(1) by simp
  have t2: "touches {p} s s3" "state (job_at s3 p) \<noteq> JobPending"
    using touches_add_event_after[OF t] by (simp_all add: s2_def s3_def)
  show "touches (insert p (pending_jobs s)) s (retryJobLaterLocked p next s1)"
    "\<exists>t. job_at (retryJobLaterLocked p next s1) p = AddHistoryEvent JobEventHide t (job_at s1 p)"
    using then_enqueue[OF i4 t2] e by (auto simp: s2_def s3_def)
  have "pq_wf (sv_retry s1)" using inv_own[OF i] by (simp add: pq_ok_def)
  moreover have "sv_retry (tryEnqueuePendingJobsLocked s3) = sv_retry s3"
    by simp
  ultimately show "pq_nodes (sv_retry (retryJobLaterLocked p next s1)) =
       stable_insert (p, i64 (- next)) (pq_nodes (sv_retry s1))"
    by (simp add: e s3_def s2_def Enqueue_nodes)
qed

text \<open>What became of a running job whose attempt failed, by the number of failures.\<close>

definition failed_with :: "string \<Rightarrow> job \<Rightarrow> job \<Rightarrow> bool" where
  "failed_with ev j j' \<longleftrightarrow>
    (\<exists>t t'. j' = AddHistoryEvent ev t' (AddHistoryEvent JobEventFail t j))"

lemma failed_withI: "j' = AddHistoryEvent ev t' (AddHistoryEvent JobEventFail t j) \<Longrightarrow> failed_with ev j j'"
  by (auto simp: failed_with_def)

lemma failJobLocked_outcome:
  assumes i: "svc_inv s" and r: "failJobLocked u s = ((reached, e), s')"
    and lk: "lookup_job u s = Some p" and q: "state (job_at s p) = JobRunning"
  defines "failures \<equiv> u64 (GetCountFaillures (job_at s p) + 1)"
  defines "delay \<equiv> ComputeDelay (env_exp_ms (sv_env s))
    (rp_BackoffStrategy (conf_RetryPolicy (sv_conf s))) failures"
  defines "now \<equiv> env_clock (sv_env s) (Suc (sv_reads s))"
  shows "e = None" "touches (insert p (pending_jobs s)) s s'"
    "failures \<ge> rp_MaxRetry (conf_RetryPolicy (sv_conf s)) \<Longrightarrow>
      reached \<and> failed_with JobEventTerminate (job_at s p) (job_at s' p)"
    "failures < rp_MaxRetry (conf_RetryPolicy (sv_conf s)) \<Longrightarrow> delay = 0 \<Longrightarrow>
      lock_of u (LockResources (job_at s p)) (sv_locked s) \<noteq> None \<Longrightarrow>
      \<not> reached \<and> failed_with JobEventEnqueue (job_at s p) (job_at s' p)"
    "failures < rp_MaxRetry (conf_RetryPolicy (sv_conf s)) \<Longrightarrow>
      delay \<noteq> 0 \<or> lock_of u (LockResources (job_at s p)) (sv_locked s) = None \<Longrightarrow>
      \<not> reached \<and> failed_with JobEventHide (job_at s p) (job_at s' p)
      \<and> pq_nodes (sv_retry s') = stable_insert
          (p, i64 (- (if delay = 0 then now else i64 (now + Milliseconds delay)))) (pq_nodes (sv_retry s))"
proof -
  have j: "inv_except {} s" using i by (simp add: svc_inv_def)
  note p = lookup_placed[OF j lk]
  define s1 where "s1 = notify_job p ServiceEventJobFailed (add_event_now p JobEventFail s)"
  have i1: "inv_except {p} s1" using inv_add_event_now[OF j p(1)] by (simp add: s1_def)
  have v: "p \<in> live s1" "p \<notin> pend s1" "p \<notin> retr s1" "p \<notin> dela s1"
    "owned s1 p \<subseteq> set (LockResources (job_at s1 p))"
    using p q by (auto simp: s1_def placed_iff)
  define s2 where "s2 = s1\<lparr>sv_reads := Suc (sv_reads s1)\<rparr>"
  have i2: "inv_except {p} s2" using i1 by (simp add: s2_def)
  have v2: "p \<in> live s2" "p \<notin> pend s2" "p \<notin> retr s2" "p \<notin> dela s2"
    "owned s2 p \<subseteq> set (LockResources (job_at s2 p))"
    using v by (simp_all add: s2_def)
  have t: "touches {p} s s1" "touches {p} s s2" by (simp_all add: s1_def s2_def)
  have c: "sv_conf s1 = sv_conf s" "sv_env s1 = sv_env s" "sv_reads s1 = Suc (sv_reads s)"
    "GetCountFaillures (job_at s1 p) = failures" "sv_retry s2 = sv_retry s"
    "JobUUID (job_at s2 p) = u" "LockResources (job_at s2 p) = LockResources (job_at s p)"
    "sv_locked s2 = sv_locked s"
    using p(3) by (simp_all add: s1_def s2_def failures_def GetCountFaillures_add reads_add_event_now)
  have jt: "\<exists>t. job_at s1 p = AddHistoryEvent JobEventFail t (job_at s p)"
    "job_at s2 p = job_at s1 p" by (auto simp: s1_def s2_def)
  obtain x s3 where rt: "retryJobLocked p s2 = (x, s3)" by fastforce
  note rs = inv_retryJobLocked[OF i2 v2 rt]
  have x: "x = None \<longleftrightarrow> lock_of u (LockResources (job_at s p)) (sv_locked s) \<noteq> None"
    using rt lockResourcesLocked_error_iff[of p s2] c
    by (auto simp: retryJobLocked_def Let_def split: prod.splits option.splits)
  have u: "failJobLocked u s = (if GetCountFaillures (job_at s1 p) \<ge> rp_MaxRetry (conf_RetryPolicy (sv_conf s1))
      then ((True, None), onJobFailedTooManyTimesLocked p s1)
      else if ComputeDelay (env_exp_ms (sv_env s1)) (rp_BackoffStrategy (conf_RetryPolicy (sv_conf s1)))
        (GetCountFaillures (job_at s1 p)) = 0
      then (case retryJobLocked p s2 of (None, s') \<Rightarrow> ((False, None), s')
        | (Some _, s') \<Rightarrow> ((False, None), retryJobLaterLocked p (env_clock (sv_env s1) (sv_reads s1)) s'))
      else ((False, None), retryJobLaterLocked p (i64 (env_clock (sv_env s1) (sv_reads s1)
        + Milliseconds (ComputeDelay (env_exp_ms (sv_env s1)) (rp_BackoffStrategy (conf_RetryPolicy (sv_conf s1)))
            (GetCountFaillures (job_at s1 p))))) s2))"
    by (simp only: failJobLocked_def lk option.case q not_True_eq_False if_False refl Let_def
        s1_def[symmetric] s2_def time_now_def prod.case Suc_eq_plus1)
  have res: "((reached, e), s') =
      (if failures \<ge> rp_MaxRetry (conf_RetryPolicy (sv_conf s))
       then ((True, None), onJobFailedTooManyTimesLocked p s1)
       else if delay = 0
       then if x = None then ((False, None), s3) else ((False, None), retryJobLaterLocked p now s3)
       else ((False, None), retryJobLaterLocked p (i64 (now + Milliseconds delay)) s2))"
    using r[symmetric] unfolding u c rt delay_def[symmetric] now_def[symmetric]
    by (cases x) (simp_all split: if_splits)
  have b: "x \<noteq> None \<Longrightarrow> s3 = s2" using rs by simp
  note te = terminate_outcome[OF i1 t(1) v]
  note la = retryLater_outcome[OF i2 t(2) v2]
  have enq: "x = None \<Longrightarrow> \<exists>t. job_at s3 p = AddHistoryEvent JobEventEnqueue t (job_at s1 p)"
    using retryJobLocked_event[of p s2 s3] rt jt(2) by simp
  have t3: "touches (insert p (pending_jobs s)) s s3"
    using touches_trans[OF t(2), of "{p}" s3] rs by (auto intro: touches_mono)
  show "e = None" using res by (auto split: if_splits)
  show "touches (insert p (pending_jobs s)) s s'"
    using res te(1) la(1) t3 b by (auto split: if_splits)
  show "reached \<and> failed_with JobEventTerminate (job_at s p) (job_at s' p)"
    if "failures \<ge> rp_MaxRetry (conf_RetryPolicy (sv_conf s))"
    using res that te(2) jt(1) by (auto intro: failed_withI)
  show "\<not> reached \<and> failed_with JobEventEnqueue (job_at s p) (job_at s' p)"
    if "failures < rp_MaxRetry (conf_RetryPolicy (sv_conf s))" "delay = 0"
      "lock_of u (LockResources (job_at s p)) (sv_locked s) \<noteq> None"
    using res that enq jt(1) x by (auto intro: failed_withI)
  show "\<not> reached \<and> failed_with JobEventHide (job_at s p) (job_at s' p)
      \<and> pq_nodes (sv_retry s') = stable_insert
          (p, i64 (- (if delay = 0 then now else i64 (now + Milliseconds delay)))) (pq_nodes (sv_retry s))"
    if "failures < rp_MaxRetry (conf_RetryPolicy (sv_conf s))"
      "delay \<noteq> 0 \<or> lock_of u (LockResources (job_at s p)) (sv_locked s) = None"
  proof (cases "delay = 0")
    case True
    then have "s' = retryJobLaterLocked p now s2" "\<not> reached" using res that x b by auto
    then show ?thesis using la(2,3)[of now] jt c True by (auto intro: failed_withI)
  next
    case False
    then have "s' = retryJobLaterLocked p (i64 (now + Milliseconds delay)) s2" "\<not> reached"
      using res that by auto
    then show ?thesis using la(2,3)[of "i64 (now + Milliseconds delay)"] jt c False
      by (auto intro: failed_withI)
  qed
qed

lemma failJobLocked_refused:
  "\<not> (\<exists>p. lookup_job u s = Some p \<and> state (job_at s p) = JobRunning) \<Longrightarrow>
    \<exists>err. failJobLocked u s = ((False, Some err), s) \<and> HttpCode err = StatusBadRequest"
  by (auto simp: failJobLocked_def split: option.splits)

end
