(* ===== verification/ServiceTasks.thy ===== *)
theory ServiceTasks
  imports ServiceOps
begin

text \<open>
  What the scheduler's own work does to the jobs: enqueueing the pending jobs, the periodic
  tasks (delayed jobs, retries, visibility timeout, retention), and what creation and
  deletion promise.
\<close>

section \<open>Enqueueing the pending jobs\<close>

text \<open>
  A pending job that stays pending is blocked: a lock of another job, or its start time is
  still in the future when the clock is read.
\<close>

definition blocked_job :: "svc \<Rightarrow> nat \<Rightarrow> LockedResources \<Rightarrow> job \<Rightarrow> bool" where
  "blocked_job s n m j \<longleftrightarrow> requiresLockedResources m j
    \<or> (\<exists>k \<ge> n. env_clock (sv_env s) k < StartAfter j)"

lemma requires_ex: "requiresLockedResources m j \<longleftrightarrow>
    (\<exists>r \<in> set (LockResources j). \<exists>v. map_of m r = Some v \<and> v \<noteq> JobUUID j)"
  unfolding requiresLockedResources_iff locks.lock_iff by (auto simp del: map_of_eq_Some_iff)

lemma requires_mono:
  "requiresLockedResources m j \<Longrightarrow> map_of m \<subseteq>\<^sub>m map_of m' \<Longrightarrow> requiresLockedResources m' j"
  unfolding requires_ex map_le_def dom_def by (metis (mono_tags, lifting) mem_Collect_eq option.distinct(1))

lemma blocked_job_event [simp]: "blocked_job s n m (AddHistoryEvent ev t j) = blocked_job s n m j"
  by (simp add: blocked_job_def requires_ex)

lemma blocked_job_earlier:
  "blocked_job s1 n1 m j \<Longrightarrow> sv_env s1 = sv_env s \<Longrightarrow> n \<le> n1 \<Longrightarrow> blocked_job s n m j"
  by (auto simp: blocked_job_def intro: order_trans)

lemma map_le_lock: "lock_of u rs m = Some m' \<Longrightarrow> map_of m \<subseteq>\<^sub>m map_of m'"
  using locks.lock_iff[of u rs m] locks.lock_owner[of u rs m m']
  by (auto simp: map_le_def)

lemma enqueue_one:
  assumes r: "enqueueJobLocked p s = (e, s')"
  shows "sv_env s' = sv_env s" "sv_reads s \<le> sv_reads s'" "map_of (sv_locked s) \<subseteq>\<^sub>m map_of (sv_locked s')"
    "e = None \<Longrightarrow> \<exists>t. job_at s' p = AddHistoryEvent JobEventEnqueue t (job_at s p)"
    "e \<noteq> None \<Longrightarrow> job_at s' p = job_at s p \<and> blocked_job s (sv_reads s) (sv_locked s') (job_at s p)"
proof -
  have "sv_env s' = sv_env s \<and> sv_reads s \<le> sv_reads s' \<and> map_of (sv_locked s) \<subseteq>\<^sub>m map_of (sv_locked s')
    \<and> (e = None \<longrightarrow> (\<exists>t. job_at s' p = AddHistoryEvent JobEventEnqueue t (job_at s p)))
    \<and> (e \<noteq> None \<longrightarrow> job_at s' p = job_at s p \<and> blocked_job s (sv_reads s) (sv_locked s') (job_at s p))"
    using r
  proof (cases rule: enqueueJobLocked_cases)
    case (early r)
    then show ?thesis by (auto simp: blocked_job_def)
  next
    case (busy r)
    then show ?thesis by (auto simp: blocked_job_def requiresLockedResources_iff)
  next
    case (queued r s1)
    note f = lockResourcesLocked_frame[OF queued(2)]
    obtain m where "lock_of (JobUUID (job_at s p)) (LockResources (job_at s p)) (sv_locked s) = Some m"
      "sv_locked s1 = m" by (rule lockResourcesLocked_ok[OF queued(2)]) simp
    then have "map_of (sv_locked s) \<subseteq>\<^sub>m map_of (sv_locked s1)" using map_le_lock by simp
    then show ?thesis using queued f by (auto simp: reads_add_event_now)
  qed
  then show "sv_env s' = sv_env s" "sv_reads s \<le> sv_reads s'" "map_of (sv_locked s) \<subseteq>\<^sub>m map_of (sv_locked s')"
    "e = None \<Longrightarrow> \<exists>t. job_at s' p = AddHistoryEvent JobEventEnqueue t (job_at s p)"
    "e \<noteq> None \<Longrightarrow> job_at s' p = job_at s p \<and> blocked_job s (sv_reads s) (sv_locked s') (job_at s p)"
    by auto
qed


text \<open>The loop over the pending jobs: every one is enqueued or blocked at the end.\<close>

lemma enqueue_all_outcome:
  assumes "inv_except {} s" "distinct ps" "set ps \<subseteq> live s" "\<forall>p \<in> set ps. state (job_at s p) = JobPending"
  defines "s' \<equiv> foldl (\<lambda>s p. snd (enqueueJobLocked p s)) s ps"
  shows "map_of (sv_locked s) \<subseteq>\<^sub>m map_of (sv_locked s') \<and> touches (set ps) s s'
    \<and> (\<forall>p \<in> set ps.
        (\<exists>t. job_at s' p = AddHistoryEvent JobEventEnqueue t (job_at s p))
        \<or> job_at s' p = job_at s p \<and> blocked_job s (sv_reads s) (sv_locked s') (job_at s p))"
  using assms(1-4) unfolding s'_def
proof (induction ps arbitrary: s)
  case (Cons p ps)
  obtain e s1 where r: "enqueueJobLocked p s = (e, s1)" by fastforce
  have t: "inv_except {} s1" "touches {p} s s1"
    using inv_enqueueJobLocked[OF Cons.prems(1) _ _ r] Cons.prems by auto
  note o = enqueue_one[OF r]
  have k: "job_at s1 q = job_at s q" if "q \<noteq> p" for q using t(2) that by (auto simp: touches_def)
  let ?s2 = "foldl (\<lambda>s p. snd (enqueueJobLocked p s)) s1 ps"
  have ih: "map_of (sv_locked s1) \<subseteq>\<^sub>m map_of (sv_locked ?s2) \<and> touches (set ps) s1 ?s2
    \<and> (\<forall>p \<in> set ps.
        (\<exists>t. job_at ?s2 p = AddHistoryEvent JobEventEnqueue t (job_at s1 p))
        \<or> job_at ?s2 p = job_at s1 p \<and> blocked_job s1 (sv_reads s1) (sv_locked ?s2) (job_at s1 p))"
    using Cons.IH[OF t(1)] Cons.prems k touches_live[OF t(2)] by fastforce
  have p: "job_at ?s2 p = job_at s1 p" using ih Cons.prems(2) by (simp add: touches_def)
  have later: "blocked_job s (sv_reads s) (sv_locked ?s2) j"
    if "blocked_job s1 (sv_reads s1) (sv_locked ?s2) j" for j
    using that o(1,2) by (rule blocked_job_earlier)
  have first: "blocked_job s (sv_reads s) (sv_locked ?s2) (job_at s p)"
    if "blocked_job s (sv_reads s) (sv_locked s1) (job_at s p)"
    using that ih requires_mono by (auto simp: blocked_job_def)
  have "touches (set (p # ps)) s ?s2" using touches_trans[OF t(2)] ih by fastforce
  moreover have "map_of (sv_locked s) \<subseteq>\<^sub>m map_of (sv_locked ?s2)" using o(3) ih map_le_trans by blast
  moreover have "(\<exists>t. job_at ?s2 p = AddHistoryEvent JobEventEnqueue t (job_at s p))
        \<or> job_at ?s2 p = job_at s p \<and> blocked_job s (sv_reads s) (sv_locked ?s2) (job_at s p)"
    using o(4,5) first p by (cases e) auto
  moreover have "(\<exists>t. job_at ?s2 q = AddHistoryEvent JobEventEnqueue t (job_at s q))
        \<or> job_at ?s2 q = job_at s q \<and> blocked_job s (sv_reads s) (sv_locked ?s2) (job_at s q)"
    if "q \<in> set ps" for q
    using ih that later k Cons.prems(2) by (metis distinct.simps(2))
  ultimately show ?case using r by simp
qed simp

lemma requires_copy:
  "wf_map m \<Longrightarrow> requiresLockedResources (GetLockedResources m) j = requiresLockedResources m j"
  using GetLockedResources_map_of[of m] by (simp add: requires_ex del: map_of_eq_Some_iff)

text \<open>
  Nothing waits without a reason: after a round every job that was pending is queued, or
  still pending with a resource held by another job (or a start time in the future).
\<close>

lemma tryEnqueue_outcome:
  assumes i: "inv_except {} s" and p: "p \<in> pending_jobs s"
  defines "s' \<equiv> tryEnqueuePendingJobsLocked s"
  shows "(\<exists>t. job_at s' p = AddHistoryEvent JobEventEnqueue t (job_at s p))
    \<or> job_at s' p = job_at s p \<and> blocked_job s (sv_reads s) (sv_locked s') (job_at s p)"
proof -
  define ps where "ps = filter (\<lambda>p. \<not> requiresLockedResources (GetLockedResources (sv_locked s)) (job_at s p))
    (map snd (sv_pending s))"
  have m: "p \<in> pend s" using p i by (auto simp: in_state_def inv_except_def placed_def)
  then have ne: "length (sv_pending s) \<noteq> 0" by (auto simp: pend_def)
  have l: "set ps \<subseteq> live s" "\<forall>p \<in> set ps. state (job_at s p) = JobPending"
    using map_snd_pending(1)[OF i] pend_in_live[OF i] i by (auto simp: ps_def inv_except_def placed_def)
  then have np: "list_ex (\<lambda>p. GetCreationTimestamp (job_at s p) = None) ps = False"
    using job_history[OF i] by (auto simp: list_ex_iff)
  have d: "distinct (sort_pending (sv_store s) ps)" "set (sort_pending (sv_store s) ps) = set ps"
    using map_snd_pending(2)[OF i] by (simp_all add: sort_pending_def ps_def)
  have e: "s' = foldl (\<lambda>s p. snd (enqueueJobLocked p s)) s (sort_pending (sv_store s) ps)"
    using ne np by (simp add: s'_def tryEnqueuePendingJobsLocked_def ps_def[symmetric] Let_def)
  note a = enqueue_all_outcome[OF i d(1), folded e, unfolded d(2), OF l]
  show ?thesis
  proof (cases "p \<in> set ps")
    case True
    then show ?thesis using a by blast
  next
    case False
    then have "requiresLockedResources (sv_locked s) (job_at s p)"
      using m map_snd_pending(1)[OF i] i requires_copy[of "sv_locked s"]
      by (auto simp: ps_def inv_except_def base_inv_def)
    then show ?thesis using a False requires_mono by (auto simp: blocked_job_def touches_def)
  qed
qed


section \<open>Delayed jobs\<close>

lemma delayed_loop_due:
  assumes "inv_except {} s" "delayed_loop m found s = (found', s')"
  shows "pq_nodes (sv_delayed s') = filter (\<lambda>n. snd n < m) (pq_nodes (sv_delayed s))
    \<and> touches (fst ` {n \<in> set (pq_nodes (sv_delayed s)). m \<le> snd n}) s s'
    \<and> (\<forall>n \<in> set (pq_nodes (sv_delayed s)). m \<le> snd n \<longrightarrow>
        (\<exists>t. job_at s' (fst n) = AddHistoryEvent JobEventPending t (job_at s (fst n))))
    \<and> (found' \<longleftrightarrow> found \<or> (\<exists>n \<in> set (pq_nodes (sv_delayed s)). m \<le> snd n))
    \<and> sv_reads s \<le> sv_reads s'"
  using assms
proof (induction m found s rule: delayed_loop.induct)
  case (1 m found s)
  obtain r q where d: "DequeueWithPriority m (sv_delayed s) = (r, q)" by fastforce
  have wf: "pq_wf (sv_delayed s)" "distinct (map fst (pq_nodes (sv_delayed s)))"
    using inv_own[OF 1(2)] by (simp_all add: pq_ok_def)
  show ?case
  proof (cases r)
    case None
    then have "\<forall>n \<in> set (pq_nodes (sv_delayed s)). snd n < m" using pq.deq_None_all d wf by metis
    moreover have "s' = s" "found' = found" using 1(3) d None by (simp_all add: delayed_loop.simps[of m found s])
    ultimately show ?thesis by (auto simp: filter_id_conv not_le[symmetric])
  next
    case (Some n)
    obtain p pr where n: "n = (p, pr)" by fastforce
    have d': "DequeueWithPriority m (sv_delayed s) = (Some (p, pr), q)" using d Some n by simp
    note i1 = inv_delayed_dequeue[OF 1(2) d']
    let ?s1 = "setJobStateToPendingLocked p (s\<lparr>sv_delayed := q\<rparr>)"
    have q: "pq_nodes (sv_delayed s) = (p, pr) # pq_nodes q" "m \<le> pr"
      using pq.deq_Some[OF d' wf(1)] by auto
    have step: "delayed_loop m found s = delayed_loop m True ?s1"
      using d Some n by (simp add: delayed_loop.simps[of m found s])
    have "delayed_loop m True ?s1 = (found', s')" using step 1(3) by simp
    obtain t where t: "sv_store ?s1 = (sv_store s)(p := AddHistoryEvent JobEventPending t (job_at s p))"
      and jc: "sv_jobs ?s1 = sv_jobs s" "sv_conf ?s1 = sv_conf s" "sv_env ?s1 = sv_env s"
      "sv_reads s \<le> sv_reads ?s1"
      by (simp add: setJobStateToPendingLocked_def notify_job_def Let_def reads_add_event_now)
    have t1: "touches {p} s ?s1" using jc by (simp add: touches_def t)
    have ii: "inv_except {} ?s1"
      by (rule inv_delayed_step[OF 1(2) d'])
    have ih: "pq_nodes (sv_delayed s') = filter (\<lambda>n. snd n < m) (pq_nodes q)
      \<and> touches (fst ` {n \<in> set (pq_nodes q). m \<le> snd n}) ?s1 s'
      \<and> (\<forall>n \<in> set (pq_nodes q). m \<le> snd n \<longrightarrow>
        (\<exists>t. job_at s' (fst n) = AddHistoryEvent JobEventPending t (job_at ?s1 (fst n))))
      \<and> found' \<and> sv_reads ?s1 \<le> sv_reads s'"
      using 1(1)[OF d[symmetric] Some, folded n] ii step 1(3) n by simp
    have np: "p \<notin> fst ` set (pq_nodes q)" using wf(2) q by auto
    then have p: "job_at s' p = job_at ?s1 p" using ih by (auto simp: touches_def)
    have "touches (fst ` {n \<in> set (pq_nodes (sv_delayed s)). m \<le> snd n}) s s'"
      using touches_trans[OF t1 conjunct1[OF conjunct2[OF ih]]] by (rule touches_mono) (use q in force)
    moreover have "\<exists>t. job_at s' (fst k) = AddHistoryEvent JobEventPending t (job_at s (fst k))"
      if "k \<in> set (pq_nodes (sv_delayed s))" "m \<le> snd k" for k
    proof (cases "fst k = p")
      case True
      then show ?thesis using p t by auto
    next
      case False
      then have "k \<in> set (pq_nodes q)" using that q by auto
      then have "\<exists>t. job_at s' (fst k) = AddHistoryEvent JobEventPending t (job_at ?s1 (fst k))"
        using ih that by blast
      then show ?thesis using t False by simp
    qed
    ultimately show ?thesis using ih q jc(4) by auto
  qed
qed


text \<open>
  One check: the due jobs (start time not after the clock) leave the delayed queue, the
  others stay in their order. A due job becomes pending and, unless it is blocked, queued.
\<close>

lemma CheckDelayedJobs_outcome:
  assumes i: "svc_inv s" and f: "\<not> sv_delay_running s"
  defines "due \<equiv> \<lambda>n. i64 (- env_clock (sv_env s) (sv_reads s)) \<le> snd n"
    and "s' \<equiv> CheckDelayedJobs s"
  shows "pq_nodes (sv_delayed s') = filter (\<lambda>n. \<not> due n) (pq_nodes (sv_delayed s))"
    "touches (fst ` {n \<in> set (pq_nodes (sv_delayed s)). due n} \<union> pending_jobs s) s s'"
    "n \<in> set (pq_nodes (sv_delayed s)) \<Longrightarrow> due n \<Longrightarrow>
      state (job_at s' (fst n)) = JobQueued
      \<or> state (job_at s' (fst n)) = JobPending
        \<and> blocked_job s (sv_reads s) (sv_locked s') (job_at s (fst n))"
proof -
  have j: "inv_except {} s" using i by (simp add: svc_inv_def)
  define s0 where "s0 = s\<lparr>sv_delay_running := True, sv_reads := Suc (sv_reads s)\<rparr>"
  have j0: "inv_except {} s0" using j by (simp add: s0_def)
  let ?m = "i64 (- env_clock (sv_env s) (sv_reads s))"
  let ?due = "fst ` {n \<in> set (pq_nodes (sv_delayed s)). due n}"
  obtain found s1 where l: "delayed_loop ?m False s0 = (found, s1)" by fastforce
  note o = delayed_loop_due[OF j0 l]
  have i1: "inv_except {} s1" using delayed_loop_inv[OF j0 l] .
  have t1: "touches ?due s s1" using o by (simp add: due_def s0_def touches_def)
  have n1: "pq_nodes (sv_delayed s1) = filter (\<lambda>n. \<not> due n) (pq_nodes (sv_delayed s))"
    using o by (simp add: due_def s0_def not_le)
  have p1: "\<exists>t. job_at s1 (fst n) = AddHistoryEvent JobEventPending t (job_at s (fst n))"
    if "n \<in> set (pq_nodes (sv_delayed s))" "due n" for n
    using o that by (simp add: due_def s0_def)
  have s': "s' = (if found then tryEnqueuePendingJobsLocked s1 else s1)\<lparr>sv_delay_running := False\<rparr>"
    using f l by (simp add: s'_def CheckDelayedJobs_def time_now_def s0_def)
  have none: "\<not> found \<Longrightarrow> n \<in> set (pq_nodes (sv_delayed s)) \<Longrightarrow> \<not> due n" for n
    using o by (simp add: due_def s0_def)
  show "pq_nodes (sv_delayed s') = filter (\<lambda>n. \<not> due n) (pq_nodes (sv_delayed s))"
    using n1 s' by simp
  have sub: "pending_jobs s1 \<subseteq> ?due \<union> pending_jobs s"
    using t1 touches_live[OF t1] by (auto simp: in_state_def touches_def)
  show "touches (?due \<union> pending_jobs s) s s'"
  proof (cases found)
    case True
    have "touches (?due \<union> pending_jobs s1) s s'"
      using touches_trans[OF t1 inv_tryEnqueue(2)[OF i1]] s' True by simp
    then show ?thesis by (rule touches_mono) (use sub in auto)
  next
    case False
    then show ?thesis using t1 s' by (simp add: touches_mono)
  qed
  assume n: "n \<in> set (pq_nodes (sv_delayed s))" "due n"
  have found using none n by blast
  obtain t where t: "job_at s1 (fst n) = AddHistoryEvent JobEventPending t (job_at s (fst n))"
    using p1[OF n] by blast
  have "fst n \<in> live s" using inv_own(4)[OF j] n by (auto simp: pq_ok_def)
  then have "fst n \<in> pending_jobs s1" using t touches_live[OF t1] by (simp add: in_state_def)
  note q = tryEnqueue_outcome[OF i1 this]
  show "state (job_at s' (fst n)) = JobQueued
      \<or> state (job_at s' (fst n)) = JobPending
        \<and> blocked_job s (sv_reads s) (sv_locked s') (job_at s (fst n))"
    using q s' \<open>found\<close> t blocked_job_earlier[of s1 "sv_reads s1" _ _ s "sv_reads s"] t1 o
    by (auto simp: touches_def s0_def)
qed


section \<open>Visibility timeout\<close>

definition failed_now :: "job \<Rightarrow> job \<Rightarrow> bool" where
  "failed_now j j' \<longleftrightarrow> (\<exists>ev \<in> {JobEventTerminate, JobEventEnqueue, JobEventHide}. failed_with ev j j')"

lemma failed_now_state: "failed_now j j' \<Longrightarrow> state j' \<in> {JobFailed, JobQueued, JobHidden}"
  by (auto simp: failed_now_def failed_with_def)

lemma failJobLocked_failed:
  assumes i: "inv_except {} s" and p: "p \<in> live s" "state (job_at s p) = JobRunning"
    and r: "failJobLocked (JobUUID (job_at s p)) s = (e, s')"
  shows "touches (insert p (pending_jobs s)) s s'" "failed_now (job_at s p) (job_at s' p)"
    "pending_jobs s' \<subseteq> pending_jobs s"
proof -
  have lk: "lookup_job (JobUUID (job_at s p)) s = Some p"
    using i p live_iff by (auto simp: lookup_job_def inv_except_def simp del: map_of_eq_Some_iff)
  obtain reached err where e: "e = (reached, err)" by fastforce
  have v: "svc_inv s" using i by (simp add: svc_inv_def)
  note o = failJobLocked_outcome[OF v r[unfolded e] lk p(2)]
  show t: "touches (insert p (pending_jobs s)) s s'" by (rule o(2))
  show n: "failed_now (job_at s p) (job_at s' p)"
    using o(3,4,5) unfolding failed_now_def by (meson insertI1 insertI2 not_le)
  show "pending_jobs s' \<subseteq> pending_jobs s"
  proof
    fix q assume q: "q \<in> pending_jobs s'"
    then have "q \<noteq> p" using failed_now_state[OF n] by (auto simp: in_state_def)
    then show "q \<in> pending_jobs s"
      using t q touches_live[OF t] by (cases "q \<in> pending_jobs s") (simp_all add: in_state_def touches_def)
  qed
qed

lemma fail_all_outcome:
  assumes "inv_except {} s" "distinct ps" "\<forall>p \<in> set ps. p \<in> live s \<and> state (job_at s p) = JobRunning"
  defines "s' \<equiv> foldl (\<lambda>s p. snd (failJobLocked (JobUUID (job_at s p)) s)) s ps"
  shows "touches (set ps \<union> pending_jobs s) s s' \<and> pending_jobs s' \<subseteq> pending_jobs s
    \<and> (\<forall>p \<in> set ps. failed_now (job_at s p) (job_at s' p))"
  using assms(1-3) unfolding s'_def
proof (induction ps arbitrary: s)
  case (Cons p ps)
  obtain e s1 where r: "failJobLocked (JobUUID (job_at s p)) s = (e, s1)" by fastforce
  have p: "p \<in> live s" "state (job_at s p) = JobRunning" using Cons.prems(3) by simp_all
  note o = failJobLocked_failed[OF Cons.prems(1) p r]
  have k: "job_at s1 q = job_at s q" if "q \<noteq> p" "q \<notin> pending_jobs s" for q
    using o(1) that by (auto simp: touches_def)
  have rest: "\<forall>q \<in> set ps. job_at s1 q = job_at s q \<and> q \<in> live s1 \<and> state (job_at s1 q) = JobRunning"
  proof
    fix q assume q: "q \<in> set ps"
    then have "q \<noteq> p" "q \<notin> pending_jobs s" using Cons.prems(2,3) by (auto simp: in_state_def)
    then show "job_at s1 q = job_at s q \<and> q \<in> live s1 \<and> state (job_at s1 q) = JobRunning"
      using k[of q] q Cons.prems(3) touches_live[OF o(1)] by simp
  qed
  let ?s2 = "foldl (\<lambda>s p. snd (failJobLocked (JobUUID (job_at s p)) s)) s1 ps"
  have ih: "touches (set ps \<union> pending_jobs s1) s1 ?s2 \<and> pending_jobs ?s2 \<subseteq> pending_jobs s1
    \<and> (\<forall>p \<in> set ps. failed_now (job_at s1 p) (job_at ?s2 p))"
  proof (rule Cons.IH[OF inv_failJobLocked[OF Cons.prems(1) r]])
    show "distinct ps" using Cons.prems(2) by simp
    show "\<forall>p \<in> set ps. p \<in> live s1 \<and> state (job_at s1 p) = JobRunning" using rest by blast
  qed
  have "p \<notin> pending_jobs s1" using failed_now_state[OF o(2)] by (auto simp: in_state_def)
  then have "job_at ?s2 p = job_at s1 p" using ih Cons.prems(2) by (auto simp: touches_def)
  moreover have "touches (set (p # ps) \<union> pending_jobs s) s ?s2"
    using touches_trans[OF o(1) conjunct1[OF ih]] by (rule touches_mono) (use o(3) in auto)
  ultimately show ?case using ih o rest r by auto
qed simp

lemma sorted_ids_live:
  assumes "base_inv s"
  shows "set (map (\<lambda>u. the (lookup_job u s)) (sortedJobIDs (sv_jobs s))) = live s"
    "distinct (map (\<lambda>u. the (lookup_job u s)) (sortedJobIDs (sv_jobs s)))"
proof -
  show "set (map (\<lambda>u. the (lookup_job u s)) (sortedJobIDs (sv_jobs s))) = live s"
    by (force simp: live_def ran_def lookup_job_def dom_def simp del: map_of_eq_Some_iff)
  have "inj_on (\<lambda>u. the (lookup_job u s)) (dom (map_of (sv_jobs s)))"
  proof (rule inj_onI)
    fix u v assume "u \<in> dom (map_of (sv_jobs s))" "v \<in> dom (map_of (sv_jobs s))"
      "the (lookup_job u s) = the (lookup_job v s)"
    then obtain p where "lookup_job u s = Some p" "lookup_job v s = Some p"
      by (auto simp: lookup_job_def simp del: map_of_eq_Some_iff)
    then show "u = v" using lookup_live[OF assms] by metis
  qed
  then show "distinct (map (\<lambda>u. the (lookup_job u s)) (sortedJobIDs (sv_jobs s)))"
    using assms by (simp add: distinct_map base_inv_def)
qed

text \<open>
  One check: every running job whose last change is older than its visibility timeout
  failed (and is queued again, hidden or failed for good); no other running job changed.
\<close>

lemma CheckJobsVisibilityTimeout_outcome:
  assumes i: "svc_inv s" and f: "\<not> sv_visibility_running s"
  defines "expired \<equiv> {p \<in> live s. running_too_long (env_clock (sv_env s) (sv_reads s)) (job_at s p)}"
    and "s' \<equiv> CheckJobsVisibilityTimeout s"
  shows "touches (expired \<union> pending_jobs s) s s'"
    "p \<in> expired \<Longrightarrow> failed_now (job_at s p) (job_at s' p)"
proof -
  have j: "inv_except {} s" using i by (simp add: svc_inv_def)
  define s0 where "s0 = s\<lparr>sv_visibility_running := True, sv_reads := Suc (sv_reads s)\<rparr>"
  have j0: "inv_except {} s0" using j by (simp add: s0_def)
  define ps where "ps = filter (\<lambda>p. running_too_long (env_clock (sv_env s) (sv_reads s)) (job_at s p))
    (map (\<lambda>u. the (lookup_job u s0)) (sortedJobIDs (sv_jobs s)))"
  have w: "wf_map (sv_jobs s)" "base_inv s" using j by (simp_all add: inv_except_def base_inv_def)
  have ps: "set ps = expired" "distinct ps"
    using sorted_ids_live[OF w(2)] unfolding ps_def expired_def s0_def lookup_job_def
    by (auto simp del: set_map)
  let ?s1 = "foldl (\<lambda>s p. snd (failJobLocked (JobUUID (job_at s p)) s)) s0 ps"
  have v: "live s0 = live s" "pending_jobs s0 = pending_jobs s" "sv_store s0 = sv_store s"
    by (simp_all add: s0_def live_def in_state_def)
  have o: "touches (expired \<union> pending_jobs s) s0 ?s1 \<and> pending_jobs ?s1 \<subseteq> pending_jobs s
    \<and> (\<forall>p \<in> expired. failed_now (job_at s p) (job_at ?s1 p))"
    using fail_all_outcome[OF j0 ps(2)] v ps(1) by (auto simp: expired_def running_too_long_def)
  then have t1: "touches (expired \<union> pending_jobs s) s ?s1" by (simp add: s0_def touches_def)
  have i1: "inv_except {} ?s1" by (rule fail_all_inv[OF j0])
  have s': "s' = (if length ps > 0 then tryEnqueuePendingJobsLocked ?s1 else ?s1)\<lparr>sv_visibility_running := False\<rparr>"
    using f by (simp add: s'_def CheckJobsVisibilityTimeout_def time_now_def s0_def Let_def ps_def filter_map)
  have t2: "touches (pending_jobs ?s1) ?s1 s'" using s' inv_tryEnqueue(2)[OF i1] by simp
  show "touches (expired \<union> pending_jobs s) s s'"
    using touches_trans[OF t1 t2] by (rule touches_mono) (use o in auto)
  assume p: "p \<in> expired"
  then have n: "failed_now (job_at s p) (job_at ?s1 p)" using o by blast
  then have "p \<notin> pending_jobs ?s1" using failed_now_state by (fastforce simp: in_state_def)
  then show "failed_now (job_at s p) (job_at s' p)" using n t2 by (simp add: touches_def)
qed


section \<open>Retries\<close>

lemma retryJobLocked_step:
  assumes r: "retryJobLocked p s = (e, s')"
  shows "touches {p} s s'" "map_of (sv_locked s) \<subseteq>\<^sub>m map_of (sv_locked s')" "sv_retry s' = sv_retry s"
    "e = None \<Longrightarrow> \<exists>t. job_at s' p = AddHistoryEvent JobEventEnqueue t (job_at s p)"
    "e \<noteq> None \<Longrightarrow> s' = s \<and> requiresLockedResources (sv_locked s) (job_at s p)"
proof -
  obtain e1 s1 where l: "lockResourcesLocked p s = (e1, s1)" by fastforce
  note f = lockResourcesLocked_frame[OF l]
  have "touches {p} s s' \<and> map_of (sv_locked s) \<subseteq>\<^sub>m map_of (sv_locked s')
      \<and> (e \<noteq> None \<longrightarrow> s' = s \<and> requiresLockedResources (sv_locked s) (job_at s p))"
  proof (cases e1)
    case None
    then obtain m where "lock_of (JobUUID (job_at s p)) (LockResources (job_at s p)) (sv_locked s) = Some m"
      "sv_locked s1 = m" using l by (auto elim: lockResourcesLocked_ok)
    then have "map_of (sv_locked s) \<subseteq>\<^sub>m map_of (sv_locked s1)" using map_le_lock by simp
    moreover have "touches {p} s s1" using f by (simp add: touches_def)
    moreover have "e = None" "s' = notifyQueuedLocked (notify_job p ServiceEventJobEnqueued
      (add_event_now p JobEventEnqueue s1))"
      using r None by (simp_all add: retryJobLocked_def Let_def l)
    ultimately show ?thesis by (simp add: touches_add_event_after notifyQueuedLocked_def)
  next
    case (Some x)
    then have "s1 = s" "requiresLockedResources (sv_locked s) (job_at s p)"
      using lockResourcesLocked_error[of p s] lockResourcesLocked_error_iff[of p s] l
      by (simp_all add: requiresLockedResources_iff)
    then show ?thesis using r Some by (simp add: retryJobLocked_def l)
  qed
  then show "touches {p} s s'" "map_of (sv_locked s) \<subseteq>\<^sub>m map_of (sv_locked s')"
    "e \<noteq> None \<Longrightarrow> s' = s \<and> requiresLockedResources (sv_locked s) (job_at s p)" by auto
  show "sv_retry s' = sv_retry s" using retryJobLocked_queues(1)[of p s] r by simp
  show "e = None \<Longrightarrow> \<exists>t. job_at s' p = AddHistoryEvent JobEventEnqueue t (job_at s p)"
    using retryJobLocked_event r by blast
qed

text \<open>What became of one due job: queued, or kept aside because a resource is locked.\<close>

definition retried :: "svc \<Rightarrow> svc \<Rightarrow> (ptr \<times> int64) list \<Rightarrow> ptr \<times> int64 \<Rightarrow> bool" where
  "retried s s' aside n \<longleftrightarrow>
    (\<exists>t. job_at s' (fst n) = AddHistoryEvent JobEventEnqueue t (job_at s (fst n)))
    \<or> n \<in> set aside \<and> job_at s' (fst n) = job_at s (fst n)
      \<and> requiresLockedResources (sv_locked s') (job_at s (fst n))"

lemma retry_loop_due:
  assumes "pq_wf (sv_retry s)" "distinct (map fst (pq_nodes (sv_retry s)))"
    and "retry_loop m ns s = (ns', s')"
  shows "pq_nodes (sv_retry s') = filter (\<lambda>n. snd n < m) (pq_nodes (sv_retry s))
    \<and> touches (fst ` {n \<in> set (pq_nodes (sv_retry s)). m \<le> snd n}) s s'
    \<and> map_of (sv_locked s) \<subseteq>\<^sub>m map_of (sv_locked s') \<and> pq_wf (sv_retry s') \<and> set ns \<subseteq> set ns'
    \<and> (\<forall>n \<in> set (pq_nodes (sv_retry s)). m \<le> snd n \<longrightarrow> retried s s' ns' n)"
  using assms
proof (induction m ns s rule: retry_loop.induct)
  case (1 m ns s)
  obtain r q where d: "DequeueWithPriority m (sv_retry s) = (r, q)" by fastforce
  note wf = 1(2,3)
  show ?case
  proof (cases r)
    case None
    then have "\<forall>n \<in> set (pq_nodes (sv_retry s)). snd n < m" using pq.deq_None_all d wf by metis
    moreover have "s' = s" "ns' = ns" using 1(4) d None by (simp_all add: retry_loop.simps[of m ns s])
    ultimately show ?thesis using wf by (auto simp: filter_id_conv not_le[symmetric])
  next
    case (Some n)
    let ?s1 = "s\<lparr>sv_retry := q\<rparr>"
    have q: "pq_nodes (sv_retry s) = n # pq_nodes q" "m \<le> snd n" "pq_wf q"
      using pq.deq_Some[of m "sv_retry s" n q] d Some wf(1) by auto
    obtain e s2 where rt: "retryJobLocked (fst n) ?s1 = (e, s2)" by fastforce
    note st = retryJobLocked_step[OF rt]
    let ?ns = "if e = None then ns else ns @ [n]"
    have step: "retry_loop m ?ns s2 = (ns', s')"
      using 1(4) d Some rt by (cases e) (simp_all add: retry_loop.simps[of m ns s])
    have "pq_wf (sv_retry s2)" "distinct (map fst (pq_nodes (sv_retry s2)))"
      using st(3) q wf by simp_all
    then have ih: "pq_nodes (sv_retry s') = filter (\<lambda>n. snd n < m) (pq_nodes q)
      \<and> touches (fst ` {n \<in> set (pq_nodes q). m \<le> snd n}) s2 s'
      \<and> map_of (sv_locked s2) \<subseteq>\<^sub>m map_of (sv_locked s') \<and> pq_wf (sv_retry s') \<and> set ?ns \<subseteq> set ns'
      \<and> (\<forall>k \<in> set (pq_nodes q). m \<le> snd k \<longrightarrow> retried s2 s' ns' k)"
      using 1(1)[OF d[symmetric] Some rt[symmetric] refl] step st(3) by simp
    have np: "fst n \<notin> fst ` set (pq_nodes q)" using wf(2) q by auto
    then have keep: "job_at s' (fst n) = job_at s2 (fst n)" using ih by (auto simp: touches_def)
    have t1: "touches {fst n} s s2" using st(1) by (simp add: touches_def)
    have "touches (fst ` {n \<in> set (pq_nodes (sv_retry s)). m \<le> snd n}) s s'"
      using touches_trans[OF t1 conjunct1[OF conjunct2[OF ih]]] by (rule touches_mono) (use q in force)
    moreover have "retried s s' ns' n"
    proof (cases e)
      case None
      then show ?thesis using st(4) keep by (simp add: retried_def)
    next
      case (Some x)
      then show ?thesis using st(5) keep ih requires_mono[of "sv_locked s2"] by (auto simp: retried_def)
    qed
    moreover have "retried s s' ns' k" if k: "k \<in> set (pq_nodes q)" "m \<le> snd k" for k
    proof -
      have "fst k \<noteq> fst n" using np k by (metis imageI)
      then have "job_at s2 (fst k) = job_at s (fst k)" using t1 by (simp add: touches_def)
      moreover have "retried s2 s' ns' k" using ih k by blast
      ultimately show ?thesis by (simp add: retried_def)
    qed
    ultimately show ?thesis using ih q st(2) map_le_trans by (auto split: if_splits)
  qed
qed

lemma requeue_nodes:
  assumes "pq_wf (sv_retry s)"
    and "s' = foldl (\<lambda>s (p, pr). s\<lparr>sv_retry := Enqueue p pr (sv_retry s)\<rparr>) s ns"
  shows "set (pq_nodes (sv_retry s')) = set (pq_nodes (sv_retry s)) \<union> set ns
    \<and> sv_store s' = sv_store s \<and> sv_locked s' = sv_locked s \<and> touches {} s s'"
  using assms(1) unfolding assms(2)
proof (induction ns arbitrary: s)
  case (Cons n ns)
  obtain p pr where n: "n = (p, pr)" by fastforce
  have "pq_wf (Enqueue p pr (sv_retry s))" by (rule pq_wf_Enqueue[OF Cons.prems])
  then show ?case using Cons.IH[of "s\<lparr>sv_retry := Enqueue p pr (sv_retry s)\<rparr>"] Cons.prems n
    by (auto simp: Enqueue_nodes touches_def)
qed simp

text \<open>
  One attempt: a job whose retry time has come is queued, or it stays in the retry queue with
  its priority because another job holds one of its resources; the others wait.
\<close>

lemma AttemptJobRetries_outcome:
  assumes i: "svc_inv s" and n: "n \<in> set (pq_nodes (sv_retry s))"
  defines "due \<equiv> \<lambda>n. i64 (- env_clock (sv_env s) (sv_reads s)) \<le> snd n"
    and "s' \<equiv> AttemptJobRetries s"
  shows "touches (fst ` {n \<in> set (pq_nodes (sv_retry s)). due n}) s s'"
    "\<not> due n \<Longrightarrow> n \<in> set (pq_nodes (sv_retry s'))"
    "due n \<Longrightarrow> (\<exists>t. job_at s' (fst n) = AddHistoryEvent JobEventEnqueue t (job_at s (fst n)))
      \<or> n \<in> set (pq_nodes (sv_retry s')) \<and> job_at s' (fst n) = job_at s (fst n)
        \<and> requiresLockedResources (sv_locked s') (job_at s (fst n))"
proof -
  have j: "inv_except {} s" using i by (simp add: svc_inv_def)
  define s0 where "s0 = s\<lparr>sv_reads := Suc (sv_reads s)\<rparr>"
  let ?m = "i64 (- env_clock (sv_env s) (sv_reads s))"
  obtain ns s1 where l: "retry_loop ?m [] s0 = (ns, s1)" by fastforce
  have wf: "pq_wf (sv_retry s0)" "distinct (map fst (pq_nodes (sv_retry s0)))"
    using inv_own[OF j] by (simp_all add: pq_ok_def s0_def)
  note o = retry_loop_due[OF wf l]
  have wf1: "pq_wf (sv_retry s1)" using o by blast
  have s': "s' = foldl (\<lambda>s (p, pr). s\<lparr>sv_retry := Enqueue p pr (sv_retry s)\<rparr>) s1 ns"
    using l by (simp add: s'_def AttemptJobRetries_def time_now_def s0_def)
  note k = requeue_nodes[OF wf1 s']
  have t: "touches (fst ` {n \<in> set (pq_nodes (sv_retry s)). due n}) s s1"
    using o by (simp add: due_def s0_def touches_def)
  show "touches (fst ` {n \<in> set (pq_nodes (sv_retry s)). due n}) s s'"
    using touches_trans[OF t, of "{}" s'] k by simp
  show "\<not> due n \<Longrightarrow> n \<in> set (pq_nodes (sv_retry s'))"
    using o k n by (simp add: due_def s0_def)
  show "due n \<Longrightarrow> (\<exists>t. job_at s' (fst n) = AddHistoryEvent JobEventEnqueue t (job_at s (fst n)))
      \<or> n \<in> set (pq_nodes (sv_retry s')) \<and> job_at s' (fst n) = job_at s (fst n)
        \<and> requiresLockedResources (sv_locked s') (job_at s (fst n))"
    using o k n by (auto simp: due_def s0_def retried_def)
qed

end
