(* ===== verification/ServiceAdmin.thy ===== *)
theory ServiceAdmin
  imports ServiceTasks
begin

text \<open>
  How the set of jobs changes: deletion, the retention of completed jobs, and creation with
  its limits and its loop over fresh ids.
\<close>

section \<open>Deletion and retention\<close>

lemma live_list:
  assumes "base_inv s"
  shows "set (map snd (sv_jobs s)) = live s" "distinct (map snd (sv_jobs s))"
proof -
  have w: "wf_map (sv_jobs s)" using assms by (simp add: base_inv_def)
  then show "set (map snd (sv_jobs s)) = live s" by (force simp: live_def ran_def)
  have "u = v" if "(u, p) \<in> set (sv_jobs s)" "(v, p) \<in> set (sv_jobs s)" for u v p
    using that w assms by (metis base_inv_def map_of_in_set)
  then have "inj_on snd (set (sv_jobs s))" by (intro inj_onI) auto
  then show "distinct (map snd (sv_jobs s))" using w by (simp add: distinct_map)
qed

lemma deleteJobLocked_outcome:
  assumes i: "inv_except {} s" and r: "deleteJobLocked u s = (e, s')" and p: "lookup_job u s = Some p"
  shows "e = None" "inv_except {} s'" "lookup_job v s' = (if v = u then None else lookup_job v s)"
    "q \<in> live s \<Longrightarrow> q \<noteq> p \<Longrightarrow> state (job_at s q) \<noteq> JobPending \<Longrightarrow> job_at s' q = job_at s q"
    "live s' = live s - {p}"
proof -
  show "e = None" "inv_except {} s'" using inv_deleteJobLocked(1,2)[OF i r] p by simp_all
  then have o: "sv_jobs s' = AList.delete u (sv_jobs s)"
    "\<forall>q \<in> live s. state (job_at s q) \<noteq> JobPending \<longrightarrow> lookup_job u s \<noteq> Some q \<longrightarrow> job_at s' q = job_at s q"
    using inv_deleteJobLocked(4)[OF i r] by simp_all
  then show l: "lookup_job v s' = (if v = u then None else lookup_job v s)" for v
    by (simp add: lookup_job_def)
  show "q \<in> live s \<Longrightarrow> q \<noteq> p \<Longrightarrow> state (job_at s q) \<noteq> JobPending \<Longrightarrow> job_at s' q = job_at s q"
    using o(2) p by auto
  obtain s3 where d: "deleteJobLocked u s = (None, tryEnqueuePendingJobsLocked s3)" "inv_except {} s3"
    "live s3 = live s - {p}"
    by (rule deleteJobLocked_step[OF i p]) (rule that; assumption)
  then show "live s' = live s - {p}" using r touches_live[OF inv_tryEnqueue(2)[OF d(2)]] by simp
qed

lemma deleteJobLocked_pending:
  assumes i: "inv_except {} s" and r: "deleteJobLocked u s = (None, s')"
    and q: "q \<in> live s'" "state (job_at s q) = JobPending"
  shows "state (job_at s' q) \<in> {JobPending, JobQueued}"
proof -
  obtain p where p: "lookup_job u s = Some p" using inv_deleteJobLocked(2)[OF i r] by auto
  obtain s3 where d: "deleteJobLocked u s = (None, tryEnqueuePendingJobsLocked s3)" "inv_except {} s3"
    "live s3 = live s - {p}" "\<And>q. q \<noteq> p \<Longrightarrow> job_at s3 q = job_at s q"
    by (rule deleteJobLocked_step[OF i p]) (rule that; assumption)
  have s': "s' = tryEnqueuePendingJobsLocked s3" using r d(1) by simp
  have "q \<in> live s3" using q(1) touches_live[OF inv_tryEnqueue(2)[OF d(2)]] s' by simp
  then have m: "q \<in> pending_jobs s3" using d(3,4) q(2) by (auto simp: in_state_def)
  then have "state (job_at s3 q) = JobPending" by (simp add: in_state_def)
  then show ?thesis using tryEnqueue_outcome[OF d(2) m] unfolding s' by auto
qed

text \<open>The jobs the retention deletes: the oldest ones over the limit, and the aged ones.\<close>

definition over_retention :: "int64 \<Rightarrow> int64 \<Rightarrow> int \<Rightarrow> (ptr \<Rightarrow> job) \<Rightarrow> ptr list \<Rightarrow> ptr set" where
  "over_retention now age n js ps = set (take (nat n) ps)
    \<union> {p \<in> set ps. i64 (now - GetLastUpdateDate (js p)) \<ge> age}"

lemma over_retention_Cons:
  "over_retention now age n js (p # ps) =
    (if 0 < n \<or> i64 (now - GetLastUpdateDate (js p)) \<ge> age then {p} else {})
    \<union> over_retention now age (n - 1) js ps"
proof (cases "0 < n")
  case True
  then have "nat n = Suc (nat (n - 1))" by simp
  then show ?thesis using True by (auto simp: over_retention_def)
next
  case False
  then show ?thesis by (auto simp: over_retention_def)
qed

lemma over_retention_zero: "n \<le> 0 \<Longrightarrow> over_retention now age (n - 1) js ps = over_retention now age n js ps"
  by (simp add: over_retention_def)

lemma over_retention_cong:
  "(\<And>p. p \<in> set ps \<Longrightarrow> js p = js' p) \<Longrightarrow> over_retention now age n js ps = over_retention now age n js' ps"
  by (auto simp: over_retention_def)

lemma retention_loop_outcome:
  assumes "inv_except {} s" "distinct ps" "\<forall>p \<in> set ps. p \<in> live s \<and> IsCompleted (job_at s p)"
    and "s' = retention_loop now age n d ps s"
  shows "live s' = live s - over_retention now age (n - d) (job_at s) ps
    \<and> (\<forall>q \<in> live s'. state (job_at s q) \<noteq> JobPending \<longrightarrow> job_at s' q = job_at s q)
    \<and> (\<forall>q \<in> live s'. state (job_at s q) = JobPending \<longrightarrow> \<not> IsCompleted (job_at s' q))"
  using assms(1-3) unfolding assms(4)
proof (induction ps arbitrary: s d)
  case Nil
  then show ?case by (auto simp: over_retention_def IsCompleted_def)
next
  case (Cons p ps)
  have p: "p \<in> live s" "IsCompleted (job_at s p)" using Cons.prems(3) by simp_all
  let ?hit = "d < n \<or> i64 (now - GetLastUpdateDate (job_at s p)) \<ge> age"
  show ?case
  proof (cases ?hit)
    case False
    then show ?thesis using Cons.IH[OF Cons.prems(1)] Cons.prems(2,3) over_retention_zero[of "n - d"]
      by (simp add: over_retention_Cons)
  next
    case True
    obtain e s1 where r: "deleteJobLocked (JobUUID (job_at s p)) s = (e, s1)" by fastforce
    have "lookup_job (JobUUID (job_at s p)) s = Some p"
      using p live_iff Cons.prems(1) by (auto simp: lookup_job_def inv_except_def simp del: map_of_eq_Some_iff)
    note o = deleteJobLocked_outcome[OF Cons.prems(1) r this]
    have k: "job_at s1 q = job_at s q" "q \<in> live s1" if "q \<in> set ps" for q
    proof -
      have "q \<noteq> p" "q \<in> live s" "state (job_at s q) \<noteq> JobPending"
        using that Cons.prems(2,3) by (auto simp: IsCompleted_def)
      then show "job_at s1 q = job_at s q" "q \<in> live s1" using o(4,5) by simp_all
    qed
    let ?s2 = "retention_loop now age n (d + 1) ps s1"
    have ih: "live ?s2 = live s1 - over_retention now age (n - (d + 1)) (job_at s1) ps
      \<and> (\<forall>q \<in> live ?s2. state (job_at s1 q) \<noteq> JobPending \<longrightarrow> job_at ?s2 q = job_at s1 q)
      \<and> (\<forall>q \<in> live ?s2. state (job_at s1 q) = JobPending \<longrightarrow> \<not> IsCompleted (job_at ?s2 q))"
      using Cons.IH[OF o(2), of "d + 1"] k Cons.prems(2,3) by simp
    have step: "retention_loop now age n d (p # ps) s = ?s2" using True r o(1) by simp
    have ov: "over_retention now age (n - d) (job_at s) (p # ps)
        = insert p (over_retention now age (n - (d + 1)) (job_at s1) ps)"
      using True over_retention_cong[of ps "job_at s1" "job_at s"] k(1)
      by (simp add: over_retention_Cons diff_diff_eq)
    have pend: "\<not> IsCompleted (job_at s1 q)" if "q \<in> live s1" "state (job_at s q) = JobPending" for q
      using deleteJobLocked_pending[of s "JobUUID (job_at s p)" s1 q] Cons.prems(1) r o(1) that
      by (auto simp: IsCompleted_def)
    show ?thesis unfolding step ov
    proof (intro conjI ballI impI)
      show "live ?s2 = live s - insert p (over_retention now age (n - (d + 1)) (job_at s1) ps)"
        using ih o(5) by auto
      fix q assume q: "q \<in> live ?s2"
      then have q1: "q \<in> live s1" "q \<in> live s" "q \<noteq> p" using ih o(5) by auto
      show "job_at ?s2 q = job_at s q" if "state (job_at s q) \<noteq> JobPending"
        using o(4)[OF q1(2,3) that] ih q that by simp
      show "\<not> IsCompleted (job_at ?s2 q)" if "state (job_at s q) = JobPending"
        using pend[OF q1(1) that] ih q by (cases "state (job_at s1 q) = JobPending") auto
    qed
  qed
qed


text \<open>
  The retention deletes completed jobs only: those older than the maximal age, and the
  oldest ones beyond the maximal number. At most that number is left.
\<close>

lemma CheckJobsRetention_outcome:
  assumes i: "svc_inv s" and c: "RetentionEnable (sv_conf s)" "\<not> sv_retention_running s"
    and iter: "\<And>xs. mset (iter xs) = mset xs"
  defines "ps \<equiv> completed_jobs iter s" and "s' \<equiv> CheckJobsRetention iter s"
  defines "chosen \<equiv> over_retention (env_clock (sv_env s) (sv_reads s)) (retention_max_age (sv_conf s))
    (retention_count (sv_conf s) (length ps)) (job_at s) ps"
  shows "live s' = live s - chosen" "chosen \<subseteq> {p \<in> live s. IsCompleted (job_at s p)}"
    "p \<in> live s' \<Longrightarrow> state (job_at s p) \<noteq> JobPending \<Longrightarrow> job_at s' p = job_at s p"
    "RetentionMaxJobs (sv_conf s) \<ge> 0 \<Longrightarrow>
      int (card {p \<in> live s'. IsCompleted (job_at s' p)}) \<le> RetentionMaxJobs (sv_conf s)"
proof -
  have j: "inv_except {} s" using i by (simp add: svc_inv_def)
  define s0 where "s0 = s\<lparr>sv_retention_running := True, sv_reads := Suc (sv_reads s)\<rparr>"
  have j0: "inv_except {} s0" using j by (simp add: s0_def)
  have v: "live s0 = live s" "sv_store s0 = sv_store s" by (simp_all add: s0_def live_def)
  have b: "base_inv s" using j by (simp add: inv_except_def)
  have sp: "set (map snd (sv_jobs s)) = live s" "distinct (map snd (sv_jobs s))"
    using live_list[OF b] by blast+
  have m: "mset ps = mset (filter (\<lambda>p. IsCompleted (job_at s p)) (map snd (sv_jobs s)))"
    by (simp add: ps_def completed_jobs_def iter)
  then have d: "distinct ps" using sp(2) by (metis distinct_filter mset_eq_imp_distinct_iff)
  have st: "set ps = {p \<in> live s. IsCompleted (job_at s p)}"
    using mset_eq_setD[OF m] sp(1) by auto
  let ?n = "retention_count (sv_conf s) (length ps)"
  define s1 where "s1 = retention_loop (env_clock (sv_env s) (sv_reads s)) (retention_max_age (sv_conf s)) ?n 0 ps s0"
  have s': "s' = s1\<lparr>sv_retention_running := False\<rparr>"
    using c by (simp add: s1_def s'_def CheckJobsRetention_def deleteOldCompletedJobsLocked_def time_now_def
        Let_def ps_def s0_def completed_jobs_def)
  have "\<forall>p \<in> set ps. p \<in> live s0 \<and> IsCompleted (job_at s0 p)" using st v by simp
  note o = retention_loop_outcome[OF j0 d this refl,
      of "env_clock (sv_env s) (sv_reads s)" "retention_max_age (sv_conf s)" ?n 0, folded s1_def]
  have lv: "live s' = live s1" "sv_store s' = sv_store s1" by (simp_all add: s' live_def)
  show l: "live s' = live s - chosen" using o v by (simp add: lv chosen_def)
  show sub: "chosen \<subseteq> {p \<in> live s. IsCompleted (job_at s p)}"
    using st by (auto simp: chosen_def over_retention_def dest: in_set_takeD)
  show k: "p \<in> live s' \<Longrightarrow> state (job_at s p) \<noteq> JobPending \<Longrightarrow> job_at s' p = job_at s p" for p
    using o v by (simp add: lv)
  have np: "p \<in> live s' \<Longrightarrow> state (job_at s p) = JobPending \<Longrightarrow> \<not> IsCompleted (job_at s' p)" for p
    using o v by (simp add: lv)
  assume mx: "RetentionMaxJobs (sv_conf s) \<ge> 0"
  have "{p \<in> live s'. IsCompleted (job_at s' p)} \<subseteq> set ps - set (take (nat ?n) ps)"
  proof
    fix p assume "p \<in> {p \<in> live s'. IsCompleted (job_at s' p)}"
    then have p: "p \<in> live s'" "IsCompleted (job_at s' p)" by simp_all
    then have "IsCompleted (job_at s p)" using np k by metis
    then show "p \<in> set ps - set (take (nat ?n) ps)" using p l st by (auto simp: chosen_def over_retention_def)
  qed
  moreover have "set ps - set (take (nat ?n) ps) \<subseteq> set (drop (nat ?n) ps)"
    by (metis Diff_subset_conv append_take_drop_id set_append subset_refl)
  ultimately have "card {p \<in> live s'. IsCompleted (job_at s' p)} \<le> card (set (drop (nat ?n) ps))"
    by (intro card_mono) auto
  also have "\<dots> \<le> length ps - nat ?n" by (metis card_length length_drop)
  finally show "int (card {p \<in> live s'. IsCompleted (job_at s' p)}) \<le> RetentionMaxJobs (sv_conf s)"
    using mx by (auto simp: retention_count_def)
qed


section \<open>Creation\<close>

text \<open>The loop over fresh ids ends exactly when the generator fails or gives an unused id.\<close>

definition uuid_usable :: "(nat \<Rightarrow> string + JobUUID) \<Rightarrow> JobMap \<Rightarrow> nat \<Rightarrow> bool" where
  "uuid_usable newV7 js k \<longleftrightarrow> (case newV7 k of Inl _ \<Rightarrow> True | Inr u \<Rightarrow> map_of js u = None)"

lemma newJobUuid_loop_unfold: "newJobUuid_loop newV7 js n =
    (if uuid_usable newV7 js n
     then Some (case newV7 n of
         Inl err \<Rightarrow> Inl (api_error ''cannot create job'' ErrorCantCreateJob StatusInternalServerError 0 (Some err))
       | Inr u \<Rightarrow> Inr u, n + 1)
     else newJobUuid_loop newV7 js (n + 1))"
  by (subst newJobUuid_loop.simps) (auto simp: uuid_usable_def split: sum.splits)

lemma newJobUuid_loop_ends:
  "uuid_usable newV7 js (n + d) \<Longrightarrow> \<exists>r. newJobUuid_loop newV7 js n = Some r"
proof (induction d arbitrary: n)
  case 0
  then show ?case by (simp add: newJobUuid_loop_unfold[of newV7 js n])
next
  case (Suc d)
  then show ?case using Suc.IH[of "n + 1"] by (simp add: newJobUuid_loop_unfold[of newV7 js n])
qed

lemma newJobUuid_loop_used:
  assumes "newJobUuid_loop newV7 js n = Some r"
  shows "\<exists>k \<ge> n. uuid_usable newV7 js k"
proof (rule newJobUuid_loop.raw_induct[OF _ assms, where P = "\<lambda>v js n r. \<exists>k \<ge> n. uuid_usable v js k"])
  fix loop :: "(nat \<Rightarrow> string + JobUUID) \<Rightarrow> JobMap \<Rightarrow> nat \<Rightarrow> ((APIError + JobUUID) \<times> nat) option"
    and v js n r
  assume ih: "\<And>v js n r. loop v js n = Some r \<Longrightarrow> \<exists>k \<ge> n. uuid_usable v js k"
  assume l: "(case v n of Inl err \<Rightarrow> Some (Inl (api_error ''cannot create job'' ErrorCantCreateJob
      StatusInternalServerError 0 (Some err)), n + 1)
    | Inr u \<Rightarrow> if map_of js u = None then Some (Inr u, n + 1) else loop v js (n + 1)) = Some r"
  show "\<exists>k \<ge> n. uuid_usable v js k"
  proof (cases "uuid_usable v js n")
    case False
    then have "loop v js (n + 1) = Some r" using l by (auto simp: uuid_usable_def split: sum.splits)
    then show ?thesis using ih[of v js "n + 1" r] by (meson le_add1 order_trans)
  qed blast
qed

lemma finalizeJobCreation_ends_iff:
  "(\<exists>r. finalizeJobCreationLocked j s = Some r) \<longleftrightarrow>
    BackendMaxJobs (sv_conf s) > 0 \<and> length (sv_jobs s) \<ge> BackendMaxJobs (sv_conf s)
    \<or> (\<exists>k \<ge> sv_uuids s. uuid_usable (env_uuid (sv_env s)) (sv_jobs s) k)"
proof -
  have "(\<exists>r. newJobUuid_loop (env_uuid (sv_env s)) (sv_jobs s) (sv_uuids s) = Some r)
      \<longleftrightarrow> (\<exists>k \<ge> sv_uuids s. uuid_usable (env_uuid (sv_env s)) (sv_jobs s) k)"
    using newJobUuid_loop_ends newJobUuid_loop_used le_Suc_ex by metis
  then show ?thesis
    by (auto simp: finalizeJobCreationLocked_def time_now_def generateNewJobUuidLocked_def Let_def
        store_new_job_def split: option.splits sum.splits)
qed

lemma schedule_new_job_outcome:
  "\<exists>t. job_at (schedule_new_job p s) p = AddHistoryEvent
     (if StartAfter (job_at s p) \<noteq> 0 \<and> StartAfter (job_at s p) > env_clock (sv_env s) (sv_reads s)
      then JobEventDelay else JobEventPending) t (job_at s p)"
  "touches {p} s (schedule_new_job p s)"
  by (auto simp: schedule_new_job_def time_now_def setJobStateToDelayedLocked_def
      setJobStateToPendingLocked_def Let_def notify_job_def touches_def)

text \<open>What a successful creation does; a refused one changes no job.\<close>

lemma finalizeJobCreation_outcome:
  assumes i: "svc_inv s" and r: "finalizeJobCreationLocked j s = Some (Inr created, s')"
  obtains u p where "lookup_job u s = None" "lookup_job u s' = Some p" "JobUUID created = u" "p \<notin> live s"
    "\<And>v. v \<noteq> u \<Longrightarrow> lookup_job v s' = lookup_job v s" "length (sv_jobs s') = Suc (length (sv_jobs s))"
    "state created = (if StartAfter j \<noteq> 0 \<and> StartAfter j > env_clock (sv_env s) (Suc (sv_reads s))
       then JobDelayed else JobPending)"
    "job_at s' p = created \<or> state created = JobPending \<and> state (job_at s' p) = JobQueued"
    "BackendMaxJobs (sv_conf s) = 0 \<or> length (sv_jobs s) < BackendMaxJobs (sv_conf s)"
    "\<And>q. q \<in> live s \<Longrightarrow> state (job_at s q) \<noteq> JobPending \<Longrightarrow> job_at s' q = job_at s q"
    "sv_conf s' = sv_conf s"
proof -
  have j: "inv_except {} s" using i by (simp add: svc_inv_def)
  let ?now = "env_clock (sv_env s) (sv_reads s)"
  obtain u k p s1 s2 where k: "s1 = s\<lparr>sv_reads := Suc (sv_reads s), sv_uuids := k\<rparr>"
    and fresh: "map_of (sv_jobs s) u = None"
    and st: "store_new_job (Init u ?now j) s1 = (p, s2)"
    and nl: "p \<notin> live s" and n: "job_at s2 p = Init u ?now j"
    and s3': "inv_except {} (schedule_new_job p (notify_job p ServiceEventJobCreated s2))"
    and s': "s' = tryEnqueuePendingJobsLocked (schedule_new_job p (notify_job p ServiceEventJobCreated s2))"
    and c': "created = job_at (schedule_new_job p (notify_job p ServiceEventJobCreated s2)) p"
    and lim: "BackendMaxJobs (sv_conf s) = 0 \<or> length (sv_jobs s) < BackendMaxJobs (sv_conf s)"
    by (rule finalizeJobCreation_cases[OF j r], simp) (rule that; (assumption | simp only: sum.inject))
  have s2: "sv_jobs s2 = AList.update u p (sv_jobs s)" "sv_conf s2 = sv_conf s" "sv_env s2 = sv_env s"
    "sv_reads s2 = Suc (sv_reads s)" "\<And>q. q \<noteq> p \<Longrightarrow> job_at s2 q = job_at s q"
    using st k by (auto simp: store_new_job_def Init_def)
  define s3 where "s3 = schedule_new_job p (notify_job p ServiceEventJobCreated s2)"
  have s3: "inv_except {} s3" unfolding s3_def by (rule s3')
  have r': "s' = tryEnqueuePendingJobsLocked s3" "created = job_at s3 p"
    using s' c' by (simp_all add: s3_def)
  obtain t where t: "job_at s3 p = AddHistoryEvent
     (if StartAfter j \<noteq> 0 \<and> StartAfter j > env_clock (sv_env s) (Suc (sv_reads s))
      then JobEventDelay else JobEventPending) t (Init u ?now j)"
    using schedule_new_job_outcome(1)[of p "notify_job p ServiceEventJobCreated s2"] n s2
    by (auto simp: s3_def Init_def)
  have t3: "touches {p} s2 s3"
    using schedule_new_job_outcome(2)[of p "notify_job p ServiceEventJobCreated s2"]
    by (simp add: s3_def touches_def)
  have t4: "touches (pending_jobs s3) s3 s'" using inv_tryEnqueue(2)[OF s3] r' by simp
  have jobs: "sv_jobs s' = AList.update u p (sv_jobs s)" using t3 t4 s2 by (simp add: touches_def)
  show thesis
  proof (rule that[of u p])
    show "lookup_job u s = None" "lookup_job u s' = Some p" using fresh jobs by (simp_all add: lookup_job_def)
    show "p \<notin> live s" by (rule nl)
    show "JobUUID created = u" by (simp add: r' t Init_def)
    show "lookup_job v s' = lookup_job v s" if "v \<noteq> u" for v using that jobs by (simp add: lookup_job_def)
    show "length (sv_jobs s') = Suc (length (sv_jobs s))"
      using jobs fresh by (simp add: length_update_alist map_of_eq_None_iff)
    show "state created = (if StartAfter j \<noteq> 0 \<and> StartAfter j > env_clock (sv_env s) (Suc (sv_reads s))
       then JobDelayed else JobPending)" by (simp add: r' t)
    show "BackendMaxJobs (sv_conf s) = 0 \<or> length (sv_jobs s) < BackendMaxJobs (sv_conf s)" by (rule lim)
    show "sv_conf s' = sv_conf s" using t3 t4 s2 by (simp add: touches_def)
    show "job_at s' q = job_at s q" if "q \<in> live s" "state (job_at s q) \<noteq> JobPending" for q
    proof -
      have "q \<noteq> p" using that(1) nl by blast
      then show ?thesis using t3 t4 s2(5) that(2) by (simp add: touches_def in_state_def)
    qed
    show "job_at s' p = created \<or> state created = JobPending \<and> state (job_at s' p) = JobQueued"
    proof (cases "p \<in> pending_jobs s3")
      case True
      then have "state created = JobPending" by (simp add: r' in_state_def)
      then show ?thesis using tryEnqueue_outcome[OF s3 True] r' by auto
    next
      case False
      then show ?thesis using t4 r' by (simp add: touches_def)
    qed
  qed
qed

end
