(* ===== verification/Trace.thy ===== *)
theory Trace
  imports ServiceAdmin Backend
begin

text \<open>
  What the scheduler tells the outside: its trace is an audit log. Every notification about
  a job carries the job as it is at that moment, with exactly one more history event than in
  the notification before, the one the notification names; and a store that replays the
  trace holds, after every operation, exactly the jobs of the scheduler. With the
  interfaces of \<open>Backend\<close> this is the agreement of the scheduler and its backend providers.
\<close>

section \<open>Well-formed traces\<close>

fun history_event :: "ServiceEventType \<Rightarrow> string option" where
  "history_event ServiceEventJobCreated = Some JobEventCreate"
| "history_event ServiceEventJobDelayed = Some JobEventDelay"
| "history_event ServiceEventJobPending = Some JobEventPending"
| "history_event ServiceEventJobEnqueued = Some JobEventEnqueue"
| "history_event ServiceEventJobStarted = Some JobEventStart"
| "history_event ServiceEventJobSucceeded = Some JobEventSuccess"
| "history_event ServiceEventJobCanceled = Some JobEventCancel"
| "history_event ServiceEventJobFailed = Some JobEventFail"
| "history_event ServiceEventJobHidden = Some JobEventHide"
| "history_event ServiceEventJobDeleted = Some JobEventDelete"
| "history_event ServiceEventJobTerminated = Some JobEventTerminate"
| "history_event _ = None"

text \<open>The job \<open>j\<close> is \<open>j0\<close> with one more event of type \<open>ev\<close>.\<close>

definition next_job :: "string \<Rightarrow> job \<Rightarrow> job \<Rightarrow> bool" where
  "next_job ev j0 j \<longleftrightarrow> (\<exists>t. History j = History j0 @ [\<lparr>EventType = ev, Timestamp = t\<rparr>])
    \<and> state j = GetStateFromEvent ev \<and> previousState j = state j0
    \<and> JobUUID j = JobUUID j0 \<and> Topic j = Topic j0 \<and> LockResources j = LockResources j0"

definition notif_ok :: "notif \<Rightarrow> jobs_view \<Rightarrow> bool" where
  "notif_ok e v \<longleftrightarrow>
    (\<forall>j ev. e = NJob j ev \<longrightarrow> (if jv_restore v then ev = ServiceEventJobLoaded
      else if ev = ServiceEventJobCreated
      then jv_jobs v (JobUUID j) = None \<and> state j = JobCreated \<and> previousState j = JobNoState
        \<and> (\<exists>t. History j = [\<lparr>EventType = JobEventCreate, Timestamp = t\<rparr>])
      else \<exists>h j0. history_event ev = Some h \<and> jv_jobs v (JobUUID j) = Some j0 \<and> next_job h j0 j))
    \<and> (\<forall>j. e = NBackendJobUpdated j \<longrightarrow>
      (\<exists>j0. jv_jobs v (JobUUID j) = Some j0 \<and> j = j0\<lparr>VisibilityTimeout := VisibilityTimeout j\<rparr>))"

text \<open>\<open>n\<close> is the limit the scheduler keeps, that of the backend (0: none).\<close>

fun trace_ok :: "nat \<Rightarrow> notif list \<Rightarrow> jobs_view \<Rightarrow> bool" where
  "trace_ok n [] v = True"
| "trace_ok n (e # es) v \<longleftrightarrow> notif_ok e v \<and> (n = 0 \<or> job_room n e v) \<and> trace_ok n es (view_step e v)"

lemma trace_ok_append:
  "trace_ok n (a @ b) v \<longleftrightarrow> trace_ok n a v \<and> trace_ok n b (replay_jobs a v)"
  by (induction a arbitrary: v) (auto simp: replay_jobs_def)

lemma trace_ok_known: "trace_ok n es v \<Longrightarrow> known_all es v"
proof (induction es arbitrary: v)
  case (Cons e es)
  then have "known_change e v" by (fastforce simp: notif_ok_def known_change_def)
  then show ?case using Cons by simp
qed simp

lemma trace_ok_room: "trace_ok n es v \<Longrightarrow> n \<noteq> 0 \<Longrightarrow> room_all n es v"
  by (induction es arbitrary: v) auto

lemma other_ok: "\<not> stored_change e \<Longrightarrow> notif_ok e v \<and> job_room n e v"
  by (auto simp: notif_ok_def job_room_def)

lemma others_ok: "\<forall>e \<in> set es. \<not> stored_change e \<Longrightarrow> trace_ok n es v \<and> replay_jobs es v = v"
  by (induction es) (simp_all add: other_ok view_step_other replay_jobs_def)

section \<open>The mirror\<close>

abbreviation view :: "jobs_view \<Rightarrow> svc \<Rightarrow> jobs_view" where
  "view v0 s \<equiv> replay_jobs (sv_out s) v0"

text \<open>The store of the replay has the jobs of the scheduler, but for the jobs in \<open>P\<close>.\<close>

definition mirror_but :: "jobs_view \<Rightarrow> ptr set \<Rightarrow> svc \<Rightarrow> bool" where
  "mirror_but v0 P s \<longleftrightarrow> trace_ok (BackendMaxJobs (sv_conf s)) (sv_out s) v0 \<and> \<not> jv_restore (view v0 s)
    \<and> (\<forall>u. map_of (sv_jobs s) u = None \<longleftrightarrow> jv_jobs (view v0 s) u = None)
    \<and> (\<forall>u p. map_of (sv_jobs s) u = Some p \<longrightarrow> JobUUID (job_at s p) = u
        \<and> (p \<notin> P \<longrightarrow> jv_jobs (view v0 s) u = Some (job_at s p)))"

definition mirror :: "jobs_view \<Rightarrow> svc \<Rightarrow> bool" where
  "mirror v0 s \<longleftrightarrow> mirror_but v0 {} s"

lemma mirror_butD:
  assumes "mirror_but v0 P s"
  shows "trace_ok (BackendMaxJobs (sv_conf s)) (sv_out s) v0" "\<not> jv_restore (view v0 s)"
    "map_of (sv_jobs s) u = None \<longleftrightarrow> jv_jobs (view v0 s) u = None"
    "map_of (sv_jobs s) u = Some p \<Longrightarrow> JobUUID (job_at s p) = u"
    "map_of (sv_jobs s) u = Some p \<Longrightarrow> p \<notin> P \<Longrightarrow> jv_jobs (view v0 s) u = Some (job_at s p)"
  using assms unfolding mirror_but_def by blast+

text \<open>The job \<open>p\<close> has one event the trace does not have yet.\<close>

definition ahead :: "jobs_view \<Rightarrow> ptr \<Rightarrow> string \<Rightarrow> svc \<Rightarrow> bool" where
  "ahead v0 p h s \<longleftrightarrow> mirror_but v0 {p} s \<and> map_of (sv_jobs s) (JobUUID (job_at s p)) = Some p
    \<and> (\<exists>j0. jv_jobs (view v0 s) (JobUUID (job_at s p)) = Some j0 \<and> next_job h j0 (job_at s p))"

text \<open>A step that tells no store anything and changes no job.\<close>

definition quiet :: "svc \<Rightarrow> svc \<Rightarrow> bool" where
  "quiet s s' \<longleftrightarrow> (\<exists>out. sv_out s' = sv_out s @ out \<and> (\<forall>e \<in> set out. \<not> stored_change e))
    \<and> sv_store s' = sv_store s \<and> sv_jobs s' = sv_jobs s \<and> sv_conf s' = sv_conf s"

lemma quiet_mirror: "quiet s s' \<Longrightarrow> mirror_but v0 P s \<Longrightarrow> mirror_but v0 P s'"
  using others_ok by (auto simp: quiet_def mirror_but_def trace_ok_append replay_jobs_append)

lemma quiet_view: "quiet s s' \<Longrightarrow> view v0 s' = view v0 s"
  using others_ok by (auto simp: quiet_def replay_jobs_append)

lemma quiet_ahead: "quiet s s' \<Longrightarrow> ahead v0 p h s \<Longrightarrow> ahead v0 p h s'"
  using quiet_mirror[of s s' v0 "{p}"] quiet_view[of s s' v0]
  by (auto simp: ahead_def quiet_def)

lemma quiet_refl [simp]: "quiet s s"
  by (auto simp: quiet_def)

lemma quiet_fields [simp]:
  "quiet s (s1\<lparr>sv_pending := x1\<rparr>) = quiet s s1" "quiet s (s1\<lparr>sv_queue := x2\<rparr>) = quiet s s1"
  "quiet s (s1\<lparr>sv_retry := x3\<rparr>) = quiet s s1" "quiet s (s1\<lparr>sv_delayed := x3\<rparr>) = quiet s s1"
  "quiet s (s1\<lparr>sv_locked := x4\<rparr>) = quiet s s1" "quiet s (s1\<lparr>sv_reads := x5\<rparr>) = quiet s s1"
  "quiet s (s1\<lparr>sv_uuids := x5\<rparr>) = quiet s s1" "quiet s (s1\<lparr>sv_panic := x6\<rparr>) = quiet s s1"
  "quiet s (s1\<lparr>sv_retention_running := x6\<rparr>) = quiet s s1"
  "quiet s (s1\<lparr>sv_visibility_running := x6\<rparr>) = quiet s s1"
  "quiet s (s1\<lparr>sv_delay_running := x6\<rparr>) = quiet s s1" "quiet s (s1\<lparr>sv_stopping := x6\<rparr>) = quiet s s1"
  by (simp_all add: quiet_def)

lemma quiet_emit: "quiet s s1 \<Longrightarrow> \<not> stored_change e \<Longrightarrow> quiet s (emit e s1)"
  by (auto simp: quiet_def)

lemma quiet_trans: "quiet s s1 \<Longrightarrow> quiet s1 s2 \<Longrightarrow> quiet s s2"
  by (auto simp: quiet_def)

lemma quiet_locked_count: "quiet s s1 \<Longrightarrow> quiet s (UpdateResourcesLockedCountMetric t n s1)"
  by (simp add: UpdateResourcesLockedCountMetric_def quiet_emit)

lemma quiet_lock: "lockResourcesLocked p s = (e, s') \<Longrightarrow> quiet s s'"
  by (auto simp: lockResourcesLocked_def quiet_locked_count split: sum.splits prod.splits)

lemma quiet_unlock: "quiet s (unlockJobResourcesLocked p s)"
proof -
  have "quiet s (foldl (\<lambda>s r. emit (NBackendResourceUnlocked (job_at s p) r) s) t rs)" if "quiet s t" for t and rs :: "string list"
    using that by (induction rs arbitrary: t) (simp_all add: quiet_emit)
  then show ?thesis
    by (auto simp: unlockJobResourcesLocked_def Let_def quiet_locked_count split: prod.splits)
qed

section \<open>The primitive steps\<close>

lemma mirror_event:
  assumes m: "mirror v0 s" and p: "map_of (sv_jobs s) (JobUUID (job_at s p)) = Some p"
  shows "ahead v0 p h (add_event_now p h s)"
proof -
  have v: "view v0 (add_event_now p h s) = view v0 s" by simp
  have "jv_jobs (view v0 s) (JobUUID (job_at s p)) = Some (job_at s p)"
    using m p unfolding mirror_def mirror_but_def by blast
  moreover have "mirror_but v0 {p} (add_event_now p h s)"
    using m v by (simp add: mirror_def mirror_but_def)
  moreover have "next_job h (job_at s p) (job_at (add_event_now p h s) p)" by (simp add: next_job_def)
  ultimately show ?thesis unfolding ahead_def v using p by simp
qed

lemma ahead_notify:
  assumes a: "ahead v0 p h s" and ev: "history_event ev = Some h"
    and n: "ev \<noteq> ServiceEventJobCreated" "ev \<noteq> ServiceEventJobDeleted"
  shows "mirror v0 (notify_job p ev s)"
proof -
  let ?u = "JobUUID (job_at s p)"
  have m: "mirror_but v0 {p} s" and p: "map_of (sv_jobs s) ?u = Some p" using a by (simp_all add: ahead_def)
  obtain j0 where j0: "jv_jobs (view v0 s) ?u = Some j0" "next_job h j0 (job_at s p)"
    using a by (auto simp: ahead_def)
  have w: "view v0 (notify_job p ev s) = view_step (NJob (job_at s p) ev) (view v0 s)"
    by (simp add: notify_job_def replay_jobs_def)
  have r: "\<not> jv_restore (view v0 s)" using m by (simp add: mirror_but_def)
  have w': "view v0 (notify_job p ev s) =
      (view v0 s)\<lparr>jv_jobs := (jv_jobs (view v0 s))(?u \<mapsto> job_at s p)\<rparr>"
    unfolding w using r n j0(1) by simp
  have "notif_ok (NJob (job_at s p) ev) (view v0 s)" using r n j0 ev by (simp add: notif_ok_def)
  moreover have "job_room k (NJob (job_at s p) ev) (view v0 s)" for k using n by (simp add: job_room_def)
  ultimately have t: "trace_ok (BackendMaxJobs (sv_conf s)) (sv_out s @ [NJob (job_at s p) ev]) v0"
    using m by (simp add: mirror_but_def trace_ok_append)
  have n': "sv_jobs (notify_job p ev s) = sv_jobs s" "sv_store (notify_job p ev s) = sv_store s"
    "sv_conf (notify_job p ev s) = sv_conf s" "sv_out (notify_job p ev s) = sv_out s @ [NJob (job_at s p) ev]"
    by (simp_all add: notify_job_def)
  show ?thesis unfolding mirror_def mirror_but_def unfolding w' unfolding n'
  proof (intro conjI allI impI)
    fix u q assume q: "map_of (sv_jobs s) u = Some q"
    then have u: "JobUUID (job_at s q) = u" by (rule mirror_butD(4)[OF m])
    then show "JobUUID (job_at s q) = u" .
    show "jv_jobs ((view v0 s)\<lparr>jv_jobs := (jv_jobs (view v0 s))(?u \<mapsto> job_at s p)\<rparr>) u = Some (job_at s q)"
    proof (cases "u = ?u")
      case True
      then show ?thesis using p q by simp
    next
      case False
      then have "q \<noteq> p" using u by blast
      then have "jv_jobs (view v0 s) u = Some (job_at s q)" using mirror_butD(5)[OF m q] by simp
      then show ?thesis using False by simp
    qed
  next
    fix u show "map_of (sv_jobs s) u = None \<longleftrightarrow>
        jv_jobs ((view v0 s)\<lparr>jv_jobs := (jv_jobs (view v0 s))(?u \<mapsto> job_at s p)\<rparr>) u = None"
      using mirror_butD(3)[OF m, of u] p by (cases "u = ?u") simp_all
  qed (use t r in simp_all)
qed

text \<open>The event and its notification, with quiet steps between.\<close>

lemma event_notify:
  assumes "mirror v0 s" "map_of (sv_jobs s) (JobUUID (job_at s p)) = Some p"
    "quiet (add_event_now p h s) s1" "history_event ev = Some h"
    "ev \<noteq> ServiceEventJobCreated" "ev \<noteq> ServiceEventJobDeleted"
  shows "mirror v0 (notify_job p ev s1)"
  by (rule ahead_notify[OF quiet_ahead[OF assms(3) mirror_event[OF assms(1,2)]] assms(4-6)])

lemma mirror_quiet: "mirror v0 s \<Longrightarrow> quiet s s' \<Longrightarrow> mirror v0 s'"
  using quiet_mirror by (simp add: mirror_def)

lemma mirror_flags:
  "mirror v0 (s\<lparr>sv_visibility_running := b\<rparr>) = mirror v0 s"
  "mirror v0 (s\<lparr>sv_retention_running := b\<rparr>) = mirror v0 s"
  "mirror v0 (s\<lparr>sv_delay_running := b\<rparr>) = mirror v0 s"
  "mirror v0 (s\<lparr>sv_stopping := b\<rparr>) = mirror v0 s"
  "mirror v0 (s\<lparr>sv_reads := n\<rparr>) = mirror v0 s"
  "mirror v0 (s\<lparr>sv_queue := q\<rparr>) = mirror v0 s"
  unfolding mirror_def mirror_but_def by simp_all

lemma keyed:
  assumes "base_inv s" "p \<in> live s"
  shows "map_of (sv_jobs s) (JobUUID (job_at s p)) = Some p"
  using live_iff[OF assms(1)] assms(2) by blast

lemma keyed_touches: "map_of (sv_jobs s) (JobUUID (job_at s p)) = Some p \<Longrightarrow> touches P s s' \<Longrightarrow>
    map_of (sv_jobs s') (JobUUID (job_at s' p)) = Some p"
  by (simp add: touches_def)

section \<open>Enqueueing\<close>

lemma mirror_enqueue:
  assumes m: "mirror v0 s" and k: "map_of (sv_jobs s) (JobUUID (job_at s p)) = Some p"
    and r: "enqueueJobLocked p s = (e, s')"
  shows "mirror v0 s'" "map_of (sv_jobs s') = map_of (sv_jobs s)"
    "JobUUID (job_at s' q) = JobUUID (job_at s q)"
proof -
  have "mirror v0 s' \<and> map_of (sv_jobs s') = map_of (sv_jobs s)
      \<and> (\<forall>q. JobUUID (job_at s' q) = JobUUID (job_at s q))"
    using r
  proof (cases rule: enqueueJobLocked_cases)
    case (queued n s1)
    note f = lockResourcesLocked_frame[OF queued(2)]
    have q1: "quiet s s1" using quiet_lock[OF queued(2)] by (simp add: quiet_def)
    have "mirror v0 (notify_job p ServiceEventJobEnqueued ((add_event_now p JobEventEnqueue s1)
        \<lparr>sv_pending := AList.delete (JobUUID (job_at s p)) (sv_pending s1)\<rparr>))"
      using f k by (intro event_notify[OF mirror_quiet[OF m q1]]) simp_all
    then have "mirror v0 s'" using queued(3) mirror_quiet quiet_emit[OF quiet_refl, of NWake] by simp
    then show ?thesis using queued(3) f by (simp add: notify_job_def)
  qed (use m in \<open>simp_all add: mirror_quiet\<close>)
  then show "mirror v0 s'" "map_of (sv_jobs s') = map_of (sv_jobs s)"
    "JobUUID (job_at s' q) = JobUUID (job_at s q)" by blast+
qed

lemma mirror_enqueue_all:
  "mirror v0 s \<Longrightarrow> \<forall>p \<in> set ps. map_of (sv_jobs s) (JobUUID (job_at s p)) = Some p \<Longrightarrow>
    mirror v0 (foldl (\<lambda>s p. snd (enqueueJobLocked p s)) s ps)"
proof (induction ps arbitrary: s)
  case (Cons p ps)
  obtain e s1 where r: "enqueueJobLocked p s = (e, s1)" by fastforce
  have "map_of (sv_jobs s) (JobUUID (job_at s p)) = Some p" using Cons.prems(2) by simp
  note o = mirror_enqueue[OF Cons.prems(1) this r]
  then show ?case using Cons.IH[OF o(1)] Cons.prems(2) r by simp
qed simp

lemma mirror_tryEnqueue:
  assumes m: "mirror v0 s" and i: "inv_except E s"
  shows "mirror v0 (tryEnqueuePendingJobsLocked s)"
proof (cases "length (sv_pending s) = 0")
  case False
  let ?ps = "filter (\<lambda>p. \<not> requiresLockedResources (GetLockedResources (sv_locked s)) (job_at s p))
    (map snd (sv_pending s))"
  let ?s1 = "s\<lparr>sv_panic := (sv_panic s \<or> list_ex (\<lambda>p. GetCreationTimestamp (job_at s p) = None) ?ps)\<rparr>"
  have b: "base_inv s" using i by (simp add: inv_except_def)
  have "mirror v0 ?s1" using m by (simp add: mirror_quiet)
  moreover have "map_of (sv_jobs ?s1) (JobUUID (job_at ?s1 p)) = Some p"
    if "p \<in> set (sort_pending (sv_store s) ?ps)" for p
  proof -
    have "p \<in> set ?ps" using that by (simp add: sort_pending_def)
    then have "p \<in> live s" using pend_in_live[OF i] map_snd_pending(1)[OF i] by auto
    then show ?thesis using keyed[OF b] by simp
  qed
  ultimately have "mirror v0 (foldl (\<lambda>s p. snd (enqueueJobLocked p s)) ?s1 (sort_pending (sv_store s) ?ps))"
    by (intro mirror_enqueue_all) auto
  then show ?thesis using False by (simp add: tryEnqueuePendingJobsLocked_def Let_def)
qed (use m in \<open>simp add: tryEnqueuePendingJobsLocked_def\<close>)


section \<open>The operations on one job\<close>

lemma quiet_of_event: "quiet s (unlockJobResourcesLocked p s)" "quiet s (emit NWake s)"
  by (simp_all add: quiet_unlock quiet_emit)

lemma mirror_setDelayed:
  assumes m: "mirror v0 s" and k: "map_of (sv_jobs s) (JobUUID (job_at s p)) = Some p"
  shows "mirror v0 (setJobStateToDelayedLocked p s)"
  unfolding setJobStateToDelayedLocked_def Let_def
  by (rule event_notify[OF m k, of JobEventDelay]) simp_all

lemma mirror_setPending:
  assumes m: "mirror v0 s" and k: "map_of (sv_jobs s) (JobUUID (job_at s p)) = Some p"
  shows "mirror v0 (setJobStateToPendingLocked p s)"
  unfolding setJobStateToPendingLocked_def Let_def
  by (rule event_notify[OF m k, of JobEventPending]) simp_all

lemma mirror_start:
  assumes m: "mirror v0 s" and b: "base_inv s" and r: "startJobLocked u req s = (e, s')"
  shows "mirror v0 s'"
proof (cases "\<exists>p. lookup_job u s = Some p \<and> state (job_at s p) = JobQueued")
  case False
  then show ?thesis using m r by (auto simp: startJobLocked_def split: option.splits if_splits)
next
  case True
  then obtain p where p: "lookup_job u s = Some p" "state (job_at s p) = JobQueued" by blast
  have k: "map_of (sv_jobs s) (JobUUID (job_at s p)) = Some p"
    using lookup_live[OF b p(1)] p(1) by (simp add: lookup_job_def)
  let ?s1 = "s\<lparr>sv_pending := AList.delete (JobUUID (job_at s p)) (sv_pending s)\<rparr>"
  let ?s2 = "add_event_now p JobEventStart ?s1"
  let ?s3 = "?s2\<lparr>sv_store := (sv_store ?s2)(p := (job_at ?s2 p)\<lparr>VisibilityTimeout := pullVisibilityTimeout req\<rparr>)\<rparr>"
  have a: "ahead v0 p JobEventStart ?s2" by (rule mirror_event) (use m k in \<open>simp_all add: mirror_quiet\<close>)
  have m2: "mirror_but v0 {p} ?s2" using a by (simp add: ahead_def)
  have "mirror_but v0 {p} ?s3"
    unfolding mirror_but_def
  proof (intro conjI allI impI)
    fix w q assume q: "map_of (sv_jobs ?s3) w = Some q"
    then have q': "map_of (sv_jobs ?s2) w = Some q" by simp
    show "JobUUID (job_at ?s3 q) = w" using mirror_butD(4)[OF m2 q'] by (simp split: if_splits)
    assume "q \<notin> {p}"
    then show "jv_jobs (view v0 ?s3) w = Some (job_at ?s3 q)" using mirror_butD(5)[OF m2 q'] by simp
  next
    fix w show "map_of (sv_jobs ?s3) w = None \<longleftrightarrow> jv_jobs (view v0 ?s3) w = None"
      using mirror_butD(3)[OF m2, of w] by simp
  qed (use mirror_butD(1,2)[OF m2] in simp_all)
  moreover obtain j0 where "jv_jobs (view v0 ?s2) (JobUUID (job_at ?s2 p)) = Some j0"
    "next_job JobEventStart j0 (job_at ?s2 p)" using a by (auto simp: ahead_def)
  moreover have "map_of (sv_jobs ?s2) (JobUUID (job_at ?s2 p)) = Some p" using a by (simp add: ahead_def)
  ultimately have "ahead v0 p JobEventStart ?s3" by (simp add: ahead_def next_job_def)
  then have "mirror v0 (notify_job p ServiceEventJobStarted ?s3)" by (rule ahead_notify) simp_all
  moreover have "s' = notify_job p ServiceEventJobStarted ?s3"
    using r p by (simp add: startJobLocked_def Let_def)
  ultimately show ?thesis by simp
qed

lemma mirror_retryJob:
  assumes m: "mirror v0 s" and k: "map_of (sv_jobs s) (JobUUID (job_at s p)) = Some p"
    and r: "retryJobLocked p s = (e, s')"
  shows "mirror v0 s'"
proof -
  obtain e1 s1 where l: "lockResourcesLocked p s = (e1, s1)" by fastforce
  note f = lockResourcesLocked_frame[OF l] and q = quiet_lock[OF l]
  have m1: "mirror v0 s1" by (rule mirror_quiet[OF m q])
  show ?thesis
  proof (cases e1)
    case None
    have "mirror v0 (notify_job p ServiceEventJobEnqueued (add_event_now p JobEventEnqueue s1))"
      using f k by (intro event_notify[OF m1]) simp_all
    then have "mirror v0 (notifyQueuedLocked (notify_job p ServiceEventJobEnqueued
        (add_event_now p JobEventEnqueue s1)))"
      unfolding notifyQueuedLocked_def using mirror_quiet quiet_of_event(2) by blast
    then show ?thesis using r None by (simp add: retryJobLocked_def Let_def l)
  next
    case (Some x)
    then show ?thesis using r m1 by (simp add: retryJobLocked_def l)
  qed
qed

lemma mirror_SetJobAsSuccessful:
  assumes m: "mirror v0 s" and i: "inv_except {} s" and r: "SetJobAsSuccessful u s = (e, s')"
  shows "mirror v0 s'"
proof (cases "\<exists>p. lookup_job u s = Some p \<and> state (job_at s p) = JobRunning")
  case False
  then show ?thesis using m r by (auto simp: SetJobAsSuccessful_def split: option.splits if_splits)
next
  case True
  then obtain p where lk: "lookup_job u s = Some p" and q: "state (job_at s p) = JobRunning" by blast
  have k: "map_of (sv_jobs s) (JobUUID (job_at s p)) = Some p"
    using lookup_placed(3)[OF i lk] lk by (simp add: lookup_job_def)
  let ?s1 = "unlockJobResourcesLocked p s"
  let ?s2 = "notify_job p ServiceEventJobSucceeded (add_event_now p JobEventSuccess ?s1)"
  have "mirror v0 ?s2" using k by (intro event_notify[OF mirror_quiet[OF m quiet_unlock[where p = p]]]) simp_all
  moreover have "inv_except {p} ?s2"
    using inv_add_event_now[OF inv_unlock(1)[OF i], of p p] lookup_placed(1)[OF i lk] by simp
  moreover have "s' = tryEnqueuePendingJobsLocked ?s2"
    using r lk q by (simp add: SetJobAsSuccessful_def Let_def)
  ultimately show ?thesis by (simp only: mirror_tryEnqueue)
qed

lemma mirror_CancelJob:
  assumes m: "mirror v0 s" and i: "inv_except {} s" and r: "CancelJob u s = (e, s')"
  shows "mirror v0 s'"
proof (cases "\<exists>p. lookup_job u s = Some p \<and> state (job_at s p) = JobRunning")
  case False
  then show ?thesis using m r by (auto simp: CancelJob_def split: option.splits if_splits)
next
  case True
  then obtain p where lk: "lookup_job u s = Some p" and q: "state (job_at s p) = JobRunning" by blast
  have k: "map_of (sv_jobs s) (JobUUID (job_at s p)) = Some p"
    using lookup_placed(3)[OF i lk] lk by (simp add: lookup_job_def)
  let ?s1 = "notify_job p ServiceEventJobCanceled (add_event_now p JobEventCancel s)"
  let ?s2 = "notifyQueuedLocked (notify_job p ServiceEventJobEnqueued (add_event_now p JobEventEnqueue ?s1))"
  have m1: "mirror v0 ?s1" using k by (intro event_notify[OF m]) simp_all
  have "mirror v0 (notify_job p ServiceEventJobEnqueued (add_event_now p JobEventEnqueue ?s1))"
    using k by (intro event_notify[OF m1]) simp_all
  then have "mirror v0 ?s2" unfolding notifyQueuedLocked_def using mirror_quiet quiet_of_event(2) by blast
  moreover have "inv_except {p} ?s2"
    using inv_add_event_now[of "{p}" ?s1 p] inv_add_event_now[OF i, of p] lookup_placed(1)[OF i lk]
    by (simp add: notifyQueuedLocked_def)
  moreover have "s' = tryEnqueuePendingJobsLocked ?s2"
    using r lk q by (simp add: CancelJob_def Let_def)
  ultimately show ?thesis by (simp only: mirror_tryEnqueue)
qed


lemma mirror_terminate:
  assumes m: "mirror v0 s" and i: "inv_except E s" and p: "p \<in> live s"
  shows "mirror v0 (onJobFailedTooManyTimesLocked p s)"
proof -
  let ?s1 = "add_event_now p JobEventTerminate s"
  let ?s2 = "notify_job p ServiceEventJobTerminated (unlockJobResourcesLocked p ?s1)"
  have b: "base_inv s" using i by (simp add: inv_except_def)
  have "mirror v0 ?s2" using keyed[OF b p] quiet_unlock by (intro event_notify[OF m]) simp_all
  moreover have "inv_except (insert p (insert p E)) ?s2"
    using inv_unlock(1)[OF inv_add_event_now[OF i p], of p] p by simp
  ultimately show ?thesis unfolding onJobFailedTooManyTimesLocked_def Let_def by (rule mirror_tryEnqueue)
qed

lemma mirror_retryLater:
  assumes m: "mirror v0 s" and i: "inv_except E s" and p: "p \<in> live s" "p \<notin> retr s"
  shows "mirror v0 (retryJobLaterLocked p t s)"
proof -
  let ?s1 = "add_event_now p JobEventHide s"
  let ?s2 = "notify_job p ServiceEventJobHidden (unlockJobResourcesLocked p ?s1)"
  let ?s3 = "?s2\<lparr>sv_retry := Enqueue p (i64 (- t)) (sv_retry ?s2)\<rparr>"
  have b: "base_inv s" using i by (simp add: inv_except_def)
  have "mirror v0 ?s2" using keyed[OF b p(1)] quiet_unlock by (intro event_notify[OF m]) simp_all
  then have "mirror v0 ?s3" by (rule mirror_quiet) simp
  moreover have i2: "inv_except (insert p (insert p E)) ?s2"
    using inv_unlock(1)[OF inv_add_event_now[OF i p(1)], of p] p(1) by simp
  have "inv_except (insert p (insert p (insert p E))) ?s3"
    using inv_retry_enqueue(1)[OF i2, of p] p by simp
  ultimately show ?thesis unfolding retryJobLaterLocked_def Let_def by (rule mirror_tryEnqueue)
qed

lemma mirror_fail:
  assumes m: "mirror v0 s" and i: "inv_except {} s" and r: "failJobLocked u s = (e, s')"
  shows "mirror v0 s'"
proof (cases "\<exists>p. lookup_job u s = Some p \<and> state (job_at s p) = JobRunning")
  case False
  then show ?thesis using r m by (auto simp: failJobLocked_def split: option.splits if_splits)
next
  case True
  then obtain p where lk: "lookup_job u s = Some p" and q: "state (job_at s p) = JobRunning" by blast
  note p = lookup_placed[OF i lk]
  have k: "map_of (sv_jobs s) (JobUUID (job_at s p)) = Some p"
    using p(3) lk by (simp add: lookup_job_def)
  define s1 where "s1 = notify_job p ServiceEventJobFailed (add_event_now p JobEventFail s)"
  have m1: "mirror v0 s1" unfolding s1_def using k by (intro event_notify[OF m]) simp_all
  have i1: "inv_except {p} s1" using inv_add_event_now[OF i p(1)] by (simp add: s1_def)
  have v: "p \<in> live s1" "p \<notin> retr s1" using p q by (auto simp: s1_def placed_iff)
  define s2 where "s2 = s1\<lparr>sv_reads := Suc (sv_reads s1)\<rparr>"
  have m2: "mirror v0 s2" unfolding s2_def by (rule mirror_quiet[OF m1]) simp
  have i2: "inv_except {p} s2" using i1 by (simp add: s2_def)
  have v2: "p \<in> live s2" "p \<notin> retr s2" using v by (simp_all add: s2_def)
  obtain x s3 where rt: "retryJobLocked p s2 = (x, s3)" by fastforce
  have b2: "base_inv s2" using i2 by (simp add: inv_except_def)
  have m3: "mirror v0 s3" by (rule mirror_retryJob[OF m2 keyed[OF b2 v2(1)] rt])
  have "s' = onJobFailedTooManyTimesLocked p s1 \<or> (\<exists>t. s' = retryJobLaterLocked p t s2)
      \<or> x = None \<and> s' = s3 \<or> x \<noteq> None \<and> (\<exists>t. s' = retryJobLaterLocked p t s3)"
    using r lk q rt
    by (auto simp: failJobLocked_def Let_def s1_def[symmetric] time_now_def s2_def[symmetric]
        split: if_splits option.splits)
  moreover have "x \<noteq> None \<Longrightarrow> s3 = s2" using retryJobLocked_step(5)[OF rt] by simp
  ultimately show ?thesis
    using mirror_terminate[OF m1 i1 v(1)] mirror_retryLater[OF m2 i2 v2] m3 by auto
qed

section \<open>Periodic tasks\<close>

lemma mirror_retry_loop:
  assumes "mirror v0 s" "\<forall>n \<in> set (pq_nodes (sv_retry s)). map_of (sv_jobs s) (JobUUID (job_at s (fst n))) = Some (fst n)"
    "pq_wf (sv_retry s)" "retry_loop k ns s = (ns', s')"
  shows "mirror v0 s'"
  using assms
proof (induction k ns s rule: retry_loop.induct)
  case (1 k ns s)
  obtain r q where d: "DequeueWithPriority k (sv_retry s) = (r, q)" by fastforce
  show ?case
  proof (cases r)
    case None
    then show ?thesis using 1(2,5) d by (simp add: retry_loop.simps[of k ns s])
  next
    case (Some n)
    have q: "pq_nodes (sv_retry s) = n # pq_nodes q" "pq_wf q"
      using pq.deq_Some[of k "sv_retry s" n q] d Some 1(4) by auto
    let ?s1 = "s\<lparr>sv_retry := q\<rparr>"
    obtain e s2 where rt: "retryJobLocked (fst n) ?s1 = (e, s2)" by fastforce
    have m1: "mirror v0 ?s1" using 1(2) by (simp add: mirror_quiet)
    have k1: "map_of (sv_jobs ?s1) (JobUUID (job_at ?s1 (fst n))) = Some (fst n)" using 1(3) q by simp
    have m2: "mirror v0 s2" by (rule mirror_retryJob[OF m1 k1 rt])
    note st = retryJobLocked_step[OF rt]
    let ?ns = "if e = None then ns else ns @ [n]"
    have "retry_loop k ?ns s2 = (ns', s')"
      using 1(5) d Some rt by (cases e) (simp_all add: retry_loop.simps[of k ns s])
    moreover have "\<forall>n \<in> set (pq_nodes (sv_retry s2)). map_of (sv_jobs s2) (JobUUID (job_at s2 (fst n))) = Some (fst n)"
      using 1(3) q st(1,3) by (simp add: touches_def)
    ultimately show ?thesis
      using 1(1)[OF d[symmetric] Some rt[symmetric] refl m2] st(3) q by simp
  qed
qed

lemma mirror_requeue:
  "mirror v0 s \<Longrightarrow> mirror v0 (foldl (\<lambda>s (p, pr). s\<lparr>sv_retry := Enqueue p pr (sv_retry s)\<rparr>) s ns)"
proof (induction ns arbitrary: s)
  case (Cons n ns)
  then show ?case by (cases n) (simp add: mirror_quiet)
qed simp

lemma keyed_pq:
  assumes "inv_except E s"
  shows "\<forall>n \<in> set (pq_nodes (sv_retry s)). map_of (sv_jobs s) (JobUUID (job_at s (fst n))) = Some (fst n)"
    "\<forall>n \<in> set (pq_nodes (sv_delayed s)). map_of (sv_jobs s) (JobUUID (job_at s (fst n))) = Some (fst n)"
proof -
  have b: "base_inv s" using assms by (simp add: inv_except_def)
  show "\<forall>n \<in> set (pq_nodes (sv_retry s)). map_of (sv_jobs s) (JobUUID (job_at s (fst n))) = Some (fst n)"
    "\<forall>n \<in> set (pq_nodes (sv_delayed s)). map_of (sv_jobs s) (JobUUID (job_at s (fst n))) = Some (fst n)"
    using inv_own(3,4)[OF assms] keyed[OF b] unfolding pq_ok_def by blast+
qed

lemma mirror_AttemptJobRetries:
  assumes m: "mirror v0 s" and i: "inv_except {} s"
  shows "mirror v0 (AttemptJobRetries s)"
proof -
  let ?s = "s\<lparr>sv_reads := sv_reads s + 1\<rparr>"
  obtain ns s1 where r: "retry_loop (i64 (- env_clock (sv_env s) (sv_reads s))) [] ?s = (ns, s1)" by fastforce
  have m0: "mirror v0 ?s" by (rule mirror_quiet[OF m]) simp
  have "mirror v0 s1"
    using keyed_pq(1)[OF i] inv_own(3)[OF i] by (intro mirror_retry_loop[OF m0 _ _ r]) (simp_all add: pq_ok_def)
  then show ?thesis using mirror_requeue[of v0 s1 ns] r by (simp add: AttemptJobRetries_def time_now_def)
qed

lemma mirror_delayed_loop:
  assumes "mirror v0 s" "inv_except {} s" "delayed_loop k f s = (f', s')"
  shows "mirror v0 s'"
  using assms
proof (induction k f s rule: delayed_loop.induct)
  case (1 k f s)
  obtain r q where d: "DequeueWithPriority k (sv_delayed s) = (r, q)" by fastforce
  show ?case
  proof (cases r)
    case None
    then show ?thesis using 1(2,4) d by (simp add: delayed_loop.simps[of k f s])
  next
    case (Some n)
    obtain p pr where n: "n = (p, pr)" by fastforce
    have d': "DequeueWithPriority k (sv_delayed s) = (Some (p, pr), q)" using d Some n by simp
    let ?s1 = "s\<lparr>sv_delayed := q\<rparr>"
    have b: "base_inv s" using 1(3) by (simp add: inv_except_def)
    have "mirror v0 ?s1" using 1(2) by (simp add: mirror_quiet)
    then have "mirror v0 (setJobStateToPendingLocked p ?s1)"
      using keyed[OF b inv_delayed_dequeue(2)[OF 1(3) d']] by (intro mirror_setPending) simp_all
    moreover have "delayed_loop k True (setJobStateToPendingLocked p ?s1) = (f', s')"
      using 1(4) d Some n by (simp add: delayed_loop.simps[of k f s])
    ultimately show ?thesis using 1(1)[OF d[symmetric] Some] inv_delayed_step[OF 1(3) d'] n by simp
  qed
qed

lemma mirror_CheckDelayedJobs:
  assumes m: "mirror v0 s" and i: "inv_except {} s"
  shows "mirror v0 (CheckDelayedJobs s)"
proof -
  let ?s = "s\<lparr>sv_delay_running := True, sv_reads := sv_reads s + 1\<rparr>"
  obtain f s1 where r: "delayed_loop (i64 (- env_clock (sv_env s) (sv_reads s))) False ?s = (f, s1)" by fastforce
  have m0: "mirror v0 ?s" by (rule mirror_quiet[OF m]) simp
  have i0: "inv_except {} ?s" using i by simp
  have m1: "mirror v0 s1" by (rule mirror_delayed_loop[OF m0 i0 r])
  have i1: "inv_except {} s1" by (rule delayed_loop_inv[OF i0 r])
  have "mirror v0 (if f then tryEnqueuePendingJobsLocked s1 else s1)"
    using m1 mirror_tryEnqueue[OF m1 i1] by simp
  then show ?thesis using m r mirror_quiet
    by (simp add: CheckDelayedJobs_def time_now_def)
qed

lemma mirror_fail_all:
  "mirror v0 s \<Longrightarrow> inv_except {} s \<Longrightarrow>
    mirror v0 (foldl (\<lambda>s p. snd (failJobLocked (JobUUID (job_at s p)) s)) s ps)"
proof (induction ps arbitrary: s)
  case (Cons p ps)
  obtain e s1 where r: "failJobLocked (JobUUID (job_at s p)) s = (e, s1)" by fastforce
  show ?case using Cons.IH[OF mirror_fail[OF Cons.prems r] inv_failJobLocked[OF Cons.prems(2) r]] r by simp
qed simp

lemma mirror_CheckJobsVisibilityTimeout:
  assumes m: "mirror v0 s" and i: "inv_except {} s"
  shows "mirror v0 (CheckJobsVisibilityTimeout s)"
proof -
  let ?s = "s\<lparr>sv_visibility_running := True, sv_reads := sv_reads s + 1\<rparr>"
  have m0: "mirror v0 ?s" by (rule mirror_quiet[OF m]) simp
  have i0: "inv_except {} ?s" using i by simp
  have a: "mirror v0 (foldl (\<lambda>s p. snd (failJobLocked (JobUUID (job_at s p)) s)) ?s ps)" for ps
    by (rule mirror_fail_all[OF m0 i0])
  have b: "mirror v0 (tryEnqueuePendingJobsLocked
      (foldl (\<lambda>s p. snd (failJobLocked (JobUUID (job_at s p)) s)) ?s ps))" for ps
    by (rule mirror_tryEnqueue[OF a fail_all_inv[OF i0]])
  show ?thesis using m a b
    by (simp add: CheckJobsVisibilityTimeout_def time_now_def Let_def mirror_flags)
qed

end
