(* ===== verification/TraceReach.thy ===== *)
theory TraceReach
  imports Trace
begin

text \<open>
  The mirror of \<open>Trace\<close> for the deletions, the pulls, the creations and the start, and the
  conclusion: in every reachable state of the service, whatever the interleaving of requests
  and periodic tasks, a replay of the trace gives the scheduler's jobs.
\<close>

section \<open>Deletion\<close>

lemma mirror_remove:
  assumes a: "ahead v0 p JobEventDelete s" and u: "u = JobUUID (job_at s p)"
    and s': "sv_jobs s' = AList.delete u (sv_jobs s)" "sv_store s' = sv_store s" "sv_conf s' = sv_conf s"
      "sv_out s' = sv_out s @ [NJob (job_at s p) ServiceEventJobDeleted]"
  shows "mirror v0 s'"
proof -
  have m: "mirror_but v0 {p} s" and p: "map_of (sv_jobs s) u = Some p" using a u by (simp_all add: ahead_def)
  obtain j0 where j0: "jv_jobs (view v0 s) u = Some j0" "next_job JobEventDelete j0 (job_at s p)"
    using a u by (auto simp: ahead_def)
  have r: "\<not> jv_restore (view v0 s)" by (rule mirror_butD(2)[OF m])
  have w: "view v0 s' = (view v0 s)\<lparr>jv_jobs := (jv_jobs (view v0 s))(u := None)\<rparr>"
    using r u by (simp add: s' replay_jobs_append) (simp add: replay_jobs_def)
  have "notif_ok (NJob (job_at s p) ServiceEventJobDeleted) (view v0 s)"
    using r j0 u by (simp add: notif_ok_def)
  moreover have "job_room k (NJob (job_at s p) ServiceEventJobDeleted) (view v0 s)" for k
    by (simp add: job_room_def)
  ultimately have t: "trace_ok (BackendMaxJobs (sv_conf s)) (sv_out s') v0"
    using mirror_butD(1)[OF m] by (simp add: s' trace_ok_append)
  show ?thesis unfolding mirror_def mirror_but_def w
  proof (intro conjI allI impI)
    fix w q assume "map_of (sv_jobs s') w = Some q"
    then have q: "map_of (sv_jobs s) w = Some q" "w \<noteq> u" by (auto simp: s' split: if_splits)
    show k: "JobUUID (job_at s' q) = w" using mirror_butD(4)[OF m q(1)] s' by simp
    have "q \<noteq> p" using k q(2) u s' by auto
    then show "jv_jobs ((view v0 s)\<lparr>jv_jobs := (jv_jobs (view v0 s))(u := None)\<rparr>) w = Some (job_at s' q)"
      using mirror_butD(5)[OF m q(1)] q(2) s' by simp
  next
    fix w show "map_of (sv_jobs s') w = None \<longleftrightarrow>
        jv_jobs ((view v0 s)\<lparr>jv_jobs := (jv_jobs (view v0 s))(u := None)\<rparr>) w = None"
      using mirror_butD(3)[OF m, of w] by (simp add: s')
  qed (use t r s' in simp_all)
qed

lemma mirror_delete:
  assumes m: "mirror v0 s" and i: "inv_except {} s" and r: "deleteJobLocked u s = (e, s')"
  shows "mirror v0 s'"
proof (cases "lookup_job u s")
  case None
  then show ?thesis using m r by (simp add: deleteJobLocked_def)
next
  case (Some p)
  note f = deleteJobLocked_form[OF i Some]
  let ?s1 = "unlockJobResourcesLocked p s"
  let ?s2 = "add_event_now p JobEventDelete ?s1"
  let ?s3 = "notify_job p ServiceEventJobDeleted (drop_job p ?s2)"
  have "map_of (sv_jobs ?s1) (JobUUID (job_at ?s1 p)) = Some p"
    using Some f(5) by (simp add: lookup_job_def)
  then have "ahead v0 p JobEventDelete ?s2"
    by (rule mirror_event[OF mirror_quiet[OF m quiet_unlock]])
  then have "mirror v0 ?s3" by (rule mirror_remove[OF _ refl]) (simp_all add: drop_job_def notify_job_def)
  moreover have "inv_except {} ?s3" using f(2) by simp
  ultimately have "mirror v0 (tryEnqueuePendingJobsLocked ?s3)" by (rule mirror_tryEnqueue)
  then show ?thesis using r f(1) by simp
qed

lemma mirror_delete_jobs:
  "mirror v0 s \<Longrightarrow> inv_except {} s \<Longrightarrow> mirror v0 (snd (delete_jobs us s))"
proof (induction us arbitrary: s)
  case (Cons u us)
  obtain e s1 where r: "deleteJobLocked u s = (e, s1)" by fastforce
  show ?case using Cons.IH[OF mirror_delete[OF Cons.prems r] inv_deleteJobLocked(1)[OF Cons.prems(2) r]]
      mirror_delete[OF Cons.prems r] r by (simp split: option.splits)
qed simp

lemma mirror_retention_loop:
  "mirror v0 s \<Longrightarrow> inv_except {} s \<Longrightarrow> mirror v0 (retention_loop now age n d ps s)"
proof (induction ps arbitrary: s d)
  case (Cons p ps)
  obtain e s1 where r: "deleteJobLocked (JobUUID (job_at s p)) s = (e, s1)" by fastforce
  note m1 = mirror_delete[OF Cons.prems r] and i1 = inv_deleteJobLocked(1)[OF Cons.prems(2) r]
  show ?case using Cons.IH[OF Cons.prems] Cons.IH[OF m1 i1] m1 r by (simp split: option.splits)
qed simp

lemma mirror_CheckJobsRetention:
  assumes m: "mirror v0 s" and i: "inv_except {} s"
  shows "mirror v0 (CheckJobsRetention iter s)"
proof -
  let ?s = "s\<lparr>sv_retention_running := True, sv_reads := Suc (sv_reads s)\<rparr>"
  have "mirror v0 ?s" by (rule mirror_quiet[OF m]) simp
  moreover have "inv_except {} ?s" using i by simp
  ultimately have "mirror v0 (retention_loop now age n d ps ?s)" for now age n d ps
    by (rule mirror_retention_loop)
  then show ?thesis using m
    by (simp add: CheckJobsRetention_def deleteOldCompletedJobsLocked_def time_now_def Let_def mirror_flags)
qed

lemma mirror_DeleteAllJobs:
  assumes m: "mirror v0 s"
  shows "mirror v0 (DeleteAllJobs s)"
proof -
  have m': "mirror_but v0 {} s" using m by (simp add: mirror_def)
  have o: "sv_out (DeleteAllJobs s) = sv_out s @ [NMetricsUnlockAll, NBackendAllResourcesUnlocked,
      NEvent ServiceEventJobDeletedAll]" "sv_jobs (DeleteAllJobs s) = []"
    "sv_conf (DeleteAllJobs s) = sv_conf s"
    by (simp_all add: DeleteAllJobs_def unlockAllResourcesLocked_def)
  have w: "view v0 (DeleteAllJobs s) = (view v0 s)\<lparr>jv_jobs := (\<lambda>_. None)\<rparr>"
    using mirror_butD(2)[OF m'] by (simp add: o replay_jobs_append) (simp add: replay_jobs_def)
  have "trace_ok n [NMetricsUnlockAll, NBackendAllResourcesUnlocked, NEvent ServiceEventJobDeletedAll] v" for n v
    by (simp add: notif_ok_def job_room_def)
  then show ?thesis unfolding mirror_def mirror_but_def w using mirror_butD(1,2)[OF m']
    by (simp only: o trace_ok_append) simp
qed

section \<open>Locks, visibility, statistics\<close>

lemma quiet_unlockAll: "quiet s (unlockAllResourcesLocked s)"
  by (simp add: unlockAllResourcesLocked_def quiet_emit)

lemma mirror_UnlockAllResources:
  "mirror v0 s \<Longrightarrow> inv_except {} s \<Longrightarrow> mirror v0 (UnlockAllResources s)"
  unfolding UnlockAllResources_def
  by (rule mirror_tryEnqueue[OF mirror_quiet[OF _ quiet_unlockAll] inv_unlockAll])

lemma mirror_UpdateJobStatistics: "mirror v0 s \<Longrightarrow> mirror v0 (UpdateJobStatistics s)"
  unfolding UpdateJobStatistics_def by (rule mirror_quiet, assumption, rule quiet_emit) simp_all

lemma mirror_UnlockResource:
  assumes m: "mirror v0 s" and i: "inv_except {} s" and r: "UnlockResource n s = (e, s')"
  shows "mirror v0 s'"
proof (cases "map_of (sv_locked s) n")
  case None
  then show ?thesis using m r by (simp add: UnlockResource_def Resources.UnlockResource_def)
next
  case (Some o1)
  let ?s = "s\<lparr>sv_locked := AList.delete n (sv_locked s)\<rparr>"
  obtain t where r': "s' = tryEnqueuePendingJobsLocked (emit (NMetricsResourceUnlocked n t) ?s)"
    using Some r by (auto simp: UnlockResource_def Resources.UnlockResource_def Let_def)
  have "mirror v0 (emit (NMetricsResourceUnlocked n t) ?s)"
    by (rule mirror_quiet[OF m]) (simp add: quiet_emit)
  moreover have "inv_except {} ?s" by (rule inv_unlock_one[OF i])
  ultimately show ?thesis using mirror_tryEnqueue r' by simp
qed

lemma mirror_ChangeVisibility:
  assumes m: "mirror v0 s" and r: "ChangeVisibilityTimeoutJob u t s = (e, s')"
  shows "mirror v0 s'"
proof (cases "lookup_job u s")
  case None
  then show ?thesis using m r by (simp add: ChangeVisibilityTimeoutJob_def)
next
  case (Some p)
  have m': "mirror_but v0 {} s" using m by (simp add: mirror_def)
  have p: "map_of (sv_jobs s) u = Some p" using Some by (simp add: lookup_job_def)
  let ?j = "(job_at s p)\<lparr>VisibilityTimeout := t\<rparr>"
  have o: "sv_out s' = sv_out s @ [NBackendJobUpdated ?j]" "sv_jobs s' = sv_jobs s" "sv_conf s' = sv_conf s"
    "sv_store s' = (sv_store s)(p := ?j)"
    using r Some by (auto simp: ChangeVisibilityTimeoutJob_def)
  have j: "jv_jobs (view v0 s) u = Some (job_at s p)" "JobUUID (job_at s p) = u"
    using mirror_butD(4,5)[OF m' p] by simp_all
  have w: "view v0 s' = (view v0 s)\<lparr>jv_jobs := (jv_jobs (view v0 s))(u \<mapsto> ?j)\<rparr>"
    using j by (simp add: o replay_jobs_append) (simp add: replay_jobs_def)
  have "notif_ok (NBackendJobUpdated ?j) (view v0 s)" using j by (simp add: notif_ok_def)
  then have t: "trace_ok (BackendMaxJobs (sv_conf s)) (sv_out s') v0"
    using mirror_butD(1)[OF m'] by (simp add: o trace_ok_append job_room_def)
  show ?thesis unfolding mirror_def mirror_but_def w
  proof (intro conjI allI impI)
    fix x q assume "map_of (sv_jobs s') x = Some q"
    then have q: "map_of (sv_jobs s) x = Some q" by (simp add: o)
    show "JobUUID (job_at s' q) = x" using mirror_butD(4)[OF m' q] j by (auto simp: o)
    show "jv_jobs ((view v0 s)\<lparr>jv_jobs := (jv_jobs (view v0 s))(u \<mapsto> ?j)\<rparr>) x = Some (job_at s' q)"
      using mirror_butD(4,5)[OF m' q] j p q by (cases "x = u") (auto simp: o)
  next
    fix x show "map_of (sv_jobs s') x = None \<longleftrightarrow>
        jv_jobs ((view v0 s)\<lparr>jv_jobs := (jv_jobs (view v0 s))(u \<mapsto> ?j)\<rparr>) x = None"
      using mirror_butD(3)[OF m', of x] p by (auto simp: o)
  qed (use t mirror_butD(2)[OF m'] o in simp_all)
qed

section \<open>Pulling\<close>

lemma mirror_start_jobs:
  "mirror v0 s \<Longrightarrow> inv_except {} s \<Longrightarrow> start_jobs req ps s = (js, s') \<Longrightarrow> mirror v0 s'"
proof (induction ps arbitrary: s js)
  case (Cons p ps)
  obtain e s1 where st: "startJobLocked (JobUUID (job_at s p)) req s = (e, s1)" by fastforce
  have b: "base_inv s" using Cons.prems(2) by (simp add: inv_except_def)
  note m1 = mirror_start[OF Cons.prems(1) b st] and i1 = inv_startJobLocked(1)[OF Cons.prems(2) st]
  obtain js1 where "start_jobs req ps s1 = (js1, s')"
    using Cons.prems(3) st by (auto split: option.splits prod.splits)
  then show ?case by (rule Cons.IH[OF m1 i1])
qed simp

lemma mirror_pullJobsOnce:
  assumes m: "mirror v0 s" and i: "inv_except {} s" and r: "pullJobsOnce req l s = (res, s')"
  shows "mirror v0 s'"
proof -
  obtain f s1 where c: "findBestJobCandidatesLocked req s = (f, s1)" by fastforce
  have w: "queue_wf (sv_store s) (sv_queue s)" using i by (simp add: inv_except_def base_inv_def)
  have "mirror v0 s1 \<and> inv_except {} s1"
  proof (cases "length (sv_jobs s) = 0")
    case True
    then show ?thesis using c m i by (auto simp: findBestJobCandidatesLocked_def)
  next
    case False
    obtain qs q where f: "first (sv_store s) (pullTopic req) (NumJobs req) (sv_queue s) = (qs, q)"
      by fastforce
    have "s1 = s\<lparr>sv_queue := q\<rparr>" using c False f
      by (auto simp: findBestJobCandidatesLocked_def Let_def split: if_splits)
    then show ?thesis using inv_set_queue[OF i] first_spec[OF w f] m by (simp add: mirror_flags)
  qed
  then have 1: "mirror v0 s1" "inv_except {} s1" by simp_all
  have e: "mirror v0 t \<Longrightarrow> mirror v0 (emit (NTopic ServiceEventEmptyPollReceived (pullTopic req)) t)" for t
    by (rule mirror_quiet, assumption, rule quiet_emit) simp_all
  show ?thesis
  proof (cases f)
    case (Inl err)
    then show ?thesis using r c 1(1) e by (auto simp: pullJobsOnce_def split: if_splits)
  next
    case (Inr ps)
    obtain js s2 where st: "start_jobs req ps s1 = (js, s2)" by fastforce
    show ?thesis using mirror_start_jobs[OF 1 st] r c Inr st e by (auto simp: pullJobsOnce_def split: if_splits)
  qed
qed

lemma mirror_PullSpecificJob:
  assumes m: "mirror v0 s" and i: "inv_except {} s" and r: "PullSpecificJob req s = (res, s')"
  shows "mirror v0 s'"
proof (cases "pullJobUUID req")
  case None
  then show ?thesis using r m by (simp add: PullSpecificJob_def)
next
  case (Some u)
  obtain e s1 where st: "startJobLocked u req s = (e, s1)" by fastforce
  have "base_inv s" using i by (simp add: inv_except_def)
  then have "mirror v0 s1" using mirror_start[OF m _ st] by blast
  then show ?thesis using r m Some st by (auto simp: PullSpecificJob_def split: option.splits)
qed

section \<open>Creation\<close>

lemma mirror_store_new:
  assumes m: "mirror v0 s" and u: "map_of (sv_jobs s) (JobUUID j) = None"
    and j: "state j = JobCreated" "previousState j = JobNoState"
      "\<exists>t. History j = [\<lparr>EventType = JobEventCreate, Timestamp = t\<rparr>]"
    and wf: "wf_map (sv_jobs s)" and p: "p \<notin> live s"
    and room: "BackendMaxJobs (sv_conf s) = 0 \<or> length (sv_jobs s) < BackendMaxJobs (sv_conf s)"
    and r: "store_new_job j s = (p, s')"
  shows "mirror v0 (notify_job p ServiceEventJobCreated s')"
proof -
  let ?s = "notify_job p ServiceEventJobCreated s'"
  have m': "mirror_but v0 {} s" using m by (simp add: mirror_def)
  have o: "sv_out ?s = sv_out s @ [NJob j ServiceEventJobCreated]" "sv_conf ?s = sv_conf s"
    "sv_jobs ?s = AList.update (JobUUID j) p (sv_jobs s)" "job_at ?s p = j"
    "\<And>q. q \<noteq> p \<Longrightarrow> job_at ?s q = job_at s q"
    using r by (auto simp: store_new_job_def notify_job_def)
  have v: "jv_jobs (view v0 s) (JobUUID j) = None" "\<not> jv_restore (view v0 s)"
    using mirror_butD(2,3)[OF m'] u by auto
  have "dom (jv_jobs (view v0 s)) = dom (map_of (sv_jobs s))"
    using mirror_butD(3)[OF m'] unfolding dom_def by auto
  also have "card \<dots> = length (sv_jobs s)" using wf by (rule card_dom_length)
  finally have "BackendMaxJobs (sv_conf s) = 0
      \<or> job_room (BackendMaxJobs (sv_conf s)) (NJob j ServiceEventJobCreated) (view v0 s)"
    using room by (auto simp: job_room_def)
  moreover have "notif_ok (NJob j ServiceEventJobCreated) (view v0 s)" using v j by (simp add: notif_ok_def)
  ultimately have t: "trace_ok (BackendMaxJobs (sv_conf s)) (sv_out ?s) v0"
    using mirror_butD(1)[OF m'] by (simp add: o trace_ok_append)
  have w: "view v0 ?s = (view v0 s)\<lparr>jv_jobs := (jv_jobs (view v0 s))(JobUUID j \<mapsto> j)\<rparr>"
    using v by (simp add: o replay_jobs_append) (simp add: replay_jobs_def)
  show ?thesis unfolding mirror_def mirror_but_def w
  proof (intro conjI allI impI)
    fix x q assume x: "map_of (sv_jobs ?s) x = Some q"
    have "JobUUID (job_at ?s q) = x
        \<and> jv_jobs ((view v0 s)\<lparr>jv_jobs := (jv_jobs (view v0 s))(JobUUID j \<mapsto> j)\<rparr>) x = Some (job_at ?s q)"
    proof (cases "x = JobUUID j")
      case True
      then show ?thesis using x o by simp
    next
      case False
      then have q: "map_of (sv_jobs s) x = Some q" using x o by simp
      then have "q \<noteq> p" using p by (auto simp: live_def ran_def)
      then show ?thesis using mirror_butD(4,5)[OF m' q] False o(5) by simp
    qed
    then show "JobUUID (job_at ?s q) = x"
      "jv_jobs ((view v0 s)\<lparr>jv_jobs := (jv_jobs (view v0 s))(JobUUID j \<mapsto> j)\<rparr>) x = Some (job_at ?s q)"
      by blast+
  next
    fix x show "map_of (sv_jobs ?s) x = None \<longleftrightarrow>
        jv_jobs ((view v0 s)\<lparr>jv_jobs := (jv_jobs (view v0 s))(JobUUID j \<mapsto> j)\<rparr>) x = None"
      using mirror_butD(3)[OF m', of x] unfolding o(3) by simp
  qed (use t v o in simp_all)
qed

lemma mirror_schedule_new_job:
  assumes m: "mirror v0 s" and k: "map_of (sv_jobs s) (JobUUID (job_at s p)) = Some p"
  shows "mirror v0 (schedule_new_job p s)"
proof -
  have "mirror v0 (s\<lparr>sv_reads := sv_reads s + 1\<rparr>)" by (rule mirror_quiet[OF m]) simp
  then show ?thesis using mirror_setDelayed mirror_setPending k
    by (simp add: schedule_new_job_def time_now_def)
qed

lemma mirror_finalize:
  assumes m: "mirror v0 s" and i: "inv_except {} s"
    and r: "finalizeJobCreationLocked j s = Some (res, s')"
  shows "mirror v0 s'"
  using i r
proof (cases rule: finalizeJobCreation_cases)
  case (refused err n k)
  have "mirror v0 (s\<lparr>sv_reads := n, sv_uuids := k\<rparr>)" by (rule mirror_quiet[OF m]) simp
  then show ?thesis using refused by simp
next
  case (stored u k p s1 s2)
  have m1: "mirror v0 s1" unfolding stored(1) by (rule mirror_quiet[OF m]) simp
  have wf: "wf_map (sv_jobs s1)" using i stored(1) by (simp add: inv_except_def base_inv_def)
  let ?s3 = "notify_job p ServiceEventJobCreated s2"
  have "mirror v0 ?s3"
    using stored(1,2,6,12) by (intro mirror_store_new[OF m1 _ _ _ _ wf _ _ stored(3)])
      (auto simp: Init_def live_def AddHistoryEvent_def)
  moreover have "map_of (sv_jobs ?s3) (JobUUID (job_at ?s3 p)) = Some p"
    using stored(3,8) by (auto simp: store_new_job_def Init_def)
  ultimately have "mirror v0 (schedule_new_job p ?s3)" by (rule mirror_schedule_new_job)
  then have "mirror v0 (tryEnqueuePendingJobsLocked (schedule_new_job p ?s3))"
    using stored(9) by (rule mirror_tryEnqueue)
  then show ?thesis using stored(10) by simp
qed

lemma mirror_CreateJob:
  "mirror v0 s \<Longrightarrow> inv_except {} s \<Longrightarrow> CreateJob d s = Some (res, s') \<Longrightarrow> mirror v0 s'"
  using mirror_finalize by (auto simp: CreateJob_def split: option.splits sum.splits)

lemma mirror_CloneJob:
  "mirror v0 s \<Longrightarrow> inv_except {} s \<Longrightarrow> CloneJob u s = Some (res, s') \<Longrightarrow> mirror v0 s'"
  using mirror_finalize by (auto simp: CloneJob_def split: option.splits)

section \<open>The start\<close>

abbreviation loaded_view :: "(JobUUID \<times> job) list \<Rightarrow> jobs_view" where
  "loaded_view ujs \<equiv> \<lparr>jv_restore = False, jv_jobs = map_of ujs\<rparr>"

lemma load_trace_restoring:
  assumes "jv_restore v"
  shows "replay_jobs (load_trace ujs ids) v = v" "trace_ok n (load_trace ujs ids) v"
proof -
  have "replay_jobs (load_trace ujs ids) v = v \<and> trace_ok n (load_trace ujs ids) v"
    using assms
  proof (induction ids)
    case (Cons u ids)
    have "load_trace ujs (u # ids) = [NJob (the (map_of ujs u)) ServiceEventJobLoaded,
        NLockedCount (Topic (the (map_of ujs u))) 0] @ load_trace ujs ids"
      by (simp add: load_trace_def Let_def)
    then show ?case using Cons
      by (simp add: replay_jobs_def notif_ok_def job_room_def)
  qed (simp add: load_trace_def replay_jobs_def)
  then show "replay_jobs (load_trace ujs ids) v = v" "trace_ok n (load_trace ujs ids) v" by blast+
qed

lemma loading_trace:
  fixes counts :: "(string \<times> int) list"
  assumes out: "out = [NRestoreFlag True] @ load_trace ujs ids @ map (\<lambda>(t, n). NLockedCount t n) counts
      @ [NRestoreFlag False]"
  shows "replay_jobs out (loaded_view ujs) = loaded_view ujs" "trace_ok n out (loaded_view ujs)"
proof -
  let ?v = "(loaded_view ujs)\<lparr>jv_restore := True\<rparr>"
  have o: "trace_ok n (map (\<lambda>(t, n). NLockedCount t n) counts) v
      \<and> replay_jobs (map (\<lambda>(t, n). NLockedCount t n) counts) v = v" for v
    by (rule others_ok) auto
  have 1: "replay_jobs [NRestoreFlag True] (loaded_view ujs) = ?v" "jv_restore ?v"
    "replay_jobs [NRestoreFlag False] ?v = loaded_view ujs"
    by (simp_all add: replay_jobs_def)
  have 2: "trace_ok n [NRestoreFlag b] v" for b v by (simp add: notif_ok_def job_room_def)
  note l = load_trace_restoring[OF 1(2)]
  show "replay_jobs out (loaded_view ujs) = loaded_view ujs"
    unfolding out replay_jobs_append using 1 l(1) o by simp
  show "trace_ok n out (loaded_view ujs)"
    unfolding out trace_ok_append using 1 l o 2 by simp
qed

lemma mirror_schedule_loaded:
  assumes m: "mirror v0 s" and k: "map_of (sv_jobs s) (JobUUID (job_at s p)) = Some p"
  shows "mirror v0 (schedule_loaded_job p s)"
proof -
  have "mirror v0 (s\<lparr>sv_reads := sv_reads s + 1\<rparr>)" by (rule mirror_quiet[OF m]) simp
  then show ?thesis using mirror_setDelayed mirror_setPending m k
    by (simp add: schedule_loaded_job_def time_now_def)
qed

lemma mirror_schedule_all:
  assumes "mirror v0 s" "inv_except {} s" "distinct ps"
    "\<forall>p \<in> set ps. p \<in> live s \<and> state (job_at s p) = JobCreated"
  shows "mirror v0 (foldl (\<lambda>s p. schedule_loaded_job p s) s ps)"
  using assms
proof (induction ps arbitrary: s)
  case (Cons p ps)
  note st = inv_schedule_loaded[OF Cons.prems(2), of p]
  have b: "base_inv s" using Cons.prems(2) by (simp add: inv_except_def)
  have m: "mirror v0 (schedule_loaded_job p s)"
    using keyed[OF b] Cons.prems(4) by (intro mirror_schedule_loaded[OF Cons.prems(1)]) simp
  have "\<forall>q \<in> set ps. q \<in> live (schedule_loaded_job p s)
      \<and> state (job_at (schedule_loaded_job p s) q) = JobCreated"
    using st Cons.prems touches_live[of "{p}" s "schedule_loaded_job p s"] by (auto simp: touches_def)
  then show ?case using Cons.IH[OF m] st Cons.prems by simp
qed simp

lemma mirror_LoadJobs:
  assumes ok: "loaded_ok ujs"
  shows "mirror (loaded_view ujs) (snd (LoadJobs (Inr ujs) (NewService e c)))"
proof (rule LoadJobs_phases[OF ok, of e c])
  fix s3 created ids and counts :: "(string \<times> int) list"
  assume e: "snd (LoadJobs (Inr ujs) (NewService e c)) =
      (let s4 = foldl (\<lambda>s p. schedule_loaded_job p s) s3 created
       in if length created > 0 then tryEnqueuePendingJobsLocked s4 else s4)"
    and i: "inv_except {} s3" "distinct created"
      "\<forall>p \<in> set created. p \<in> live s3 \<and> state (job_at s3 p) = JobCreated"
    and out: "sv_out s3 = [NRestoreFlag True] @ load_trace ujs ids
      @ map (\<lambda>(t, n). NLockedCount t n) counts @ [NRestoreFlag False]"
    and j: "\<And>u. map_of (sv_jobs s3) u = None \<longleftrightarrow> map_of ujs u = None"
      "\<And>u p. map_of (sv_jobs s3) u = Some p \<Longrightarrow> map_of ujs u = Some (job_at s3 p)"
  let ?v = "loaded_view ujs"
  have v: "view ?v s3 = ?v" "trace_ok n (sv_out s3) ?v" for n
    by (rule loading_trace[OF out])+
  have b: "base_inv s3" using i(1) by (simp add: inv_except_def)
  have "mirror ?v s3"
    unfolding mirror_def mirror_but_def v(1)
  proof (intro conjI allI impI)
    fix u p assume p: "map_of (sv_jobs s3) u = Some p"
    show "JobUUID (job_at s3 p) = u" using b p unfolding base_inv_def by blast
    show "jv_jobs ?v u = Some (job_at s3 p)" using j(2)[OF p] by simp
  next
    fix u show "map_of (sv_jobs s3) u = None \<longleftrightarrow> jv_jobs ?v u = None" using j(1) by simp
  qed (use v in simp_all)
  then have "mirror ?v (foldl (\<lambda>s p. schedule_loaded_job p s) s3 created)"
    using i by (rule mirror_schedule_all)
  moreover have "inv_except {} (foldl (\<lambda>s p. schedule_loaded_job p s) s3 created)"
    by (rule schedule_all_inv[OF i])
  ultimately show ?thesis using mirror_tryEnqueue by (auto simp: e Let_def)
qed

section \<open>Every step\<close>

lemma mirror_run_tick: "mirror v0 s \<Longrightarrow> inv_except {} s \<Longrightarrow> mirror v0 (run_tick t s)"
  by (cases t) (simp_all add: mirror_tryEnqueue mirror_AttemptJobRetries mirror_CheckJobsVisibilityTimeout
      mirror_CheckDelayedJobs mirror_CheckJobsRetention mirror_UpdateJobStatistics)

lemma mirror_step:
  assumes m: "mirror v0 s" and i: "svc_inv s" and st: "svc_step s s'"
  shows "mirror v0 s'"
proof -
  have j: "inv_except {} s" and b: "base_inv s" using i by (simp_all add: svc_inv_def inv_except_def)
  from st show ?thesis
  proof cases
    case (delete_queued e)
    then show ?thesis using mirror_delete_jobs[OF m j] by (metis DeleteQueuedJobs_def snd_conv)
  next
    case (start u req e)
    then show ?thesis using mirror_start[OF m b] by blast
  next
    case (visibility u t e)
    then show ?thesis using mirror_ChangeVisibility[OF m] by blast
  next
    case shutdown
    then show ?thesis using m by (simp add: BeginShutdown_def mirror_flags)
  next
    case delete_all
    then show ?thesis using mirror_DeleteAllJobs[OF m] by simp
  qed (insert m j, (rule mirror_CreateJob mirror_CloneJob mirror_delete mirror_pullJobsOnce
      mirror_PullSpecificJob mirror_SetJobAsSuccessful mirror_CancelJob mirror_fail mirror_UnlockResource; assumption)
    | (simp only:, rule mirror_UnlockAllResources mirror_run_tick; assumption))+
qed

text \<open>The states reached from a start on given jobs.\<close>

definition started :: "env \<Rightarrow> conf \<Rightarrow> (JobUUID \<times> job) list \<Rightarrow> svc" where
  "started e c ujs = snd (LoadJobs (Inr ujs) (NewService e c))"

lemma steps_mirror:
  "svc_step\<^sup>*\<^sup>* (started e c ujs) s \<Longrightarrow> loaded_ok ujs \<Longrightarrow> mirror (loaded_view ujs) s \<and> svc_inv s"
proof (induction rule: rtranclp_induct)
  case base
  then show ?case unfolding started_def using mirror_LoadJobs inv_LoadJobs by blast
next
  case (step s s')
  then show ?case using mirror_step inv_step by blast
qed

lemma reachable_started:
  "reachable e c s \<longleftrightarrow> (\<exists>ujs. loaded_ok ujs \<and> svc_step\<^sup>*\<^sup>* (started e c ujs) s)"
proof
  assume "reachable e c s"
  then show "\<exists>ujs. loaded_ok ujs \<and> svc_step\<^sup>*\<^sup>* (started e c ujs) s"
  proof (induction rule: reachable.induct)
    case (load ujs)
    then show ?case unfolding started_def by blast
  next
    case (step s s')
    then show ?case by (meson rtranclp.rtrancl_into_rtrancl)
  qed
next
  assume "\<exists>ujs. loaded_ok ujs \<and> svc_step\<^sup>*\<^sup>* (started e c ujs) s"
  then obtain ujs where "svc_step\<^sup>*\<^sup>* (started e c ujs) s" "loaded_ok ujs" by blast
  then show "reachable e c s"
    by (induction rule: rtranclp_induct) (simp_all add: started_def reachable.load reachable.step)
qed

lemma mirror_jobs:
  assumes "loaded_ok ujs" "svc_step\<^sup>*\<^sup>* (started e c ujs) s"
  shows "trace_ok (BackendMaxJobs (sv_conf s)) (sv_out s) (loaded_view ujs)"
    "jv_jobs (replay_jobs (sv_out s) (loaded_view ujs)) u = map_option (job_at s) (lookup_job u s)"
    "\<not> jv_restore (replay_jobs (sv_out s) (loaded_view ujs))"
proof -
  have m: "mirror_but (loaded_view ujs) {} s" using steps_mirror[OF assms(2,1)] by (simp add: mirror_def)
  show "trace_ok (BackendMaxJobs (sv_conf s)) (sv_out s) (loaded_view ujs)"
    "\<not> jv_restore (replay_jobs (sv_out s) (loaded_view ujs))"
    by (rule mirror_butD[OF m])+
  show "jv_jobs (replay_jobs (sv_out s) (loaded_view ujs)) u = map_option (job_at s) (lookup_job u s)"
    using mirror_butD(3)[OF m, of u] mirror_butD(5)[OF m, of u]
    by (cases "map_of (sv_jobs s) u") (simp_all add: lookup_job_def)
qed

end
