(* ===== verification/TraceGrows.thy ===== *)
theory TraceGrows
  imports TraceReach
begin

text \<open>
  The trace of a started scheduler only grows: no step takes a notification back, and none
  loads jobs again (the notifications of the start are sent once, before the first
  step). So the trace is what the start announced, followed by what the steps announce.
\<close>

fun start_only :: "notif \<Rightarrow> bool" where
  "start_only (NRestoreFlag b) = True"
| "start_only (NJob j ev) = (ev = ServiceEventJobLoaded)"
| "start_only _ = False"

definition grows :: "svc \<Rightarrow> svc \<Rightarrow> bool" where
  "grows s s' \<longleftrightarrow> (\<exists>out. sv_out s' = sv_out s @ out \<and> (\<forall>e \<in> set out. \<not> start_only e))"

lemma grows_refl [simp]: "grows s s"
  by (auto simp: grows_def)

lemma grows_trans: "grows s s1 \<Longrightarrow> grows s1 s2 \<Longrightarrow> grows s s2"
  by (fastforce simp: grows_def)

lemma grows_emit: "grows s s1 \<Longrightarrow> \<not> start_only e \<Longrightarrow> grows s (emit e s1)"
  by (auto simp: grows_def)

lemma grows_same: "sv_out s1 = sv_out s2 \<Longrightarrow> grows s s1 = grows s s2"
  by (simp add: grows_def)

lemma grows_fields [simp]:
  "grows s (s1\<lparr>sv_pending := x1\<rparr>) = grows s s1" "grows s (s1\<lparr>sv_queue := x2\<rparr>) = grows s s1"
  "grows s (s1\<lparr>sv_retry := x3\<rparr>) = grows s s1" "grows s (s1\<lparr>sv_delayed := x3\<rparr>) = grows s s1"
  "grows s (s1\<lparr>sv_locked := x4\<rparr>) = grows s s1" "grows s (s1\<lparr>sv_reads := x5\<rparr>) = grows s s1"
  "grows s (s1\<lparr>sv_uuids := x5\<rparr>) = grows s s1" "grows s (s1\<lparr>sv_panic := x6\<rparr>) = grows s s1"
  "grows s (s1\<lparr>sv_jobs := x7\<rparr>) = grows s s1" "grows s (s1\<lparr>sv_store := x8\<rparr>) = grows s s1"
  "grows s (s1\<lparr>sv_next := x5\<rparr>) = grows s s1" "grows s (s1\<lparr>sv_stopping := x6\<rparr>) = grows s s1"
  "grows s (s1\<lparr>sv_retention_running := x6\<rparr>) = grows s s1"
  "grows s (s1\<lparr>sv_visibility_running := x6\<rparr>) = grows s s1" "grows s (s1\<lparr>sv_delay_running := x6\<rparr>) = grows s s1"
  by (simp_all add: grows_def)

lemma grows_event [simp]: "grows s (add_event_now p h s1) = grows s s1"
  by (simp add: grows_def)

lemma grows_foldl: "(\<And>x s. grows s (f s x)) \<Longrightarrow> grows s s1 \<Longrightarrow> grows s (foldl f s1 xs)"
  by (induction xs arbitrary: s1) (simp, metis foldl_Cons grows_trans)

section \<open>The operations\<close>

lemma grows_notify: "grows s s1 \<Longrightarrow> ev \<noteq> ServiceEventJobLoaded \<Longrightarrow> grows s (notify_job p ev s1)"
  by (simp add: notify_job_def grows_emit)

lemma grows_wake: "grows s s1 \<Longrightarrow> grows s (notifyQueuedLocked s1)"
  by (simp add: notifyQueuedLocked_def grows_emit)

lemma grows_count: "grows s s1 \<Longrightarrow> grows s (UpdateResourcesLockedCountMetric t n s1)"
  by (simp add: UpdateResourcesLockedCountMetric_def grows_emit)

lemma grows_lock: "grows s s1 \<Longrightarrow> grows s (snd (lockResourcesLocked p s1))"
  by (simp add: lockResourcesLocked_def grows_count split: sum.splits prod.splits)

lemma grows_unlock: "grows s s1 \<Longrightarrow> grows s (unlockJobResourcesLocked p s1)"
  by (rule grows_trans, assumption)
    (auto simp: unlockJobResourcesLocked_def Let_def split: prod.splits
      intro!: grows_count grows_foldl grows_emit)

lemmas grows_rules = grows_notify grows_wake grows_count grows_lock grows_unlock grows_emit

lemma grows_locked: "lockResourcesLocked p s1 = (e, s') \<Longrightarrow> grows s s1 \<Longrightarrow> grows s s'"
  using grows_lock[of s s1 p] by simp

lemma grows_enqueue: "grows s (snd (enqueueJobLocked p s))"
  by (auto simp: enqueueJobLocked_def time_now_def Let_def intro!: grows_rules
      split: prod.splits option.splits) (erule grows_locked; simp)+

lemma grows_tryEnqueue: "grows s s1 \<Longrightarrow> grows s (tryEnqueuePendingJobsLocked s1)"
  by (rule grows_trans, assumption)
    (auto simp: tryEnqueuePendingJobsLocked_def Let_def intro!: grows_foldl grows_enqueue)

lemma grows_setDelayed: "grows s s1 \<Longrightarrow> grows s (setJobStateToDelayedLocked p s1)"
  by (simp add: setJobStateToDelayedLocked_def Let_def grows_notify)

lemma grows_setPending: "grows s s1 \<Longrightarrow> grows s (setJobStateToPendingLocked p s1)"
  by (simp add: setJobStateToPendingLocked_def Let_def grows_notify)

lemma grows_retryJob: "grows s s1 \<Longrightarrow> grows s (snd (retryJobLocked p s1))"
  using grows_lock[of s s1 p]
  by (auto simp: retryJobLocked_def Let_def intro!: grows_rules split: prod.splits option.splits)

lemma grows_start: "grows s (snd (startJobLocked u req s))"
  by (auto simp: startJobLocked_def Let_def intro!: grows_rules split: option.splits)

lemma grows_start_jobs: "grows s s1 \<Longrightarrow> grows s (snd (start_jobs req ps s1))"
proof (induction ps arbitrary: s1)
  case (Cons p ps)
  have "grows s (snd (startJobLocked (JobUUID (job_at s1 p)) req s1))"
    using grows_trans[OF Cons.prems grows_start] .
  then show ?case using Cons.IH by (auto simp: case_prod_unfold Let_def split: prod.splits option.splits)
qed simp

lemma grows_pullJobsOnce: "grows s (snd (pullJobsOnce req l s))"
proof -
  obtain r s1 where f: "findBestJobCandidatesLocked req s = (r, s1)" by fastforce
  have "grows s s1" using f
    by (auto simp: findBestJobCandidatesLocked_def Let_def split: prod.splits if_splits)
  then show ?thesis using grows_start_jobs[of s s1 req]
    by (auto simp: pullJobsOnce_def f case_prod_unfold Let_def intro!: grows_emit split: sum.splits)
qed

lemma grows_PullSpecific: "grows s (snd (PullSpecificJob req s))"
  using grows_start by (auto simp: PullSpecificJob_def split: option.splits prod.splits) (metis snd_conv)+

lemma grows_delete: "grows s s1 \<Longrightarrow> grows s (snd (deleteJobLocked u s1))"
  by (auto simp: deleteJobLocked_def Let_def intro!: grows_rules grows_tryEnqueue split: option.splits)

lemma grows_delete_jobs: "grows s s1 \<Longrightarrow> grows s (snd (delete_jobs us s1))"
proof (induction us arbitrary: s1)
  case (Cons u us)
  then show ?case using grows_delete[OF Cons.prems, of u] by (auto split: prod.splits option.splits)
qed simp

lemma grows_retention_loop: "grows s s1 \<Longrightarrow> grows s (retention_loop now age n d ps s1)"
proof (induction ps arbitrary: d s1)
  case (Cons p ps)
  then show ?case using grows_delete[OF Cons.prems, of "JobUUID (job_at s1 p)"]
    by (auto split: prod.splits option.splits)
qed simp

lemma grows_retry_loop: "grows s s1 \<Longrightarrow> grows s (snd (retry_loop m b s1))"
proof (induction m b s1 rule: retry_loop.induct)
  case (1 m b s1)
  show ?case
  proof (cases "DequeueWithPriority m (sv_retry s1)")
    case (Pair x q)
    show ?thesis
    proof (cases x)
      case None
      then show ?thesis using Pair "1.prems" by (subst retry_loop.simps) simp
    next
      case (Some n)
      obtain e s2 where r: "retryJobLocked (fst n) (s1\<lparr>sv_retry := q\<rparr>) = (e, s2)" by fastforce
      have "grows s (snd (retryJobLocked (fst n) (s1\<lparr>sv_retry := q\<rparr>)))"
        using "1.prems" by (intro grows_retryJob) simp
      then show ?thesis using "1.IH"[OF Pair[symmetric] Some r[symmetric]] Pair Some r
        by (subst retry_loop.simps) simp
    qed
  qed
qed

lemma grows_delayed_loop: "grows s s1 \<Longrightarrow> grows s (snd (delayed_loop m b s1))"
proof (induction m b s1 rule: delayed_loop.induct)
  case (1 m b s1)
  show ?case
  proof (cases "DequeueWithPriority m (sv_delayed s1)")
    case (Pair x q)
    show ?thesis
    proof (cases x)
      case None
      then show ?thesis using Pair "1.prems" by (subst delayed_loop.simps) simp
    next
      case (Some n)
      have "grows s (setJobStateToPendingLocked (fst n) (s1\<lparr>sv_delayed := q\<rparr>))"
        using "1.prems" by (intro grows_setPending) simp
      then show ?thesis using "1.IH"[OF Pair[symmetric] Some] Pair Some
        by (subst delayed_loop.simps) simp
    qed
  qed
qed

section \<open>The requests and the periodic tasks\<close>

lemma grows_schedule_new: "grows s s1 \<Longrightarrow> grows s (schedule_new_job p s1)"
  by (auto simp: schedule_new_job_def time_now_def intro!: grows_setDelayed grows_setPending)

lemma grows_finalize: "finalizeJobCreationLocked j s = Some (r, s') \<Longrightarrow> grows s s'"
  by (auto simp: finalizeJobCreationLocked_def generateNewJobUuidLocked_def store_new_job_def time_now_def Let_def
      intro!: grows_tryEnqueue grows_schedule_new grows_notify split: if_splits option.splits sum.splits prod.splits)

lemma grows_CreateJob: "CreateJob d s = Some (r, s') \<Longrightarrow> grows s s'"
  using grows_finalize by (auto simp: CreateJob_def split: option.splits sum.splits)

lemma grows_CloneJob: "CloneJob u s = Some (r, s') \<Longrightarrow> grows s s'"
  using grows_finalize by (auto simp: CloneJob_def split: option.splits)

lemma grows_success: "grows s (snd (SetJobAsSuccessful u s))"
  by (auto simp: SetJobAsSuccessful_def Let_def intro!: grows_rules grows_tryEnqueue split: option.splits)

lemma grows_cancel: "grows s (snd (CancelJob u s))"
  by (auto simp: CancelJob_def Let_def intro!: grows_rules grows_tryEnqueue split: option.splits)

lemma grows_terminate: "grows s s1 \<Longrightarrow> grows s (onJobFailedTooManyTimesLocked p s1)"
  by (simp add: onJobFailedTooManyTimesLocked_def Let_def grows_rules grows_tryEnqueue)

lemma grows_retryLater: "grows s s1 \<Longrightarrow> grows s (retryJobLaterLocked p t s1)"
  by (simp add: retryJobLaterLocked_def Let_def grows_rules grows_tryEnqueue)

lemma grows_fail: "grows s s1 \<Longrightarrow> grows s (snd (failJobLocked u s1))"
proof (rule grows_trans, assumption)
  have r: "grows s1 t \<Longrightarrow> retryJobLocked p t = (e, t') \<Longrightarrow> grows s1 t'" for p t e t'
    using grows_retryJob[of s1 t p] by simp
  show "grows s1 (snd (failJobLocked u s1))"
    by (auto simp: failJobLocked_def time_now_def Let_def intro!: grows_terminate grows_retryLater grows_notify
        split: option.splits prod.splits) (rule r[rotated], assumption, simp add: grows_notify)+
qed

lemma grows_tick: "grows s (run_tick t s)"
proof (cases t)
  case RetryTick
  have "grows s (snd (retry_loop m [] (s\<lparr>sv_reads := n\<rparr>)))" for m n by (rule grows_retry_loop) simp
  then have "grows s (foldl (\<lambda>s (p, pr). s\<lparr>sv_retry := Enqueue p pr (sv_retry s)\<rparr>) (snd (retry_loop m [] (s\<lparr>sv_reads := n\<rparr>))) xs)" for m n xs
    by (intro grows_foldl) auto
  then show ?thesis using RetryTick by (simp add: AttemptJobRetries_def time_now_def case_prod_unfold Let_def)
next
  case VisibilityTick
  have "grows s (foldl (\<lambda>s p. snd (failJobLocked (JobUUID (job_at s p)) s)) t ps)" if "grows s t" for t ps
    using that by (intro grows_foldl grows_fail) simp
  then show ?thesis using VisibilityTick
    by (auto simp: CheckJobsVisibilityTimeout_def time_now_def Let_def intro!: grows_tryEnqueue)
next
  case DelayedTick
  have "grows s (snd (delayed_loop m False (s\<lparr>sv_delay_running := True, sv_reads := n\<rparr>)))" for m n
    by (rule grows_delayed_loop) simp
  then show ?thesis using DelayedTick
    by (auto simp: CheckDelayedJobs_def time_now_def case_prod_unfold Let_def intro!: grows_tryEnqueue)
next
  case (RetentionTick iter)
  then show ?thesis
    by (auto simp: CheckJobsRetention_def deleteOldCompletedJobsLocked_def time_now_def Let_def intro!: grows_retention_loop)
qed (simp_all add: grows_tryEnqueue UpdateJobStatistics_def grows_emit)

lemma grows_step: "svc_step s s' \<Longrightarrow> grows s s'"
proof (induction rule: svc_step.induct)
  case (pull req l s r s')
  then show ?case using grows_pullJobsOnce[of s req l] by simp
next
  case (delete_queued s e s')
  then show ?case using grows_delete_jobs[of s s] unfolding DeleteQueuedJobs_def by (metis grows_refl snd_conv)
next
  case (pull_specific req s r s')
  then show ?case using grows_PullSpecific[of s req] by simp
next
  case (start u req s e s')
  then show ?case using grows_start[of s u req] by simp
next
  case (success u s e s')
  then show ?case using grows_success[of s u] by simp
next
  case (cancel u s e s')
  then show ?case using grows_cancel[of s u] by simp
next
  case (fail u s e s')
  then show ?case using grows_fail[of s s u] by simp
next
  case (delete u s e s')
  then show ?case using grows_delete[of s s u] by simp
next
  case (visibility u v s e s')
  then show ?case by (auto simp: ChangeVisibilityTimeoutJob_def Let_def intro!: grows_emit split: option.splits)
next
  case (unlock n s e s')
  then show ?case by (auto simp: UnlockResource_def intro!: grows_tryEnqueue grows_emit split: option.splits prod.splits)
qed (auto simp: grows_CreateJob grows_CloneJob grows_tick DeleteAllJobs_def unlockAllResourcesLocked_def
    UnlockAllResources_def BeginShutdown_def intro!: grows_emit grows_tryEnqueue)

lemma grows_steps: "svc_step\<^sup>*\<^sup>* s s' \<Longrightarrow> grows s s'"
  by (induction rule: rtranclp_induct) (auto intro: grows_trans grows_step)

lemma grows_start_jobs_loaded: "grows s s1 \<Longrightarrow> grows s (schedule_loaded_job p s1)"
  by (auto simp: schedule_loaded_job_def time_now_def intro!: grows_setDelayed grows_setPending)

text \<open>What the start announces, and the jobs it leaves to the first steps.\<close>

lemma started_trace:
  assumes ok: "loaded_ok ujs"
  obtains ids and counts :: "(string \<times> int) list" and out where "distinct ids" "set ids = fst ` set ujs"
    "sv_out (started e c ujs) = ([NRestoreFlag True] @ load_trace ujs ids
      @ map (\<lambda>(t, n). NLockedCount t n) counts @ [NRestoreFlag False]) @ out"
    "\<forall>n \<in> set out. \<not> start_only n"
proof (rule LoadJobs_phases[OF ok, of e c])
  fix s3 created ids and counts :: "(string \<times> int) list"
  assume r: "snd (LoadJobs (Inr ujs) (NewService e c)) =
      (let s4 = foldl (\<lambda>s p. schedule_loaded_job p s) s3 created
       in if length created > 0 then tryEnqueuePendingJobsLocked s4 else s4)"
    and ids: "distinct ids" "set ids = fst ` set ujs"
    and o3: "sv_out s3 = [NRestoreFlag True] @ load_trace ujs ids
      @ map (\<lambda>(t, n). NLockedCount t n) counts @ [NRestoreFlag False]"
  have "grows s3 (foldl (\<lambda>s p. schedule_loaded_job p s) s3 created)"
    by (intro grows_foldl grows_start_jobs_loaded) simp_all
  then have "grows s3 (started e c ujs)"
    unfolding started_def r by (simp add: Let_def grows_tryEnqueue)
  then obtain out where "sv_out (started e c ujs) = sv_out s3 @ out" "\<forall>n \<in> set out. \<not> start_only n"
    by (auto simp: grows_def)
  then show thesis using that ids o3 by metis
qed

end
