(* ===== verification/MetricsCount.thy ===== *)
theory MetricsCount
  imports Metrics TraceGrows
begin

text \<open>
  The metrics of a running scheduler count its jobs: after every operation the counters of a
  topic are the numbers of its jobs in each state, although the metrics only see the
  notifications and keep no job. The counters follow a map of the jobs that replays the
  same trace (theories \<open>Backend\<close> and \<open>Trace\<close>), and that map is the scheduler's.
\<close>

section \<open>Counting in a map of jobs\<close>

type_synonym jobs_map = "JobUUID \<Rightarrow> job option"

definition count_jobs :: "(job \<Rightarrow> bool) \<Rightarrow> jobs_map \<Rightarrow> nat" where
  "count_jobs Q M = card {u. \<exists>j. M u = Some j \<and> Q j}"

definition hit :: "(job \<Rightarrow> bool) \<Rightarrow> job option \<Rightarrow> nat" where
  "hit Q x = (case x of None \<Rightarrow> 0 | Some j \<Rightarrow> of_bool (Q j))"

lemma hit_simps [simp]: "hit Q None = 0" "hit Q (Some j) = of_bool (Q j)"
  by (simp_all add: hit_def)

lemma count_update:
  assumes "finite (dom M)"
  shows "count_jobs Q (M(u := x)) + hit Q (M u) = count_jobs Q M + hit Q x"
proof -
  let ?A = "{w. w \<noteq> u \<and> (\<exists>j. M w = Some j \<and> Q j)}"
  have f: "finite ?A" by (rule finite_subset[OF _ assms]) (auto simp: dom_def)
  have c: "count_jobs Q (M(u := y)) = card ?A + hit Q y" for y
  proof -
    have "{w. \<exists>j. (M(u := y)) w = Some j \<and> Q j} = ?A \<union> (case y of None \<Rightarrow> {} | Some j \<Rightarrow> if Q j then {u} else {})"
      by (auto split: option.splits)
    then show ?thesis using f by (auto simp: count_jobs_def hit_def split: option.splits)
  qed
  from c[of x] c[of "M u"] show ?thesis by simp
qed

lemma count_empty [simp]: "count_jobs Q (\<lambda>_. None) = 0"
  by (simp add: count_jobs_def)

section \<open>Counters\<close>

definition counted_state :: "JobState \<Rightarrow> bool" where
  "counted_state st \<longleftrightarrow> st \<noteq> JobNoState \<and> st \<noteq> JobDeleted"

fun status_count :: "JobState \<Rightarrow> JobMetrics \<Rightarrow> nat" where
  "status_count JobCreated jm = JobsStatusCreated jm"
| "status_count JobDelayed jm = JobsStatusDelayed jm"
| "status_count JobPending jm = JobsStatusPending jm"
| "status_count JobQueued jm = JobsStatusQueued jm"
| "status_count JobRunning jm = JobsStatusRunning jm"
| "status_count JobSucceeded jm = JobsStatusSucceeded jm"
| "status_count JobFailed jm = JobsStatusFailed jm"
| "status_count JobHidden jm = JobsStatusHidden jm"
| "status_count JobCanceled jm = JobsStatusCanceled jm"
| "status_count _ jm = 0"

lemma decrement_eq [simp]: "decrement n = n - 1"
  by (simp add: decrement_def)

lemma leave_state_count:
  "counted_state st \<Longrightarrow> status_count st (leave_state p jm) = status_count st jm - of_bool (st = p)"
  "p \<noteq> JobDeleted \<Longrightarrow> JobsExisting (leave_state p jm) = JobsExisting jm
    \<and> JobsCounterDeleted (leave_state p jm) = JobsCounterDeleted jm"
  by (cases p; cases st; simp add: counted_state_def) (cases p; simp)

lemma enter_state_count:
  "counted_state st \<Longrightarrow> status_count st (enter_state n jm) = status_count st jm + of_bool (st = n)"
  "JobsExisting (enter_state n jm) =
    (if n = JobCreated then JobsExisting jm + 1 else if n = JobDeleted then JobsExisting jm - 1 else JobsExisting jm)"
  "JobsCounterDeleted (enter_state n jm) = JobsCounterDeleted jm + of_bool (n = JobDeleted)"
  by (cases n; cases st; simp add: counted_state_def) (cases n; simp)+

lemma OnJobStateChange_count:
  assumes "counted_state st" "st = p \<longrightarrow> 0 < status_count st jm"
  shows "status_count st (OnJobStateChange p n jm) + of_bool (st = p) = status_count st jm + of_bool (st = n)"
  using assms by (auto simp: OnJobStateChange_def enter_state_count leave_state_count)

lemma OnJobStateChange_total:
  assumes "p \<noteq> JobDeleted"
  shows "JobsExisting (OnJobStateChange p n jm) = (if p \<noteq> n \<and> n = JobCreated then JobsExisting jm + 1
      else if p \<noteq> n \<and> n = JobDeleted then JobsExisting jm - 1 else JobsExisting jm)"
    "JobsCounterDeleted (OnJobStateChange p n jm) = JobsCounterDeleted jm + of_bool (n = JobDeleted)"
  using assms by (auto simp: OnJobStateChange_def enter_state_count leave_state_count)

lemma history_changes_count:
  "counted_state st \<Longrightarrow> status_count st jm = k + of_bool (st = p) \<Longrightarrow>
    status_count st (history_changes p sts jm) = k + of_bool (st = last (p # sts))"
proof (induction p sts jm rule: history_changes.induct)
  case (2 p n sts jm)
  have "st = p \<longrightarrow> 0 < status_count st jm" using 2(3) by (cases "st = p") auto
  then have "status_count st (OnJobStateChange p n jm) = k + of_bool (st = n)"
    using OnJobStateChange_count[of st p jm n] 2(2,3) by linarith
  then show ?case using 2 by simp
qed simp

lemma history_changes_total:
  "JobDeleted \<notin> set (p # sts) \<Longrightarrow> JobCreated \<notin> set sts \<Longrightarrow>
    JobsExisting (history_changes p sts jm) = JobsExisting jm
      \<and> JobsCounterDeleted (history_changes p sts jm) = JobsCounterDeleted jm"
  by (induction p sts jm rule: history_changes.induct) (auto simp: OnJobStateChange_total)

lemma event_state_not_deleted [simp]: "GetStateFromEvent h \<noteq> JobDeleted"
  by (simp add: GetStateFromEvent_def)

section \<open>What a call changes\<close>

definition metric_of :: "string \<Rightarrow> ServiceMetrics \<Rightarrow> JobMetrics" where
  "metric_of t m = (case map_of (JobMetricsByTopicMap m) t of None \<Rightarrow> NewJobMetrics | Some jm \<Rightarrow> jm)"

definition total_of :: "string \<Rightarrow> ServiceMetrics \<Rightarrow> nat" where
  "total_of t m = (case map_of (TopicMetricsByTopicMap m) t of None \<Rightarrow> 0 | Some tm \<Rightarrow> TotalJobs tm)"

definition active_of :: "string \<Rightarrow> ServiceMetrics \<Rightarrow> nat" where
  "active_of t m = (case map_of (TopicMetricsByTopicMap m) t of None \<Rightarrow> 0 | Some tm \<Rightarrow> ActiveJobs tm)"

definition rates_ok :: "ServiceMetrics \<Rightarrow> bool" where
  "rates_ok m \<longleftrightarrow> (\<forall>t tm. map_of (TopicMetricsByTopicMap m) t = Some tm \<longrightarrow> 0 \<le> SuccessRate tm \<and> SuccessRate tm \<le> 1)"

definition sm_wf :: "ServiceMetrics \<Rightarrow> bool" where
  "sm_wf m \<longleftrightarrow> enabledCollect m \<and> wf_map (JobMetricsByTopicMap m) \<and> distinct (Topics m)
    \<and> (\<forall>t. map_of (JobMetricsByTopicMap m) t = None \<longleftrightarrow> t \<notin> set (Topics m))
    \<and> (\<forall>t. map_of (TopicMetricsByTopicMap m) t = None \<longleftrightarrow> t \<notin> set (Topics m)) \<and> rates_ok m"

text \<open>Two states of the metrics with the same counters.\<close>

definition same_counts :: "ServiceMetrics \<Rightarrow> ServiceMetrics \<Rightarrow> bool" where
  "same_counts m m' \<longleftrightarrow>
    (\<forall>t. metric_of t m' = metric_of t m \<and> total_of t m' = total_of t m \<and> active_of t m' = active_of t m)"

lemma AddTopic_wf:
  assumes "sm_wf m" "AddTopic t m = (jm, m')"
  shows "sm_wf m'" "same_counts m m'" "jm = metric_of t m" "set (Topics m') = insert t (set (Topics m))"
proof -
  have n: "map_of (JobMetricsByTopicMap m) t = None \<longleftrightarrow> t \<notin> set (Topics m)"
    "map_of (TopicMetricsByTopicMap m) t = None \<longleftrightarrow> t \<notin> set (Topics m)" using assms(1) by (simp_all add: sm_wf_def)
  show "sm_wf m'" "set (Topics m') = insert t (set (Topics m))" using assms n
    by (auto simp: sm_wf_def rates_ok_def AddTopic_def AddTopicMetrics_def AddCompletedJobStats_def Let_def
        simp del: map_of_eq_Some_iff split: option.splits if_splits) (metis option.distinct(1))
  show "same_counts m m'" "jm = metric_of t m" using assms n
    by (auto simp: same_counts_def metric_of_def total_of_def active_of_def AddTopic_def AddTopicMetrics_def
        AddCompletedJobStats_def Let_def simp del: map_of_eq_Some_iff split: option.splits if_splits)
qed

lemma GetMetricByTopic_wf:
  assumes "sm_wf m" "GetMetricByTopic t m = (jm, m')"
  shows "sm_wf m'" "same_counts m m'" "jm = metric_of t m" "set (Topics m') = insert t (set (Topics m))"
proof -
  have "map_of (JobMetricsByTopicMap m) t = None \<longleftrightarrow> t \<notin> set (Topics m)"
    using assms(1) unfolding sm_wf_def by blast
  moreover have "AddTopic t m = (jm, m')" using assms(2)
    by (simp add: GetMetricByTopic_def AddTopic_def split: option.splits)
  ultimately show "sm_wf m'" "same_counts m m'" "jm = metric_of t m" "set (Topics m') = insert t (set (Topics m))"
    using AddTopic_wf[OF assms(1)] by blast+
qed

lemma put_metrics_wf:
  assumes "sm_wf m" "t \<in> set (Topics m)"
  shows "sm_wf (put_metrics t jm m)" "metric_of x (put_metrics t jm m) = (if x = t then jm else metric_of x m)"
    "total_of x (put_metrics t jm m) = total_of x m" "active_of x (put_metrics t jm m) = active_of x m"
    "Topics (put_metrics t jm m) = Topics m"
  using assms by (auto simp: put_metrics_def sm_wf_def rates_ok_def metric_of_def total_of_def active_of_def
      simp del: map_of_eq_Some_iff)

lemma put_topic_wf:
  assumes "sm_wf m" "t \<in> set (Topics m)" "0 \<le> SuccessRate tm" "SuccessRate tm \<le> 1"
  shows "sm_wf (put_topic t tm m)" "metric_of x (put_topic t tm m) = metric_of x m"
    "total_of x (put_topic t tm m) = (if x = t then TotalJobs tm else total_of x m)"
    "active_of x (put_topic t tm m) = (if x = t then ActiveJobs tm else active_of x m)"
    "Topics (put_topic t tm m) = Topics m"
  using assms by (auto simp: put_topic_def sm_wf_def rates_ok_def metric_of_def total_of_def active_of_def
      simp del: map_of_eq_Some_iff)

lemma topic_rate_bounds: "0 \<le> SuccessRate (topic_rate jm tm)" "SuccessRate (topic_rate jm tm) \<le> 1"
  using f64_rate[of "int (JobsStatusSucceeded jm)" "int (JobsStatusSucceeded jm + JobsStatusFailed jm + JobsStatusCanceled jm)"]
  by (auto simp: topic_rate_def Let_def)

lemma topic_rate_counts [simp]: "TotalJobs (topic_rate jm tm) = TotalJobs tm" "ActiveJobs (topic_rate jm tm) = ActiveJobs tm"
  by (simp_all add: topic_rate_def Let_def)

lemma topic_average_counts [simp]: "TotalJobs (topic_average st tm) = TotalJobs tm" "ActiveJobs (topic_average st tm) = ActiveJobs tm"
  by (simp_all add: topic_average_def Let_def)

lemma topic_counts_eq:
  "TotalJobs (topic_counts p n tm) = (if n = JobCreated then TotalJobs tm + 1 else if n = JobDeleted then TotalJobs tm - 1 else TotalJobs tm)"
  "ActiveJobs (topic_counts p n tm) = ActiveJobs tm - of_bool (active_state p) + of_bool (active_state n)"
  by (auto simp: topic_counts_def active_state_def Let_def)

lemma sm_frame [simp]:
  "sm_wf (m\<lparr>ResourceMetricsMap := r\<rparr>) = sm_wf m" "metric_of t (m\<lparr>ResourceMetricsMap := r\<rparr>) = metric_of t m"
  "total_of t (m\<lparr>ResourceMetricsMap := r\<rparr>) = total_of t m" "active_of t (m\<lparr>ResourceMetricsMap := r\<rparr>) = active_of t m"
  "sm_wf (m\<lparr>sm_prom := q\<rparr>) = sm_wf m" "metric_of t (m\<lparr>sm_prom := q\<rparr>) = metric_of t m"
  "total_of t (m\<lparr>sm_prom := q\<rparr>) = total_of t m" "active_of t (m\<lparr>sm_prom := q\<rparr>) = active_of t m"
  "sm_wf (m\<lparr>CompletedJobsStatsByTopic := c\<rparr>) = sm_wf m"
  "metric_of t (m\<lparr>CompletedJobsStatsByTopic := c\<rparr>) = metric_of t m"
  "total_of t (m\<lparr>CompletedJobsStatsByTopic := c\<rparr>) = total_of t m"
  "active_of t (m\<lparr>CompletedJobsStatsByTopic := c\<rparr>) = active_of t m"
  "sm_wf (m\<lparr>sm_reads := k\<rparr>) = sm_wf m" "metric_of t (m\<lparr>sm_reads := k\<rparr>) = metric_of t m"
  "total_of t (m\<lparr>sm_reads := k\<rparr>) = total_of t m" "active_of t (m\<lparr>sm_reads := k\<rparr>) = active_of t m"
  by (simp_all add: sm_wf_def rates_ok_def metric_of_def total_of_def active_of_def)

section \<open>One job event\<close>

lemma GetTopicMetrics_known:
  assumes "sm_wf m" "t \<in> set (Topics m)"
  obtains tm where "GetTopicMetrics t m = (tm, m)" "map_of (TopicMetricsByTopicMap m) t = Some tm"
    "TotalJobs tm = total_of t m" "ActiveJobs tm = active_of t m" "0 \<le> SuccessRate tm" "SuccessRate tm \<le> 1"
proof -
  have "map_of (TopicMetricsByTopicMap m) t \<noteq> None" using assms unfolding sm_wf_def by blast
  then obtain tm where tm: "map_of (TopicMetricsByTopicMap m) t = Some tm" by blast
  then have "0 \<le> SuccessRate tm" "SuccessRate tm \<le> 1" using assms(1) unfolding sm_wf_def rates_ok_def by blast+
  then show thesis using that[of tm] tm by (simp add: GetTopicMetrics_def total_of_def active_of_def)
qed

lemma UpdateCompleted_frame: "\<exists>c. UpdateCompletedJobStats t d m = m\<lparr>CompletedJobsStatsByTopic := c\<rparr>"
  by (cases "map_of (CompletedJobsStatsByTopic m) t")
    (auto simp: UpdateCompletedJobStats_def GetCompletedJobStats_def AddCompletedJobStats_def Let_def)

lemma GetCompleted_frame: "\<exists>c. snd (GetCompletedJobStats t m) = m\<lparr>CompletedJobsStatsByTopic := c\<rparr>"
proof (cases "map_of (CompletedJobsStatsByTopic m) t")
  case (Some st)
  then show ?thesis by (intro exI[of _ "CompletedJobsStatsByTopic m"]) (simp add: GetCompletedJobStats_def)
qed (auto simp: GetCompletedJobStats_def AddCompletedJobStats_def Let_def)

text \<open>The statistics of a topic after a change of state.\<close>

lemma UpdateTopicMetrics_effect:
  fixes p n d
  assumes w: "sm_wf m" and t: "t \<in> set (Topics m)"
  defines "m' \<equiv> UpdateTopicMetrics t p n d m"
  shows "sm_wf m'" "metric_of x m' = metric_of x m" "set (Topics m') = set (Topics m)"
    "total_of x m' = (if x = t then (if n = JobCreated then total_of t m + 1
       else if n = JobDeleted then total_of t m - 1 else total_of t m) else total_of x m)"
    "active_of x m' = (if x = t then active_of t m - of_bool (active_state p) + of_bool (active_state n) else active_of x m)"
proof -
  obtain tm where tm: "GetTopicMetrics t m = (tm, m)" "TotalJobs tm = total_of t m" "ActiveJobs tm = active_of t m"
    by (rule GetTopicMetrics_known[OF w t])
  have k: "map_of (JobMetricsByTopicMap m) t \<noteq> None" "enabledCollect m" using w t unfolding sm_wf_def by blast+
  have "\<exists>c tm2 jm. m' = put_topic t (topic_rate jm tm2) (m\<lparr>CompletedJobsStatsByTopic := c\<rparr>)
      \<and> TotalJobs tm2 = TotalJobs (topic_counts p n tm) \<and> ActiveJobs tm2 = ActiveJobs (topic_counts p n tm)"
  proof (cases "isJobCompleted n \<and> \<not> isJobCompleted p \<and> d > 0")
    case True
    obtain c1 where c1: "UpdateCompletedJobStats t d m = m\<lparr>CompletedJobsStatsByTopic := c1\<rparr>"
      using UpdateCompleted_frame by blast
    obtain c2 where c2: "snd (GetCompletedJobStats t (m\<lparr>CompletedJobsStatsByTopic := c1\<rparr>)) = m\<lparr>CompletedJobsStatsByTopic := c2\<rparr>"
      using GetCompleted_frame[of t "m\<lparr>CompletedJobsStatsByTopic := c1\<rparr>"] by auto
    show ?thesis unfolding m'_def UpdateTopicMetrics_def using True k
      by (intro exI[of _ c2] exI[of _ "topic_average (fst (GetCompletedJobStats t
          (m\<lparr>CompletedJobsStatsByTopic := c1\<rparr>))) (topic_counts p n tm)"] exI[of _ "the (map_of (JobMetricsByTopicMap m) t)"])
        (auto simp: tm c1 c2 case_prod_unfold Let_def GetMetricByTopic_def)
  next
    case False
    show ?thesis unfolding m'_def UpdateTopicMetrics_def using False k
      by (intro exI[of _ "CompletedJobsStatsByTopic m"] exI[of _ "topic_counts p n tm"]
          exI[of _ "the (map_of (JobMetricsByTopicMap m) t)"]) (auto simp: tm case_prod_unfold Let_def GetMetricByTopic_def)
  qed
  then obtain c tm2 jm where e: "m' = put_topic t (topic_rate jm tm2) (m\<lparr>CompletedJobsStatsByTopic := c\<rparr>)"
    "TotalJobs tm2 = TotalJobs (topic_counts p n tm)" "ActiveJobs tm2 = ActiveJobs (topic_counts p n tm)" by blast
  have w': "sm_wf (m\<lparr>CompletedJobsStatsByTopic := c\<rparr>)" "t \<in> set (Topics (m\<lparr>CompletedJobsStatsByTopic := c\<rparr>))"
    using w t by simp_all
  note r = topic_rate_bounds[of jm tm2]
  note p' = put_topic_wf[OF w' r]
  show "sm_wf m'" "metric_of x m' = metric_of x m" "set (Topics m') = set (Topics m)"
    "total_of x m' = (if x = t then (if n = JobCreated then total_of t m + 1
       else if n = JobDeleted then total_of t m - 1 else total_of t m) else total_of x m)"
    "active_of x m' = (if x = t then active_of t m - of_bool (active_state p) + of_bool (active_state n) else active_of x m)"
    using p'(1) p'(2)[of x] p'(3)[of x] p'(4)[of x] p'(5) tm(2,3) by (auto simp: e topic_counts_eq)
qed

definition event_state :: "job \<Rightarrow> ServiceEventType \<Rightarrow> JobState" where
  "event_state j ev = (if ev = ServiceEventJobDeleted then JobDeleted else state j)"

lemma NotifyJobEvent_effect:
  fixes e j
  assumes w: "sm_wf m" and ev: "ev \<noteq> ServiceEventJobLoaded"
  defines "m' \<equiv> sm_NotifyJobEvent e j ev m" and "n \<equiv> event_state j ev" and "p \<equiv> previousState j"
  shows "sm_wf m'" "set (Topics m') = insert (Topic j) (set (Topics m))"
    "metric_of x m' = (if x = Topic j then OnJobStateChange p n (metric_of x m) else metric_of x m)"
    "total_of x m' = (if x = Topic j then (if n = JobCreated then total_of (Topic j) m + 1
       else if n = JobDeleted then total_of (Topic j) m - 1 else total_of (Topic j) m) else total_of x m)"
    "active_of x m' = (if x = Topic j then active_of (Topic j) m - of_bool (active_state p) + of_bool (active_state n) else active_of x m)"
proof -
  obtain jm m1 where g: "GetMetricByTopic (Topic j) m = (jm, m1)" by fastforce
  note g' = GetMetricByTopic_wf[OF w g]
  have t1: "Topic j \<in> set (Topics m1)" using g'(4) by simp
  let ?jm = "OnJobStateChange p n jm"
  let ?m2 = "put_metrics (Topic j) ?jm m1"
  note p2 = put_metrics_wf[OF g'(1) t1, where jm = ?jm]
  have t2: "Topic j \<in> set (Topics ?m2)" using t1 p2(5) by simp
  note u = UpdateTopicMetrics_effect[OF p2(1) t2, where p = p and n = n and d = "GetDurationMsSinceLastAndFirstEvent j"]
  have c: "enabledCollect m" using w by (simp add: sm_wf_def)
  let ?m3 = "UpdateTopicMetrics (Topic j) p n (GetDurationMsSinceLastAndFirstEvent j) ?m2"
  obtain r q where e: "m' = ?m3\<lparr>ResourceMetricsMap := r, sm_prom := q\<rparr>"
    using ev c by (auto simp: m'_def sm_NotifyJobEvent_def g Let_def prom_event_def n_def event_state_def p_def)
  have s: "metric_of x m1 = metric_of x m" "total_of x m1 = total_of x m" "active_of x m1 = active_of x m" for x
    using g'(2) by (simp_all add: same_counts_def)
  have k: "total_of x ?m2 = total_of x m" "active_of x ?m2 = active_of x m" for x
    by (simp_all add: p2(3,4) s)
  show "sm_wf m'" using u(1) by (simp add: e)
  show "set (Topics m') = insert (Topic j) (set (Topics m))" using u(3) p2(5) g'(4) by (simp add: e)
  show "metric_of x m' = (if x = Topic j then OnJobStateChange p n (metric_of x m) else metric_of x m)"
    using u(2)[of x] p2(2)[of x] s(1)[of x] by (simp add: e g'(3))
  show "total_of x m' = (if x = Topic j then (if n = JobCreated then total_of (Topic j) m + 1
       else if n = JobDeleted then total_of (Topic j) m - 1 else total_of (Topic j) m) else total_of x m)"
    using u(4)[of x] by (simp only: e sm_frame k)
  show "active_of x m' = (if x = Topic j then active_of (Topic j) m - of_bool (active_state p) + of_bool (active_state n) else active_of x m)"
    using u(5)[of x] by (simp only: e sm_frame k)
qed

section \<open>A loaded job, and the other calls\<close>

lemma NotifyLoaded_effect:
  fixes e j
  assumes w: "sm_wf m"
  defines "m' \<equiv> sm_NotifyJobEvent e j ServiceEventJobLoaded m"
  shows "sm_wf m'" "set (Topics m') = insert (Topic j) (set (Topics m))"
    "metric_of x m' = (if x = Topic j then history_changes JobNoState (GetHistoryStates j) (metric_of x m) else metric_of x m)"
    "total_of x m' = (if x = Topic j then total_of x m + 1 else total_of x m)"
    "active_of x m' = (if x = Topic j then active_of x m + of_bool (active_state (state j)) else active_of x m)"
proof -
  obtain jm m1 where g: "GetMetricByTopic (Topic j) m = (jm, m1)" by fastforce
  note g' = GetMetricByTopic_wf[OF w g]
  have t1: "Topic j \<in> set (Topics m1)" using g'(4) by simp
  let ?jm = "history_changes JobNoState (GetHistoryStates j) jm"
  let ?m2 = "put_metrics (Topic j) ?jm m1"
  note p2 = put_metrics_wf[OF g'(1) t1, where jm = ?jm]
  have t2: "Topic j \<in> set (Topics ?m2)" using t1 p2(5) by simp
  obtain tm where tm: "GetTopicMetrics (Topic j) ?m2 = (tm, ?m2)" "TotalJobs tm = total_of (Topic j) ?m2"
    "ActiveJobs tm = active_of (Topic j) ?m2" "0 \<le> SuccessRate tm" "SuccessRate tm \<le> 1"
    by (rule GetTopicMetrics_known[OF p2(1) t2])
  let ?tm = "let tm1 = tm\<lparr>TotalJobs := TotalJobs tm + 1\<rparr>
    in if active_state (state j) then tm1\<lparr>ActiveJobs := ActiveJobs tm1 + 1\<rparr> else tm1"
  let ?m3 = "put_topic (Topic j) ?tm ?m2"
  have r: "0 \<le> SuccessRate ?tm" "SuccessRate ?tm \<le> 1" using tm by (simp_all add: Let_def)
  note p3 = put_topic_wf[OF p2(1) t2 r]
  have c: "enabledCollect m" using w by (simp add: sm_wf_def)
  have "UpdateMetricsFromJobHistory j m = (if state j = JobQueued \<or> state j = JobRunning
      then ?m3\<lparr>ResourceMetricsMap := hold_resources j (ResourceMetricsMap ?m3)\<rparr> else ?m3)"
    by (simp add: UpdateMetricsFromJobHistory_def g tm(1) Let_def)
  moreover have "?m3 = ?m3\<lparr>ResourceMetricsMap := ResourceMetricsMap ?m3\<rparr>" by simp
  ultimately obtain r where U: "UpdateMetricsFromJobHistory j m = ?m3\<lparr>ResourceMetricsMap := r\<rparr>" by metis
  let ?m4 = "?m3\<lparr>ResourceMetricsMap := r\<rparr>"
  have w4: "sm_wf ?m4" using p3(1) by simp
  have k: "map_of (JobMetricsByTopicMap ?m4) (Topic j) \<noteq> None"
    using w4 t2 p3(5) unfolding sm_wf_def by simp
  obtain q where e: "m' = ?m4\<lparr>sm_prom := q\<rparr>"
    using c k by (auto simp: m'_def sm_NotifyJobEvent_def U GetMetricByTopic_def Let_def)
  have s: "metric_of x m1 = metric_of x m" "total_of x m1 = total_of x m" "active_of x m1 = active_of x m" for x
    using g'(2) by (simp_all add: same_counts_def)
  show "sm_wf m'" using w4 by (simp add: e)
  show "set (Topics m') = insert (Topic j) (set (Topics m))" using p3(5) p2(5) g'(4) by (simp add: e)
  show "metric_of x m' = (if x = Topic j then history_changes JobNoState (GetHistoryStates j) (metric_of x m) else metric_of x m)"
    using p3(2)[of x] p2(2)[of x] s(1)[of x] by (simp add: e g'(3))
  show "total_of x m' = (if x = Topic j then total_of x m + 1 else total_of x m)"
    using p3(3)[of x] p2(3) s(2) tm(2) by (simp add: e Let_def)
  show "active_of x m' = (if x = Topic j then active_of x m + of_bool (active_state (state j)) else active_of x m)"
    using p3(4)[of x] p2(4) s(3) tm(3) by (simp add: e Let_def)
qed

text \<open>Calls that leave the counters of the jobs.\<close>

definition counts_kept :: "ServiceMetrics \<Rightarrow> ServiceMetrics \<Rightarrow> bool" where
  "counts_kept m m' \<longleftrightarrow> sm_wf m' \<and> set (Topics m) \<subseteq> set (Topics m') \<and>
    (\<forall>t. (\<forall>st. status_count st (metric_of t m') = status_count st (metric_of t m))
      \<and> JobsExisting (metric_of t m') = JobsExisting (metric_of t m)
      \<and> JobsCounterDeleted (metric_of t m') = JobsCounterDeleted (metric_of t m)
      \<and> total_of t m' = total_of t m \<and> active_of t m' = active_of t m)"

lemma status_count_locked [simp]: "status_count st (jm\<lparr>ResourcesLockedCount := n\<rparr>) = status_count st jm"
  by (cases st) simp_all

lemma counts_kept_count:
  assumes "sm_wf m"
  shows "counts_kept m (updateResourcesLockedCount t inc m)"
proof -
  obtain jm m1 where g: "GetMetricByTopic t m = (jm, m1)" by fastforce
  note g' = GetMetricByTopic_wf[OF assms g]
  have t1: "t \<in> set (Topics m1)" using g'(4) by simp
  show ?thesis using put_metrics_wf[OF g'(1) t1] g'(2,3,4)
    by (auto simp: updateResourcesLockedCount_def g Let_def counts_kept_def same_counts_def)
qed

lemma counts_kept_unlock_all:
  assumes w: "sm_wf m"
  shows "counts_kept m (OnUnlockAllResources m)"
proof -
  let ?m = "OnUnlockAllResources m"
  have c: "enabledCollect m" using w by (simp add: sm_wf_def)
  have j: "map_of (JobMetricsByTopicMap ?m) t = map_option (\<lambda>jm. jm\<lparr>ResourcesLockedCount := 0\<rparr>) (map_of (JobMetricsByTopicMap m) t)" for t
    using c by (simp add: OnUnlockAllResources_def map_of_map)
  have f: "TopicMetricsByTopicMap ?m = TopicMetricsByTopicMap m" "Topics ?m = Topics m" "enabledCollect ?m"
    "map fst (JobMetricsByTopicMap ?m) = map fst (JobMetricsByTopicMap m)"
    using c by (simp_all add: OnUnlockAllResources_def case_prod_unfold)
  have "sm_wf ?m" using w by (simp add: sm_wf_def rates_ok_def j f)
  then show ?thesis
    by (auto simp: counts_kept_def f metric_of_def total_of_def active_of_def j NewJobMetrics_def split: option.splits)
qed

lemma counts_kept_frame: "sm_wf m \<Longrightarrow> counts_kept m (m\<lparr>sm_reads := k, sm_prom := q\<rparr>)"
  by (simp add: counts_kept_def)

lemma observe_active_frame: "\<exists>q. snd (observe_active now js m) = m\<lparr>sm_prom := q\<rparr>"
proof (induction js arbitrary: m)
  case Nil
  then show ?case by (intro exI[of _ "sm_prom m"]) simp
next
  case (Cons j js)
  have "\<exists>q. m = m\<lparr>sm_prom := q\<rparr>" by (intro exI[of _ "sm_prom m"]) simp
  moreover have "\<exists>q. snd (observe_active now js (sm_emit cs m)) = m\<lparr>sm_prom := q\<rparr>" for cs
    using Cons[of "sm_emit cs m"] by (auto simp: sm_emit_def)
  ultimately show ?case using Cons[of m] by (auto split: option.splits)
qed

lemma UpdateJobStatistics_frame: "\<exists>q k. snd (sm_UpdateJobStatistics e js m) = m\<lparr>sm_reads := k, sm_prom := q\<rparr>"
proof (cases "enabledCollect m")
  case False
  then show ?thesis by (intro exI[of _ "sm_prom m"] exI[of _ "sm_reads m"]) (simp add: sm_UpdateJobStatistics_def)
next
  case True
  define m1 where "m1 = snd (sm_time_now e (sm_emit (map (\<lambda>t. ActiveObserve t 0) (Topics (sm_emit [ActiveReset] m))) (sm_emit [ActiveReset] m)))"
  define now where "now = fst (sm_time_now e (sm_emit (map (\<lambda>t. ActiveObserve t 0) (Topics (sm_emit [ActiveReset] m))) (sm_emit [ActiveReset] m)))"
  have m1: "m1 = m\<lparr>sm_reads := Suc (sm_reads m), sm_prom := sm_prom m1\<rparr>"
    by (simp add: m1_def sm_time_now_def sm_emit_def)
  obtain b m2 where o: "observe_active now js m1 = (b, m2)" by fastforce
  then obtain q2 where m2: "m2 = m1\<lparr>sm_prom := q2\<rparr>" using observe_active_frame[of now js m1] by auto
  have "snd (sm_UpdateJobStatistics e js m) = (if b then m2 else snd (UpdateJobDurationPercentiles js now m2))"
    using True o by (simp add: sm_UpdateJobStatistics_def Let_def case_prod_unfold m1_def now_def)
  moreover have "\<exists>q. snd (UpdateJobDurationPercentiles js now m2) = m2\<lparr>sm_prom := q\<rparr>"
  proof -
    have "\<exists>q. m2 = m2\<lparr>sm_prom := q\<rparr>" by (intro exI[of _ "sm_prom m2"]) simp
    then show ?thesis by (auto simp: UpdateJobDurationPercentiles_def split: option.splits)
  qed
  ultimately have "\<exists>q. snd (sm_UpdateJobStatistics e js m) = m1\<lparr>sm_prom := q\<rparr>"
    by (cases b) (auto simp: m2)
  moreover have "m1\<lparr>sm_prom := q\<rparr> = m\<lparr>sm_reads := Suc (sm_reads m), sm_prom := q\<rparr>" for q by (subst m1) simp
  ultimately show ?thesis by metis
qed

lemma counts_kept_topic_event: "sm_wf m \<Longrightarrow> counts_kept m (sm_NotifyTopicEvent e ev t m)"
proof -
  assume w: "sm_wf m"
  have k: "counts_kept m (EnsureTopicExists t m)"
    using AddTopic_wf[OF w, of t] w
    by (cases "AddTopic t m") (auto simp: EnsureTopicExists_def counts_kept_def same_counts_def split: option.splits)
  have f: "counts_kept m m1 \<Longrightarrow> counts_kept m (prom_event e x y m1)" for m1 x y
    by (simp add: prom_event_def counts_kept_def)
  have "counts_kept m m" using w by (simp add: counts_kept_def)
  then show ?thesis using k f by (simp add: sm_NotifyTopicEvent_def Let_def)
qed

definition changes_jobs :: "notif \<Rightarrow> bool" where
  "changes_jobs n \<longleftrightarrow> (\<exists>j ev. n = NJob j ev) \<or> n = NEvent ServiceEventJobDeletedAll"

lemma counts_kept_other:
  assumes "sm_wf m" "\<not> changes_jobs n"
  shows "counts_kept m (metrics_call e n m)"
proof -
  have c: "enabledCollect m" "counts_kept m m" using assms(1) by (simp_all add: sm_wf_def counts_kept_def)
  have s: "counts_kept m (snd (sm_UpdateJobStatistics e js m))" for js
    using UpdateJobStatistics_frame[of e js m] counts_kept_frame[OF assms(1)] by auto
  have d: "counts_kept m (m\<lparr>ResourceMetricsMap := r\<rparr>)" "sm_wf (m\<lparr>ResourceMetricsMap := r\<rparr>)" for r
    using assms(1) by (simp_all add: counts_kept_def)
  have u: "counts_kept m (OnResourceUnlocked r t m)" for r t
    using counts_kept_count[OF d(2)[of "AList.delete r (ResourceMetricsMap m)"], of t "-1"] c
    by (simp add: OnResourceUnlocked_def counts_kept_def)
  have v: "counts_kept m (sm_NotifyEvent e ev m)" if "ev \<noteq> ServiceEventJobDeletedAll" for ev
    using that c(2) by (simp add: sm_NotifyEvent_def prom_event_def counts_kept_def)
  show ?thesis using assms c s u v counts_kept_count counts_kept_unlock_all counts_kept_topic_event
    by (cases n) (auto simp: changes_jobs_def sm_UpdateResourcesLockedCountMetric_def metrics_observer_def)
qed

section \<open>The counters follow the jobs\<close>

definition in_topic :: "string \<Rightarrow> job \<Rightarrow> bool" where
  "in_topic t j \<longleftrightarrow> Topic j = t"

definition topic_state :: "string \<Rightarrow> JobState \<Rightarrow> job \<Rightarrow> bool" where
  "topic_state t st j \<longleftrightarrow> Topic j = t \<and> state j = st"

definition is_active :: "string \<Rightarrow> job \<Rightarrow> bool" where
  "is_active t j \<longleftrightarrow> Topic j = t \<and> active_state (state j)"

text \<open>\<open>b t\<close> is the number of jobs of the topic ever created or loaded.\<close>

definition follows :: "jobs_map \<Rightarrow> (string \<Rightarrow> nat) \<Rightarrow> ServiceMetrics \<Rightarrow> bool" where
  "follows M b m \<longleftrightarrow> finite (dom M) \<and> sm_wf m \<and> (\<forall>u j. M u = Some j \<longrightarrow> Topic j \<in> set (Topics m) \<and> state j \<noteq> JobDeleted) \<and>
    (\<forall>t. (\<forall>st. counted_state st \<longrightarrow> status_count st (metric_of t m) = count_jobs (topic_state t st) M)
      \<and> JobsExisting (metric_of t m) = count_jobs (in_topic t) M
      \<and> JobsExisting (metric_of t m) + JobsCounterDeleted (metric_of t m) = b t
      \<and> total_of t m = count_jobs (in_topic t) M \<and> active_of t m = count_jobs (is_active t) M)"

lemma followsD:
  assumes "follows M b m"
  shows "finite (dom M)" "sm_wf m" "M u = Some j \<Longrightarrow> Topic j \<in> set (Topics m)" "M u = Some j \<Longrightarrow> state j \<noteq> JobDeleted"
    "counted_state st \<Longrightarrow> status_count st (metric_of t m) = count_jobs (topic_state t st) M"
    "JobsExisting (metric_of t m) = count_jobs (in_topic t) M"
    "JobsExisting (metric_of t m) + JobsCounterDeleted (metric_of t m) = b t"
    "total_of t m = count_jobs (in_topic t) M" "active_of t m = count_jobs (is_active t) M"
  using assms unfolding follows_def by blast+

lemma follows_kept:
  assumes "follows M b m" "counts_kept m m'"
  shows "follows M b m'"
  using assms unfolding follows_def counts_kept_def by fastforce

lemma finite_upd: "finite (dom M) \<Longrightarrow> finite (dom (M(u := x)))"
  by (rule finite_subset[of _ "insert u (dom M)"]) auto

text \<open>The change of one job, known or new, as the metrics see it.\<close>

lemma follows_change:
  assumes tr: "follows M b m" and ev: "ev \<notin> {ServiceEventJobLoaded, ServiceEventJobDeleted, ServiceEventJobCreated}"
    and u: "M (JobUUID j) = Some j0" and nj: "next_job h j0 j" and h: "GetStateFromEvent h \<noteq> JobCreated"
  shows "follows (M(JobUUID j \<mapsto> j)) b (sm_NotifyJobEvent e j ev m)"
proof -
  note d = followsD[OF tr]
  have j: "Topic j = Topic j0" "previousState j = state j0" "state j \<noteq> JobDeleted" "state j \<noteq> JobCreated"
    using nj h by (auto simp: next_job_def)
  have n: "event_state j ev = state j" using ev by (simp add: event_state_def)
  have l: "ev \<noteq> ServiceEventJobLoaded" using ev by simp
  note f = NotifyJobEvent_effect[OF d(2) l, where e = e and j = j, unfolded n j(2)]
  have p: "state j0 \<noteq> JobDeleted" by (rule d(4)[OF u])
  have c: "count_jobs Q (M(JobUUID j \<mapsto> j)) + of_bool (Q j0) = count_jobs Q M + of_bool (Q j)" for Q
    using count_update[OF d(1), of Q "JobUUID j" "Some j"] u by simp
  have pos: "Q j0 \<Longrightarrow> 0 < count_jobs Q M" for Q
  proof -
    assume q: "Q j0"
    have "finite {w. \<exists>j. M w = Some j \<and> Q j}" by (rule finite_subset[OF _ d(1)]) (auto simp: dom_def)
    then show ?thesis using u q by (auto simp: count_jobs_def card_gt_0_iff)
  qed
  show ?thesis unfolding follows_def
  proof (intro conjI allI impI)
    show "finite (dom (M(JobUUID j \<mapsto> j)))" by (rule finite_upd[OF d(1)])
    show "sm_wf (sm_NotifyJobEvent e j ev m)" by (rule f(1))
    fix u' j'
    assume "(M(JobUUID j \<mapsto> j)) u' = Some j'"
    then show "Topic j' \<in> set (Topics (sm_NotifyJobEvent e j ev m))" "state j' \<noteq> JobDeleted"
      using d(3,4)[of u' j'] f(2) j(3) by (auto split: if_splits)
  next
    fix t st
    assume st: "counted_state st"
    show "status_count st (metric_of t (sm_NotifyJobEvent e j ev m)) = count_jobs (topic_state t st) (M(JobUUID j \<mapsto> j))"
    proof (cases "t = Topic j")
      case True
      have "st = state j0 \<longrightarrow> 0 < status_count st (metric_of t m)"
        using pos[of "topic_state t st"] d(5)[OF st, of t] True j(1) by (cases "st = state j0") (auto simp: topic_state_def)
      then show ?thesis using OnJobStateChange_count[OF st, of "state j0" "metric_of t m" "state j"] True f(3)[of t]
          c[of "topic_state t st"] d(5)[OF st, of t] j(1) by (simp add: topic_state_def eq_commute[of st])
    next
      case False
      then show ?thesis using f(3)[of t] c[of "topic_state t st"] d(5)[OF st, of t] j(1) by (simp add: topic_state_def)
    qed
  next
    fix t
    have k: "count_jobs (in_topic t) (M(JobUUID j \<mapsto> j)) = count_jobs (in_topic t) M"
      using c[of "in_topic t"] j(1) by (simp add: in_topic_def)
    show "JobsExisting (metric_of t (sm_NotifyJobEvent e j ev m)) = count_jobs (in_topic t) (M(JobUUID j \<mapsto> j))"
      "JobsExisting (metric_of t (sm_NotifyJobEvent e j ev m)) + JobsCounterDeleted (metric_of t (sm_NotifyJobEvent e j ev m)) = b t"
      "total_of t (sm_NotifyJobEvent e j ev m) = count_jobs (in_topic t) (M(JobUUID j \<mapsto> j))"
      using f(3,4)[of t] k d(6,7,8)[of t] OnJobStateChange_total[OF p, of "state j" "metric_of t m"] j by auto
    show "active_of t (sm_NotifyJobEvent e j ev m) = count_jobs (is_active t) (M(JobUUID j \<mapsto> j))"
      using f(5)[of t] c[of "is_active t"] d(9)[of t] pos[of "is_active t"] j(1) by (auto simp: is_active_def)
  qed
qed

lemma follows_new:
  assumes tr: "follows M b m" and u: "M (JobUUID j) = None"
    and nj: "state j = JobCreated" "previousState j = JobNoState"
  shows "follows (M(JobUUID j \<mapsto> j)) (b(Topic j := b (Topic j) + 1)) (sm_NotifyJobEvent e j ServiceEventJobCreated m)"
proof -
  note d = followsD[OF tr]
  have n: "event_state j ServiceEventJobCreated = JobCreated" using nj by (simp add: event_state_def)
  note f = NotifyJobEvent_effect[OF d(2), of ServiceEventJobCreated, where e = e and j = j, simplified n nj(2), simplified]
  have c: "count_jobs Q (M(JobUUID j \<mapsto> j)) = count_jobs Q M + of_bool (Q j)" for Q
    using count_update[OF d(1), of Q "JobUUID j" "Some j"] u by simp
  show ?thesis unfolding follows_def
  proof (intro conjI allI impI)
    show "finite (dom (M(JobUUID j \<mapsto> j)))" by (rule finite_upd[OF d(1)])
    show "sm_wf (sm_NotifyJobEvent e j ServiceEventJobCreated m)" by (rule f(1))
    fix u' j'
    assume "(M(JobUUID j \<mapsto> j)) u' = Some j'"
    then show "Topic j' \<in> set (Topics (sm_NotifyJobEvent e j ServiceEventJobCreated m))" "state j' \<noteq> JobDeleted"
      using d(3,4)[of u' j'] f(2) nj by (auto split: if_splits)
  next
    fix t st
    assume st: "counted_state st"
    show "status_count st (metric_of t (sm_NotifyJobEvent e j ServiceEventJobCreated m))
        = count_jobs (topic_state t st) (M(JobUUID j \<mapsto> j))"
      using OnJobStateChange_count[OF st, of JobNoState "metric_of t m" JobCreated] f(3)[of t]
        c[of "topic_state t st"] d(5)[OF st, of t] st nj by (auto simp: topic_state_def counted_state_def)
  next
    fix t
    show "JobsExisting (metric_of t (sm_NotifyJobEvent e j ServiceEventJobCreated m)) = count_jobs (in_topic t) (M(JobUUID j \<mapsto> j))"
      "JobsExisting (metric_of t (sm_NotifyJobEvent e j ServiceEventJobCreated m))
        + JobsCounterDeleted (metric_of t (sm_NotifyJobEvent e j ServiceEventJobCreated m)) = (b(Topic j := b (Topic j) + 1)) t"
      "total_of t (sm_NotifyJobEvent e j ServiceEventJobCreated m) = count_jobs (in_topic t) (M(JobUUID j \<mapsto> j))"
      using f(3,4)[of t] c[of "in_topic t"] d(6,7,8)[of t] OnJobStateChange_total[of JobNoState JobCreated "metric_of t m"]
      by (auto simp: in_topic_def)
    show "active_of t (sm_NotifyJobEvent e j ServiceEventJobCreated m) = count_jobs (is_active t) (M(JobUUID j \<mapsto> j))"
      using f(5)[of t] c[of "is_active t"] d(9)[of t] nj by (auto simp: is_active_def active_state_def)
  qed
qed

lemma follows_removed:
  assumes tr: "follows M b m" and u: "M (JobUUID j) = Some j0"
    and nj: "Topic j = Topic j0" "previousState j = state j0"
  shows "follows (M(JobUUID j := None)) b (sm_NotifyJobEvent e j ServiceEventJobDeleted m)"
proof -
  note d = followsD[OF tr]
  have n: "event_state j ServiceEventJobDeleted = JobDeleted" by (simp add: event_state_def)
  note f = NotifyJobEvent_effect[OF d(2), of ServiceEventJobDeleted, where e = e and j = j, simplified n nj(2), simplified]
  have p: "state j0 \<noteq> JobDeleted" by (rule d(4)[OF u])
  have c: "count_jobs Q (M(JobUUID j := None)) + of_bool (Q j0) = count_jobs Q M" for Q
    using count_update[OF d(1), of Q "JobUUID j" None] u by simp
  show ?thesis unfolding follows_def
  proof (intro conjI allI impI)
    show "finite (dom (M(JobUUID j := None)))" by (rule finite_upd[OF d(1)])
    show "sm_wf (sm_NotifyJobEvent e j ServiceEventJobDeleted m)" by (rule f(1))
    fix u' j'
    assume "(M(JobUUID j := None)) u' = Some j'"
    then show "Topic j' \<in> set (Topics (sm_NotifyJobEvent e j ServiceEventJobDeleted m))" "state j' \<noteq> JobDeleted"
      using d(3,4)[of u' j'] f(2) nj by (auto split: if_splits)
  next
    fix t st
    assume st: "counted_state st"
    have "Topic j = t \<Longrightarrow> st = state j0 \<longrightarrow> 0 < status_count st (metric_of t m)"
      using c[of "topic_state t st"] d(5)[OF st, of t] nj(1) by (auto simp: topic_state_def)
    then show "status_count st (metric_of t (sm_NotifyJobEvent e j ServiceEventJobDeleted m))
        = count_jobs (topic_state t st) (M(JobUUID j := None))"
      using OnJobStateChange_count[OF st, of "state j0" "metric_of t m" JobDeleted] f(3)[of t]
        c[of "topic_state t st"] d(5)[OF st, of t] st nj(1)
      by (cases "st = state j0") (auto simp: topic_state_def counted_state_def)
  next
    fix t
    have "Topic j = t \<Longrightarrow> 0 < JobsExisting (metric_of t m)"
      using c[of "in_topic t"] d(6)[of t] nj(1) by (auto simp: in_topic_def)
    then show "JobsExisting (metric_of t (sm_NotifyJobEvent e j ServiceEventJobDeleted m)) = count_jobs (in_topic t) (M(JobUUID j := None))"
      "JobsExisting (metric_of t (sm_NotifyJobEvent e j ServiceEventJobDeleted m))
        + JobsCounterDeleted (metric_of t (sm_NotifyJobEvent e j ServiceEventJobDeleted m)) = b t"
      "total_of t (sm_NotifyJobEvent e j ServiceEventJobDeleted m) = count_jobs (in_topic t) (M(JobUUID j := None))"
      using f(3,4)[of t] c[of "in_topic t"] d(6,7,8)[of t] OnJobStateChange_total[OF p, of JobDeleted "metric_of t m"] nj(1) p
      by (auto simp: in_topic_def)
    show "active_of t (sm_NotifyJobEvent e j ServiceEventJobDeleted m) = count_jobs (is_active t) (M(JobUUID j := None))"
      using f(5)[of t] c[of "is_active t"] d(9)[of t] nj(1) by (auto simp: is_active_def active_state_def)
  qed
qed

text \<open>The history of a job the service created: one creation, at the start.\<close>

definition created_once :: "job \<Rightarrow> bool" where
  "created_once j \<longleftrightarrow> (case GetHistoryStates j of [] \<Rightarrow> False | st # sts \<Rightarrow> st = JobCreated \<and> JobCreated \<notin> set sts)"

lemma follows_loaded:
  assumes tr: "follows M b m" and u: "M (JobUUID j) = None" and s: "synced j" and o: "created_once j"
  shows "follows (M(JobUUID j \<mapsto> j)) (b(Topic j := b (Topic j) + 1)) (sm_NotifyJobEvent e j ServiceEventJobLoaded m)"
proof -
  note d = followsD[OF tr]
  note f = NotifyLoaded_effect[OF d(2), where e = e and j = j]
  obtain sts where sts: "GetHistoryStates j = JobCreated # sts" "JobCreated \<notin> set sts"
    using o by (auto simp: created_once_def split: list.splits)
  have "JobDeleted \<notin> set (GetHistoryStates j)"
    by (auto simp: GetHistoryStates_def) (metis event_state_not_deleted)
  then have nd: "JobDeleted \<notin> set sts" by (simp add: sts(1))
  have st: "state j = last (JobCreated # sts)"
    using arg_cong[OF s[unfolded synced_def], of state] sts(1)
    by (simp add: SetStateFromHistory_def Let_def last_conv_nth del: last.simps)
  then have sd: "state j \<noteq> JobDeleted" using nd last_in_set[of "JobCreated # sts"] by auto
  have ll: "last (JobNoState # GetHistoryStates j) = state j" using st sts(1) by simp
  have c: "count_jobs Q (M(JobUUID j \<mapsto> j)) = count_jobs Q M + of_bool (Q j)" for Q
    using count_update[OF d(1), of Q "JobUUID j" "Some j"] u by simp
  show ?thesis unfolding follows_def
  proof (intro conjI allI impI)
    show "finite (dom (M(JobUUID j \<mapsto> j)))" by (rule finite_upd[OF d(1)])
    show "sm_wf (sm_NotifyJobEvent e j ServiceEventJobLoaded m)" by (rule f(1))
    fix u' j'
    assume "(M(JobUUID j \<mapsto> j)) u' = Some j'"
    then show "Topic j' \<in> set (Topics (sm_NotifyJobEvent e j ServiceEventJobLoaded m))" "state j' \<noteq> JobDeleted"
      using d(3,4)[of u' j'] f(2) sd by (auto split: if_splits)
  next
    fix t s
    assume s: "counted_state s"
    have "status_count s (metric_of t m) = status_count s (metric_of t m) + of_bool (s = JobNoState)"
      using s by (simp add: counted_state_def)
    from history_changes_count[OF s this, of "GetHistoryStates j", unfolded ll]
    show "status_count s (metric_of t (sm_NotifyJobEvent e j ServiceEventJobLoaded m))
        = count_jobs (topic_state t s) (M(JobUUID j \<mapsto> j))"
      using f(3)[of t] c[of "topic_state t s"] d(5)[OF s, of t] by (auto simp: topic_state_def)
  next
    fix t
    have h: "JobsExisting (history_changes JobNoState (GetHistoryStates j) jm) = JobsExisting jm + 1"
      "JobsCounterDeleted (history_changes JobNoState (GetHistoryStates j) jm) = JobsCounterDeleted jm" for jm
      using history_changes_total[of JobCreated sts] sts nd by (simp_all add: OnJobStateChange_total)
    show "JobsExisting (metric_of t (sm_NotifyJobEvent e j ServiceEventJobLoaded m)) = count_jobs (in_topic t) (M(JobUUID j \<mapsto> j))"
      "JobsExisting (metric_of t (sm_NotifyJobEvent e j ServiceEventJobLoaded m))
        + JobsCounterDeleted (metric_of t (sm_NotifyJobEvent e j ServiceEventJobLoaded m)) = (b(Topic j := b (Topic j) + 1)) t"
      "total_of t (sm_NotifyJobEvent e j ServiceEventJobLoaded m) = count_jobs (in_topic t) (M(JobUUID j \<mapsto> j))"
      using f(3,4)[of t] c[of "in_topic t"] d(6,7,8)[of t] h by (auto simp: in_topic_def)
    show "active_of t (sm_NotifyJobEvent e j ServiceEventJobLoaded m) = count_jobs (is_active t) (M(JobUUID j \<mapsto> j))"
      using f(5)[of t] c[of "is_active t"] d(9)[of t] by (auto simp: is_active_def)
  qed
qed

lemma follows_delete_all:
  assumes tr: "follows M b m"
  shows "follows (\<lambda>_. None) b (sm_NotifyEvent e ServiceEventJobDeletedAll m)"
proof -
  note d = followsD[OF tr]
  let ?m = "OnDeleteAllJobs m"
  have j: "map_of (JobMetricsByTopicMap ?m) t = map_option (\<lambda>jm. (JobMetrics_Clear jm)\<lparr>JobsCounterDeleted := JobsCounterDeleted jm + JobsExisting jm\<rparr>)
      (map_of (JobMetricsByTopicMap m) t)" for t
    by (simp add: OnDeleteAllJobs_def map_of_map Let_def)
  have k: "map_of (TopicMetricsByTopicMap ?m) t = map_option (\<lambda>tm. tm\<lparr>TotalJobs := 0, ActiveJobs := 0, SuccessRate := 0\<rparr>)
      (map_of (TopicMetricsByTopicMap m) t)" for t
    by (simp add: OnDeleteAllJobs_def map_of_map)
  have f: "Topics ?m = Topics m" "enabledCollect ?m = enabledCollect m"
    "map fst (JobMetricsByTopicMap ?m) = map fst (JobMetricsByTopicMap m)"
    by (simp_all add: OnDeleteAllJobs_def case_prod_unfold)
  have w: "sm_wf ?m" using d(2) by (auto simp: sm_wf_def rates_ok_def j k f)
  have c: "status_count st (metric_of t ?m) = 0" "JobsExisting (metric_of t ?m) = 0"
    "JobsCounterDeleted (metric_of t ?m) = b t" "total_of t ?m = 0" "active_of t ?m = 0" for t st
    using d(7)[of t] by (cases st; auto simp: metric_of_def total_of_def active_of_def j k JobMetrics_Clear_def NewJobMetrics_def split: option.splits)+
  have "follows (\<lambda>_. None) b ?m" using w c by (simp add: follows_def)
  moreover have "counts_kept ?m (sm_NotifyEvent e ServiceEventJobDeletedAll m)"
    using w by (simp add: sm_NotifyEvent_def prom_event_def counts_kept_def)
  ultimately show ?thesis by (rule follows_kept)
qed

section \<open>Along a trace\<close>

definition births :: "string \<Rightarrow> notif list \<Rightarrow> nat" where
  "births t ns = length (filter (\<lambda>n. case n of
      NJob j ev \<Rightarrow> (ev = ServiceEventJobCreated \<or> ev = ServiceEventJobLoaded) \<and> Topic j = t | _ \<Rightarrow> False) ns)"

lemma births_Cons: "births t (n # ns) = births t [n] + births t ns"
  by (simp add: births_def)

lemma births_append: "births t (a @ b) = births t a + births t b"
  by (simp add: births_def)

lemma follows_same:
  assumes tr: "follows M b m" and u: "M u = Some j0" "Topic j = Topic j0" "state j = state j0"
  shows "follows (M(u \<mapsto> j)) b m"
proof -
  note d = followsD[OF tr]
  have "count_jobs Q (M(u \<mapsto> j)) = count_jobs Q M" if "Q j \<longleftrightarrow> Q j0" for Q
    using count_update[OF d(1), of Q u "Some j"] that u(1) by simp
  then have c: "count_jobs (topic_state t st) (M(u \<mapsto> j)) = count_jobs (topic_state t st) M"
    "count_jobs (in_topic t) (M(u \<mapsto> j)) = count_jobs (in_topic t) M"
    "count_jobs (is_active t) (M(u \<mapsto> j)) = count_jobs (is_active t) M" for t st
    using u(2,3) by (simp_all add: topic_state_def in_topic_def is_active_def)
  have "Topic j' \<in> set (Topics m) \<and> state j' \<noteq> JobDeleted" if "(M(u \<mapsto> j)) w = Some j'" for w j'
    using that d(3,4) u by (auto split: if_splits)
  then show ?thesis using d(1,2,5-9) finite_upd[OF d(1)] unfolding follows_def c by blast
qed

lemma event_not_create: "history_event ev = Some h \<Longrightarrow> ev \<noteq> ServiceEventJobCreated \<Longrightarrow> GetStateFromEvent h \<noteq> JobCreated"
  by (cases ev) auto

lemma follows_step:
  assumes tr: "follows (jv_jobs v) b m" and ok: "notif_ok n v" and v: "\<not> jv_restore v" and s: "\<not> start_only n"
  shows "follows (jv_jobs (view_step n v)) (\<lambda>t. b t + births t [n]) (metrics_call e n m) \<and> \<not> jv_restore (view_step n v)"
proof -
  have c: "enabledCollect m" using followsD(2)[OF tr] by (simp add: sm_wf_def)
  have k: "births t [n] = 0" if "\<nexists>j ev. n = NJob j ev" for t
    using that by (cases n) (simp_all add: births_def)
  show ?thesis
  proof (cases n)
    case (NBackendJobUpdated j)
    then obtain j0 where j0: "jv_jobs v (JobUUID j) = Some j0" "j = j0\<lparr>VisibilityTimeout := VisibilityTimeout j\<rparr>"
      using ok unfolding notif_ok_def by blast
    have "Topic j = Topic j0" "state j = state j0"
      using arg_cong[OF j0(2), of Topic] arg_cong[OF j0(2), of state] by simp_all
    then show ?thesis using follows_same[OF tr j0(1)] follows_kept[OF tr counts_kept_other[OF followsD(2)[OF tr]], of n e]
        k v j0(1) NBackendJobUpdated by (simp add: changes_jobs_def metrics_observer_def)
  next
    case (NEvent ev)
    show ?thesis
    proof (cases "ev = ServiceEventJobDeletedAll")
      case True
      then show ?thesis using follows_delete_all[OF tr] NEvent k v c by (simp add: metrics_observer_def)
    next
      case False
      then show ?thesis using follows_kept[OF tr counts_kept_other[OF followsD(2)[OF tr]], of n e] k v NEvent
        by (simp add: changes_jobs_def view_step_other)
    qed
  next
    case (NJob j ev)
    have l: "ev \<noteq> ServiceEventJobLoaded" using s NJob by simp
    have m': "metrics_call e n m = sm_NotifyJobEvent e j ev m" using NJob c by (simp add: metrics_observer_def)
    have o: "if ev = ServiceEventJobCreated then jv_jobs v (JobUUID j) = None \<and> state j = JobCreated \<and> previousState j = JobNoState
        else \<exists>h j0. history_event ev = Some h \<and> jv_jobs v (JobUUID j) = Some j0 \<and> next_job h j0 j"
      using ok v NJob unfolding notif_ok_def by (auto split: if_splits)
    show ?thesis
    proof (cases "ev = ServiceEventJobCreated")
      case True
      have "(\<lambda>t. b t + births t [n]) = b(Topic j := b (Topic j) + 1)" using NJob True by (auto simp: births_def)
      then show ?thesis using follows_new[OF tr] o True v NJob m' by simp
    next
      case False
      then obtain h j0 where h: "history_event ev = Some h" "jv_jobs v (JobUUID j) = Some j0" "next_job h j0 j"
        using o by auto
      have b: "(\<lambda>t. b t + births t [n]) = b" using NJob False l by (auto simp: births_def)
      show ?thesis
      proof (cases "ev = ServiceEventJobDeleted")
        case True
        then show ?thesis using follows_removed[OF tr h(2)] h(3) NJob v m' b by (simp add: next_job_def)
      next
        case nd: False
        then show ?thesis using follows_change[OF tr _ h(2,3) event_not_create[OF h(1) False]] l False NJob v m' b h(2) by simp
      qed
    qed
  qed (use follows_kept[OF tr counts_kept_other[OF followsD(2)[OF tr]], of n e] k v s in \<open>simp_all add: changes_jobs_def\<close>)
qed

lemma follows_trace:
  assumes "follows (jv_jobs v) b m" "trace_ok k ns v" "\<not> jv_restore v" "\<forall>n \<in> set ns. \<not> start_only n"
  shows "follows (jv_jobs (replay_jobs ns v)) (\<lambda>t. b t + births t ns) (metrics_replay e ns m)"
  using assms
proof (induction ns arbitrary: v b m)
  case Nil
  then show ?case by (simp add: births_def replay_jobs_def metrics_replay_def)
next
  case (Cons n ns)
  have "notif_ok n v" "trace_ok k ns (view_step n v)" "\<not> start_only n" using Cons.prems by simp_all
  then show ?case using follows_step[OF Cons.prems(1) _ Cons.prems(3), of n e]
      Cons.IH[of "view_step n v" "\<lambda>t. b t + births t [n]" "metrics_call e n m"] Cons.prems(4)
    by (simp add: replay_jobs_def metrics_replay_def births_Cons[of _ n ns] add.assoc)
qed

section \<open>The start\<close>

lemma follows_nothing: "follows (\<lambda>_. None) (\<lambda>_. 0) (sm_Init (NewServiceMetrics True))"
proof -
  have "status_count st NewJobMetrics = 0" for st by (cases st) (simp_all add: NewJobMetrics_def)
  then show ?thesis by (simp add: follows_def sm_wf_def rates_ok_def sm_Init_def NewServiceMetrics_def metric_of_def
      total_of_def active_of_def) (simp add: NewJobMetrics_def)
qed

lemma metrics_replay_append: "metrics_replay e (a @ b) m = metrics_replay e b (metrics_replay e a m)"
  by (simp add: metrics_replay_def)

lemma follows_others:
  assumes "follows M b m" "\<forall>n \<in> set ns. \<not> changes_jobs n"
  shows "follows M b (metrics_replay e ns m)"
  using assms
proof (induction ns arbitrary: m)
  case (Cons n ns)
  then have "follows M b (metrics_call e n m)"
    using follows_kept[OF Cons.prems(1) counts_kept_other[OF followsD(2)[OF Cons.prems(1)]]] by simp
  then show ?case using Cons by (simp add: metrics_replay_def)
qed (simp add: metrics_replay_def)

lemma load_trace_Cons: "load_trace ujs (u # ids) =
    [NJob (the (map_of ujs u)) ServiceEventJobLoaded, NLockedCount (Topic (the (map_of ujs u))) 0] @ load_trace ujs ids"
  by (simp add: load_trace_def Let_def)

lemma follows_load:
  assumes "follows M b m" "distinct ids" "\<forall>u \<in> set ids. M u = None"
    and "\<forall>u \<in> set ids. \<exists>j. map_of ujs u = Some j \<and> JobUUID j = u \<and> synced j \<and> created_once j"
  shows "follows (M ++ (map_of ujs |` set ids)) (\<lambda>t. b t + births t (load_trace ujs ids))
    (metrics_replay e (load_trace ujs ids) m)"
  using assms
proof (induction ids arbitrary: M b m)
  case Nil
  then show ?case by (simp add: load_trace_def births_def metrics_replay_def)
next
  case (Cons u ids)
  obtain j where j: "map_of ujs u = Some j" "JobUUID j = u" "synced j" "created_once j" using Cons.prems(4) by auto
  have c: "enabledCollect m" using followsD(2)[OF Cons.prems(1)] by (simp add: sm_wf_def)
  let ?h = "[NJob j ServiceEventJobLoaded, NLockedCount (Topic j) 0]"
  let ?b = "\<lambda>t. b t + births t ?h"
  let ?m = "metrics_call e (NLockedCount (Topic j) 0) (sm_NotifyJobEvent e j ServiceEventJobLoaded m)"
  have b: "?b = b(Topic j := b (Topic j) + 1)" by (auto simp: births_def)
  have "follows (M(u \<mapsto> j)) ?b (sm_NotifyJobEvent e j ServiceEventJobLoaded m)"
    unfolding b using follows_loaded[OF Cons.prems(1) _ j(3,4)] Cons.prems(3) j(2) by simp
  then have t: "follows (M(u \<mapsto> j)) ?b ?m"
    by (rule follows_kept[OF _ counts_kept_other]) (simp_all add: followsD(2)[OF \<open>follows _ _ (sm_NotifyJobEvent e j _ m)\<close>] changes_jobs_def)
  have "follows (M(u \<mapsto> j) ++ (map_of ujs |` set ids)) (\<lambda>t. ?b t + births t (load_trace ujs ids))
      (metrics_replay e (load_trace ujs ids) ?m)"
    using Cons.prems by (intro Cons.IH[OF t]) auto
  moreover have "M(u \<mapsto> j) ++ (map_of ujs |` set ids) = M ++ (map_of ujs |` set (u # ids))"
    using Cons.prems(2) j(1) by (auto simp: map_add_def restrict_map_def fun_eq_iff split: option.splits)
  moreover have "births t (load_trace ujs (u # ids)) = births t ?h + births t (load_trace ujs ids)" for t
    unfolding load_trace_Cons births_append using j(1) by simp
  moreover have "metrics_replay e (load_trace ujs (u # ids)) m = metrics_replay e (load_trace ujs ids) ?m"
    unfolding load_trace_Cons metrics_replay_append using j(1) c by (simp add: metrics_replay_def metrics_observer_def)
  ultimately show ?case by (simp add: add.assoc)
qed

section \<open>The metrics of a reachable state\<close>

definition metrics_of :: "metrics_env \<Rightarrow> svc \<Rightarrow> ServiceMetrics" where
  "metrics_of e s = metrics_replay e (sv_out s) (sm_Init (NewServiceMetrics True))"

lemma births_nothing: "\<forall>n \<in> set ns. \<not> changes_jobs n \<Longrightarrow> births t ns = 0"
  by (auto simp: births_def filter_empty_conv changes_jobs_def split: notif.splits)

lemma follows_reachable:
  assumes ok: "loaded_ok ujs" and o: "\<forall>(u, j) \<in> set ujs. created_once j" and st: "svc_step\<^sup>*\<^sup>* (started e c ujs) s"
  shows "follows (\<lambda>u. map_option (job_at s) (lookup_job u s)) (\<lambda>t. births t (sv_out s)) (metrics_of me s)"
proof (rule started_trace[OF ok, of e c])
  fix ids and counts :: "(string \<times> int) list" and out0
  let ?c = "map (\<lambda>(t, n). NLockedCount t n) counts @ [NRestoreFlag False]"
  let ?load = "[NRestoreFlag True] @ load_trace ujs ids @ map (\<lambda>(t, n). NLockedCount t n) counts @ [NRestoreFlag False]"
  let ?m0 = "sm_Init (NewServiceMetrics True)"
  assume ids: "distinct ids" "set ids = fst ` set ujs" and o0: "sv_out (started e c ujs) = ?load @ out0"
    and n0: "\<forall>n \<in> set out0. \<not> start_only n"
  obtain out1 where o1: "sv_out s = sv_out (started e c ujs) @ out1" "\<forall>n \<in> set out1. \<not> start_only n"
    using grows_steps[OF st] by (auto simp: grows_def)
  have out: "sv_out s = ?load @ out0 @ out1" using o0 o1(1) by simp
  have k: "\<exists>j. map_of ujs u = Some j \<and> JobUUID j = u \<and> synced j \<and> created_once j" if u: "u \<in> set ids" for u
  proof -
    obtain j where "(u, j) \<in> set ujs" using u ids(2) by auto
    moreover have "wf_map ujs" using ok by (simp add: loaded_ok_def)
    ultimately show ?thesis using ok o by (fastforce simp: loaded_ok_def)
  qed
  have t0: "follows (\<lambda>_. None) (\<lambda>_. 0) (metrics_replay me [NRestoreFlag True] ?m0)"
    by (rule follows_others[OF follows_nothing]) (simp add: changes_jobs_def)
  have "follows ((\<lambda>_. None) ++ (map_of ujs |` set ids)) (\<lambda>t. 0 + births t (load_trace ujs ids))
      (metrics_replay me (load_trace ujs ids) (metrics_replay me [NRestoreFlag True] ?m0))"
    using k by (intro follows_load[OF t0 ids(1)]) simp_all
  moreover have "(\<lambda>_. None) ++ (map_of ujs |` set ids) = map_of ujs"
    using ids(2) by (auto simp: restrict_map_def map_add_def fun_eq_iff dom_map_of_conv_image_fst[symmetric] split: option.splits)
  ultimately have "follows (map_of ujs) (\<lambda>t. births t (load_trace ujs ids))
      (metrics_replay me (load_trace ujs ids) (metrics_replay me [NRestoreFlag True] ?m0))" by simp
  moreover have ch: "\<forall>n \<in> set (map (\<lambda>(t, n). NLockedCount t n) counts). \<not> changes_jobs n"
    "\<forall>n \<in> set [NRestoreFlag b]. \<not> changes_jobs n" for b
    by (auto simp: changes_jobs_def)
  ultimately have "follows (map_of ujs) (\<lambda>t. births t (load_trace ujs ids)) (metrics_replay me ?load ?m0)"
    unfolding metrics_replay_append by (intro follows_others[OF follows_others[OF _ ch(1)] ch(2)])
  then have l: "follows (jv_jobs (loaded_view ujs)) (\<lambda>t. births t ?load) (metrics_replay me ?load ?m0)"
    by (simp only: births_append births_nothing[OF ch(1)] births_nothing[OF ch(2)] add_0 add_0_right jobs_view.select_convs)
  have "trace_ok (BackendMaxJobs (sv_conf s)) (?load @ out0 @ out1) (loaded_view ujs)"
    using mirror_jobs(1)[OF ok st] by (simp only: out)
  then have tk: "trace_ok (BackendMaxJobs (sv_conf s)) (out0 @ out1) (loaded_view ujs)"
    using loading_trace(1)[of ?load ujs ids counts] unfolding trace_ok_append[of _ ?load] by simp
  have v: "jv_jobs (replay_jobs (out0 @ out1) (loaded_view ujs)) = (\<lambda>u. map_option (job_at s) (lookup_job u s))"
    using mirror_jobs(2)[OF ok st] loading_trace(1)[of ?load ujs ids counts] unfolding out replay_jobs_append[of ?load] by auto
  have "follows (jv_jobs (replay_jobs (out0 @ out1) (loaded_view ujs))) (\<lambda>t. births t ?load + births t (out0 @ out1))
      (metrics_replay me (out0 @ out1) (metrics_replay me ?load ?m0))"
    using follows_trace[OF l tk] n0 o1(2) by auto
  then show ?thesis unfolding v metrics_of_def out by (simp only: metrics_replay_append[of _ ?load] births_append[of _ ?load])
qed

section \<open>What the metrics answer\<close>

lemma count_live:
  assumes "base_inv s"
  shows "count_jobs Q (\<lambda>u. map_option (job_at s) (lookup_job u s)) = card {p \<in> live s. Q (job_at s p)}"
proof -
  have i: "map_of (sv_jobs s) u = Some p \<Longrightarrow> JobUUID (job_at s p) = u" for u p
    using assms unfolding base_inv_def by blast
  have e: "(\<lambda>u. the (map_of (sv_jobs s) u)) ` {u. \<exists>j. map_option (job_at s) (lookup_job u s) = Some j \<and> Q j}
      = {p \<in> live s. Q (job_at s p)}"
    by (force simp: lookup_job_def live_def ran_def image_iff simp del: map_of_eq_Some_iff)
  have "inj_on (\<lambda>u. the (map_of (sv_jobs s) u)) {u. \<exists>j. map_option (job_at s) (lookup_job u s) = Some j \<and> Q j}"
    by (rule inj_onI) (auto simp: lookup_job_def simp del: map_of_eq_Some_iff, metis i)
  from card_image[OF this] show ?thesis unfolding e count_jobs_def by simp
qed

lemma count_topics:
  assumes "finite (dom M)" "finite T" "\<And>u j. M u = Some j \<Longrightarrow> Topic j \<in> T"
  shows "count_jobs Q M = (\<Sum>t \<in> T. count_jobs (\<lambda>j. Topic j = t \<and> Q j) M)"
proof -
  have "{u. \<exists>j. M u = Some j \<and> Q j} = (\<Union>t \<in> T. {u. \<exists>j. M u = Some j \<and> Topic j = t \<and> Q j})"
    using assms(3) by auto
  moreover have "finite {u. \<exists>j. M u = Some j \<and> Topic j = t \<and> Q j}" for t
    by (rule finite_subset[OF _ assms(1)]) (auto simp: dom_def)
  ultimately show ?thesis unfolding count_jobs_def
    by (simp only:) (subst card_UN_disjoint[OF assms(2)], auto)
qed

fun stat_count :: "JobState \<Rightarrow> JobStatsMetrics \<Rightarrow> nat" where
  "stat_count JobCreated st = CreatedJobs st"
| "stat_count JobDelayed st = DelayedJobs st"
| "stat_count JobPending st = PendingJobs st"
| "stat_count JobQueued st = QueuedJobs st"
| "stat_count JobRunning st = RunningJobs st"
| "stat_count JobSucceeded st = SucceededJobs st"
| "stat_count JobFailed st = FailedJobs st"
| "stat_count JobHidden st = HiddenJobs st"
| "stat_count JobCanceled st = CanceledJobs st"
| "stat_count _ st = 0"

lemma stats_sum:
  assumes "sm_wf m"
  shows "stat_count st (GetJobMetricsByStatus m) = (\<Sum>t \<in> set (Topics m). status_count st (metric_of t m))"
    "ExistingJobs (GetJobMetricsByStatus m) = (\<Sum>t \<in> set (Topics m). JobsExisting (metric_of t m))"
    "DeletedJobs (GetJobMetricsByStatus m) = (\<Sum>t \<in> set (Topics m). JobsCounterDeleted (metric_of t m))"
proof -
  have a: "stat_count st (add_stats jm a) = stat_count st a + status_count st jm" for a jm
    by (cases st) (simp_all add: add_stats_def)
  have f: "g (foldl (\<lambda>a (t, jm). add_stats jm a) a xs) = g a + sum_list (map (\<lambda>(t, jm). h jm) xs)"
    if "\<And>a jm. g (add_stats jm a) = g a + (h jm :: nat)" for g h a and xs :: "(string \<times> JobMetrics) list"
    using that by (induction xs arbitrary: a) auto
  have k: "fst ` set (JobMetricsByTopicMap m) = set (Topics m)"
    using assms by (auto simp: sm_wf_def fst_set_dom dom_def)
  have w: "wf_map (JobMetricsByTopicMap m)" using assms by (simp add: sm_wf_def)
  have s: "sum_list (map (\<lambda>(t, jm). h jm) (JobMetricsByTopicMap m)) = (\<Sum>t \<in> set (Topics m). h (metric_of t m))"
    for h :: "JobMetrics \<Rightarrow> nat"
  proof -
    have "map (\<lambda>(t, jm). h jm) (JobMetricsByTopicMap m) = map (\<lambda>t. h (metric_of t m)) (map fst (JobMetricsByTopicMap m))"
      using w by (auto simp: metric_of_def)
    moreover have "sum_list (map (\<lambda>t. h (metric_of t m)) (map fst (JobMetricsByTopicMap m)))
        = (\<Sum>t \<in> set (map fst (JobMetricsByTopicMap m)). h (metric_of t m))"
      using w by (rule sum_list_distinct_conv_sum_set)
    ultimately show ?thesis using k by (simp only: set_map)
  qed
  show "stat_count st (GetJobMetricsByStatus m) = (\<Sum>t \<in> set (Topics m). status_count st (metric_of t m))"
    unfolding GetJobMetricsByStatus_def f[of "stat_count st", OF a] s by (cases st) simp_all
  show "ExistingJobs (GetJobMetricsByStatus m) = (\<Sum>t \<in> set (Topics m). JobsExisting (metric_of t m))"
    "DeletedJobs (GetJobMetricsByStatus m) = (\<Sum>t \<in> set (Topics m). JobsCounterDeleted (metric_of t m))"
    unfolding GetJobMetricsByStatus_def using f[of ExistingJobs JobsExisting] f[of DeletedJobs JobsCounterDeleted]
    by (simp_all add: s add_stats_def)
qed

lemma metrics_counts:
  fixes me
  assumes ok: "loaded_ok ujs" and o: "\<forall>(u, j) \<in> set ujs. created_once j" and st: "svc_step\<^sup>*\<^sup>* (started e c ujs) s"
  defines "m \<equiv> metrics_of me s"
  shows "sm_wf m"
    "counted_state x \<Longrightarrow> status_count x (metric_of t m) = card {p \<in> live s. Topic (job_at s p) = t \<and> state (job_at s p) = x}"
    "JobsExisting (metric_of t m) = card {p \<in> live s. Topic (job_at s p) = t}"
    "JobsExisting (metric_of t m) + JobsCounterDeleted (metric_of t m) = births t (sv_out s)"
    "total_of t m = card {p \<in> live s. Topic (job_at s p) = t}"
    "active_of t m = card {p \<in> live s. Topic (job_at s p) = t \<and> active_state (state (job_at s p))}"
    "counted_state x \<Longrightarrow> stat_count x (GetJobMetricsByStatus m) = card {p \<in> live s. state (job_at s p) = x}"
    "ExistingJobs (GetJobMetricsByStatus m) = card (live s)"
    "p \<in> live s \<Longrightarrow> Topic (job_at s p) \<in> set (Topics m)"
proof -
  let ?M = "\<lambda>u. map_option (job_at s) (lookup_job u s)"
  have tr: "follows ?M (\<lambda>t. births t (sv_out s)) m" unfolding m_def by (rule follows_reachable[OF ok o st])
  note d = followsD[OF tr]
  have b: "base_inv s" using steps_mirror[OF st ok] by (simp add: svc_inv_def inv_except_def)
  note l = count_live[OF b]
  show "sm_wf m" by (rule d(2))
  show "counted_state x \<Longrightarrow> status_count x (metric_of t m) = card {p \<in> live s. Topic (job_at s p) = t \<and> state (job_at s p) = x}"
    using d(5)[of x t] l[of "topic_state t x"] by (simp add: topic_state_def)
  show e: "JobsExisting (metric_of t m) = card {p \<in> live s. Topic (job_at s p) = t}" for t
    using d(6)[of t] l[of "in_topic t"] by (simp add: in_topic_def)
  show "JobsExisting (metric_of t m) + JobsCounterDeleted (metric_of t m) = births t (sv_out s)" by (rule d(7))
  show "total_of t m = card {p \<in> live s. Topic (job_at s p) = t}"
    using d(8)[of t] l[of "in_topic t"] by (simp add: in_topic_def)
  show "active_of t m = card {p \<in> live s. Topic (job_at s p) = t \<and> active_state (state (job_at s p))}"
    using d(9)[of t] l[of "is_active t"] by (simp add: is_active_def)
  have T: "\<And>u j. ?M u = Some j \<Longrightarrow> Topic j \<in> set (Topics m)" by (rule d(3))
  show "stat_count x (GetJobMetricsByStatus m) = card {p \<in> live s. state (job_at s p) = x}" if "counted_state x"
    using stats_sum(1)[OF d(2), of x] d(5)[OF that] count_topics[OF d(1) _ T, where Q = "\<lambda>j. state j = x"] l[of "\<lambda>j. state j = x"]
    by (simp add: topic_state_def[abs_def])
  show "ExistingJobs (GetJobMetricsByStatus m) = card (live s)"
    using stats_sum(2)[OF d(2)] d(6) count_topics[OF d(1) _ T, where Q = "\<lambda>j. True"] l[of "\<lambda>j. True"]
    by (simp add: in_topic_def[abs_def])
  show "Topic (job_at s p) \<in> set (Topics m)" if p: "p \<in> live s"
  proof -
    obtain u where "map_of (sv_jobs s) u = Some p" using p by (auto simp: live_def ran_def)
    then show ?thesis using T[of u "job_at s p"] by (simp add: lookup_job_def)
  qed
qed

end
