(* ===== verification/MetricsStats.thy ===== *)
theory MetricsStats
  imports MetricsCount
begin

text \<open>
  The periodic statistics of the metrics never panic: the percentile of a rounded rank is in
  the slice, every job of the scheduler has the history its age is computed from, and the two
  percentile calculators, which every turn reuses, keep their labels and the length of their
  result.
\<close>

definition pm_ok :: "PercentilesMetrics \<Rightarrow> bool" where
  "pm_ok pm \<longleftrightarrow> BucketsPercentiles pm = BucketsJobDurationPercentiles
    \<and> CptPercentiles pm = length BucketsJobDurationPercentiles
    \<and> PercentileLabels pm = [''p5'', ''p10'', ''p25'', ''p50'', ''p75'', ''p90'', ''p95'', ''p99'', ''p100'']
    \<and> length (pm_Values pm) = length BucketsJobDurationPercentiles"

definition calc_ok :: "ServiceMetrics \<Rightarrow> bool" where
  "calc_ok m \<longleftrightarrow> pm_ok (ActiveJobsPercentiles (sm_prom m)) \<and> pm_ok (CompletedJobsPercentiles (sm_prom m))"

lemma pm_ok_new: "pm_ok (NewPercentilesMetrics BucketsJobDurationPercentiles)"
  using bucket_labels by (simp add: pm_ok_def NewPercentilesMetrics_def pm_Init_def)

lemma calc_ok_new: "calc_ok (sm_Init (NewServiceMetrics b))"
  by (simp add: calc_ok_def sm_Init_def NewServiceMetrics_def prom_Init_def pm_ok_new)

lemma pm_Compute_ok:
  assumes "pm_ok pm" "length xs \<le> 2 ^ 53"
  shows "\<exists>pm'. pm_Compute xs pm = Some pm' \<and> pm_ok pm'"
  using assms(1) Percentiles_some[OF assms(2) buckets_range, of "replicate (length BucketsJobDurationPercentiles) 0"]
  by (simp add: pm_Compute_def pm_Reset_def pm_ok_def)

lemma duration_gauges_ok:
  assumes "pm_ok pm" "length xs \<le> 2 ^ 53"
  shows "\<exists>pm' cs. duration_gauges t st xs pm = Some (pm', cs) \<and> pm_ok pm'"
  using pm_Compute_ok[OF assms] assms(1) by (auto simp: duration_gauges_def)

definition prom_ok :: "PrometheusMetrics \<Rightarrow> bool" where
  "prom_ok q \<longleftrightarrow> pm_ok (ActiveJobsPercentiles q) \<and> pm_ok (CompletedJobsPercentiles q)"

lemma prom_ok_emit [simp]: "prom_ok (prom_emit cs q) = prom_ok q"
  by (simp add: prom_ok_def prom_emit_def)

lemma calc_ok_prom: "calc_ok m \<longleftrightarrow> prom_ok (sm_prom m)"
  by (simp add: calc_ok_def prom_ok_def)

lemma duration_gauges_loop_ok:
  "prom_ok q \<Longrightarrow> \<forall>(t, d) \<in> set p. length (ActiveJobsDurations d) \<le> 2 ^ 53 \<and> length (CompletedJobsDurations d) \<le> 2 ^ 53
    \<Longrightarrow> \<exists>q'. duration_gauges_loop p q = Some q' \<and> prom_ok q'"
proof (induction p arbitrary: q)
  case (Cons x p)
  obtain t d where x: "x = (t, d)" by fastforce
  have l: "length (ActiveJobsDurations d) \<le> 2 ^ 53" "length (CompletedJobsDurations d) \<le> 2 ^ 53"
    using Cons.prems(2) by (simp_all add: x)
  have q: "pm_ok (ActiveJobsPercentiles q)" "pm_ok (CompletedJobsPercentiles q)"
    using Cons.prems(1) by (simp_all add: prom_ok_def)
  obtain a as where a: "duration_gauges t ''active'' (ActiveJobsDurations d) (ActiveJobsPercentiles q) = Some (a, as)" "pm_ok a"
    using duration_gauges_ok[OF q(1) l(1)] by blast
  obtain c cs where c: "duration_gauges t ''completed'' (CompletedJobsDurations d) (CompletedJobsPercentiles q) = Some (c, cs)" "pm_ok c"
    using duration_gauges_ok[OF q(2) l(2)] by blast
  have "prom_ok (prom_emit (as @ cs) (q\<lparr>ActiveJobsPercentiles := a, CompletedJobsPercentiles := c\<rparr>))"
    using a c by (simp add: prom_ok_def prom_emit_def)
  then show ?case using Cons.IH Cons.prems(2) a(1) c(1) by (simp add: x)
qed simp

section \<open>Durations\<close>

text \<open>No list of durations is longer than the list of jobs.\<close>

definition short :: "nat \<Rightarrow> PercentilesDetail \<Rightarrow> bool" where
  "short n d \<longleftrightarrow> length (ActiveJobsDurations d) + length (CompletedJobsDurations d) \<le> n"

lemma set_update_alist: "set (AList.update k v m) \<subseteq> insert (k, v) (set m)"
  by (induction m) auto

lemma job_durations_some:
  assumes "\<forall>j \<in> set js. History j \<noteq> []" "\<forall>(t, d) \<in> set p. short k d"
  shows "\<exists>p'. job_durations now js p = Some p' \<and> (\<forall>(t, d) \<in> set p'. short (k + length js) d)"
  using assms
proof (induction js arbitrary: p k)
  case Nil
  then show ?case by simp
next
  case (Cons j js)
  have s: "short k (detail_of (Topic j) p)"
    using Cons.prems(2) map_of_SomeD[of p "Topic j"]
    by (force simp: detail_of_def no_durations_def short_def split: option.splits)
  have u: "\<forall>(t, d) \<in> set (AList.update (Topic j) d' p). short (Suc k) d" if "short (Suc k) d'" for d'
    using that Cons.prems(2) set_update_alist[of "Topic j" d' p] by (fastforce simp: short_def)
  obtain t where t: "GetCreationTimestamp j = Some t" using Cons.prems(1) by (auto simp: GetCreationTimestamp_def neq_Nil_conv)
  have c: "short (Suc k) ((detail_of (Topic j) p)\<lparr>CompletedJobsDurations := CompletedJobsDurations (detail_of (Topic j) p) @ [x]\<rparr>)"
    "short (Suc k) ((detail_of (Topic j) p)\<lparr>ActiveJobsDurations := ActiveJobsDurations (detail_of (Topic j) p) @ [x]\<rparr>)" for x
    using s by (simp_all add: short_def)
  show ?case using Cons.IH[OF _ u[OF c(1)]] Cons.IH[OF _ u[OF c(2)]] Cons.prems(1) t by (simp add: Let_def)
qed

lemma topic_durations_some:
  assumes "\<forall>j \<in> set js. History j \<noteq> []"
  shows "\<exists>p. topic_durations now js ts = Some p \<and> (\<forall>(t, d) \<in> set p. short (length js) d)"
proof -
  have "\<forall>(t, d) \<in> set (foldl (\<lambda>p t. AList.update t no_durations p) p ts). short 0 d"
    if "\<forall>(t, d) \<in> set p. short 0 d" for p
    using that
  proof (induction ts arbitrary: p)
    case (Cons t ts)
    have "\<forall>(t, d) \<in> set (AList.update t no_durations p). short 0 d"
      using Cons.prems set_update_alist[of t no_durations p] by (fastforce simp: short_def no_durations_def)
    then show ?case using Cons.IH by simp
  qed simp
  from this[of "[]"] job_durations_some[OF assms] obtain p
    where "job_durations now js (foldl (\<lambda>p t. AList.update t no_durations p) [] ts) = Some p"
      "\<forall>(t, d) \<in> set p. short (length js) d" by fastforce
  then show ?thesis by (fastforce simp: topic_durations_def short_def sort_durations_def)
qed

lemma observe_active_some:
  "\<forall>j \<in> set js. History j \<noteq> [] \<Longrightarrow> calc_ok m \<Longrightarrow> \<exists>m'. observe_active now js m = (False, m') \<and> calc_ok m'"
  by (induction js arbitrary: m)
    (auto simp: GetCreationTimestamp_def sm_emit_def calc_ok_prom neq_Nil_conv split: list.splits)

lemma UpdateJobStatistics_ok:
  assumes "calc_ok m" "\<forall>j \<in> set js. History j \<noteq> []" "length js \<le> 2 ^ 53"
  shows "\<exists>m'. sm_UpdateJobStatistics e js m = (False, m') \<and> calc_ok m'"
proof (cases "enabledCollect m")
  case True
  let ?m1 = "sm_emit (map (\<lambda>t. ActiveObserve t 0) (Topics (sm_emit [ActiveReset] m))) (sm_emit [ActiveReset] m)"
  obtain now m2 where m2: "sm_time_now e ?m1 = (now, m2)" by fastforce
  have "calc_ok m2" using m2 assms(1) by (auto simp: sm_time_now_def sm_emit_def calc_ok_prom)
  then obtain m3 where m3: "observe_active now js m2 = (False, m3)" "calc_ok m3"
    using observe_active_some[OF assms(2)] by blast
  obtain p where p: "topic_durations now js (Topics m3) = Some p" "\<forall>(t, d) \<in> set p. short (length js) d"
    using topic_durations_some[OF assms(2)] by blast
  have "prom_ok (prom_emit [PercentilesReset] (sm_prom m3))" using m3(2) by (simp add: calc_ok_prom)
  moreover have "\<forall>(t, d) \<in> set p. length (ActiveJobsDurations d) \<le> 2 ^ 53 \<and> length (CompletedJobsDurations d) \<le> 2 ^ 53"
    using p(2) assms(3) by (fastforce simp: short_def)
  ultimately obtain q where q: "UpdateJobDurationGauges p (sm_prom m3) = Some q" "prom_ok q"
    unfolding UpdateJobDurationGauges_def using duration_gauges_loop_ok by blast
  then show ?thesis using True m2 m3 p(1)
    by (simp add: sm_UpdateJobStatistics_def UpdateJobDurationPercentiles_def calc_ok_prom Let_def)
qed (simp add: sm_UpdateJobStatistics_def assms)

section \<open>Along a trace\<close>

lemma prom_ok_OnEvent [simp]: "prom_ok (OnEvent lib ev jm q) = prom_ok q"
  by (simp add: OnEvent_def updateJobMetrics_def SetGauges_def InitCustomMetrics_def ResetAllGauges_def Let_def)

lemma GetMetric_prom: "GetMetricByTopic t m = (jm, m') \<Longrightarrow> sm_prom m' = sm_prom m"
  by (auto simp: GetMetricByTopic_def AddTopic_def AddTopicMetrics_def AddCompletedJobStats_def Let_def split: option.splits)

lemma GetTopic_prom: "GetTopicMetrics t m = (tm, m') \<Longrightarrow> sm_prom m' = sm_prom m"
  by (auto simp: GetTopicMetrics_def AddTopicMetrics_def Let_def split: option.splits)

lemma count_prom: "sm_prom (updateResourcesLockedCount t i m) = sm_prom m"
  using GetMetric_prom[of t m] by (auto simp: updateResourcesLockedCount_def put_metrics_def Let_def split: prod.splits)

lemma UpdateTopic_prom: "sm_prom (UpdateTopicMetrics t p n d m) = sm_prom m"
proof -
  have "sm_prom (UpdateCompletedJobStats t d m) = sm_prom m" "sm_prom (snd (GetCompletedJobStats t m)) = sm_prom m" for m
    by (auto simp: UpdateCompletedJobStats_def GetCompletedJobStats_def AddCompletedJobStats_def Let_def split: option.splits prod.splits)
  then show ?thesis using GetTopic_prom[of t m] GetMetric_prom[of t]
    by (auto simp: UpdateTopicMetrics_def put_topic_def Let_def case_prod_unfold split: prod.splits) (metis prod.collapse)+
qed

lemma NotifyJob_prom_ok: "calc_ok m \<Longrightarrow> calc_ok (sm_NotifyJobEvent e j ev m)"
  using GetMetric_prom[of "Topic j"] GetTopic_prom[of "Topic j"]
  by (auto simp: sm_NotifyJobEvent_def calc_ok_prom prom_event_def UpdateMetricsFromJobHistory_def UpdateTopic_prom
      SetGauges_def put_metrics_def put_topic_def Let_def split: prod.splits)

lemma Percentiles_length: "Percentiles xs ps out = Some out' \<Longrightarrow> length out' = length out"
proof -
  have "percentiles_loop xs ps i out = Some out' \<Longrightarrow> length out' = length out" for i
    by (induction xs ps i out rule: percentiles_loop.induct) (auto simp: Let_def split: if_splits)
  moreover have "zeros_loop ps i out = Some out' \<Longrightarrow> length out' = length out" for i
    by (induction ps i out rule: zeros_loop.induct) (auto split: if_splits)
  ultimately show "Percentiles xs ps out = Some out' \<Longrightarrow> length out' = length out"
    by (auto simp: Percentiles_def split: if_splits)
qed

lemma duration_gauges_keeps: "pm_ok pm \<Longrightarrow> duration_gauges t st xs pm = Some (pm', cs) \<Longrightarrow> pm_ok pm'"
  by (auto simp: duration_gauges_def pm_Compute_def pm_Reset_def pm_ok_def dest!: Percentiles_length split: if_splits)

lemma duration_gauges_loop_keeps: "prom_ok q \<Longrightarrow> duration_gauges_loop p q = Some q' \<Longrightarrow> prom_ok q'"
proof (induction p q rule: duration_gauges_loop.induct)
  case (2 t d p q)
  obtain a as c cs where a: "duration_gauges t ''active'' (ActiveJobsDurations d) (ActiveJobsPercentiles q) = Some (a, as)"
    "duration_gauges t ''completed'' (CompletedJobsDurations d) (CompletedJobsPercentiles q) = Some (c, cs)"
    using "2.prems"(2) by (auto split: option.splits)
  then have "prom_ok (prom_emit (as @ cs) (q\<lparr>ActiveJobsPercentiles := a, CompletedJobsPercentiles := c\<rparr>))"
    using "2.prems"(1) duration_gauges_keeps by (simp add: prom_ok_def prom_emit_def) blast
  then show ?case using "2.IH"[OF a(1) refl a(2) refl] "2.prems"(2) a by simp
qed simp

lemma UpdateJobStatistics_keeps:
  assumes "calc_ok m"
  shows "calc_ok (snd (sm_UpdateJobStatistics e js m))"
proof -
  have o: "calc_ok m \<Longrightarrow> calc_ok (snd (observe_active now js m))" for now js m
    by (induction js arbitrary: m) (auto simp: sm_emit_def calc_ok_prom split: option.splits)
  have u: "calc_ok m \<Longrightarrow> calc_ok (snd (UpdateJobDurationPercentiles js now m))" for now js m
    using duration_gauges_loop_keeps[of "prom_emit [PercentilesReset] (sm_prom m)"]
    by (auto simp: UpdateJobDurationPercentiles_def UpdateJobDurationGauges_def calc_ok_prom split: option.splits)
  show ?thesis using assms o u
    by (auto simp: sm_UpdateJobStatistics_def sm_time_now_def sm_emit_def calc_ok_prom Let_def case_prod_unfold)
qed

lemma calc_ok_call:
  assumes "calc_ok m"
  shows "calc_ok (metrics_call e n m)"
proof -
  have "calc_ok (sm_NotifyTopicEvent e ev t m)" for ev t
    using assms GetMetric_prom[of t m] by (auto simp: sm_NotifyTopicEvent_def EnsureTopicExists_def prom_event_def calc_ok_prom
        AddTopic_def AddTopicMetrics_def AddCompletedJobStats_def Let_def split: option.splits)
  then show ?thesis using assms NotifyJob_prom_ok UpdateJobStatistics_keeps
    by (cases n) (auto simp: metrics_observer_def sm_NotifyEvent_def prom_event_def OnDeleteAllJobs_def
        sm_UpdateResourcesLockedCountMetric_def count_prom OnUnlockAllResources_def OnResourceUnlocked_def calc_ok_prom)
qed

lemma calc_ok_metrics: "calc_ok (metrics_of e s)"
proof -
  have "calc_ok m \<Longrightarrow> calc_ok (metrics_replay e ns m)" for m ns
    by (induction ns arbitrary: m) (simp_all add: metrics_replay_def calc_ok_call)
  then show ?thesis unfolding metrics_of_def using calc_ok_new by blast
qed

end
