(* ===== verification/SchemaCheck.thy ===== *)
theory SchemaCheck
  imports Job "HOL-Library.Char_ord" "HOL-Library.List_Lexorder"
begin

text \<open>
  The check of the JSON schema at the start (\<^verbatim>\<open>checkSchema\<close> in \<^verbatim>\<open>src/web/jsonschema.go\<close>):
  it refuses the parts of a schema that make the validator panic on a request. A schema is
  the JSON value \<^verbatim>\<open>encoding/json\<close> decoded; \<^verbatim>\<open>jsonschema.IsLocalSchemaID\<close> of the validator library
  is the parameter \<open>is_local\<close>. An error carries what its message is made of. The walk is
  compared with the set of the subschemas it is meant to reach (\<open>reaches\<close>).
\<close>

section \<open>Definitions\<close>

definition escapePointerToken :: "string \<Rightarrow> string" where
  "escapePointerToken key = concat (map (\<lambda>c.
    if c = CHR ''~'' then ''~0'' else if c = CHR ''/'' then ''~1'' else [c]) key)"

definition sortedKeys :: "(string \<times> 'a) list \<Rightarrow> string list" where
  "sortedKeys m = sort (map fst m)"

datatype schema_error =
    EmptyEnum string
  | EmptyTypeList string
  | PlainNameFragment string string
  | NullSchema string

text \<open>A loop that returns at the first error.\<close>

fun first_error :: "('a \<Rightarrow> 'e option) \<Rightarrow> 'a list \<Rightarrow> 'e option" where
  "first_error f [] = None"
| "first_error f (x # xs) = (case f x of Some err \<Rightarrow> Some err | None \<Rightarrow> first_error f xs)"

lemma first_error_cong [fundef_cong]:
  "xs = ys \<Longrightarrow> (\<And>x. x \<in> set ys \<Longrightarrow> f x = g x) \<Longrightarrow> first_error f xs = first_error g ys"
  by (induction xs arbitrary: ys) (auto split: option.splits)

definition member_keys :: "string set" where
  "member_keys = {''properties'', ''patternProperties'', ''$defs'', ''definitions'', ''dependentSchemas''}"

definition list_keys :: "string set" where
  "list_keys = {''allOf'', ''anyOf'', ''oneOf'', ''items''}"

definition schema_keys :: "string set" where
  "schema_keys = {''not'', ''if'', ''then'', ''else'', ''contains'', ''propertyNames'', ''additionalProperties'',
    ''additionalItems'', ''unevaluatedProperties'', ''unevaluatedItems''}"

definition sub_path :: "string \<Rightarrow> string \<Rightarrow> string" where
  "sub_path path key = path @ ''/'' @ escapePointerToken key"

definition index_path :: "string \<Rightarrow> nat \<Rightarrow> string" where
  "index_path path i = path @ ''/'' @ show_nat i"

definition id_string :: "'f jvalue \<Rightarrow> string" where
  "id_string v = (case v of JString s \<Rightarrow> s | _ \<Rightarrow> [])"

lemma size_map_of: "map_of m k = Some v \<Longrightarrow> size v < size (JObject m :: 'f jvalue)"
proof -
  assume "map_of m k = Some v"
  then have "(k, v) \<in> set m" by (rule map_of_SomeD)
  then show ?thesis by (induction m) force+
qed

lemma size_nth: "v \<in> set xs \<Longrightarrow> size v < size (JArray xs :: 'f jvalue)"
  by (induction xs) force+

lemma size_index: "i < length xs \<Longrightarrow> size_list size xs < n \<Longrightarrow> size (xs ! i :: 'f jvalue) < Suc n"
  using size_nth[OF nth_mem, of i xs] by simp

text \<open>The object of the sorted loop is looked up by key; a key of the list is in the map.\<close>

function checkSubschema :: "(string \<Rightarrow> bool) \<Rightarrow> 'f jvalue \<Rightarrow> string \<Rightarrow> bool \<Rightarrow> schema_error option" where
  "checkSubschema is_local value path rootAnchor =
    (case value of
      JObject schema \<Rightarrow> first_error (\<lambda>key.
        case map_of schema key of None \<Rightarrow> None | Some v \<Rightarrow>
        (let keyPath = sub_path path key in
         if key = ''enum''
         then (case v of JArray (x # xs) \<Rightarrow> None | _ \<Rightarrow> Some (EmptyEnum keyPath))
         else if key = ''type'' then (case v of JArray [] \<Rightarrow> Some (EmptyTypeList keyPath) | _ \<Rightarrow> None)
         else if key = ''$id''
         then (if is_local (id_string v) \<and> (path = [] \<or> \<not> rootAnchor)
               then Some (PlainNameFragment keyPath (id_string v)) else None)
         else if key \<in> member_keys
         then (case v of
             JObject members \<Rightarrow> first_error (\<lambda>name.
               case map_of members name of None \<Rightarrow> None | Some w \<Rightarrow>
               (if w = JNull \<and> key \<noteq> ''dependentSchemas'' then Some (NullSchema (sub_path keyPath name))
                else checkSubschema is_local w (sub_path keyPath name) rootAnchor)) (sortedKeys members)
           | _ \<Rightarrow> None)
         else if key \<in> list_keys
         then (case v of
             JArray elements \<Rightarrow> first_error (\<lambda>(i, w).
               if w = JNull then Some (NullSchema (index_path keyPath i))
               else checkSubschema is_local w (index_path keyPath i) rootAnchor) (enumerate 0 elements)
           | _ \<Rightarrow> checkSubschema is_local v keyPath rootAnchor)
         else if key \<in> schema_keys then checkSubschema is_local v keyPath rootAnchor
         else None)) (sortedKeys schema)
    | _ \<Rightarrow> None)"
  by pat_completeness auto
termination
  by (relation "measure (\<lambda>(l, v, p, r). size v)") (auto dest!: size_map_of simp: in_set_enumerate_eq size_index)

declare checkSubschema.simps [simp del]

text \<open>The schema file: text that is not JSON is an error of the decoder.\<close>

definition checkSchema :: "(string \<Rightarrow> bool) \<Rightarrow> string + 'f jvalue \<Rightarrow> (string + schema_error) option" where
  "checkSchema is_local decoded =
    (case decoded of
      Inl err \<Rightarrow> Some (Inl err)
    | Inr doc \<Rightarrow> (let rootAnchor = (case doc of JObject m \<Rightarrow> map_of m ''$anchor'' \<noteq> None | _ \<Rightarrow> False)
        in map_option Inr (checkSubschema is_local doc [] rootAnchor)))"

section \<open>What the walk must reach, and refuse\<close>

text \<open>The flaws of one keyword of a schema object at a path.\<close>

inductive key_flaw :: "(string \<Rightarrow> bool) \<Rightarrow> bool \<Rightarrow> string \<Rightarrow> string \<Rightarrow> 'f jvalue \<Rightarrow> schema_error \<Rightarrow> bool"
  for is_local rootAnchor path where
  enum: "\<forall>x xs. v \<noteq> JArray (x # xs) \<Longrightarrow> key_flaw is_local rootAnchor path ''enum'' v (EmptyEnum (sub_path path ''enum''))"
| type_list: "key_flaw is_local rootAnchor path ''type'' (JArray []) (EmptyTypeList (sub_path path ''type''))"
| fragment: "is_local (id_string v) \<Longrightarrow> path = [] \<or> \<not> rootAnchor \<Longrightarrow>
    key_flaw is_local rootAnchor path ''$id'' v (PlainNameFragment (sub_path path ''$id'') (id_string v))"
| null_member: "key \<in> member_keys \<Longrightarrow> key \<noteq> ''dependentSchemas'' \<Longrightarrow> map_of members name = Some JNull \<Longrightarrow>
    key_flaw is_local rootAnchor path key (JObject members) (NullSchema (sub_path (sub_path path key) name))"
| null_element: "key \<in> list_keys \<Longrightarrow> i < length xs \<Longrightarrow> xs ! i = JNull \<Longrightarrow>
    key_flaw is_local rootAnchor path key (JArray xs) (NullSchema (index_path (sub_path path key) i))"

text \<open>The subschemas below one keyword.\<close>

inductive key_child :: "string \<Rightarrow> string \<Rightarrow> 'f jvalue \<Rightarrow> 'f jvalue \<Rightarrow> string \<Rightarrow> bool" for path where
  member: "key \<in> member_keys \<Longrightarrow> map_of members name = Some w \<Longrightarrow>
    key_child path key (JObject members) w (sub_path (sub_path path key) name)"
| element: "key \<in> list_keys \<Longrightarrow> i < length xs \<Longrightarrow> key_child path key (JArray xs) (xs ! i) (index_path (sub_path path key) i)"
| one_of_list: "key \<in> list_keys \<Longrightarrow> \<forall>xs. v \<noteq> JArray xs \<Longrightarrow> key_child path key v v (sub_path path key)"
| one: "key \<in> schema_keys \<Longrightarrow> key_child path key v v (sub_path path key)"

definition flaw :: "(string \<Rightarrow> bool) \<Rightarrow> bool \<Rightarrow> 'f jvalue \<Rightarrow> string \<Rightarrow> schema_error \<Rightarrow> bool" where
  "flaw is_local rootAnchor v path e \<longleftrightarrow>
    (\<exists>m key w. v = JObject m \<and> map_of m key = Some w \<and> key_flaw is_local rootAnchor path key w e)"

inductive reaches :: "'f jvalue \<Rightarrow> string \<Rightarrow> 'f jvalue \<Rightarrow> string \<Rightarrow> bool" where
  here: "reaches v p v p"
| below: "map_of m key = Some v \<Longrightarrow> key_child p key v w q \<Longrightarrow> reaches w q x t \<Longrightarrow> reaches (JObject m) p x t"

section \<open>The walk reaches everything and refuses exactly the flaws\<close>

definition key_check :: "(string \<Rightarrow> bool) \<Rightarrow> bool \<Rightarrow> string \<Rightarrow> string \<Rightarrow> 'f jvalue \<Rightarrow> schema_error option" where
  "key_check is_local rootAnchor path key v =
    (let keyPath = sub_path path key in
         if key = ''enum''
         then (case v of JArray (x # xs) \<Rightarrow> None | _ \<Rightarrow> Some (EmptyEnum keyPath))
         else if key = ''type'' then (case v of JArray [] \<Rightarrow> Some (EmptyTypeList keyPath) | _ \<Rightarrow> None)
         else if key = ''$id''
         then (if is_local (id_string v) \<and> (path = [] \<or> \<not> rootAnchor)
               then Some (PlainNameFragment keyPath (id_string v)) else None)
         else if key \<in> member_keys
         then (case v of
             JObject members \<Rightarrow> first_error (\<lambda>name.
               case map_of members name of None \<Rightarrow> None | Some w \<Rightarrow>
               (if w = JNull \<and> key \<noteq> ''dependentSchemas'' then Some (NullSchema (sub_path keyPath name))
                else checkSubschema is_local w (sub_path keyPath name) rootAnchor)) (sortedKeys members)
           | _ \<Rightarrow> None)
         else if key \<in> list_keys
         then (case v of
             JArray elements \<Rightarrow> first_error (\<lambda>(i, w).
               if w = JNull then Some (NullSchema (index_path keyPath i))
               else checkSubschema is_local w (index_path keyPath i) rootAnchor) (enumerate 0 elements)
           | _ \<Rightarrow> checkSubschema is_local v keyPath rootAnchor)
         else if key \<in> schema_keys then checkSubschema is_local v keyPath rootAnchor
         else None)"

lemma checkSubschema_keys: "checkSubschema is_local (JObject m) path rootAnchor =
    first_error (\<lambda>key. case map_of m key of None \<Rightarrow> None | Some v \<Rightarrow> key_check is_local rootAnchor path key v) (sortedKeys m)"
  by (subst checkSubschema.simps) (simp add: key_check_def Let_def cong: first_error_cong option.case_cong if_cong)

lemma checkSubschema_leaf: "(\<forall>m. v \<noteq> JObject m) \<Longrightarrow> checkSubschema is_local v path rootAnchor = None"
  by (subst checkSubschema.simps) (cases v; simp)

lemma first_error_None: "first_error f xs = None \<longleftrightarrow> (\<forall>x \<in> set xs. f x = None)"
  by (induction xs) (auto split: option.splits)

lemma first_error_Some: "first_error f xs = Some e \<Longrightarrow> \<exists>x \<in> set xs. f x = Some e"
  by (induction xs) (auto split: option.splits)

lemma set_sortedKeys: "set (sortedKeys m) = dom (map_of m)"
  by (simp add: sortedKeys_def dom_map_of_conv_image_fst)

lemma keys_disjoint:
  "k \<in> member_keys \<Longrightarrow> k \<notin> list_keys \<and> k \<notin> schema_keys \<and> k \<notin> {''enum'', ''type'', ''$id''}"
  "k \<in> list_keys \<Longrightarrow> k \<notin> schema_keys \<and> k \<notin> {''enum'', ''type'', ''$id''}"
  "k \<in> schema_keys \<Longrightarrow> k \<notin> {''enum'', ''type'', ''$id''}"
  by (auto simp: member_keys_def list_keys_def schema_keys_def)

lemma special_keys: "''enum'' \<notin> member_keys \<union> list_keys \<union> schema_keys" "''type'' \<notin> member_keys \<union> list_keys \<union> schema_keys"
  "''$id'' \<notin> member_keys \<union> list_keys \<union> schema_keys"
  by (auto simp: member_keys_def list_keys_def schema_keys_def)

lemma check_JNull [simp]: "checkSubschema is_local JNull path rootAnchor = None"
  by (rule checkSubschema_leaf) simp

lemma key_check_member: "key \<in> member_keys \<Longrightarrow> key_check l r p key (JObject members) =
    first_error (\<lambda>name. case map_of members name of None \<Rightarrow> None | Some w \<Rightarrow>
      (if w = JNull \<and> key \<noteq> ''dependentSchemas'' then Some (NullSchema (sub_path (sub_path p key) name))
       else checkSubschema l w (sub_path (sub_path p key) name) r)) (sortedKeys members)"
  using keys_disjoint(1)[of key] by (simp add: key_check_def Let_def)

lemma key_check_list: "key \<in> list_keys \<Longrightarrow> key_check l r p key (JArray elements) =
    first_error (\<lambda>(i, w). if w = JNull then Some (NullSchema (index_path (sub_path p key) i))
      else checkSubschema l w (index_path (sub_path p key) i) r) (enumerate 0 elements)"
  using keys_disjoint(1)[of key] keys_disjoint(2)[of key] by (auto simp add: key_check_def Let_def)

lemma key_check_other:
  "key \<in> member_keys \<Longrightarrow> \<forall>m. v \<noteq> JObject m \<Longrightarrow> key_check l r p key v = None"
  "key \<in> list_keys \<Longrightarrow> \<forall>xs. v \<noteq> JArray xs \<Longrightarrow> key_check l r p key v = checkSubschema l v (sub_path p key) r"
  "key \<in> schema_keys \<Longrightarrow> key_check l r p key v = checkSubschema l v (sub_path p key) r"
  using keys_disjoint(1)[of key] keys_disjoint(2)[of key] keys_disjoint(3)[of key]
  by (auto simp: key_check_def Let_def split: jvalue.splits)

lemma dom_case_None:
  "(\<forall>x \<in> dom M. (case M x of None \<Rightarrow> None | Some w \<Rightarrow> f x w) = None) \<longleftrightarrow> (\<forall>x w. M x = Some w \<longrightarrow> f x w = None)"
  by (auto simp: dom_def)

lemma Ball_enumerate: "(\<forall>x \<in> set (enumerate 0 xs). P x) \<longleftrightarrow> (\<forall>i < length xs. P (i, xs ! i))"
  by (fastforce simp: in_set_enumerate_eq)

lemma key_check_None:
  "key_check l r p key v = None \<longleftrightarrow> (\<forall>e. \<not> key_flaw l r p key v e)
    \<and> (\<forall>w q. key_child p key v w q \<longrightarrow> checkSubschema l w q r = None)"
proof -
  consider "key = ''enum''" | "key = ''type''" | "key = ''$id''" | "key \<in> member_keys" | "key \<in> list_keys"
    | "key \<in> schema_keys" | "key \<notin> {''enum'', ''type'', ''$id''} \<union> member_keys \<union> list_keys \<union> schema_keys" by auto
  then show ?thesis
  proof cases
    case 1
    then show ?thesis using special_keys(1)
      by (auto simp: key_check_def Let_def key_flaw.simps key_child.simps split: jvalue.splits list.splits)
  next
    case 2
    then show ?thesis using special_keys(2)
      by (auto simp: key_check_def Let_def key_flaw.simps key_child.simps split: jvalue.splits list.splits)
  next
    case 3
    then show ?thesis using special_keys(3)
      by (auto simp: key_check_def Let_def key_flaw.simps key_child.simps)
  next
    case 4
    note d = keys_disjoint(1)[OF 4]
    show ?thesis
    proof (cases "\<exists>m. v = JObject m")
      case True
      then obtain m where v: "v = JObject m" by blast
      have f: "key_flaw l r p key (JObject m) e \<longleftrightarrow> key \<noteq> ''dependentSchemas''
          \<and> (\<exists>name. map_of m name = Some JNull \<and> e = NullSchema (sub_path (sub_path p key) name))" for e
        using d 4 by (subst key_flaw.simps) auto
      have g: "key_child p key (JObject m) w q \<longleftrightarrow> (\<exists>name. map_of m name = Some w \<and> q = sub_path (sub_path p key) name)" for w q
        using d 4 by (subst key_child.simps) auto
      have e: "(\<forall>x \<in> dom (map_of m). (case map_of m x of None \<Rightarrow> None | Some w \<Rightarrow> if w = JNull \<and> key \<noteq> ''dependentSchemas''
            then Some (NullSchema (sub_path (sub_path p key) x)) else checkSubschema l w (sub_path (sub_path p key) x) r) = None)
          \<longleftrightarrow> (\<forall>x w. map_of m x = Some w \<longrightarrow> (w = JNull \<longrightarrow> key = ''dependentSchemas'')
            \<and> checkSubschema l w (sub_path (sub_path p key) x) r = None)"
        unfolding dom_case_None by (metis option.distinct(1) check_JNull)
      show ?thesis unfolding v key_check_member[OF 4] first_error_None set_sortedKeys e f g by metis
    next
      case False
      then show ?thesis using d 4 by (auto simp: key_check_other(1)[OF 4] key_flaw.simps key_child.simps)
    qed
  next
    case 5
    note d = keys_disjoint(2)[OF 5]
    have n: "key \<notin> member_keys" using keys_disjoint(1) 5 by blast
    show ?thesis
    proof (cases "\<exists>xs. v = JArray xs")
      case True
      then obtain xs where v: "v = JArray xs" by blast
      have f: "key_flaw l r p key (JArray xs) e \<longleftrightarrow>
          (\<exists>i < length xs. xs ! i = JNull \<and> e = NullSchema (index_path (sub_path p key) i))" for e
        using d n 5 by (subst key_flaw.simps) auto
      have g: "key_child p key (JArray xs) w q \<longleftrightarrow> (\<exists>i < length xs. w = xs ! i \<and> q = index_path (sub_path p key) i)" for w q
        using d n 5 by (subst key_child.simps) auto
      have e: "(\<forall>x \<in> set (enumerate 0 xs). (\<lambda>(i, w). if w = JNull then Some (NullSchema (index_path (sub_path p key) i))
            else checkSubschema l w (index_path (sub_path p key) i) r) x = None)
          \<longleftrightarrow> (\<forall>i < length xs. xs ! i \<noteq> JNull \<and> checkSubschema l (xs ! i) (index_path (sub_path p key) i) r = None)"
        unfolding Ball_enumerate by auto
      show ?thesis unfolding v key_check_list[OF 5] first_error_None e f g by metis
    next
      case False
      then show ?thesis using d n 5 by (auto simp: key_check_other(2)[OF 5] key_flaw.simps key_child.simps)
    qed
  next
    case 6
    then show ?thesis using keys_disjoint(1,2)[of key] keys_disjoint(3)[OF 6]
      by (auto simp: key_check_other(3)[OF 6] key_flaw.simps key_child.simps)
  next
    case 7
    then show ?thesis by (auto simp: key_check_def Let_def key_flaw.simps key_child.simps)
  qed
qed

lemma key_child_size: "key_child p key v w q \<Longrightarrow> size w \<le> size v"
  by (induction rule: key_child.induct) (auto dest: size_map_of size_nth[OF nth_mem] intro: less_imp_le)

lemma check_object_None: "checkSubschema l (JObject m) p r = None \<longleftrightarrow>
    (\<forall>key v. map_of m key = Some v \<longrightarrow> key_check l r p key v = None)"
  by (auto simp: checkSubschema_keys first_error_None set_sortedKeys simp del: map_of_eq_Some_iff split: option.splits)

lemma accepted_has_no_flaw: "reaches v p w q \<Longrightarrow> checkSubschema l v p r = None \<Longrightarrow> \<not> flaw l r w q e"
proof (induction rule: reaches.induct)
  case (here v p)
  then show ?case by (auto simp: flaw_def check_object_None key_check_None)
next
  case (below m key v p w q x t)
  then have "key_check l r p key v = None" using check_object_None[of l m p r] by blast
  then have "checkSubschema l w q r = None" using below.hyps(2) unfolding key_check_None by blast
  then show ?case by (rule below.IH)
qed

lemma no_flaw_is_accepted:
  "(\<And>w q e. reaches v p w q \<Longrightarrow> \<not> flaw l r w q e) \<Longrightarrow> checkSubschema l v p r = None"
proof (induction "size v" arbitrary: v p rule: less_induct)
  case less
  show ?case
  proof (cases "\<exists>m. v = JObject m")
    case False
    then show ?thesis by (simp add: checkSubschema_leaf)
  next
    case True
    then obtain m where v: "v = JObject m" by blast
    have "key_check l r p key x = None" if x: "map_of m key = Some x" for key x
      unfolding key_check_None
    proof (intro conjI allI impI)
      fix e show "\<not> key_flaw l r p key x e" using less.prems[OF reaches.here] v x by (auto simp: flaw_def)
    next
      fix w q assume c: "key_child p key x w q"
      then have "size w < size v" using key_child_size[OF c] size_map_of[OF x] v by simp
      then show "checkSubschema l w q r = None"
      proof (rule less.hyps)
        fix y t e assume "reaches w q y t"
        then show "\<not> flaw l r y t e" using less.prems reaches.below[OF x c] v by blast
      qed
    qed
    then show ?thesis unfolding v check_object_None by blast
  qed
qed

lemma key_check_Some:
  assumes c: "key_check l r p key v = Some e"
  shows "key_flaw l r p key v e \<or> (\<exists>w q. key_child p key v w q \<and> checkSubschema l w q r = Some e)"
proof -
  let ?k = "sub_path p key"
  consider "key \<notin> member_keys \<union> list_keys" | "key \<in> member_keys" | "key \<in> list_keys" by blast
  then show ?thesis
  proof cases
    case 1
    then show ?thesis using c
      by (auto simp: key_check_def Let_def key_flaw.simps key_child.simps split: if_splits jvalue.splits list.splits)
  next
    case 2
    note d = keys_disjoint(1)[OF 2]
    obtain ms where v: "v = JObject ms" using c key_check_other(1)[OF 2, of v] by fastforce
    obtain name w where n: "map_of ms name = Some w" "(if w = JNull \<and> key \<noteq> ''dependentSchemas''
        then Some (NullSchema (sub_path ?k name)) else checkSubschema l w (sub_path ?k name) r) = Some e"
      using first_error_Some[OF c[unfolded v key_check_member[OF 2]]] by (auto split: option.splits)
    show ?thesis
    proof (cases "w = JNull \<and> key \<noteq> ''dependentSchemas''")
      case True
      then show ?thesis using n 2 unfolding v by (auto intro: null_member)
    next
      case False
      then have "checkSubschema l w (sub_path ?k name) r = Some e" using n(2) by argo
      then show ?thesis using member[OF 2 n(1)] unfolding v by blast
    qed
  next
    case 3
    note d = keys_disjoint(2)[OF 3]
    have m: "key \<notin> member_keys" using keys_disjoint(1) 3 by blast
    show ?thesis
    proof (cases "\<exists>xs. v = JArray xs")
      case True
      then obtain xs where v: "v = JArray xs" by blast
      obtain i where i: "i < length xs" "(if xs ! i = JNull then Some (NullSchema (index_path ?k i))
          else checkSubschema l (xs ! i) (index_path ?k i) r) = Some e"
        using first_error_Some[OF c[unfolded v key_check_list[OF 3]]] by (auto simp: in_set_enumerate_eq)
      show ?thesis
      proof (cases "xs ! i = JNull")
        case True
        then show ?thesis using i 3 unfolding v by (auto intro: null_element)
      next
        case False
        then show ?thesis using i element[OF 3 i(1)] unfolding v by auto
      qed
    next
      case False
      then have "checkSubschema l v ?k r = Some e" using c key_check_other(2)[OF 3, of v l r p] by auto
      then show ?thesis using one_of_list[OF 3] False by blast
    qed
  qed
qed

lemma error_names_a_flaw: "checkSubschema l v p r = Some e \<Longrightarrow> \<exists>w q. reaches v p w q \<and> flaw l r w q e"
proof (induction "size v" arbitrary: v p rule: less_induct)
  case less
  have "\<exists>m. v = JObject m" using less.prems checkSubschema_leaf[of v] by fastforce
  then obtain m where v: "v = JObject m" by blast
  obtain key x where x: "map_of m key = Some x" "key_check l r p key x = Some e"
    using first_error_Some[OF less.prems[unfolded v checkSubschema_keys]] by (auto split: option.splits)
  from key_check_Some[OF x(2)] show ?case
  proof
    assume "key_flaw l r p key x e"
    then show ?thesis using reaches.here[of v p] v x(1) unfolding flaw_def by blast
  next
    assume "\<exists>w q. key_child p key x w q \<and> checkSubschema l w q r = Some e"
    then obtain w q where c: "key_child p key x w q" "checkSubschema l w q r = Some e" by blast
    then have "size w < size v" using key_child_size[OF c(1)] size_map_of[OF x(1)] v by simp
    then show ?thesis using less.hyps[OF _ c(2)] reaches.below[OF x(1) c(1)] v by blast
  qed
qed

end
