(* ===== verification/Server.thy ===== *)
theory Server
  imports SchemaCheck
begin

text \<open>
  The web server (\<^verbatim>\<open>src/web/webserver/webserver.go\<close>, the set-up of \<^verbatim>\<open>src/web/webapiserver.go\<close>
  and the options of \<^verbatim>\<open>src/cmd/minijob/minijob.go\<close>): the status, the channel of signals, which
  holds one, the channel of errors of the listener, and the registration in Consul. The
  functions of the code that block are steps of goroutines (\<open>world_step\<close>): the main one, the
  listener and the request handlers. Fiber, Consul, the CORS middleware and the file system
  are parameters.
\<close>

section \<open>Configuration and state\<close>

datatype os_signal = SIGINT | SIGTERM | SIGQUIT | SIGHUP

datatype ServerStatus = ServerStatusNone | ServerStatusInitialized | ServerStatusRunning | ServerStatusStopping

fun status_code :: "ServerStatus \<Rightarrow> nat" where
  "status_code ServerStatusNone = 0"
| "status_code ServerStatusInitialized = 1"
| "status_code ServerStatusRunning = 2"
| "status_code ServerStatusStopping = 3"

record AgentServiceCheck =
  check_CheckID :: string
  check_HTTP :: string
  check_Interval :: string
  check_Timeout :: string

record AgentServiceRegistration =
  reg_ID :: string
  reg_Name :: string
  reg_Tags :: "string list"
  reg_Port :: int
  reg_Address :: string
  reg_Namespace :: string
  reg_Partition :: string
  reg_Check :: "AgentServiceCheck option"

record ConsulConfig =
  consul_Enable :: bool
  consul_Address :: string
  consul_Port :: int
  consul_Token :: string
  consul_ReplaceExistingChecks :: bool
  consul_ID :: string
  consul_Name :: string
  consul_Tags :: "string list"
  consul_Namespace :: string
  consul_Partition :: string
  consul_HealthCheck :: bool
  consul_CheckId :: string
  consul_Interval :: string
  consul_Timeout :: string
  consul_URL :: string

record server_conf =
  HTTP_Enable :: bool
  Logs_Enable :: bool
  Cors_Enable :: bool
  Cors_AllowOrigins :: string
  Cors_AllowHeaders :: string
  Monitor_Enable :: bool
  Metrics_Enable :: bool
  Swagger_Enable :: bool
  Schema_Enable :: bool
  Schema_Path :: string
  Consul :: ConsulConfig

text \<open>The middlewares of the application, in the order they were added.\<close>

datatype middleware =
    UseLogger
  | UseCors string string
  | UsePrometheus string "string list"
  | UseRoutes

record server =
  ws_signals :: "os_signal list"
  ws_errsChan :: "string list"
  ws_status :: ServerStatus
  ws_app :: "middleware list option"
  ws_consulClient :: bool
  ws_initErr :: "string option"

text \<open>
  What is outside: the file of the schema, its decoding by the validator and by the JSON
  library, the CORS middleware (the text of its panic on an invalid origin), and the client of
  Consul.
\<close>

record 'f server_env =
  se_read_file :: "string \<Rightarrow> string + string"
  se_unmarshal_schema :: "string \<Rightarrow> string option"
  se_decode :: "string \<Rightarrow> string + 'f jvalue"
  se_is_local :: "string \<Rightarrow> bool"
  se_schema_message :: "string + schema_error \<Rightarrow> string"
  se_cors :: "string \<Rightarrow> string \<Rightarrow> string option"
  se_consul_client :: "string option"
  se_register :: "AgentServiceRegistration \<Rightarrow> bool \<Rightarrow> string \<Rightarrow> string option"
  se_deregister :: "string \<Rightarrow> string \<Rightarrow> string option"

definition NewServer :: server where
  "NewServer = \<lparr>ws_signals = [], ws_errsChan = [], ws_status = ServerStatusNone, ws_app = None,
    ws_consulClient = False, ws_initErr = None\<rparr>"

section \<open>Initialisation\<close>

text \<open>\<^verbatim>\<open>WebAPIServer.Init\<close>: a schema the validator cannot serve is an error of the start.\<close>

definition webapi_Init :: "'f server_env \<Rightarrow> server_conf \<Rightarrow> string option" where
  "webapi_Init e c =
    (if Schema_Enable c
     then (case se_read_file e (Schema_Path c) of
         Inl err \<Rightarrow> Some (''error reading schema file: '' @ err)
       | Inr bytes \<Rightarrow>
         (case se_unmarshal_schema e bytes of
           Some err \<Rightarrow> Some (''error unmarshaling schema: '' @ err)
         | None \<Rightarrow>
           (case checkSchema (se_is_local e) (se_decode e bytes) of
             Some err \<Rightarrow> Some (''schema not supported by the validator: '' @ se_schema_message e err)
           | None \<Rightarrow> None)))
     else None)"

definition SetInitError :: "string \<Rightarrow> server \<Rightarrow> server" where
  "SetInitError err s = (if ws_initErr s = None then s\<lparr>ws_initErr := Some err\<rparr> else s)"

definition app_use :: "middleware \<Rightarrow> server \<Rightarrow> server" where
  "app_use m s = s\<lparr>ws_app := map_option (\<lambda>ms. ms @ [m]) (ws_app s)\<rparr>"

definition WithFiberLogger :: "server_conf \<Rightarrow> server \<Rightarrow> server" where
  "WithFiberLogger c s = (if Logs_Enable c then app_use UseLogger s else s)"

text \<open>The parts of a list between the separators; \<^verbatim>\<open>strings.TrimSpace\<close> on ASCII text.\<close>

fun split_at :: "char \<Rightarrow> string \<Rightarrow> string list" where
  "split_at sep [] = [[]]"
| "split_at sep (c # cs) =
    (if c = sep then [] # split_at sep cs
     else case split_at sep cs of [] \<Rightarrow> [[c]] | p # ps \<Rightarrow> (c # p) # ps)"

definition ascii_space :: "char \<Rightarrow> bool" where
  "ascii_space c \<longleftrightarrow> c \<in> {CHR '' '', CHR 0x09, CHR 0x0A, CHR 0x0B, CHR 0x0C, CHR 0x0D}"

definition trim_origin :: "string \<Rightarrow> string" where
  "trim_origin s = rev (dropWhile ascii_space (rev (dropWhile ascii_space s)))"

fun join_with :: "string \<Rightarrow> string list \<Rightarrow> string" where
  "join_with sep [] = []"
| "join_with sep [p] = p"
| "join_with sep (p # ps) = p @ sep @ join_with sep ps"

definition corsConfig :: "string \<Rightarrow> string \<Rightarrow> string \<times> string" where
  "corsConfig allowOrigins allowHeaders =
    (join_with '','' (map trim_origin (split_at (CHR '','') allowOrigins)), allowHeaders)"

definition newCors :: "'f server_env \<Rightarrow> string \<times> string \<Rightarrow> string + middleware" where
  "newCors e conf = (case conf of (origins, headers) \<Rightarrow>
    (case se_cors e origins headers of Some r \<Rightarrow> Inl r | None \<Rightarrow> Inr (UseCors origins headers)))"

definition WithCors :: "'f server_env \<Rightarrow> server_conf \<Rightarrow> server \<Rightarrow> server" where
  "WithCors e c s =
    (if Cors_Enable c
     then (case newCors e (corsConfig (Cors_AllowOrigins c) (Cors_AllowHeaders c)) of
         Inl err \<Rightarrow> SetInitError err s
       | Inr handler \<Rightarrow> app_use handler s)
     else s)"

definition WithPrometheus :: "server_conf \<Rightarrow> server \<Rightarrow> server" where
  "WithPrometheus c s =
    (if Metrics_Enable c
     then app_use (UsePrometheus ''/metrics'' [''/ping'', ''/healthcheck'', ''/livez'', ''/readyz'',
       ''/api/v1/admin/server/restart'', ''/api/v1/admin/server/shutdown'']) s
     else s)"

definition WithAPIRoutes :: "server \<Rightarrow> server" where
  "WithAPIRoutes s = app_use UseRoutes s"

definition RegisterConsul :: "'f server_env \<Rightarrow> server_conf \<Rightarrow> server \<Rightarrow> string option \<times> server" where
  "RegisterConsul e c s =
    (case se_consul_client e of
      Some err \<Rightarrow> (Some err, s)
    | None \<Rightarrow>
      (let s = s\<lparr>ws_consulClient := True\<rparr>; k = Consul c;
           registration = \<lparr>reg_ID = consul_ID k, reg_Name = consul_Name k, reg_Tags = consul_Tags k,
             reg_Port = consul_Port k, reg_Address = consul_Address k, reg_Namespace = consul_Namespace k,
             reg_Partition = consul_Partition k,
             reg_Check = (if consul_HealthCheck k
               then Some \<lparr>check_CheckID = consul_CheckId k, check_HTTP = consul_URL k,
                 check_Interval = consul_Interval k, check_Timeout = consul_Timeout k\<rparr>
               else None)\<rparr>
       in (se_register e registration (consul_ReplaceExistingChecks k) (consul_Token k), s)))"

definition DeRegisterConsul :: "'f server_env \<Rightarrow> server_conf \<Rightarrow> server \<Rightarrow> string option \<times> server" where
  "DeRegisterConsul e c s =
    (if \<not> ws_consulClient s then (None, s)
     else case se_deregister e (consul_ID (Consul c)) (consul_Token (Consul c)) of
       Some err \<Rightarrow> (Some err, s)
     | None \<Rightarrow> (None, s\<lparr>ws_consulClient := False\<rparr>))"

definition SetStatus :: "ServerStatus \<Rightarrow> server \<Rightarrow> server" where
  "SetStatus st s = s\<lparr>ws_status := st\<rparr>"

text \<open>\<^verbatim>\<open>Initialize\<close> with the options of \<^verbatim>\<open>RunServer\<close>.\<close>

definition server_options :: "'f server_env \<Rightarrow> server_conf \<Rightarrow> (server \<Rightarrow> server) list" where
  "server_options e c = [WithFiberLogger c, WithCors e c, WithPrometheus c, WithAPIRoutes]"

definition Initialize :: "'f server_env \<Rightarrow> server_conf \<Rightarrow> (server \<Rightarrow> server) list \<Rightarrow> server \<Rightarrow> string option \<times> server" where
  "Initialize e c options s =
    (if ws_status s \<noteq> ServerStatusNone
     then (Some (''cannot initilize server: invalid status code '' @ show_nat (status_code (ws_status s))), s)
     else let s = s\<lparr>ws_app := Some []\<rparr> in
       case webapi_Init e c of
         Some err \<Rightarrow> (Some err, s)
       | None \<Rightarrow>
         (let s = fold (\<lambda>opt s. opt s) options s in
          case ws_initErr s of
            Some err \<Rightarrow> (Some err, s)
          | None \<Rightarrow>
            (let s = SetStatus ServerStatusInitialized s
             in if consul_Enable (Consul c) then RegisterConsul e c s else (None, s))))"

section \<open>Stopping\<close>

text \<open>Sending on the channel of signals; \<open>None\<close> is a full channel: the sender waits.\<close>

definition send_signal :: "os_signal \<Rightarrow> server \<Rightarrow> server option" where
  "send_signal sig s = (if length (ws_signals s) < 1 then Some (s\<lparr>ws_signals := ws_signals s @ [sig]\<rparr>) else None)"

text \<open>\<^verbatim>\<open>signal.Notify\<close> does not wait: a signal that does not fit is dropped.\<close>

definition notify_signal :: "os_signal \<Rightarrow> server \<Rightarrow> server" where
  "notify_signal sig s = (case send_signal sig s of Some s' \<Rightarrow> s' | None \<Rightarrow> s)"

definition shutdown_refused :: "server \<Rightarrow> string option" where
  "shutdown_refused s =
    (if ws_status s \<noteq> ServerStatusRunning
     then Some (''cannot stop server: invalid status code '' @ show_nat (status_code (ws_status s))) else None)"

definition RequestShutdownServer :: "server \<Rightarrow> server option" where
  "RequestShutdownServer s = send_signal SIGTERM s"

definition RequestRestartServer :: "server \<Rightarrow> server option" where
  "RequestRestartServer s = send_signal SIGHUP s"

text \<open>\<^verbatim>\<open>Shutdown\<close> called by the main goroutine; a full channel would block it for ever (\<open>None\<close>).\<close>

definition Shutdown :: "server \<Rightarrow> (string option \<times> server) option" where
  "Shutdown s =
    (case shutdown_refused s of
      Some err \<Rightarrow> Some (Some err, s)
    | None \<Rightarrow> map_option (\<lambda>s. (None, s)) (RequestShutdownServer (SetStatus ServerStatusStopping s)))"

definition Finalize :: "'f server_env \<Rightarrow> server_conf \<Rightarrow> server \<Rightarrow> server option" where
  "Finalize e c s =
    (case (if ws_status s = ServerStatusRunning then map_option snd (Shutdown s) else Some s) of
      None \<Rightarrow> None
    | Some s \<Rightarrow> Some (if consul_Enable (Consul c) then snd (DeRegisterConsul e c s) else s))"

datatype stop_cause = StoppedNormally | RestartRequested | StoppedWithError string

fun on_signal :: "os_signal \<Rightarrow> stop_cause" where
  "on_signal SIGHUP = RestartRequested"
| "on_signal SIGTERM = StoppedNormally"
| "on_signal SIGINT = StoppedNormally"
| "on_signal SIGQUIT = StoppedNormally"

definition start_refused :: "server \<Rightarrow> string option" where
  "start_refused s =
    (if ws_status s \<noteq> ServerStatusInitialized
     then Some (''cannot start server: invalid status code '' @ show_nat (status_code (ws_status s))) else None)"

section \<open>The goroutines\<close>

text \<open>
  The main goroutine in \<^verbatim>\<open>Start\<close>, \<^verbatim>\<open>HandleSignals\<close> and \<^verbatim>\<open>shutdownListener\<close>; the goroutine of
  \<^verbatim>\<open>Listen\<close>; and the handlers of the two admin requests (\<^verbatim>\<open>ApiServerShutdown\<close> calls \<^verbatim>\<open>Shutdown\<close>,
  which reads the status, sets it and sends, \<^verbatim>\<open>ApiServerRestart\<close> only sends).
\<close>

datatype main_pc = MainNew | MainListen | MainLooping | MainClosing stop_cause | MainDraining stop_cause
  | MainStopped stop_cause | MainReturned stop_cause

datatype listener = ListenerNone | ListenerServing | ListenerFailed string | ListenerEnded

datatype handler = HandlerIdle | ShutdownChecking | ShutdownAccepted | HandlerSending os_signal | HandlerAnswered

record server_world =
  w_server :: server
  w_main :: main_pc
  w_listener :: listener
  w_handler :: "nat \<Rightarrow> handler"
  w_ctx_done :: bool
  w_service_stopping :: bool

definition world_of :: "server \<Rightarrow> server_world" where
  "world_of s = \<lparr>w_server = s, w_main = MainNew, w_listener = ListenerNone, w_handler = (\<lambda>_. HandlerIdle),
    w_ctx_done = False, w_service_stopping = False\<rparr>"

text \<open>
  The steps. The drain of \<^verbatim>\<open>ShutdownWithTimeout\<close> ends with the requests or with its timeout, so
  it may end at any moment; a handler may go on after it.
\<close>

inductive world_step :: "server_conf \<Rightarrow> server_world \<Rightarrow> server_world \<Rightarrow> bool" for c where
  start_error: "w_main w = MainNew \<Longrightarrow> start_refused (w_server w) = Some err \<Longrightarrow>
    world_step c w (w\<lparr>w_main := MainReturned (StoppedWithError err)\<rparr>)"
| start: "w_main w = MainNew \<Longrightarrow> start_refused (w_server w) = None \<Longrightarrow>
    world_step c w (w\<lparr>w_server := SetStatus ServerStatusRunning (w_server w), w_main := MainListen\<rparr>)"
| listen: "w_main w = MainListen \<Longrightarrow>
    world_step c w (w\<lparr>w_main := MainLooping, w_listener := (if HTTP_Enable c then ListenerServing else ListenerNone)\<rparr>)"
| listener_fails: "w_listener w = ListenerServing \<Longrightarrow> world_step c w (w\<lparr>w_listener := ListenerFailed err\<rparr>)"
| listener_sends: "w_listener w = ListenerFailed err \<Longrightarrow> length (ws_errsChan (w_server w)) < 1 \<Longrightarrow>
    world_step c w (w\<lparr>w_server := (w_server w)\<lparr>ws_errsChan := ws_errsChan (w_server w) @ [err]\<rparr>, w_listener := ListenerEnded\<rparr>)"
| signal_arrives: "world_step c w (w\<lparr>w_server := notify_signal sig (w_server w)\<rparr>)"
| context_ends: "world_step c w (w\<lparr>w_ctx_done := True\<rparr>)"
| main_context: "w_main w = MainLooping \<Longrightarrow> w_ctx_done w \<Longrightarrow>
    world_step c w (w\<lparr>w_main := MainClosing StoppedNormally\<rparr>)"
| main_signal: "w_main w = MainLooping \<Longrightarrow> ws_signals (w_server w) = sig # rest \<Longrightarrow>
    world_step c w (w\<lparr>w_server := (w_server w)\<lparr>ws_signals := rest\<rparr>, w_main := MainClosing (on_signal sig)\<rparr>)"
| main_error: "w_main w = MainLooping \<Longrightarrow> ws_errsChan (w_server w) = err # rest \<Longrightarrow>
    world_step c w (w\<lparr>w_server := (w_server w)\<lparr>ws_errsChan := rest\<rparr>, w_main := MainClosing (StoppedWithError err)\<rparr>)"
| begin_shutdown: "w_main w = MainClosing r \<Longrightarrow>
    world_step c w (w\<lparr>w_service_stopping := True, w_main := MainDraining r\<rparr>)"
| drained: "w_main w = MainDraining r \<Longrightarrow>
    world_step c w (w\<lparr>w_listener := (if w_listener w = ListenerServing then ListenerEnded else w_listener w),
      w_main := MainStopped r\<rparr>)"
| main_returns: "w_main w = MainStopped r \<Longrightarrow>
    world_step c w (w\<lparr>w_server := SetStatus ServerStatusInitialized (w_server w), w_main := MainReturned r\<rparr>)"
| ask_shutdown: "w_listener w = ListenerServing \<Longrightarrow> w_handler w k = HandlerIdle \<Longrightarrow>
    world_step c w (w\<lparr>w_handler := (w_handler w)(k := ShutdownChecking)\<rparr>)"
| refuse_shutdown: "w_handler w k = ShutdownChecking \<Longrightarrow> shutdown_refused (w_server w) = Some err \<Longrightarrow>
    world_step c w (w\<lparr>w_handler := (w_handler w)(k := HandlerAnswered)\<rparr>)"
| accept_shutdown: "w_handler w k = ShutdownChecking \<Longrightarrow> shutdown_refused (w_server w) = None \<Longrightarrow>
    world_step c w (w\<lparr>w_handler := (w_handler w)(k := ShutdownAccepted)\<rparr>)"
| mark_stopping: "w_handler w k = ShutdownAccepted \<Longrightarrow>
    world_step c w (w\<lparr>w_server := SetStatus ServerStatusStopping (w_server w),
      w_handler := (w_handler w)(k := HandlerSending SIGTERM)\<rparr>)"
| ask_restart: "w_listener w = ListenerServing \<Longrightarrow> w_handler w k = HandlerIdle \<Longrightarrow>
    world_step c w (w\<lparr>w_handler := (w_handler w)(k := HandlerSending SIGHUP)\<rparr>)"
| send: "w_handler w k = HandlerSending sig \<Longrightarrow> send_signal sig (w_server w) = Some s \<Longrightarrow>
    world_step c w (w\<lparr>w_server := s, w_handler := (w_handler w)(k := HandlerAnswered)\<rparr>)"

inductive_cases world_stepE: "world_step c w w'"

section \<open>Invariant\<close>

definition starting_server :: "server \<Rightarrow> bool" where
  "starting_server s \<longleftrightarrow> ws_status s = ServerStatusInitialized \<and> ws_errsChan s = [] \<and> length (ws_signals s) \<le> 1"

text \<open>A shutdown that was accepted is on its way to the main goroutine.\<close>

definition shutdown_on_its_way :: "server_world \<Rightarrow> bool" where
  "shutdown_on_its_way w \<longleftrightarrow> ws_signals (w_server w) \<noteq> [] \<or> (\<exists>k. w_handler w k = HandlerSending SIGTERM)"

fun main_inv :: "main_pc \<Rightarrow> server_world \<Rightarrow> bool" where
  "main_inv MainNew w = (ws_status (w_server w) = ServerStatusInitialized \<and> w_listener w = ListenerNone
    \<and> (\<forall>k. w_handler w k = HandlerIdle))"
| "main_inv MainListen w = (ws_status (w_server w) = ServerStatusRunning \<and> w_listener w = ListenerNone
    \<and> (\<forall>k. w_handler w k = HandlerIdle))"
| "main_inv MainLooping w = (ws_status (w_server w) = ServerStatusRunning
    \<or> ws_status (w_server w) = ServerStatusStopping \<and> shutdown_on_its_way w)"
| "main_inv (MainReturned r) w = (ws_status (w_server w) \<in> {ServerStatusInitialized, ServerStatusStopping})"
| "main_inv _ w = (ws_status (w_server w) \<in> {ServerStatusRunning, ServerStatusStopping})"

definition world_inv :: "server_world \<Rightarrow> bool" where
  "world_inv w \<longleftrightarrow> length (ws_signals (w_server w)) \<le> 1 \<and> length (ws_errsChan (w_server w)) \<le> 1
    \<and> (w_listener w \<noteq> ListenerEnded \<longrightarrow> ws_errsChan (w_server w) = []) \<and> main_inv (w_main w) w"

lemma world_inv_start: "starting_server s \<Longrightarrow> world_inv (world_of s)"
  by (simp add: starting_server_def world_inv_def world_of_def)

lemmas server_step_defs = world_inv_def start_refused_def shutdown_refused_def SetStatus_def
  send_signal_def notify_signal_def shutdown_on_its_way_def

lemma other_handler_moves: "w_handler w k \<noteq> HandlerSending SIGTERM \<Longrightarrow> shutdown_on_its_way w \<Longrightarrow>
    shutdown_on_its_way (w\<lparr>w_handler := (w_handler w)(k := h)\<rparr>)"
  by (auto simp: shutdown_on_its_way_def)

lemma world_inv_step: "world_step c w w' \<Longrightarrow> world_inv w \<Longrightarrow> world_inv w'"
proof (induction rule: world_step.induct)
  case (mark_stopping w k)
  then show ?case by (cases "w_main w") (auto simp: server_step_defs)
next
  case (send w k sig s)
  then show ?case by (cases "w_main w") (auto simp: server_step_defs split: if_splits)
next
  case (signal_arrives w sig)
  then show ?case by (cases "w_main w") (auto simp: server_step_defs)
next
  case (main_signal w sig rest)
  then show ?case by (auto simp: server_step_defs)
next
  case (main_error w err rest)
  then show ?case by (auto simp: server_step_defs)
next
  case (listener_sends w err)
  then show ?case by (cases "w_main w") (auto simp: server_step_defs)
next
  case (refuse_shutdown w k err)
  then show ?case by (cases "w_main w") (auto simp: world_inv_def other_handler_moves)
next
  case (accept_shutdown w k)
  then show ?case by (cases "w_main w") (auto simp: world_inv_def other_handler_moves)
next
  case (ask_shutdown w k)
  then show ?case by (cases "w_main w") (auto simp: world_inv_def other_handler_moves)
next
  case (ask_restart w k)
  then show ?case by (cases "w_main w") (auto simp: world_inv_def other_handler_moves)
next
  case (context_ends w)
  then show ?case by (cases "w_main w") (auto simp: server_step_defs)
next
  case (listener_fails w err)
  then show ?case by (cases "w_main w") (auto simp: server_step_defs)
qed (auto simp: server_step_defs split: if_splits)

lemma world_inv_steps: "(world_step c)\<^sup>*\<^sup>* w w' \<Longrightarrow> world_inv w \<Longrightarrow> world_inv w'"
  by (induction rule: rtranclp_induct) (auto intro: world_inv_step)

text \<open>The way out of the loop, once it was left.\<close>

lemma main_unwinds: "w_main w = MainClosing r \<Longrightarrow>
    \<exists>w'. (world_step c)\<^sup>*\<^sup>* w w' \<and> w_main w' = MainReturned r \<and> w_service_stopping w'
      \<and> w_server w' = SetStatus ServerStatusInitialized (w_server w)"
proof -
  assume m: "w_main w = MainClosing r"
  let ?a = "w\<lparr>w_service_stopping := True, w_main := MainDraining r\<rparr>"
  let ?b = "?a\<lparr>w_listener := (if w_listener ?a = ListenerServing then ListenerEnded else w_listener ?a), w_main := MainStopped r\<rparr>"
  let ?d = "?b\<lparr>w_server := SetStatus ServerStatusInitialized (w_server ?b), w_main := MainReturned r\<rparr>"
  have "world_step c w ?a" using m by (rule begin_shutdown)
  moreover have "world_step c ?a ?b" by (rule drained) simp
  moreover have "world_step c ?b ?d" by (rule main_returns) simp
  ultimately have "(world_step c)\<^sup>*\<^sup>* w ?d" by (meson converse_rtranclp_into_rtranclp rtranclp.rtrancl_refl)
  then show ?thesis by (intro exI[of _ ?d]) simp
qed

text \<open>Reading the signal, and first sending it when the channel is empty.\<close>

lemma loop_reads: "w_main w = MainLooping \<Longrightarrow> ws_signals (w_server w) \<noteq> [] \<Longrightarrow>
    \<exists>w' r. world_step c w w' \<and> w_main w' = MainClosing r"
  by (cases "ws_signals (w_server w)") (auto intro!: exI main_signal)

lemma loop_ends:
  assumes "w_main w = MainLooping" "shutdown_on_its_way w"
  shows "\<exists>w' r. (world_step c)\<^sup>*\<^sup>* w w' \<and> w_main w' = MainClosing r"
proof (cases "ws_signals (w_server w) = []")
  case True
  then obtain k where k: "w_handler w k = HandlerSending SIGTERM" using assms by (auto simp: shutdown_on_its_way_def)
  let ?s = "(w_server w)\<lparr>ws_signals := [SIGTERM]\<rparr>"
  let ?w = "w\<lparr>w_server := ?s, w_handler := (w_handler w)(k := HandlerAnswered)\<rparr>"
  have "world_step c w ?w" by (rule send[OF k]) (simp add: send_signal_def True)
  moreover obtain w' r where "world_step c ?w w'" "w_main w' = MainClosing r" using loop_reads[of ?w c] assms by auto
  ultimately show ?thesis by (meson converse_rtranclp_into_rtranclp r_into_rtranclp)
next
  case False
  then show ?thesis using loop_reads[of w c] assms by (meson r_into_rtranclp)
qed

text \<open>Once stopping, the server never runs again before it has stopped.\<close>

lemma stopping_is_final:
  "world_step c w w' \<Longrightarrow> w_main w = MainLooping \<Longrightarrow> ws_status (w_server w) = ServerStatusStopping \<Longrightarrow>
    ws_status (w_server w') = ServerStatusStopping"
  by (induction rule: world_step.induct) (auto simp: server_step_defs split: if_splits)

text \<open>After \<^verbatim>\<open>Start\<close> returned, \<^verbatim>\<open>Finalize\<close> never waits and only leaves Consul.\<close>

lemma finalize_returns: "world_inv w \<Longrightarrow> w_main w = MainReturned r \<Longrightarrow>
    Finalize e c (w_server w) = Some (if consul_Enable (Consul c) then snd (DeRegisterConsul e c (w_server w)) else w_server w)"
  by (auto simp: world_inv_def Finalize_def)

text \<open>A handler that waits to send is never the only one that can move.\<close>

lemma blocked_sender: "w_handler w k = HandlerSending sig \<Longrightarrow> send_signal sig (w_server w) = None \<Longrightarrow>
    w_main w = MainLooping \<Longrightarrow> \<exists>w' r. world_step c w w' \<and> w_main w' = MainClosing r"
  by (rule loop_reads) (auto simp: send_signal_def split: if_splits)

lemma restart_needs_a_hangup: "world_step c w w' \<Longrightarrow> w_main w = MainLooping \<Longrightarrow> w_main w' = MainClosing RestartRequested \<Longrightarrow>
    \<exists>rest. ws_signals (w_server w) = SIGHUP # rest"
proof (induction rule: world_step.induct)
  case (main_signal w sig rest)
  then show ?case by (cases sig) auto
qed auto

lemma Initialize_starting:
  assumes "Initialize e c options NewServer = (None, s)" "\<forall>f \<in> set options. \<forall>s. ws_signals (f s) = ws_signals s \<and> ws_errsChan (f s) = ws_errsChan s"
  shows "starting_server s"
proof -
  have "ws_signals (fold (\<lambda>f s. f s) options s0) = ws_signals s0 \<and> ws_errsChan (fold (\<lambda>f s. f s) options s0) = ws_errsChan s0" for s0
    using assms(2) by (induction options arbitrary: s0) auto
  then show ?thesis using assms(1)
    by (auto simp: Initialize_def NewServer_def starting_server_def SetStatus_def RegisterConsul_def Let_def
        split: option.splits if_splits)
qed

lemma server_options_quiet: "f \<in> set (server_options e c) \<Longrightarrow> ws_signals (f s) = ws_signals s \<and> ws_errsChan (f s) = ws_errsChan s"
  by (auto simp: server_options_def WithFiberLogger_def WithCors_def WithPrometheus_def WithAPIRoutes_def
      app_use_def SetInitError_def split: sum.splits)

text \<open>A signal alone takes the server from its start to its end, and leaves it as it was.\<close>

lemma signal_ends_server:
  assumes s: "starting_server s" "ws_signals s = []"
  shows "\<exists>w. (world_step c)\<^sup>*\<^sup>* (world_of s) w \<and> w_main w = MainReturned (on_signal sig) \<and> w_server w = s"
proof -
  let ?run = "SetStatus ServerStatusRunning s"
  let ?l = "if HTTP_Enable c then ListenerServing else ListenerNone"
  let ?a = "(world_of s)\<lparr>w_server := ?run, w_main := MainListen\<rparr>"
  let ?b = "?a\<lparr>w_main := MainLooping, w_listener := ?l\<rparr>"
  let ?d = "?b\<lparr>w_server := ?run\<lparr>ws_signals := [sig]\<rparr>\<rparr>"
  let ?f = "?d\<lparr>w_server := ?run\<lparr>ws_signals := []\<rparr>, w_main := MainClosing (on_signal sig)\<rparr>"
  have "world_step c (world_of s) ?a" using start[of "world_of s" c] s by (simp add: world_of_def starting_server_def start_refused_def)
  moreover have "world_step c ?a ?b" using listen[of ?a c] by simp
  moreover have "world_step c ?b ?d" using signal_arrives[of c ?b sig] s(2)
    by (simp add: world_of_def notify_signal_def send_signal_def SetStatus_def)
  moreover have "world_step c ?d ?f" using main_signal[of ?d sig "[]" c] by (simp add: world_of_def SetStatus_def if_distrib[of w_listener])
  ultimately have "(world_step c)\<^sup>*\<^sup>* (world_of s) ?f" by (meson converse_rtranclp_into_rtranclp rtranclp.rtrancl_refl)
  moreover obtain w where "(world_step c)\<^sup>*\<^sup>* ?f w" "w_main w = MainReturned (on_signal sig)"
    "w_server w = SetStatus ServerStatusInitialized (w_server ?f)" using main_unwinds[of ?f "on_signal sig" c] by auto
  moreover have "SetStatus ServerStatusInitialized (?run\<lparr>ws_signals := []\<rparr>) = s"
    using s by (cases s) (simp add: SetStatus_def starting_server_def)
  ultimately show ?thesis by (intro exI[of _ w]) simp
qed

end
