(* ===== verification/Callback.thy ===== *)
theory Callback
  imports Trace
begin

text \<open>
  The job completion callbacks (\<^verbatim>\<open>src/callback/callback.go\<close>): which notifications send
  one, what is sent, and the retries. The HTTP client is a library: the outcome of the
  attempt number \<open>k\<close> of one callback is a parameter, as are the JSON text of a payload and the
  text of an id. A goroutine waits for one of the \<open>maxConcurrentCallbacks\<close> slots before it sends; the
  slots are a counter with the steps of the goroutines. Logging is left out.
\<close>

section \<open>Which notifications send a callback\<close>

record CallbackPayload =
  JobID :: string
  Status :: string
  cb_Timestamp :: int64
  cb_Job :: job

record CallbackService =
  maxRetries :: int
  retryDelay :: int64

definition NewCallbackService :: CallbackService where
  "NewCallbackService = \<lparr>maxRetries = 3, retryDelay = 2 * 1000000000\<rparr>"

definition ShouldTriggerCallback :: "job \<Rightarrow> bool" where
  "ShouldTriggerCallback j \<longleftrightarrow> (if CallbackURL j = [] then False else IsCompleted j)"

text \<open>The state of the observer is the list of the callbacks it started, each with its copy of the job.\<close>

definition cb_NotifyJobEvent :: "job \<Rightarrow> ServiceEventType \<Rightarrow> job list \<Rightarrow> job list" where
  "cb_NotifyJobEvent j ev started =
    (if ev \<notin> {ServiceEventJobSucceeded, ServiceEventJobCanceled, ServiceEventJobTerminated} then started
     else if ShouldTriggerCallback j then started @ [Snapshot j] else started)"

definition callback_observer :: "job list observer" where
  "callback_observer = \<lparr>ob_Init = (\<lambda>s. (None, s)), ob_Shutdown = (\<lambda>s. s), ob_NotifyEvent = (\<lambda>ev s. s),
    ob_NotifyTopicEvent = (\<lambda>ev t s. s), ob_NotifyJobEvent = cb_NotifyJobEvent\<rparr>"

section \<open>Sending\<close>

datatype attempt = BadRequest string | NoResponse string | CloseFailed string | Response nat

record callback_env =
  ce_uuid_string :: "JobUUID \<Rightarrow> string"
  ce_json :: "CallbackPayload \<Rightarrow> string + string"
  ce_http :: "string \<Rightarrow> string \<Rightarrow> nat \<Rightarrow> attempt"

text \<open>The error of one attempt, or none for a 2xx status.\<close>

definition attempt_error :: "attempt \<Rightarrow> string option" where
  "attempt_error a = (case a of
      BadRequest err \<Rightarrow> Some (''failed to create request: '' @ err)
    | NoResponse err \<Rightarrow> Some (''HTTP request failed: '' @ err)
    | CloseFailed err \<Rightarrow> Some (''failed to close response body: '' @ err)
    | Response status \<Rightarrow> if status \<ge> 200 \<and> status < 300 then None
        else Some (''callback returned status '' @ show_nat status))"

text \<open>
  The loop: the last error, then the outcome with the number of attempts made and the time
  slept.
\<close>

function send_loop :: "CallbackService \<Rightarrow> (nat \<Rightarrow> attempt) \<Rightarrow> int \<Rightarrow> string \<Rightarrow> int64 \<Rightarrow> string option \<times> int \<times> int64" where
  "send_loop cs http attempt lastErr slept =
    (if attempt > maxRetries cs
     then (Some (''failed to send callback after '' @ show_int (maxRetries cs + 1) @ '' attempts: '' @ lastErr), attempt, slept)
     else let slept = (if attempt > 0 then slept + retryDelay cs else slept)
       in case attempt_error (http (nat attempt)) of
         None \<Rightarrow> (None, attempt + 1, slept)
       | Some err \<Rightarrow> send_loop cs http (attempt + 1) err slept)"
  by pat_completeness auto
termination by (relation "measure (\<lambda>(cs, http, a, l, s). nat (maxRetries cs + 1 - a))") auto

declare send_loop.simps [simp del]

definition sendCallback :: "CallbackService \<Rightarrow> callback_env \<Rightarrow> string \<Rightarrow> CallbackPayload \<Rightarrow> string option \<times> int \<times> int64" where
  "sendCallback cs e url payload =
    (case ce_json e payload of
      Inl err \<Rightarrow> (Some (''failed to marshal callback payload: '' @ err), 0, 0)
    | Inr jsonData \<Rightarrow> send_loop cs (ce_http e url jsonData) 0 [] 0)"

definition callback_payload :: "callback_env \<Rightarrow> job \<Rightarrow> CallbackPayload" where
  "callback_payload e j = \<lparr>JobID = ce_uuid_string e (JobUUID j), Status = GetStateString j,
    cb_Timestamp = GetLastUpdateDate j, cb_Job = j\<rparr>"

definition ExecuteCallback :: "CallbackService \<Rightarrow> callback_env \<Rightarrow> job \<Rightarrow> string option \<times> int \<times> int64" where
  "ExecuteCallback cs e j =
    (if CallbackURL j = []
     then (Some (''callback URL is empty for job '' @ ce_uuid_string e (JobUUID j)), 0, 0)
     else sendCallback cs e (CallbackURL j) (callback_payload e j))"

section \<open>The slots\<close>

definition maxConcurrentCallbacks :: nat where
  "maxConcurrentCallbacks = 256"

record slots =
  cb_waiting :: "job list"
  cb_sending :: "job list"

inductive slot_step :: "slots \<Rightarrow> slots \<Rightarrow> bool" where
  spawn: "slot_step s (s\<lparr>cb_waiting := cb_waiting s @ [j]\<rparr>)"
| acquire: "cb_waiting s = ws @ j # vs \<Longrightarrow> length (cb_sending s) < maxConcurrentCallbacks \<Longrightarrow>
    slot_step s (s\<lparr>cb_waiting := ws @ vs, cb_sending := cb_sending s @ [j]\<rparr>)"
| finish: "cb_sending s = ws @ j # vs \<Longrightarrow> slot_step s (s\<lparr>cb_sending := ws @ vs\<rparr>)"

inductive_cases slot_stepE: "slot_step s s'"

section \<open>Lemmas\<close>

text \<open>The loop ends with the first attempt that succeeds, or after the last one.\<close>

lemma send_loop_result:
  assumes "0 \<le> a"
  shows "(\<forall>k. a \<le> k \<and> k < b \<longrightarrow> attempt_error (http (nat k)) \<noteq> None) \<Longrightarrow> a \<le> b \<Longrightarrow> b \<le> maxRetries cs \<Longrightarrow>
      attempt_error (http (nat b)) = None \<Longrightarrow>
      \<exists>s. send_loop cs http a l s0 = (None, b + 1, s)"
    and "(\<forall>k. a \<le> k \<and> k \<le> maxRetries cs \<longrightarrow> attempt_error (http (nat k)) \<noteq> None) \<Longrightarrow> a \<le> maxRetries cs + 1 \<Longrightarrow>
      \<exists>m s. send_loop cs http a l s0 = (Some m, maxRetries cs + 1, s)"
proof -
  show "(\<forall>k. a \<le> k \<and> k < b \<longrightarrow> attempt_error (http (nat k)) \<noteq> None) \<Longrightarrow> a \<le> b \<Longrightarrow> b \<le> maxRetries cs \<Longrightarrow>
      attempt_error (http (nat b)) = None \<Longrightarrow> \<exists>s. send_loop cs http a l s0 = (None, b + 1, s)"
  proof (induction cs http a l s0 rule: send_loop.induct)
    case (1 cs http a l s0)
    show ?case
    proof (cases "a = b")
      case True
      then show ?thesis using "1.prems" by (subst send_loop.simps) simp
    next
      case False
      then obtain m where "attempt_error (http (nat a)) = Some m" using "1.prems" by fastforce
      then show ?thesis using "1.IH"[OF _ refl] "1.prems" False by (subst send_loop.simps) (simp add: Let_def)
    qed
  qed
  show "(\<forall>k. a \<le> k \<and> k \<le> maxRetries cs \<longrightarrow> attempt_error (http (nat k)) \<noteq> None) \<Longrightarrow> a \<le> maxRetries cs + 1 \<Longrightarrow>
      \<exists>m s. send_loop cs http a l s0 = (Some m, maxRetries cs + 1, s)"
  proof (induction cs http a l s0 rule: send_loop.induct)
    case (1 cs http a l s0)
    show ?case
    proof (cases "a \<le> maxRetries cs")
      case True
      then obtain m where "attempt_error (http (nat a)) = Some m" using "1.prems" by fastforce
      then show ?thesis using "1.IH"[OF _ refl] "1.prems" True by (subst send_loop.simps) (simp add: Let_def)
    next
      case False
      then show ?thesis using "1.prems" by (subst send_loop.simps) simp
    qed
  qed
qed

lemma slots_bounded: "slot_step\<^sup>*\<^sup>* \<lparr>cb_waiting = [], cb_sending = []\<rparr> s \<Longrightarrow> length (cb_sending s) \<le> maxConcurrentCallbacks"
proof (induction rule: rtranclp_induct)
  case (step s s')
  from step.hyps(2) step.IH show ?case by (cases rule: slot_step.cases) auto
qed simp

text \<open>The callbacks a trace starts.\<close>

definition completions :: "notif list \<Rightarrow> job list" where
  "completions ns = concat (map (\<lambda>n. case n of
      NJob j ev \<Rightarrow> if ev \<in> {ServiceEventJobSucceeded, ServiceEventJobCanceled, ServiceEventJobTerminated}
        \<and> CallbackURL j \<noteq> [] then [j] else []
    | _ \<Rightarrow> []) ns)"

lemma callbacks_of_trace:
  "trace_ok k ns v \<Longrightarrow> fold (observe callback_observer) ns cs = cs @ completions ns"
proof (induction ns arbitrary: v cs)
  case Nil
  then show ?case by (simp add: completions_def)
next
  case (Cons n ns)
  have "observe callback_observer n cs = cs @ completions [n]"
  proof (cases n)
    case (NJob j ev)
    have "IsCompleted j" if e: "ev \<in> {ServiceEventJobSucceeded, ServiceEventJobCanceled, ServiceEventJobTerminated}"
    proof -
      have "notif_ok n v" using Cons.prems by simp
      then have "(if jv_restore v then ev = ServiceEventJobLoaded else if ev = ServiceEventJobCreated
          then jv_jobs v (JobUUID j) = None \<and> state j = JobCreated \<and> previousState j = JobNoState
            \<and> (\<exists>t. History j = [\<lparr>EventType = JobEventCreate, Timestamp = t\<rparr>])
          else \<exists>h j0. history_event ev = Some h \<and> jv_jobs v (JobUUID j) = Some j0 \<and> next_job h j0 j)"
        using NJob unfolding notif_ok_def by blast
      then obtain h where "history_event ev = Some h" "state j = GetStateFromEvent h"
        using e by (auto simp: next_job_def split: if_splits)
      then show ?thesis using e by (auto simp: IsCompleted_def)
    qed
    then show ?thesis using NJob
      by (auto simp: callback_observer_def cb_NotifyJobEvent_def ShouldTriggerCallback_def completions_def)
  qed (simp_all add: callback_observer_def completions_def)
  moreover have "completions (n # ns) = completions [n] @ completions ns" by (simp add: completions_def)
  ultimately show ?case using Cons.IH[of "view_step n v" "cs @ completions [n]"] Cons.prems by simp
qed

lemma completions_have_urls: "j \<in> set (completions ns) \<Longrightarrow> CallbackURL j \<noteq> []"
  by (auto simp: completions_def split: notif.splits if_splits)

text \<open>The attempts of one callback, counted from the first.\<close>

lemma ExecuteCallback_attempts:
  assumes "CallbackURL j \<noteq> []" and "ce_json ce (callback_payload ce j) = Inr data"
  defines "err \<equiv> \<lambda>k. attempt_error (ce_http ce (CallbackURL j) data k)"
  shows "(\<exists>b \<le> 3. (\<forall>k < b. err k \<noteq> None) \<and> err b = None
      \<and> (\<exists>slept. ExecuteCallback NewCallbackService ce j = (None, int b + 1, slept)))
    \<or> (\<forall>k \<le> 3. err k \<noteq> None) \<and> (\<exists>m slept. ExecuteCallback NewCallbackService ce j = (Some m, 4, slept))"
proof -
  let ?http = "ce_http ce (CallbackURL j) data"
  have x: "ExecuteCallback NewCallbackService ce j = send_loop NewCallbackService ?http 0 [] 0"
    using assms(1,2) by (simp add: ExecuteCallback_def sendCallback_def)
  have m: "maxRetries NewCallbackService = 3" by (simp add: NewCallbackService_def)
  show ?thesis
  proof (cases "\<forall>k \<le> 3. err k \<noteq> None")
    case True
    then have "\<forall>k. 0 \<le> k \<and> k \<le> (3::int) \<longrightarrow> attempt_error (?http (nat k)) \<noteq> None" by (simp add: err_def nat_le_iff)
    then show ?thesis using send_loop_result(2)[of 0 NewCallbackService ?http "[]" 0] True by (simp add: x m)
  next
    case False
    define b where "b = (LEAST k. err k = None)"
    have b: "err b = None" "\<forall>k < b. err k \<noteq> None" "b \<le> 3"
      using False LeastI[of "\<lambda>k. err k = None"] not_less_Least[of _ "\<lambda>k. err k = None"] Least_le[of "\<lambda>k. err k = None"]
      unfolding b_def by (blast, blast, meson order_trans)
    have "\<forall>k. 0 \<le> k \<and> k < int b \<longrightarrow> attempt_error (?http (nat k)) \<noteq> None" using b(2) by (simp add: err_def nat_less_iff)
    then have "\<exists>s. send_loop NewCallbackService ?http 0 [] 0 = (None, int b + 1, s)"
      using send_loop_result(1)[of 0 "int b" ?http NewCallbackService "[]" 0] b(1,3) by (simp add: m err_def)
    then show ?thesis using b x by auto
  qed
qed

end
