(* ===== verification/EventLog.thy ===== *)
theory EventLog
  imports Events
begin

text \<open>
  The event log of \<^verbatim>\<open>src/eventlogger\<close>: one JSON line for each event. A line is a list of
  characters (the runes of Go's \<^verbatim>\<open>range\<close> loop; a string that is not UTF-8 is outside the
  model). The operating system (whether the file exists, can be opened, accepts a line), the
  formatted clock and the text of an id are parameters. The lemmas read a line back with the
  rules of JSON strings: the escaping is undone, and no topic can break out of its string.
\<close>

section \<open>Definitions\<close>

definition hex_char :: "nat \<Rightarrow> char" where
  "hex_char n = (if n < 10 then char_of (48 + n) else char_of (87 + n))"

text \<open>The escape of one character; \<^verbatim>\<open>%04x\<close> of a code below 32 is two zeros and two digits.\<close>

definition escape_char :: "char \<Rightarrow> string" where
  "escape_char r =
    (if r = CHR 0x22 then [CHR 0x5C, CHR 0x22]
     else if r = CHR 0x5C then [CHR 0x5C, CHR 0x5C]
     else if r = CHR 0x0A then [CHR 0x5C, CHR ''n'']
     else if r = CHR 0x0D then [CHR 0x5C, CHR ''r'']
     else if r = CHR 0x09 then [CHR 0x5C, CHR ''t'']
     else if (of_char r :: nat) < 0x20
     then [CHR 0x5C, CHR ''u'', CHR ''0'', CHR ''0'', hex_char (of_char r div 16), hex_char (of_char r mod 16)]
     else [r])"

definition escapeJSONString :: "string \<Rightarrow> string" where
  "escapeJSONString s =
    (if \<not> list_ex (\<lambda>r. r = CHR 0x22 \<or> r = CHR 0x5C \<or> (of_char r :: nat) < 0x20) s then s
     else concat (map escape_char s))"

record log_env =
  le_now :: "nat \<Rightarrow> string"
  le_uuid_string :: "JobUUID \<Rightarrow> string"
  le_write_ok :: "nat \<Rightarrow> bool"

text \<open>
  The log: the lines of the file, none once it is closed (nil); \<open>ev_errors\<close> counts the
  writes that failed (the code logs them and goes on).
\<close>

record event_log =
  ev_open :: bool
  ev_lines :: "string list"
  ev_calls :: nat
  ev_errors :: nat

definition quoted :: "string \<Rightarrow> string" where
  "quoted s = CHR 0x22 # s @ [CHR 0x22]"

definition field :: "string \<Rightarrow> string \<Rightarrow> string" where
  "field name value = quoted name @ '': '' @ quoted value"

definition ServiceEventToJson :: "string \<Rightarrow> ServiceEventType \<Rightarrow> string" where
  "ServiceEventToJson now ev = ''{'' @ field ''timestamp'' now @ '', '' @ field ''type'' (event_name ev) @ ''}''"

definition JobEventToJson :: "log_env \<Rightarrow> string \<Rightarrow> job \<Rightarrow> ServiceEventType \<Rightarrow> string" where
  "JobEventToJson e now j ev = ''{'' @ field ''timestamp'' now @ '', '' @ field ''type'' (event_name ev)
    @ '', '' @ field ''jobUUID'' (le_uuid_string e (JobUUID j))
    @ '', '' @ field ''topic'' (escapeJSONString (Topic j)) @ ''}''"

definition writeLine :: "log_env \<Rightarrow> string \<Rightarrow> event_log \<Rightarrow> event_log" where
  "writeLine e line s =
    (if \<not> ev_open s then s
     else if le_write_ok e (ev_calls s)
     then s\<lparr>ev_lines := ev_lines s @ [line], ev_calls := ev_calls s + 1\<rparr>
     else s\<lparr>ev_errors := ev_errors s + 1, ev_calls := ev_calls s + 1\<rparr>)"

definition not_logged :: "ServiceEventType set" where
  "not_logged = {ServiceEventEmptyPollReceived, ServiceEventJobHealthcheck, ServiceEventJobMetrics}"

definition el_NotifyEvent :: "log_env \<Rightarrow> ServiceEventType \<Rightarrow> event_log \<Rightarrow> event_log" where
  "el_NotifyEvent e ev s =
    (if ev \<in> not_logged then s else writeLine e (ServiceEventToJson (le_now e (ev_calls s)) ev) s)"

definition el_NotifyTopicEvent :: "log_env \<Rightarrow> ServiceEventType \<Rightarrow> string \<Rightarrow> event_log \<Rightarrow> event_log" where
  "el_NotifyTopicEvent e ev topic s =
    (if ev \<in> not_logged then s else writeLine e (ServiceEventToJson (le_now e (ev_calls s)) ev) s)"

definition el_NotifyJobEvent :: "log_env \<Rightarrow> job \<Rightarrow> ServiceEventType \<Rightarrow> event_log \<Rightarrow> event_log" where
  "el_NotifyJobEvent e j ev s = writeLine e (JobEventToJson e (le_now e (ev_calls s)) j ev) s"

text \<open>\<open>exists\<close> is what \<^verbatim>\<open>os.Stat\<close> finds: the lines of the file, if there is one.\<close>

definition OpenOrCreateFile :: "string list option \<Rightarrow> string option \<Rightarrow> event_log \<Rightarrow> string option \<times> event_log" where
  "OpenOrCreateFile exists err s =
    (case err of
      Some e \<Rightarrow> (Some e, s)
    | None \<Rightarrow> (None, s\<lparr>ev_open := True, ev_lines := (case exists of None \<Rightarrow> [] | Some ls \<Rightarrow> ls)\<rparr>))"

definition el_Shutdown :: "event_log \<Rightarrow> event_log" where
  "el_Shutdown s = s\<lparr>ev_open := False\<rparr>"

definition event_log_observer :: "log_env \<Rightarrow> string list option \<Rightarrow> string option \<Rightarrow> event_log observer" where
  "event_log_observer e exists err = \<lparr>ob_Init = OpenOrCreateFile exists err, ob_Shutdown = el_Shutdown,
    ob_NotifyEvent = el_NotifyEvent e, ob_NotifyTopicEvent = el_NotifyTopicEvent e,
    ob_NotifyJobEvent = el_NotifyJobEvent e\<rparr>"

section \<open>Reading a JSON string\<close>

definition hex_value :: "char \<Rightarrow> nat option" where
  "hex_value c = (let n = of_char c :: nat in
    if 48 \<le> n \<and> n \<le> 57 then Some (n - 48)
    else if 97 \<le> n \<and> n \<le> 102 then Some (n - 87)
    else if 65 \<le> n \<and> n \<le> 70 then Some (n - 55) else None)"

text \<open>
  The characters of a JSON string up to its closing quote, with what follows: the grammar of
  RFC 8259 for the escapes of one byte. A control character or another escape is an error.
\<close>

fun read_json :: "string \<Rightarrow> (string \<times> string) option" where
  "read_json [] = None"
| "read_json (c # cs) =
    (if c = CHR 0x22 then Some ([], cs)
     else if c = CHR 0x5C then
       (case cs of
         [] \<Rightarrow> None
       | d # ds \<Rightarrow>
         if d = CHR 0x22 \<or> d = CHR 0x5C \<or> d = CHR ''/''
         then map_option (\<lambda>(s, rest). (d # s, rest)) (read_json ds)
         else if d = CHR ''n'' then map_option (\<lambda>(s, rest). (CHR 0x0A # s, rest)) (read_json ds)
         else if d = CHR ''r'' then map_option (\<lambda>(s, rest). (CHR 0x0D # s, rest)) (read_json ds)
         else if d = CHR ''t'' then map_option (\<lambda>(s, rest). (CHR 0x09 # s, rest)) (read_json ds)
         else if d = CHR ''u'' then
           (case ds of
             a # b # g # h # es \<Rightarrow>
               (case (hex_value a, hex_value b, hex_value g, hex_value h) of
                 (Some 0, Some 0, Some x, Some y) \<Rightarrow>
                   map_option (\<lambda>(s, rest). (char_of (16 * x + y) # s, rest)) (read_json es)
               | _ \<Rightarrow> None)
           | _ \<Rightarrow> None)
         else None)
     else if (of_char c :: nat) < 0x20 then None
     else map_option (\<lambda>(s, rest). (c # s, rest)) (read_json cs))"

lemma hex_value_char: "n < 16 \<Longrightarrow> hex_value (hex_char n) = Some n"
  by (auto simp: hex_value_def hex_char_def Let_def)

lemma read_escape_char:
  "read_json (escape_char r @ s) = map_option (\<lambda>(t, rest). (r # t, rest)) (read_json s)"
proof -
  consider "r = CHR 0x22" | "r = CHR 0x5C" | "r = CHR 0x0A" | "r = CHR 0x0D" | "r = CHR 0x09"
    | "r \<notin> {CHR 0x22, CHR 0x5C, CHR 0x0A, CHR 0x0D, CHR 0x09}" "(of_char r :: nat) < 0x20"
    | "r \<notin> {CHR 0x22, CHR 0x5C, CHR 0x0A, CHR 0x0D, CHR 0x09}" "\<not> (of_char r :: nat) < 0x20" by blast
  then show ?thesis
  proof cases
    case 6
    let ?n = "of_char r :: nat"
    have h: "hex_value (hex_char (?n div 16)) = Some (?n div 16)" "hex_value (hex_char (?n mod 16)) = Some (?n mod 16)"
      using 6(2) by (simp_all add: hex_value_char)
    have z: "hex_value (CHR ''0'') = Some 0" by (simp add: hex_value_def)
    have "char_of (16 * (?n div 16) + ?n mod 16) = r" by simp
    then show ?thesis using 6 h z by (simp add: escape_char_def)
  qed (simp_all add: escape_char_def)
qed

lemma read_escaped: "read_json (concat (map escape_char s) @ CHR 0x22 # rest) = Some (s, rest)"
  by (induction s) (simp, simp add: read_escape_char del: read_json.simps(2))

lemma escape_plain: "\<not> list_ex (\<lambda>r. r = CHR 0x22 \<or> r = CHR 0x5C \<or> (of_char r :: nat) < 0x20) s \<Longrightarrow>
    concat (map escape_char s) = s"
  by (induction s) (auto simp: escape_char_def)

text \<open>The topic of a line is read back, whatever it is, and the line goes on after it.\<close>

lemma read_escapeJSONString: "read_json (escapeJSONString s @ CHR 0x22 # rest) = Some (s, rest)"
  using read_escaped[of s rest] escape_plain[of s] by (auto simp: escapeJSONString_def)

lemma JobEventToJson_topic:
  "\<exists>before. JobEventToJson e now j ev = before @ CHR 0x22 # escapeJSONString (Topic j) @ CHR 0x22 # ''}''
    \<and> read_json (escapeJSONString (Topic j) @ CHR 0x22 # ''}'') = Some (Topic j, ''}'')"
proof (intro exI conjI)
  show "JobEventToJson e now j ev = (''{'' @ field ''timestamp'' now @ '', '' @ field ''type'' (event_name ev)
      @ '', '' @ field ''jobUUID'' (le_uuid_string e (JobUUID j)) @ '', '' @ quoted ''topic'' @ '': '')
    @ CHR 0x22 # escapeJSONString (Topic j) @ CHR 0x22 # ''}''"
    by (simp add: JobEventToJson_def field_def quoted_def)
qed (rule read_escapeJSONString)

lemma not_closed_no_line: "\<not> ev_open s \<Longrightarrow> observe (event_log_observer e x err) n s = s"
  by (cases n) (simp_all add: event_log_observer_def el_NotifyJobEvent_def el_NotifyEvent_def
      el_NotifyTopicEvent_def writeLine_def)

section \<open>The log of a trace\<close>

text \<open>The notifications that are logged, and the line of one, given the number of the write.\<close>

fun logged :: "notif \<Rightarrow> bool" where
  "logged (NJob j ev) = True"
| "logged (NEvent ev) = (ev \<notin> not_logged)"
| "logged (NTopic ev t) = (ev \<notin> not_logged)"
| "logged _ = False"

fun line_of :: "log_env \<Rightarrow> nat \<Rightarrow> notif \<Rightarrow> string" where
  "line_of e k (NJob j ev) = JobEventToJson e (le_now e k) j ev"
| "line_of e k (NEvent ev) = ServiceEventToJson (le_now e k) ev"
| "line_of e k (NTopic ev t) = ServiceEventToJson (le_now e k) ev"
| "line_of e k _ = []"

lemma observe_log: "observe (event_log_observer e x err) n s = (if logged n then writeLine e (line_of e (ev_calls s) n) s else s)"
  by (cases n) (simp_all add: event_log_observer_def el_NotifyJobEvent_def el_NotifyEvent_def el_NotifyTopicEvent_def)

text \<open>The lines are those of the logged notifications, in order, but for the writes that failed.\<close>

lemma log_of_trace:
  fixes ns :: "notif list"
  assumes "ev_open s"
  defines "ws \<equiv> enumerate (ev_calls s) (filter logged ns)"
  shows "fold (observe (event_log_observer e x err)) ns s =
    s\<lparr>ev_lines := ev_lines s @ map (\<lambda>(k, n). line_of e k n) (filter (\<lambda>(k, n). le_write_ok e k) ws),
      ev_calls := ev_calls s + length ws,
      ev_errors := ev_errors s + length (filter (\<lambda>(k, n). \<not> le_write_ok e k) ws)\<rparr>"
  unfolding ws_def using assms(1)
proof (induction ns arbitrary: s)
  case Nil
  then show ?case by simp
next
  case (Cons n ns)
  let ?s = "observe (event_log_observer e x err) n s"
  have "ev_open ?s" using Cons.prems by (simp add: observe_log writeLine_def)
  from Cons.IH[OF this] show ?case using Cons.prems by (simp add: observe_log writeLine_def)
qed

end
