(* ===== verification/Startup.thy ===== *)
theory Startup
  imports Server Metrics Callback EventLog Lifecycle
begin

text \<open>
  From the command line to the running server: the configuration (\<^verbatim>\<open>src/config/config.go\<close>),
  the registry of the providers (\<^verbatim>\<open>src/jobbackendprovider/registry\<close>), the start and the end of the
  service (\<^verbatim>\<open>Init\<close> and \<^verbatim>\<open>Stop\<close> of \<^verbatim>\<open>src/service/service.go\<close>), and \<^verbatim>\<open>RunServer\<close> and \<^verbatim>\<open>run\<close> of
  \<^verbatim>\<open>src/cmd/minijob/minijob.go\<close> with the deferred calls. The YAML decoder, the loggers and what a
  provider does are parameters; the flags of the command line are not modelled.
\<close>

section \<open>Configuration\<close>

record Config =
  cfg_Environment :: string
  cfg_BackendType :: string
  cfg_DefaultVisibilityTimeout :: uint
  cfg_MaxVisibilityTimeout :: uint
  cfg_EventsLogger_Enable :: bool
  cfg_EventsLogger_FilePath :: string
  cfg_Server :: server_conf

definition defaultVisibilityTimeout :: uint where "defaultVisibilityTimeout = 60"
definition maxVisibilityTimeout :: uint where "maxVisibilityTimeout = 86400"

definition setVisibilityTimeouts :: "Config \<Rightarrow> string option \<times> Config" where
  "setVisibilityTimeouts c =
    (let c = (if cfg_MaxVisibilityTimeout c = 0 then c\<lparr>cfg_MaxVisibilityTimeout := maxVisibilityTimeout\<rparr> else c);
         c = (if cfg_DefaultVisibilityTimeout c = 0
              then c\<lparr>cfg_DefaultVisibilityTimeout := min defaultVisibilityTimeout (cfg_MaxVisibilityTimeout c)\<rparr> else c)
     in (if cfg_DefaultVisibilityTimeout c > cfg_MaxVisibilityTimeout c
         then Some (''jobs.defaultVisibilityTimeout ('' @ show_nat (cfg_DefaultVisibilityTimeout c)
           @ '') is greater than jobs.maxVisibilityTimeout ('' @ show_nat (cfg_MaxVisibilityTimeout c) @ '')'')
         else None, c))"

text \<open>What follows the first YAML document of the file.\<close>

datatype next_document = EndOfFile | AnotherDocument | BadDocument string

record config_file =
  cf_open :: "string option"
  cf_first :: "string + Config"
  cf_rest :: next_document
  cf_logger :: "string option"

definition LoadConfig :: "string \<Rightarrow> config_file \<Rightarrow> string + Config" where
  "LoadConfig filename f =
    (case cf_open f of
      Some err \<Rightarrow> Inl (''error while opening configuration file '' @ filename @ '' : '' @ err)
    | None \<Rightarrow>
      (case (case cf_first f of
          Inl err \<Rightarrow> Inl err
        | Inr c \<Rightarrow> (case cf_rest f of
            AnotherDocument \<Rightarrow> Inl ''only one YAML document is allowed''
          | EndOfFile \<Rightarrow> Inr c
          | BadDocument err \<Rightarrow> Inl err)) of
        Inl err \<Rightarrow> Inl (''error while parsing configuration file '' @ filename @ '' : '' @ err)
      | Inr c \<Rightarrow>
        (case setVisibilityTimeouts c of
          (Some err, c) \<Rightarrow> Inl (''invalid configuration file '' @ filename @ '' : '' @ err)
        | (None, c) \<Rightarrow> (case cf_logger f of Some err \<Rightarrow> Inl err | None \<Rightarrow> Inr c))))"

section \<open>Registry of providers\<close>

text \<open>A factory makes a provider of a configuration; \<^verbatim>\<open>nil\<close> is \<open>None\<close>.\<close>

type_synonym 'p Factory = "Config \<Rightarrow> string + 'p"
type_synonym 'p registry = "(string, 'p Factory) gomap"

definition in_quotes :: "string \<Rightarrow> string" where
  "in_quotes s = CHR 0x27 # s @ [CHR 0x27]"

definition registry_Register :: "string \<Rightarrow> 'p Factory option \<Rightarrow> 'p registry \<Rightarrow> string option \<times> 'p registry" where
  "registry_Register name factory r =
    (if name = [] then (Some ''error registering job backend provider: name cannot be empty'', r)
     else case factory of
       None \<Rightarrow> (Some (''error registering job backend provider '' @ in_quotes name @ '': factory cannot be empty''), r)
     | Some f \<Rightarrow>
       if map_of r name \<noteq> None
       then (Some (''error registering job backend provider '' @ in_quotes name @ '': already registered''), r)
       else (None, AList.update name f r))"

definition GetFactory :: "string \<Rightarrow> 'p registry \<Rightarrow> string + 'p Factory" where
  "GetFactory name r = (case map_of r name of
      None \<Rightarrow> Inl (''error creating job backend provider. No such provider type exists: '' @ in_quotes name)
    | Some f \<Rightarrow> Inr f)"

text \<open>The three factories of the code, in a record.\<close>

record 'p factories =
  NewMockJobBackendProvider :: "'p Factory"
  NewInMemoryJobBackendProvider :: "'p Factory"
  NewRedisJobBackendProvider :: "'p Factory"

definition SetupJobBackendProviders :: "'p factories \<Rightarrow> 'p registry \<Rightarrow> string option \<times> 'p registry" where
  "SetupJobBackendProviders fs r =
    (case registry_Register ''mock'' (Some (NewMockJobBackendProvider fs)) r of
      (Some err, r) \<Rightarrow> (Some err, r)
    | (None, r) \<Rightarrow>
      (case registry_Register ''inMemory'' (Some (NewInMemoryJobBackendProvider fs)) r of
        (Some err, r) \<Rightarrow> (Some err, r)
      | (None, r) \<Rightarrow> registry_Register ''redis'' (Some (NewRedisJobBackendProvider fs)) r))"

definition FinalizeJobBackendProviders :: "'p registry \<Rightarrow> 'p registry" where
  "FinalizeJobBackendProviders r = fold (\<lambda>k r. AList.delete k r) (map fst r) r"

definition NewJobBackendProvider :: "string option \<Rightarrow> Config \<Rightarrow> 'p registry \<Rightarrow> string + 'p" where
  "NewJobBackendProvider logger_err conf r =
    (case GetFactory (cfg_BackendType conf) r of
      Inl err \<Rightarrow> Inl err
    | Inr factory \<Rightarrow> (case logger_err of Some err \<Rightarrow> Inl err | None \<Rightarrow> factory conf))"

section \<open>Start and end of the service\<close>

text \<open>The observers have states of different types: an observer of a part of a sum.\<close>

datatype 'p observed =
    ProviderState 'p
  | MetricsState ServiceMetrics
  | LogState event_log
  | CallbackState "job list"

definition on_state :: "('s \<Rightarrow> 'a option) \<Rightarrow> ('a \<Rightarrow> 's) \<Rightarrow> 'a observer \<Rightarrow> 's observer" where
  "on_state get put ob =
    \<lparr>ob_Init = (\<lambda>s. case get s of None \<Rightarrow> (None, s) | Some a \<Rightarrow> map_prod (\<lambda>x. x) put (ob_Init ob a)),
     ob_Shutdown = (\<lambda>s. case get s of None \<Rightarrow> s | Some a \<Rightarrow> put (ob_Shutdown ob a)),
     ob_NotifyEvent = (\<lambda>ev s. case get s of None \<Rightarrow> s | Some a \<Rightarrow> put (ob_NotifyEvent ob ev a)),
     ob_NotifyTopicEvent = (\<lambda>ev t s. case get s of None \<Rightarrow> s | Some a \<Rightarrow> put (ob_NotifyTopicEvent ob ev t a)),
     ob_NotifyJobEvent = (\<lambda>j ev s. case get s of None \<Rightarrow> s | Some a \<Rightarrow> put (ob_NotifyJobEvent ob j ev a))\<rparr>"

definition provider_state :: "'p observed \<Rightarrow> 'p option" where
  "provider_state s = (case s of ProviderState a \<Rightarrow> Some a | _ \<Rightarrow> None)"
definition metrics_state :: "'p observed \<Rightarrow> ServiceMetrics option" where
  "metrics_state s = (case s of MetricsState a \<Rightarrow> Some a | _ \<Rightarrow> None)"
definition log_state :: "'p observed \<Rightarrow> event_log option" where
  "log_state s = (case s of LogState a \<Rightarrow> Some a | _ \<Rightarrow> None)"
definition callback_state :: "'p observed \<Rightarrow> job list option" where
  "callback_state s = (case s of CallbackState a \<Rightarrow> Some a | _ \<Rightarrow> None)"

text \<open>What the observers are made of: the provider, the parameters of the metrics and of the log.\<close>

record 'p observers_env =
  oe_provider :: "'p observer"
  oe_metrics :: metrics_env
  oe_log :: log_env
  oe_log_exists :: "string list option"
  oe_log_error :: "string option"

definition closed_log :: event_log where
  "closed_log = \<lparr>ev_open = False, ev_lines = [], ev_calls = 0, ev_errors = 0\<rparr>"

definition observers :: "'p observers_env \<Rightarrow> Config \<Rightarrow> 'p \<Rightarrow> 'p observed notifier" where
  "observers e c p =
    (let n = Register (on_state provider_state ProviderState (oe_provider e), ProviderState p) [];
         n = (if Metrics_Enable (cfg_Server c)
              then Register (on_state metrics_state MetricsState (metrics_observer (oe_metrics e)),
                MetricsState (NewServiceMetrics True)) n else n);
         n = (if cfg_EventsLogger_Enable c \<and> cfg_EventsLogger_FilePath c \<noteq> []
              then Register (on_state log_state LogState (event_log_observer (oe_log e) (oe_log_exists e) (oe_log_error e)),
                LogState closed_log) n else n)
     in Register (on_state callback_state CallbackState callback_observer, CallbackState []) n)"

text \<open>\<^verbatim>\<open>Service.Init\<close>: \<open>load_err\<close> is the error of \<^verbatim>\<open>LoadJobs\<close>.\<close>

definition service_Init :: "'p observers_env \<Rightarrow> Config \<Rightarrow> string option \<Rightarrow> 'p \<Rightarrow> string option \<times> 'p observed notifier" where
  "service_Init e c load_err p =
    (case NotifierInit (observers e c p) of
      (Some err, n) \<Rightarrow> (Some err, n)
    | (None, n) \<Rightarrow> (load_err, n))"

text \<open>
  \<^verbatim>\<open>Service.Stop\<close>: \<open>se_loop\<close> tells what the loop of \<^verbatim>\<open>Run\<close> does meanwhile. The loop stops the
  provider when it sees the closed channel, and then ends.
\<close>

datatype end_step = LongPollsEnded | BackendStopped | LoopEnded | ObserversShutdown

record service_end =
  se_stopping :: bool
  se_stop_done :: bool
  se_lc :: lifecycle
  se_steps :: "end_step list"

definition end_long_polls :: "service_end \<Rightarrow> service_end" where
  "end_long_polls s = (if se_stopping s then s
    else s\<lparr>se_stopping := True, se_steps := se_steps s @ [LongPollsEnded]\<rparr>)"

definition run_stops :: "service_end \<Rightarrow> service_end" where
  "run_stops s = (if lc_done (se_lc s) then s
    else (case End (se_lc s) of
        None \<Rightarrow> s
      | Some l \<Rightarrow> s\<lparr>se_lc := l, se_steps := se_steps s @ [BackendStopped, LoopEnded]\<rparr>))"

definition service_Stop :: "service_end \<Rightarrow> service_end" where
  "service_Stop s =
    (if se_stop_done s then s
     else let s = end_long_polls (s\<lparr>se_stop_done := True\<rparr>);
              (started, l) = Stop_mark (se_lc s);
              s = s\<lparr>se_lc := Stop_close l\<rparr>;
              s = (if started then run_stops s else s\<lparr>se_steps := se_steps s @ [BackendStopped]\<rparr>)
          in s\<lparr>se_steps := se_steps s @ [ObserversShutdown]\<rparr>)"

definition new_service_end :: "lifecycle \<Rightarrow> service_end" where
  "new_service_end l = \<lparr>se_stopping = False, se_stop_done = False, se_lc = l, se_steps = []\<rparr>"

section \<open>The program\<close>

datatype effect = RegistryReady | ServiceReady | ServerReady | ServerFinalized | ServiceFinalized | RegistryFinalized

record 'p process =
  pr_registry :: "'p registry"
  pr_effects :: "effect list"

text \<open>
  One run of the server: what the provider, its logger and the start of the service answer,
  the server's surroundings, and how \<^verbatim>\<open>Start\<close> ends: its cause and the server it leaves.
\<close>

record ('p, 'f) run_env =
  re_factories :: "'p factories"
  re_logger :: "string option"
  re_observers :: "'p observers_env"
  re_load :: "string option"
  re_server :: "'f server_env"
  re_start :: "server \<Rightarrow> stop_cause \<times> server"

definition effect :: "effect \<Rightarrow> 'p process \<Rightarrow> 'p process" where
  "effect x p = p\<lparr>pr_effects := pr_effects p @ [x]\<rparr>"

definition finalize_registry :: "'p process \<Rightarrow> 'p process" where
  "finalize_registry p = effect RegistryFinalized (p\<lparr>pr_registry := FinalizeJobBackendProviders (pr_registry p)\<rparr>)"

definition CreateAndInitService :: "('p, 'f) run_env \<Rightarrow> Config \<Rightarrow> 'p registry \<Rightarrow> string option" where
  "CreateAndInitService e c r =
    (case NewJobBackendProvider (re_logger e) c r of
      Inl err \<Rightarrow> Some err
    | Inr bp \<Rightarrow> fst (service_Init (re_observers e) c (re_load e) bp))"

text \<open>The restart flag and the error, with the deferred calls; \<open>None\<close> never returns.\<close>

definition RunServer :: "('p, 'f) run_env \<Rightarrow> Config \<Rightarrow> 'p process \<Rightarrow> ((bool \<times> string option) \<times> 'p process) option" where
  "RunServer e c p =
    (case SetupJobBackendProviders (re_factories e) (pr_registry p) of
      (Some err, r) \<Rightarrow> Some ((False, Some err), p\<lparr>pr_registry := r\<rparr>)
    | (None, r) \<Rightarrow>
      (let p = effect RegistryReady (p\<lparr>pr_registry := r\<rparr>) in
       case CreateAndInitService e c (pr_registry p) of
         Some err \<Rightarrow> Some ((False, Some err), finalize_registry p)
       | None \<Rightarrow>
         (let p = effect ServiceReady p in
          case Initialize (re_server e) (cfg_Server c) (server_options (re_server e) (cfg_Server c)) NewServer of
            (Some err, s) \<Rightarrow> Some ((False, Some err), finalize_registry (effect ServiceFinalized p))
          | (None, s) \<Rightarrow>
            (let p = effect ServerReady p;
                 (cause, s) = re_start e s;
                 result = (case cause of
                     StoppedNormally \<Rightarrow> (False, None)
                   | RestartRequested \<Rightarrow> (True, None)
                   | StoppedWithError err \<Rightarrow> (False, Some err))
             in case Finalize (re_server e) (cfg_Server c) s of
                 None \<Rightarrow> None
               | Some s \<Rightarrow> Some (result, finalize_registry (effect ServiceFinalized (effect ServerFinalized p)))))))"

text \<open>\<^verbatim>\<open>run\<close>: the configuration and the surroundings of the \<open>n\<close>-th start; it may run for ever.\<close>

partial_function (option) run_program ::
  "(nat \<Rightarrow> string + Config) \<Rightarrow> (nat \<Rightarrow> ('p, 'f) run_env) \<Rightarrow> nat \<Rightarrow> 'p process \<Rightarrow> (nat \<times> 'p process) option" where
  "run_program load env n p =
    (case load n of
      Inl err \<Rightarrow> Some (1, p)
    | Inr c \<Rightarrow>
      (case RunServer (env n) c p of
        None \<Rightarrow> None
      | Some ((restartServer, serverErr), p) \<Rightarrow>
        if serverErr \<noteq> None then Some (1, p)
        else if \<not> restartServer then Some (0, p)
        else run_program load env (n + 1) p))"

section \<open>Lemmas\<close>

lemma registered_at_start:
  "\<exists>r. SetupJobBackendProviders fs [] = (None, r) \<and> map fst r = [''mock'', ''inMemory'', ''redis'']"
  by (simp add: SetupJobBackendProviders_def registry_Register_def)

lemma delete_keys: "fold (\<lambda>k r. AList.delete k r) ks r = filter (\<lambda>(k, v). k \<notin> set ks) r"
  by (induction ks arbitrary: r) (auto simp: AList.delete_eq case_prod_unfold intro!: filter_cong)

lemma FinalizeJobBackendProviders_empty [simp]: "FinalizeJobBackendProviders r = []"
  unfolding FinalizeJobBackendProviders_def delete_keys by (induction r) (auto simp: filter_empty_conv)

text \<open>The visibility timeouts of an accepted configuration are those of the web handlers.\<close>

lemma setVisibilityTimeouts_bounds:
  assumes "setVisibilityTimeouts c = (err, c')"
  shows "1 \<le> cfg_DefaultVisibilityTimeout c' \<and> 1 \<le> cfg_MaxVisibilityTimeout c'
    \<and> (err = None \<longleftrightarrow> cfg_DefaultVisibilityTimeout c' \<le> cfg_MaxVisibilityTimeout c')
    \<and> (cfg_DefaultVisibilityTimeout c \<noteq> 0 \<longrightarrow> cfg_DefaultVisibilityTimeout c' = cfg_DefaultVisibilityTimeout c)
    \<and> (cfg_MaxVisibilityTimeout c \<noteq> 0 \<longrightarrow> cfg_MaxVisibilityTimeout c' = cfg_MaxVisibilityTimeout c)"
  using assms by (auto simp: setVisibilityTimeouts_def Let_def defaultVisibilityTimeout_def maxVisibilityTimeout_def
      split: if_splits)

lemma LoadConfig_bounds:
  assumes "LoadConfig filename f = Inr c"
  shows "1 \<le> cfg_DefaultVisibilityTimeout c \<and> cfg_DefaultVisibilityTimeout c \<le> cfg_MaxVisibilityTimeout c"
proof -
  obtain c0 where "setVisibilityTimeouts c0 = (None, c)"
    using assms by (auto simp: LoadConfig_def split: option.splits sum.splits next_document.splits prod.splits)
  then show ?thesis using setVisibilityTimeouts_bounds[of c0 None c] by simp
qed

text \<open>Stopping twice changes nothing; the observers are shut down last, after the provider.\<close>

lemma service_Stop_twice: "service_Stop (service_Stop s) = service_Stop s"
  by (simp add: service_Stop_def Let_def case_prod_unfold run_stops_def end_long_polls_def End_def Stop_mark_def Stop_close_def)

lemma service_Stop_steps:
  assumes "lc_done l \<longrightarrow> lc_started l" "\<not> lc_done l"
  shows "se_steps (service_Stop (new_service_end l)) =
    (if lc_started l then [LongPollsEnded, BackendStopped, LoopEnded, ObserversShutdown]
     else [LongPollsEnded, BackendStopped, ObserversShutdown])"
  using assms by (simp add: service_Stop_def new_service_end_def end_long_polls_def Stop_mark_def Stop_close_def
      run_stops_def End_def Let_def)

section \<open>Every run of the server cleans up\<close>

text \<open>What one run answers: the error of the start, or how the server stopped.\<close>

definition registered :: "'p factories \<Rightarrow> 'p registry" where
  "registered fs = snd (SetupJobBackendProviders fs [])"

definition server_started :: "('p, 'f) run_env \<Rightarrow> Config \<Rightarrow> string + server" where
  "server_started e c =
    (case CreateAndInitService e c (registered (re_factories e)) of
      Some err \<Rightarrow> Inl err
    | None \<Rightarrow>
      (case Initialize (re_server e) (cfg_Server c) (server_options (re_server e) (cfg_Server c)) NewServer of
        (Some err, s) \<Rightarrow> Inl err
      | (None, s) \<Rightarrow> Inr s))"

definition served :: "('p, 'f) run_env \<Rightarrow> Config \<Rightarrow> bool \<times> string option" where
  "served e c =
    (case server_started e c of
      Inl err \<Rightarrow> (False, Some err)
    | Inr s \<Rightarrow> (case fst (re_start e s) of
        StoppedNormally \<Rightarrow> (False, None)
      | RestartRequested \<Rightarrow> (True, None)
      | StoppedWithError err \<Rightarrow> (False, Some err)))"

definition cleaned_up :: "effect list \<Rightarrow> bool" where
  "cleaned_up fx \<longleftrightarrow> fx \<in> {[RegistryReady, RegistryFinalized],
    [RegistryReady, ServiceReady, ServiceFinalized, RegistryFinalized],
    [RegistryReady, ServiceReady, ServerReady, ServerFinalized, ServiceFinalized, RegistryFinalized]}"

text \<open>\<open>Start\<close> ends as some interleaving of the goroutines of the server does.\<close>

definition server_ends :: "('p, 'f) run_env \<Rightarrow> Config \<Rightarrow> bool" where
  "server_ends e c \<longleftrightarrow> (\<forall>s. server_started e c = Inr s \<longrightarrow>
    (\<exists>w. (world_step (cfg_Server c))\<^sup>*\<^sup>* (world_of s) w \<and> w_main w = MainReturned (fst (re_start e s))
      \<and> w_server w = snd (re_start e s)))"

lemma started_is_starting:
  "Initialize e c (server_options e c) NewServer = (None, s) \<Longrightarrow> starting_server s"
  by (rule Initialize_starting) (auto dest: server_options_quiet)

lemma server_ends_finalize:
  assumes "server_ends e c" "server_started e c = Inr s"
  shows "\<exists>s'. Finalize (re_server e) (cfg_Server c) (snd (re_start e s)) = Some s'"
proof -
  obtain w where w: "(world_step (cfg_Server c))\<^sup>*\<^sup>* (world_of s) w" "w_main w = MainReturned (fst (re_start e s))"
    "w_server w = snd (re_start e s)" using assms by (auto simp: server_ends_def)
  have "starting_server s" using assms(2) started_is_starting
    by (fastforce simp: server_started_def split: option.splits prod.splits)
  then have "world_inv w" using world_inv_steps[OF w(1)] world_inv_start by blast
  from finalize_returns[OF this w(2), of "re_server e" "cfg_Server c"] show ?thesis by (simp add: w(3))
qed

lemma RunServer_ends:
  assumes p: "pr_registry p = []" and e: "server_ends e c"
  shows "\<exists>fx. cleaned_up fx \<and> RunServer e c p = Some (served e c, p\<lparr>pr_effects := pr_effects p @ fx\<rparr>)"
proof -
  let ?start = "Initialize (re_server e) (cfg_Server c) (server_options (re_server e) (cfg_Server c)) NewServer"
  let ?result = "\<lambda>fx. RunServer e c p = Some (served e c, p\<lparr>pr_effects := pr_effects p @ fx\<rparr>)"
  obtain r where r: "SetupJobBackendProviders (re_factories e) [] = (None, r)" using registered_at_start by blast
  have same: "p\<lparr>pr_registry := [], pr_effects := x\<rparr> = p\<lparr>pr_effects := x\<rparr>" for x using p by (cases p) simp
  note run = RunServer_def served_def server_started_def registered_def p r effect_def finalize_registry_def same
  show ?thesis
  proof (cases "CreateAndInitService e c r")
    case (Some err)
    then have "?result [RegistryReady, RegistryFinalized]" by (simp add: run)
    then show ?thesis unfolding cleaned_up_def by blast
  next
    case None
    note created = this
    show ?thesis
    proof (cases "?start")
      case (Pair err s)
      show ?thesis
      proof (cases err)
        case (Some m)
        then have "?result [RegistryReady, ServiceReady, ServiceFinalized, RegistryFinalized]"
          using created Pair by (simp add: run)
        then show ?thesis unfolding cleaned_up_def by blast
      next
        case None
        then have st: "server_started e c = Inr s" using created Pair r by (simp add: server_started_def registered_def)
        obtain cause s1 where s1: "re_start e s = (cause, s1)" by (cases "re_start e s")
        obtain s2 where "Finalize (re_server e) (cfg_Server c) s1 = Some s2"
          using server_ends_finalize[OF e st] by (auto simp: s1)
        then have "?result [RegistryReady, ServiceReady, ServerReady, ServerFinalized, ServiceFinalized, RegistryFinalized]"
          using created Pair None by (simp add: run s1)
        then show ?thesis unfolding cleaned_up_def by blast
      qed
    qed
  qed
qed

lemma run_program_restarts:
  assumes "pr_registry p = []" "\<forall>k c. load k = Inr c \<longrightarrow> server_ends (env k) c"
    "\<forall>k. m \<le> k \<and> k < m + d \<longrightarrow> (\<exists>c. load k = Inr c \<and> served (env k) c = (True, None))"
  shows "\<exists>fxs. length fxs = d \<and> list_all cleaned_up fxs \<and>
    run_program load env m p = run_program load env (m + d) (p\<lparr>pr_effects := pr_effects p @ concat fxs\<rparr>)"
  using assms
proof (induction d arbitrary: m p)
  case 0
  then show ?case by simp
next
  case (Suc d)
  obtain c where c: "load m = Inr c" "served (env m) c = (True, None)" using Suc.prems(3) by auto
  obtain fx where fx: "cleaned_up fx" "RunServer (env m) c p = Some ((True, None), p\<lparr>pr_effects := pr_effects p @ fx\<rparr>)"
    using RunServer_ends[OF Suc.prems(1), of "env m" c] Suc.prems(2) c by auto
  let ?p = "p\<lparr>pr_effects := pr_effects p @ fx\<rparr>"
  obtain fxs where fxs: "length fxs = d" "list_all cleaned_up fxs"
    "run_program load env (m + 1) ?p = run_program load env (m + 1 + d) (?p\<lparr>pr_effects := pr_effects ?p @ concat fxs\<rparr>)"
    using Suc.IH[of ?p "m + 1"] Suc.prems by auto
  have "run_program load env m p = run_program load env (m + 1) ?p"
    by (subst run_program.simps) (simp add: c fx)
  then show ?case using fx fxs by (intro exI[of _ "fx # fxs"]) simp
qed

end
