(* ===== verification/Monitoring.thy ===== *)
theory Monitoring
  imports Web Server Metrics
begin

text \<open>
  The rest of the web layer: the table of the routes (\<^verbatim>\<open>AddRoutes\<close> of
  \<^verbatim>\<open>src/web/webapiserver.go\<close>), the handlers that read the metrics (\<^verbatim>\<open>apijobs.go\<close>) or the system
  (\<^verbatim>\<open>apisystem.go\<close>), the cache of Swagger handlers (\<^verbatim>\<open>apiswagger.go\<close>) and the middleware that
  counts the requests (\<^verbatim>\<open>src/fiberprometheus\<close>). Fiber, the Prometheus library and the Go runtime are parameters.
\<close>

section \<open>Routes\<close>

text \<open>A segment of a path pattern: a literal or a parameter, which is one non-empty segment.\<close>

datatype segment = Lit string | Param string

datatype verb = GET | POST | DELETE

record route_entry =
  rt_verb :: verb
  rt_path :: "segment list"
  rt_handler :: string

definition route_at :: "verb \<Rightarrow> segment list \<Rightarrow> string \<Rightarrow> route_entry" where
  "route_at v p h = \<lparr>rt_verb = v, rt_path = p, rt_handler = h\<rparr>"

text \<open>The segments between the slashes; strict routing keeps the empty one of a final slash.\<close>

definition api :: "string \<Rightarrow> segment list" where
  "api g = [Lit ''api'', Lit ''v1'', Lit g]"

definition job_routes :: "route_entry list" where
  "job_routes =
    (let job = api ''job''; uuid = Param ''jobuuid'' in
    [route_at GET (job @ [uuid]) ''GetJob'',
     route_at POST (job @ [Lit []]) ''CreateJob'',
     route_at POST (job @ [Lit ''pull'']) ''PullJob'',
     route_at POST (job @ [uuid, Lit ''succeed'']) ''SetJobAsSuccessful'',
     route_at POST (job @ [uuid, Lit ''cancel'']) ''CancelJob'',
     route_at POST (job @ [uuid, Lit ''fail'']) ''FailJob'',
     route_at POST (job @ [uuid, Lit ''visibilitytimeout'']) ''ChangeVisibilityTimeoutJob'',
     route_at POST (job @ [uuid, Lit ''clone'']) ''CloneJob'',
     route_at DELETE (job @ [uuid]) ''DeleteJob''])"

definition jobs_routes :: "route_entry list" where
  "jobs_routes =
    (let jobs = api ''jobs'' in
    [route_at GET (jobs @ [Lit []]) ''GetJobs'',
     route_at GET (jobs @ [Lit ''all'']) ''GetAllJobs'',
     route_at GET (jobs @ [Lit ''oldest'']) ''GetOldestJobs'',
     route_at GET (jobs @ [Lit ''stalled'']) ''GetStalledJobs'',
     route_at GET (jobs @ [Lit ''recent'']) ''GetRecentJobs'',
     route_at DELETE (jobs @ [Lit ''queued'']) ''DeleteQueuedJobs'',
     route_at DELETE (jobs @ [Lit []]) ''DeleteAllJobs''])"

definition other_routes :: "route_entry list" where
  "other_routes =
    [route_at GET (api ''topics'' @ [Lit []]) ''GetTopics'',
     route_at GET (api ''resources'' @ [Lit []]) ''GetLockedResources'',
     route_at POST (api ''resources'' @ [Lit ''unlock'']) ''UnlockAllResources'',
     route_at POST (api ''resource'' @ [Param ''resourcename'', Lit ''unlock'']) ''UnlockResource'',
     route_at POST (api ''admin'' @ [Lit ''server'', Lit ''shutdown'']) ''ApiServerShutdown'',
     route_at POST (api ''admin'' @ [Lit ''server'', Lit ''restart'']) ''ApiServerRestart'',
     route_at GET (api ''system'' @ [Lit ''info'']) ''GetSystemInfo'',
     route_at GET (api ''system'' @ [Lit ''health'']) ''GetSystemHealth'',
     route_at GET (api ''system'' @ [Lit ''resources'']) ''GetSystemResources'']"

definition metrics_routes :: "route_entry list" where
  "metrics_routes =
    (let metrics = api ''metrics'' in
    [route_at GET (metrics @ [Lit ''jobs'', Lit ''processing'']) ''GetJobsMetrics'',
     route_at GET (metrics @ [Lit ''jobs'', Lit ''recent'']) ''GetRecentJobs'',
     route_at GET (metrics @ [Lit ''jobs'', Lit ''stalled'']) ''GetStalledJobs'',
     route_at GET (metrics @ [Lit ''jobs'', Lit ''activity'']) ''GetJobsCumulativeEventCount'',
     route_at GET (metrics @ [Lit ''jobs'', Lit ''topics'']) ''GetJobsMetricsTopics'',
     route_at GET (metrics @ [Lit ''resources'']) ''GetResourcesMetrics'',
     route_at GET (metrics @ [Lit ''topics'']) ''GetTopicsStats''])"

text \<open>The routes in the order they are registered; the third-party monitor and Swagger pages come last.\<close>

definition AddRoutes :: "server_conf \<Rightarrow> route_entry list" where
  "AddRoutes c = [route_at GET [Lit []] ''Home''] @ job_routes @ jobs_routes @ other_routes
    @ (if Metrics_Enable c then metrics_routes else [])
    @ [route_at GET [Lit ''ping''] ''Ping'', route_at GET [Lit ''healthcheck''] ''Healthcheck'',
       route_at GET [Lit ''livez''] ''livez'', route_at GET [Lit ''readyz''] ''readyz'']
    @ (if Monitor_Enable c then [route_at GET [Lit ''monitor''] ''monitor''] else [])"

fun segment_matches :: "segment \<Rightarrow> string \<Rightarrow> bool" where
  "segment_matches (Lit s) x = (x = s)"
| "segment_matches (Param p) x = (x \<noteq> [])"

definition route_matches :: "route_entry \<Rightarrow> verb \<Rightarrow> string list \<Rightarrow> bool" where
  "route_matches r v path \<longleftrightarrow> rt_verb r = v \<and> list_all2 segment_matches (rt_path r) path"

text \<open>The handler of a request: the first route that route_matches.\<close>

definition dispatch :: "server_conf \<Rightarrow> verb \<Rightarrow> string list \<Rightarrow> string option" where
  "dispatch c v path = map_option rt_handler (find (\<lambda>r. route_matches r v path) (AddRoutes c))"

text \<open>Two patterns that some path can match both.\<close>

fun overlap :: "segment \<Rightarrow> segment \<Rightarrow> bool" where
  "overlap (Lit a) (Lit b) = (a = b)"
| "overlap (Lit a) (Param p) = (a \<noteq> [])"
| "overlap (Param p) (Lit b) = (b \<noteq> [])"
| "overlap (Param p) (Param q) = True"

definition clash :: "route_entry \<Rightarrow> route_entry \<Rightarrow> bool" where
  "clash r s \<longleftrightarrow> rt_verb r = rt_verb s \<and> list_all2 overlap (rt_path r) (rt_path s)"

fun no_clash :: "route_entry list \<Rightarrow> bool" where
  "no_clash [] = True"
| "no_clash (r # rs) = (list_all (\<lambda>s. \<not> clash r s) rs \<and> no_clash rs)"

lemma overlap_of_matches: "segment_matches a x \<Longrightarrow> segment_matches b x \<Longrightarrow> overlap a b"
  by (cases a; cases b) auto

lemma both_match_clash: "route_matches r v path \<Longrightarrow> route_matches s v path \<Longrightarrow> clash r s"
  unfolding route_matches_def clash_def list_all2_conv_all_nth by (metis overlap_of_matches)

lemma no_clash_unique:
  "no_clash rs \<Longrightarrow> r \<in> set rs \<Longrightarrow> route_matches r v path \<Longrightarrow> find (\<lambda>r. route_matches r v path) rs = Some r"
  by (induction rs) (auto simp: list_all_iff dest: both_match_clash)

lemma AddRoutes_no_clash: "no_clash (AddRoutes c)"
proof -
  have "no_clash (AddRoutes (c\<lparr>Metrics_Enable := m, Monitor_Enable := n\<rparr>))" for m n
    by (cases m; cases n) (simp_all add: AddRoutes_def job_routes_def jobs_routes_def other_routes_def metrics_routes_def
        route_at_def api_def clash_def Let_def)
  from this[where m = "Metrics_Enable c" and n = "Monitor_Enable c"] show ?thesis by simp
qed

text \<open>No route hides another: the order of registration does not matter to the answers.\<close>

lemma every_route_is_served:
  "r \<in> set (AddRoutes c) \<Longrightarrow> route_matches r v path \<Longrightarrow> dispatch c v path = Some (rt_handler r)"
  using no_clash_unique[OF AddRoutes_no_clash] by (simp add: dispatch_def)

section \<open>Handlers that read the metrics\<close>

text \<open>
  The answer of a handler, with the name under which the middleware counts the request: the
  local \<^verbatim>\<open>metricName\<close>, if the handler sets it. A new topic is registered by \<^verbatim>\<open>GetTopicsStats\<close>,
  so the metrics are returned too.
\<close>

datatype monitoring_reply =
    ProcessingReply JobStatsMetrics
  | ActivityReply JobActivityMetrics
  | TopicMapReply "(string, JobMetrics list) gomap"
  | TopicsReply "string list"
  | TopicsStatsReply "TopicMetrics list"
  | ResourcesStatsReply "ResourceMetrics list"

record answer =
  an_metricName :: "string option"
  an_status :: nat
  an_reply :: monitoring_reply

definition answered :: "string option \<Rightarrow> monitoring_reply \<Rightarrow> answer" where
  "answered name r = \<lparr>an_metricName = name, an_status = StatusOK, an_reply = r\<rparr>"

definition handle_GetJobsMetrics :: "ServiceMetrics \<Rightarrow> answer" where
  "handle_GetJobsMetrics s = answered (Some ''GetJobsMetrics'') (ProcessingReply (GetJobMetricsByStatus s))"

definition handle_GetJobsCumulativeEventCount :: "metrics_env \<Rightarrow> ServiceMetrics \<Rightarrow> answer" where
  "handle_GetJobsCumulativeEventCount e s = answered None (ActivityReply (GetJobActivityMetrics e s))"

definition handle_GetJobsMetricsTopics :: "ServiceMetrics \<Rightarrow> answer" where
  "handle_GetJobsMetricsTopics s = answered (Some ''GetJobsMetricsTopics'') (TopicMapReply (GetJobMetricsByTopicMap s))"

definition handle_GetTopics :: "ServiceMetrics \<Rightarrow> answer" where
  "handle_GetTopics s = answered (Some ''GetTopics'') (TopicsReply (GetTopics s))"

definition handle_GetTopicsStats :: "ServiceMetrics \<Rightarrow> answer \<times> ServiceMetrics" where
  "handle_GetTopicsStats s =
    (let (stats, s) = GetTopicsStats s in (answered (Some ''GetTopicsStats'') (TopicsStatsReply stats), s))"

definition handle_GetResourcesMetrics :: "int64 \<Rightarrow> ServiceMetrics \<Rightarrow> answer" where
  "handle_GetResourcesMetrics now s =
    answered (Some ''GetResourcesMetrics'') (ResourcesStatsReply (GetResourcesMetrics now s))"

section \<open>System information\<close>

record system_info =
  si_Version :: string
  si_Uptime :: int64
  si_Hostname :: string
  si_Environment :: string

text \<open>The seconds since the start: the conversion of a float to an integer truncates.\<close>

definition GetUptime :: "int64 \<Rightarrow> int64" where
  "GetUptime since_ns = go_div since_ns 1000000000"

definition GetSystemInfo :: "string \<Rightarrow> string \<Rightarrow> string \<Rightarrow> int64 \<Rightarrow> nat \<times> system_info" where
  "GetSystemInfo version hostname environment since_ns = (StatusOK,
    \<lparr>si_Version = version, si_Uptime = GetUptime since_ns, si_Hostname = hostname, si_Environment = environment\<rparr>)"

definition GetSystemHealth :: "bool \<Rightarrow> nat" where
  "GetSystemHealth healthy = (if healthy then StatusOK else StatusServiceUnavailable)"

record resource_metric =
  usage_Label :: string
  usage_Value :: string

record resource_usage =
  usage_Memory :: resource_metric
  usage_Disk :: resource_metric
  usage_Backend :: resource_metric

definition GetSystemResources :: "nat \<Rightarrow> int64 \<Rightarrow> string \<Rightarrow> nat \<times> resource_usage" where
  "GetSystemResources alloc disk backend_type =
    (let memUsage = show_nat (alloc div (1024 * 1024)) @ ''MB'';
         diskUsage = show_int (go_div disk (1024 * 1024)) @ ''MB''
     in (StatusOK, \<lparr>usage_Memory = \<lparr>usage_Label = ''Memory Usage'', usage_Value = memUsage\<rparr>,
           usage_Disk = \<lparr>usage_Label = ''Disk Usage'', usage_Value = diskUsage\<rparr>,
           usage_Backend = \<lparr>usage_Label = ''Backend Provider'', usage_Value = backend_type\<rparr>\<rparr>))"

section \<open>Swagger handlers\<close>

definition maxSwaggerPrefixes :: nat where
  "maxSwaggerPrefixes = 32"

text \<open>The handler for a forwarded prefix, and the cache; \<open>new\<close> makes a handler.\<close>

definition handlerFor :: "(nat \<Rightarrow> 'h) \<Rightarrow> string \<Rightarrow> (string, 'h) gomap \<Rightarrow> 'h \<times> (string, 'h) gomap" where
  "handlerFor new pfx handlers =
    (case map_of handlers pfx of
      Some h \<Rightarrow> (h, handlers)
    | None \<Rightarrow>
      (let pfx = (if length handlers \<ge> maxSwaggerPrefixes then [] else pfx) in
       case (if length handlers \<ge> maxSwaggerPrefixes then map_of handlers pfx else None) of
         Some h \<Rightarrow> (h, handlers)
       | None \<Rightarrow> (let h = new (length handlers) in (h, AList.update pfx h handlers))))"

definition swagger_ok :: "(string, 'h) gomap \<Rightarrow> bool" where
  "swagger_ok m \<longleftrightarrow> wf_map m \<and> length m \<le> maxSwaggerPrefixes + 1
    \<and> (length m = maxSwaggerPrefixes + 1 \<longrightarrow> map_of m [] \<noteq> None)"

text \<open>The cache never has more than the 32 prefixes and the empty one, whatever the clients send.\<close>

lemma handlerFor_bounded: "swagger_ok m \<Longrightarrow> swagger_ok (snd (handlerFor new pfx m))"
proof -
  assume ok: "swagger_ok m"
  show ?thesis
  proof (cases "map_of m pfx")
    case (Some h)
    then show ?thesis using ok by (simp add: handlerFor_def)
  next
    case None
    note n = this
    show ?thesis
    proof (cases "length m \<ge> maxSwaggerPrefixes")
      case False
      then show ?thesis using ok n
        by (simp add: handlerFor_def swagger_ok_def Let_def length_update_new)
    next
      case True
      then show ?thesis using ok n
        by (cases "map_of m []") (auto simp: handlerFor_def swagger_ok_def Let_def length_update_new update_conv'
            maxSwaggerPrefixes_def)
    qed
  qed
qed

section \<open>Counting the requests\<close>

text \<open>
  The collectors: the gauge of the requests in progress by method, the counter by status,
  method and metric name, and the durations observed. \<open>ps_skipPaths\<close> is set and never read.
\<close>

record FiberPrometheus =
  requestInFlight :: "string \<Rightarrow> int"
  requestsTotal :: "string \<times> string \<times> string \<Rightarrow> nat"
  requestDuration :: "((string \<times> string \<times> string) \<times> int64) list"
  defaultURL :: string
  skipPaths :: "string set"

definition new_FiberPrometheus :: FiberPrometheus where
  "new_FiberPrometheus = \<lparr>requestInFlight = (\<lambda>_. 0), requestsTotal = (\<lambda>_. 0), requestDuration = [],
    defaultURL = ''/metrics'', skipPaths = {}\<rparr>"

definition RegisterAt :: "string \<Rightarrow> FiberPrometheus \<Rightarrow> FiberPrometheus" where
  "RegisterAt url ps = ps\<lparr>defaultURL := url\<rparr>"

definition SetSkipPaths :: "string list \<Rightarrow> FiberPrometheus \<Rightarrow> FiberPrometheus" where
  "SetSkipPaths paths ps = ps\<lparr>skipPaths := set paths\<rparr>"

text \<open>How the rest of the chain ended: its error, the status of the answer, the metric name, the time (ns).\<close>

datatype chain_error = NoError | StatusError nat | PlainError

record chain_end =
  ch_error :: chain_error
  ch_status :: nat
  ch_metricName :: "string option"
  ch_elapsed :: int64

text \<open>The part of \<^verbatim>\<open>Middleware\<close> before \<^verbatim>\<open>ctx.Next\<close>, and the part after it with the deferred call.\<close>

definition Middleware_begin :: "string \<Rightarrow> FiberPrometheus \<Rightarrow> FiberPrometheus" where
  "Middleware_begin method ps =
    ps\<lparr>requestInFlight := (requestInFlight ps)(method := requestInFlight ps method + 1)\<rparr>"

definition request_status :: "chain_end \<Rightarrow> nat" where
  "request_status r = (case ch_error r of
      NoError \<Rightarrow> ch_status r | StatusError code \<Rightarrow> code | PlainError \<Rightarrow> StatusInternalServerError)"

definition request_labels :: "string \<Rightarrow> chain_end \<Rightarrow> (string \<times> string \<times> string) option" where
  "request_labels method r = map_option (\<lambda>name. (show_nat (request_status r), method, name)) (ch_metricName r)"

definition Middleware_end :: "string \<Rightarrow> chain_end \<Rightarrow> FiberPrometheus \<Rightarrow> FiberPrometheus" where
  "Middleware_end method r ps =
    (let ps = (case request_labels method r of
        None \<Rightarrow> ps
      | Some l \<Rightarrow> ps\<lparr>requestsTotal := (requestsTotal ps)(l := requestsTotal ps l + 1),
          requestDuration := requestDuration ps @ [(l, ch_elapsed r)]\<rparr>)
     in ps\<lparr>requestInFlight := (requestInFlight ps)(method := requestInFlight ps method - 1)\<rparr>)"

text \<open>The requests of all the connections interleave.\<close>

datatype request_event = Begins string | Ends string chain_end

fun count_request :: "request_event \<Rightarrow> FiberPrometheus \<Rightarrow> FiberPrometheus" where
  "count_request (Begins m) ps = Middleware_begin m ps"
| "count_request (Ends m r) ps = Middleware_end m r ps"

definition begun :: "string \<Rightarrow> request_event list \<Rightarrow> nat" where
  "begun m evs = length (filter (\<lambda>ev. ev = Begins m) evs)"

definition ended_with :: "(string \<Rightarrow> chain_end \<Rightarrow> bool) \<Rightarrow> request_event list \<Rightarrow> nat" where
  "ended_with P evs = length (filter (\<lambda>ev. case ev of Ends m r \<Rightarrow> P m r | _ \<Rightarrow> False) evs)"

lemma count_request_cases:
  "requestInFlight (count_request ev ps) m = requestInFlight ps m + int (begun m [ev]) - int (ended_with (\<lambda>k r. k = m) [ev])"
  "requestsTotal (count_request ev ps) l = requestsTotal ps l + ended_with (\<lambda>k r. request_labels k r = Some l) [ev]"
  by (cases ev; simp add: Middleware_begin_def Middleware_end_def begun_def ended_with_def Let_def split: option.splits)+

lemma counts_Cons: "begun m (ev # evs) = begun m [ev] + begun m evs"
  "ended_with P (ev # evs) = ended_with P [ev] + ended_with P evs"
  by (simp_all add: begun_def ended_with_def)

text \<open>
  Whatever the interleaving, the gauge of a method is the number of its requests in progress,
  and a counter is the number of requests that ended with its labels.
\<close>

lemma requests_counted:
  "requestInFlight (fold count_request evs ps) m = requestInFlight ps m + int (begun m evs) - int (ended_with (\<lambda>k r. k = m) evs)"
  "requestsTotal (fold count_request evs ps) l = requestsTotal ps l + ended_with (\<lambda>k r. request_labels k r = Some l) evs"
proof (induction evs arbitrary: ps)
  case Nil
  { case 1 then show ?case by (simp add: begun_def ended_with_def) }
  { case 2 then show ?case by (simp add: begun_def ended_with_def) }
next
  case (Cons ev evs)
  { case 1 then show ?case
      using Cons(1)[of "count_request ev ps"] by (simp add: count_request_cases counts_Cons[of _ ev evs]) }
  { case 2 then show ?case
      using Cons(2)[of "count_request ev ps"] by (simp add: count_request_cases counts_Cons[of _ ev evs]) }
qed

end
