(* ===== verification/JobJson.thy ===== *)
theory JobJson
  imports Job
begin

text \<open>
  The numbers of the properties of a job (\<^verbatim>\<open>JobProperties.UnmarshalJSON\<close> and \<^verbatim>\<open>exactNumbers\<close> of
  \<^verbatim>\<open>src/job/job.go\<close>). The JSON decoder, which keeps the literal of a number
  (\<^verbatim>\<open>UseNumber\<close>), is a parameter; its value is a \<open>raw\<close>. The lemmas show that an integer of 64 bits, signed
  or not, is stored and read back exactly, at any depth.
\<close>

datatype raw = RNull | RBool bool | RNumber string | RString string | RArray "raw list" | RObject "(string \<times> raw) list"

text \<open>A map is walked in an order of its own; the first error ends the walk.\<close>

fun exactNumbers :: "(string \<Rightarrow> 'f option) \<Rightarrow> raw \<Rightarrow> string + 'f jvalue"
  and exact_members :: "(string \<Rightarrow> 'f option) \<Rightarrow> (string \<times> raw) list \<Rightarrow> string + (string \<times> 'f jvalue) list"
  and exact_elements :: "(string \<Rightarrow> 'f option) \<Rightarrow> raw list \<Rightarrow> string + 'f jvalue list" where
  "exactNumbers pf RNull = Inr JNull"
| "exactNumbers pf (RBool b) = Inr (JBool b)"
| "exactNumbers pf (RString s) = Inr (JString s)"
| "exactNumbers pf (RNumber n) = numberValue pf n"
| "exactNumbers pf (RObject m) = (case exact_members pf m of Inl err \<Rightarrow> Inl err | Inr m' \<Rightarrow> Inr (JObject m'))"
| "exactNumbers pf (RArray xs) = (case exact_elements pf xs of Inl err \<Rightarrow> Inl err | Inr xs' \<Rightarrow> Inr (JArray xs'))"
| "exact_members pf [] = Inr []"
| "exact_members pf ((k, e) # m) = (case exactNumbers pf e of Inl err \<Rightarrow> Inl err
     | Inr v \<Rightarrow> (case exact_members pf m of Inl err \<Rightarrow> Inl err | Inr m' \<Rightarrow> Inr ((k, v) # m')))"
| "exact_elements pf [] = Inr []"
| "exact_elements pf (e # xs) = (case exactNumbers pf e of Inl err \<Rightarrow> Inl err
     | Inr v \<Rightarrow> (case exact_elements pf xs of Inl err \<Rightarrow> Inl err | Inr xs' \<Rightarrow> Inr (v # xs')))"

text \<open>
  The text \<^verbatim>\<open>null\<close> removes the properties; the members of an object add to those that are
  there. \<open>decoded\<close> is the answer of the decoder for a text that is not \<^verbatim>\<open>null\<close>.
\<close>

definition UnmarshalProperties :: "(string \<Rightarrow> 'f option) \<Rightarrow> bool \<Rightarrow> string + (string \<times> raw) list \<Rightarrow>
    (string, 'f jvalue) gomap option \<Rightarrow> string option \<times> (string, 'f jvalue) gomap option" where
  "UnmarshalProperties pf is_null decoded p =
    (if is_null then (None, None)
     else case decoded of
       Inl err \<Rightarrow> (Some err, p)
     | Inr m \<Rightarrow>
       (let p0 = (case p of None \<Rightarrow> [] | Some q \<Rightarrow> q) in
        foldl (\<lambda>(err, q) (k, e). case err of
            Some x \<Rightarrow> (Some x, q)
          | None \<Rightarrow> (case exactNumbers pf e of
              Inl x \<Rightarrow> (Some x, q)
            | Inr v \<Rightarrow> (None, Some (AList.update k v (case q of None \<Rightarrow> [] | Some q' \<Rightarrow> q')))))
          (None, Some p0) m))"

section \<open>Integers are exact\<close>

lemma digits_value_append: "digits_value (s @ [c]) = 10 * digits_value s + (of_char c - 48)"
  by (simp add: digits_value_def)

lemma show_nat_digits: "list_all is_digit (show_nat n) \<and> digits_value (show_nat n) = n \<and> show_nat n \<noteq> []"
proof (induction n rule: show_nat.induct)
  case (1 n)
  show ?case
  proof (cases "n < 10")
    case True
    then show ?thesis by (subst (1 2 3) show_nat.simps) (simp add: is_digit_def digits_value_def)
  next
    case False
    have d: "is_digit (char_of (48 + n mod 10))" by (simp add: is_digit_def)
    show ?thesis using "1.IH"[OF False] False d
      by (subst (1 2 3) show_nat.simps) (simp add: digits_value_append)
  qed
qed

lemma digit_chars: "is_digit c \<Longrightarrow> c \<noteq> CHR ''-'' \<and> c \<noteq> CHR ''+'' \<and> c \<notin> set ''.eE''"
  by (auto simp: is_digit_def)

lemma show_nat_chars: "\<not> list_ex (\<lambda>c. c \<in> set ''.eE'') (show_nat n)" "show_nat n \<noteq> ''-0''"
  "\<exists>c cs. show_nat n = c # cs \<and> c \<noteq> CHR ''-'' \<and> c \<noteq> CHR ''+''"
proof -
  have l: "\<forall>c \<in> set (show_nat n). is_digit c" using show_nat_digits[of n] by (simp add: list_all_iff)
  then show "\<not> list_ex (\<lambda>c. c \<in> set ''.eE'') (show_nat n)" using digit_chars by (auto simp: list_ex_iff)
  obtain c cs where s: "show_nat n = c # cs" using show_nat_digits[of n] by (cases "show_nat n") auto
  then have "c \<noteq> CHR ''-'' \<and> c \<noteq> CHR ''+''" using l digit_chars[of c] by simp
  then show "\<exists>c cs. show_nat n = c # cs \<and> c \<noteq> CHR ''-'' \<and> c \<noteq> CHR ''+''" "show_nat n \<noteq> ''-0''" using s by auto
qed

lemma parse_int64_show_nat: "parse_int64 (show_nat n) = (if int n < 2 ^ 63 then Some (int n) else None)"
proof -
  obtain c cs where s: "show_nat n = c # cs" "c \<noteq> CHR ''-''" "c \<noteq> CHR ''+''" using show_nat_chars(3) by blast
  then show ?thesis using show_nat_digits[of n] by (simp add: parse_int64_def in_i64_def Let_def)
qed

lemma parse_int64_negative: "0 < n \<Longrightarrow> int n \<le> 2 ^ 63 \<Longrightarrow> parse_int64 (CHR ''-'' # show_nat n) = Some (- int n)"
  using show_nat_digits[of n] by (simp add: parse_int64_def in_i64_def Let_def)

lemma numberValue_int: "in_i64 i \<Longrightarrow> numberValue pf (show_int i) = Inr (JInt i)"
proof (cases "i < 0")
  case True
  assume i: "in_i64 i"
  have "show_nat (nat (- i)) \<noteq> ''0''"
    using show_nat_digits[of "nat (- i)"] True by (auto simp: digits_value_def)
  then show ?thesis using True i show_nat_chars(1)[of "nat (- i)"] parse_int64_negative[of "nat (- i)"]
    by (simp add: numberValue_def show_int_def in_i64_def Let_def)
next
  case False
  assume "in_i64 i"
  then show ?thesis using False show_nat_chars(1,2)[of "nat i"] parse_int64_show_nat[of "nat i"]
    by (simp add: numberValue_def show_int_def in_i64_def Let_def)
qed

lemma numberValue_uint: "2 ^ 63 \<le> u \<Longrightarrow> u < 2 ^ 64 \<Longrightarrow> numberValue pf (show_nat u) = Inr (JUint u)"
  using show_nat_chars(1,2)[of u] parse_int64_show_nat[of u] show_nat_digits[of u]
  by (simp add: numberValue_def parse_uint_def Let_def)

lemma numberValue_float: "pf s = Some f \<Longrightarrow> list_ex (\<lambda>c. c \<in> set ''.eE'') s \<Longrightarrow> numberValue pf s = Inr (JFloat f)"
  by (simp add: numberValue_def Let_def)

text \<open>
  Writing a value as JSON; \<open>fmt\<close> is the text of a float. A stored value is \<open>exact\<close> when it has integers of
  its type's range (an unsigned one only when it does not fit the signed type) and floats that
  the parser reads back from a text with a point or an exponent.
\<close>

fun encode :: "('f \<Rightarrow> string) \<Rightarrow> 'f jvalue \<Rightarrow> raw" where
  "encode fmt JNull = RNull"
| "encode fmt (JBool b) = RBool b"
| "encode fmt (JInt i) = RNumber (show_int i)"
| "encode fmt (JUint u) = RNumber (show_nat u)"
| "encode fmt (JFloat f) = RNumber (fmt f)"
| "encode fmt (JString s) = RString s"
| "encode fmt (JArray xs) = RArray (map (encode fmt) xs)"
| "encode fmt (JObject m) = RObject (map (\<lambda>(k, v). (k, encode fmt v)) m)"

fun exact :: "('f \<Rightarrow> string) \<Rightarrow> (string \<Rightarrow> 'f option) \<Rightarrow> 'f jvalue \<Rightarrow> bool" where
  "exact fmt pf (JInt i) = in_i64 i"
| "exact fmt pf (JUint u) = (2 ^ 63 \<le> u \<and> u < 2 ^ 64)"
| "exact fmt pf (JFloat f) = (pf (fmt f) = Some f \<and> list_ex (\<lambda>c. c \<in> set ''.eE'') (fmt f))"
| "exact fmt pf (JArray xs) = list_all (exact fmt pf) xs"
| "exact fmt pf (JObject m) = list_all (\<lambda>(k, v). exact fmt pf v) m"
| "exact fmt pf _ = True"

text \<open>A value saved as JSON is loaded unchanged, its integers included.\<close>

lemma exactNumbers_encode: "exact fmt pf v \<Longrightarrow> exactNumbers pf (encode fmt v) = Inr v"
proof (induction v)
  case (JArray xs)
  then have "exact_elements pf (map (encode fmt) xs) = Inr xs"
    by (induction xs) simp_all
  then show ?case by simp
next
  case (JObject m)
  then have "exact_members pf (map (\<lambda>(k, v). (k, encode fmt v)) m) = Inr m"
  proof (induction m)
    case (Cons kv m)
    obtain k v where kv: "kv = (k, v)" by (cases kv)
    have "exactNumbers pf (encode fmt v) = Inr v" using Cons.prems(1)[of kv v] Cons.prems(2) kv by simp
    moreover have "exact_members pf (map (\<lambda>(k, v). (k, encode fmt v)) m) = Inr m"
      by (rule Cons.IH) (use Cons.prems kv in auto)
    ultimately show ?case by (simp add: kv)
  qed simp
  then show ?case by simp
qed (auto simp: numberValue_int numberValue_uint numberValue_float)

text \<open>So are the properties of a job, into an empty or a missing map.\<close>

lemma UnmarshalProperties_encode:
  assumes "wf_map m" and "list_all (\<lambda>(k, v). exact fmt pf v) m"
  shows "\<exists>m'. UnmarshalProperties pf False (Inr (map (\<lambda>(k, v). (k, encode fmt v)) m)) None = (None, Some m')
    \<and> map_of m' = map_of m"
proof -
  let ?step = "\<lambda>(err, q) (k, e). case err of Some x \<Rightarrow> (Some x, q)
    | None \<Rightarrow> (case exactNumbers pf e of Inl x \<Rightarrow> (Some x, q)
        | Inr v \<Rightarrow> (None, Some (AList.update k v (case q of None \<Rightarrow> [] | Some q' \<Rightarrow> q'))))"
  have "\<exists>m'. foldl ?step (None, Some q) (map (\<lambda>(k, v). (k, encode fmt v)) m) = (None, Some m')
      \<and> map_of m' = map_of q ++ map_of m" for q
    using assms
  proof (induction m arbitrary: q)
    case (Cons kv m)
    obtain k v where kv: "kv = (k, v)" by (cases kv)
    have v: "exactNumbers pf (encode fmt v) = Inr v" using Cons.prems(2) by (simp add: kv exactNumbers_encode)
    have k: "map_of m k = None" using Cons.prems(1) by (simp add: kv map_of_eq_None_iff)
    obtain m' where "foldl ?step (None, Some (AList.update k v q)) (map (\<lambda>(k, v). (k, encode fmt v)) m) = (None, Some m')"
      "map_of m' = map_of (AList.update k v q) ++ map_of m"
      using Cons.IH[of "AList.update k v q"] Cons.prems by (auto simp: kv simp del: map_of_update_alist)
    then show ?case using v k by (auto simp: kv map_add_def fun_eq_iff split: option.splits)
  qed simp
  from this[of "[]"] show ?thesis by (simp add: UnmarshalProperties_def Let_def)
qed

end
