(* ===== verification/Benchmark.thy ===== *)
theory Benchmark
  imports Float64 "HOL-Library.Word"
begin

text \<open>
  The measuring core of the load generator (\<^verbatim>\<open>src/cmd/benchmark\<close>): the random numbers of a
  worker, the requests of one scenario item as a client of the server's API, the summary of
  the latencies and of several runs, and the check that every job was pulled exactly once. The server is the
  function \<open>send\<close>, from the requests sent before and a request to a status and the ids of its
  answer; parsing the JSON of answers, formatting tables and reading \<^verbatim>\<open>/proc\<close> are not
  modelled.
\<close>

unbundle bit_operations_syntax

section \<open>Random numbers\<close>

definition newRng :: "64 word \<Rightarrow> 64 word" where
  "newRng seed = (seed * 0x9E3779B97F4A7C15) OR 1"

text \<open>\<^verbatim>\<open>below\<close>: the number drawn and the new state (xorshift64*).\<close>

definition next_state :: "64 word \<Rightarrow> 64 word" where
  "next_state s = (let s = s XOR drop_bit 12 s; s = s XOR push_bit 25 s in s XOR drop_bit 27 s)"

definition below :: "64 word \<Rightarrow> 64 word \<Rightarrow> 64 word \<times> 64 word" where
  "below n s = (let s = next_state s in (s * 0x2545F4914F6CDD1D mod (if n = 0 then 1 else n), s))"

lemma below_less: "unat (fst (below n s)) < max 1 (unat n)"
proof (cases "n = 0")
  case True
  then show ?thesis by (simp add: below_def Let_def)
next
  case False
  then have "0 < unat n" by (simp add: unat_gt_0)
  then show ?thesis using False by (simp add: below_def Let_def unat_mod)
qed

text \<open>A generator never falls into the state 0, which would give 0 for ever.\<close>

lemma xor_zero: "(a :: 64 word) XOR b = 0 \<longleftrightarrow> a = b"
  by (auto simp: bit_eq_iff bit_xor_iff)

lemma xor_shift_zero:
  assumes "0 < k"
  shows "(s :: 64 word) XOR drop_bit k s = 0 \<longleftrightarrow> s = 0" "s XOR push_bit k s = 0 \<longleftrightarrow> s = 0"
proof -
  have "s = 0" if e: "s = drop_bit k s"
  proof -
    have "bit s n = bit s (n + m * k)" for n m
    proof (induction m)
      case (Suc m)
      have "bit s (n + m * k) = bit (drop_bit k s) (n + m * k)" using e by simp
      then show ?case using Suc by (simp add: bit_drop_bit_eq ac_simps)
    qed simp
    moreover have "\<not> bit s (n + 64 * k)" for n
      using assms by (intro notI) (auto dest: bit_imp_le_length)
    ultimately show ?thesis by (metis bit_eq_iff bit_0_eq bot_apply bot_bool_def)
  qed
  moreover have "s = 0" if e: "s = push_bit k s"
  proof -
    have "\<not> bit s n" for n
    proof (induction n rule: less_induct)
      case (less n)
      have "bit s n \<longleftrightarrow> bit (push_bit k s) n" using e by simp
      then show ?case using less[of "n - k"] assms by (auto simp: bit_push_bit_iff)
    qed
    then show ?thesis by (simp add: bit_eq_iff)
  qed
  ultimately show "s XOR drop_bit k s = 0 \<longleftrightarrow> s = 0" "s XOR push_bit k s = 0 \<longleftrightarrow> s = 0"
    by (auto simp: xor_zero)
qed

lemma next_state_nonzero: "next_state s = 0 \<longleftrightarrow> s = 0"
  unfolding next_state_def Let_def by (simp only: xor_shift_zero zero_less_numeral)

lemma newRng_nonzero: "newRng seed \<noteq> 0"
proof
  assume "newRng seed = 0"
  then have "bit (newRng seed) 0 = False" by simp
  then show False by (simp add: newRng_def bit_or_iff)
qed

section \<open>Latencies\<close>

text \<open>The latencies in microseconds, as unsigned 32-bit numbers.\<close>

definition push_sample :: "int64 \<Rightarrow> nat list \<Rightarrow> nat list" where
  "push_sample us s = s @ [nat (min us (2 ^ 32 - 1) mod 2 ^ 32)]"

text \<open>\<^verbatim>\<open>math.Round\<close> rounds half away from zero; the result is an integer, so exact.\<close>

definition math_Round :: "float64 \<Rightarrow> float64" where
  "math_Round v = (if 0 \<le> v then of_int \<lfloor>v + 1 / 2\<rfloor> else of_int \<lceil>v - 1 / 2\<rceil>)"

definition round3 :: "float64 \<Rightarrow> float64" where
  "round3 v = f64_div (math_Round (f64_mul v 1000)) 1000"

record latency =
  lat_Mean :: float64
  lat_P50 :: float64
  lat_P90 :: float64
  lat_P99 :: float64
  lat_Max :: float64

text \<open>The position of a percentile among \<open>n\<close> sorted values, and its value in milliseconds.\<close>

definition rank_index :: "nat \<Rightarrow> float64 \<Rightarrow> int" where
  "rank_index n p = (let i = \<lceil>f64_mul (f64_div p 100) (f64_of_int (int n))\<rceil> in min (max i 1) (int n) - 1)"

definition in_ms :: "nat \<Rightarrow> float64" where
  "in_ms us = f64_div (f64_of_int (int us)) 1000"

definition summary :: "nat list \<Rightarrow> latency" where
  "summary s =
    (let n = length s in
     if n = 0 then \<lparr>lat_Mean = 0, lat_P50 = 0, lat_P90 = 0, lat_P99 = 0, lat_Max = 0\<rparr>
     else let us = sort s;
              rank = (\<lambda>p. in_ms (us ! nat (rank_index n p)));
              total = u64 (foldl (+) 0 us)
          in \<lparr>lat_Mean = round3 (f64_div (f64_div (f64_of_int (int total)) (f64_of_int (int n))) 1000),
              lat_P50 = round3 (rank 50), lat_P90 = round3 (rank 90), lat_P99 = round3 (rank 99),
              lat_Max = round3 (in_ms (us ! (n - 1)))\<rparr>)"

lemma f64_mul_mono: "a \<le> b \<Longrightarrow> 0 \<le> c \<Longrightarrow> f64_mul a c \<le> f64_mul b c"
  by (simp add: f64_mul_def f64_mono mult_right_mono)

lemma f64_div_mono: "a \<le> b \<Longrightarrow> 0 < c \<Longrightarrow> f64_div a c \<le> f64_div b c"
  by (simp add: f64_div_def f64_mono divide_right_mono)

lemma math_Round_mono: "a \<le> b \<Longrightarrow> math_Round a \<le> math_Round b"
proof -
  assume ab: "a \<le> b"
  consider "0 \<le> a" "0 \<le> b" | "\<not> 0 \<le> a" "\<not> 0 \<le> b" | "\<not> 0 \<le> a" "0 \<le> b" using ab by linarith
  then show ?thesis
  proof cases
    case 1
    then show ?thesis using ab by (simp add: math_Round_def floor_mono)
  next
    case 2
    then show ?thesis using ab by (simp add: math_Round_def ceiling_mono)
  next
    case 3
    have "\<lceil>a - 1 / 2\<rceil> \<le> 0" using 3 by (simp add: ceiling_le_zero)
    moreover have "0 \<le> \<lfloor>b + 1 / 2\<rfloor>" using 3 by simp
    ultimately have "\<lceil>a - 1 / 2\<rceil> \<le> \<lfloor>b + 1 / 2\<rfloor>" by linarith
    then show ?thesis using 3 by (simp add: math_Round_def)
  qed
qed

lemma round3_mono: "a \<le> b \<Longrightarrow> round3 a \<le> round3 b"
  by (simp add: round3_def f64_div_mono math_Round_mono f64_mul_mono)

lemma in_ms_mono: "a \<le> b \<Longrightarrow> in_ms a \<le> in_ms b"
  by (simp add: in_ms_def f64_div_mono f64_of_int_mono)

lemma rank_index_mono: "p \<le> q \<Longrightarrow> rank_index n p \<le> rank_index n q"
proof -
  assume "p \<le> q"
  then have "f64_mul (f64_div p 100) (f64_of_int (int n)) \<le> f64_mul (f64_div q 100) (f64_of_int (int n))"
    by (simp add: f64_mul_mono f64_div_mono f64_of_int_nonneg)
  then have "\<lceil>f64_mul (f64_div p 100) (f64_of_int (int n))\<rceil> \<le> \<lceil>f64_mul (f64_div q 100) (f64_of_int (int n))\<rceil>"
    by (rule ceiling_mono)
  then show ?thesis unfolding rank_index_def Let_def by (intro diff_right_mono min.mono max.mono order_refl)
qed

lemma rank_index_range: "0 < n \<Longrightarrow> 0 \<le> rank_index n p \<and> rank_index n p < int n"
  by (auto simp: rank_index_def Let_def)

text \<open>No index is out of range, and the percentiles are in order and at most the maximum.\<close>

lemma summary_ordered:
  "lat_P50 (summary s) \<le> lat_P90 (summary s) \<and> lat_P90 (summary s) \<le> lat_P99 (summary s)
    \<and> lat_P99 (summary s) \<le> lat_Max (summary s)"
proof (cases "s = []")
  case False
  have r: "round3 (in_ms (sort s ! nat (rank_index (length s) p))) \<le> round3 (in_ms (sort s ! k))"
    if k: "k < length s" "nat (rank_index (length s) p) \<le> k" for p k
    using sorted_nth_mono[OF sorted_sort, of "nat (rank_index (length s) p)" k s] k
    by (simp add: round3_mono in_ms_mono)
  have n: "nat (rank_index (length s) p) < length s" for p using rank_index_range[of "length s" p] False by auto
  have m: "p \<le> q \<Longrightarrow> nat (rank_index (length s) p) \<le> nat (rank_index (length s) q)" for p q
    using rank_index_mono by (simp add: nat_mono)
  have "nat (rank_index (length s) 99) \<le> length s - 1" using n[of 99] by simp
  then show ?thesis using r n m[of 50 90] m[of 90 99] False by (simp add: summary_def Let_def)
qed (simp add: summary_def)

section \<open>CPU time\<close>

definition ticksPerS :: float64 where "ticksPerS = 100"

definition cpuPercent :: "nat option \<Rightarrow> nat option \<Rightarrow> float64 \<Rightarrow> float64 option" where
  "cpuPercent t0 t1 elapsedS = (case (t0, t1) of
      (Some a, Some b) \<Rightarrow> if b < a then None
        else Some (round3 (f64_mul (f64_div (f64_div (f64_of_int (int (b - a))) ticksPerS) elapsedS) 100))
    | _ \<Rightarrow> None)"

definition cpuPerRequest :: "nat option \<Rightarrow> nat option \<Rightarrow> nat \<Rightarrow> float64 option" where
  "cpuPerRequest p0 p1 requests = (case (p0, p1) of
      (Some a, Some b) \<Rightarrow> if requests = 0 \<or> b < a then None
        else Some (round3 (f64_div (f64_div (f64_mul (f64_of_int (int (b - a))) 1000000) ticksPerS)
          (f64_of_int (int requests))))
    | _ \<Rightarrow> None)"

section \<open>Workers\<close>

record workerOut =
  wo_samples :: "nat list"
  wo_requests :: nat
  wo_errors :: nat
  wo_items :: nat
  wo_statuses :: "string \<Rightarrow> nat"
  wo_okTotal :: nat

definition newWorkerOut :: workerOut where
  "newWorkerOut = \<lparr>wo_samples = [], wo_requests = 0, wo_errors = 0, wo_items = 0, wo_statuses = (\<lambda>_. 0), wo_okTotal = 0\<rparr>"

definition statusKey :: "nat \<Rightarrow> string" where
  "statusKey s = (if s = 0 then ''error'' else show_nat s)"

definition merge_one :: "workerOut \<Rightarrow> workerOut \<Rightarrow> workerOut" where
  "merge_one all w = \<lparr>wo_samples = wo_samples all @ wo_samples w, wo_requests = wo_requests all + wo_requests w,
    wo_errors = wo_errors all + wo_errors w, wo_items = wo_items all + wo_items w,
    wo_statuses = (\<lambda>k. wo_statuses all k + wo_statuses w k), wo_okTotal = wo_okTotal all + wo_okTotal w\<rparr>"

definition merge_outs :: "workerOut list \<Rightarrow> workerOut" where
  "merge_outs outs = foldl merge_one newWorkerOut outs"

lemma merge_outs_sums:
  "wo_samples (merge_outs outs) = concat (map wo_samples outs)
    \<and> wo_requests (merge_outs outs) = sum_list (map wo_requests outs)
    \<and> wo_items (merge_outs outs) = sum_list (map wo_items outs)
    \<and> wo_errors (merge_outs outs) = sum_list (map wo_errors outs)
    \<and> wo_statuses (merge_outs outs) k = sum_list (map (\<lambda>w. wo_statuses w k) outs)"
proof -
  have "wo_samples (foldl merge_one a outs) = wo_samples a @ concat (map wo_samples outs)
    \<and> wo_requests (foldl merge_one a outs) = wo_requests a + sum_list (map wo_requests outs)
    \<and> wo_items (foldl merge_one a outs) = wo_items a + sum_list (map wo_items outs)
    \<and> wo_errors (foldl merge_one a outs) = wo_errors a + sum_list (map wo_errors outs)
    \<and> wo_statuses (foldl merge_one a outs) k = wo_statuses a k + sum_list (map (\<lambda>w. wo_statuses w k) outs)" for a
    by (induction outs arbitrary: a) (simp_all add: merge_one_def)
  from this[of newWorkerOut] show ?thesis by (simp add: merge_outs_def newWorkerOut_def)
qed

section \<open>One item\<close>

datatype api_request = ReqPing | ReqCreate string nat | ReqGet string | ReqListPage nat | ReqListTopic nat | ReqPull string | ReqSucceed string

datatype op = opPing | opCreate | opGet | opList | opListFilter | opCycle

record outcome =
  oc_status :: nat
  oc_ok :: bool
  oc_requests :: nat

type_synonym 's server_fun = "api_request \<Rightarrow> 's \<Rightarrow> (nat \<times> string list) \<times> 's"

definition one :: "nat \<Rightarrow> outcome" where
  "one s = \<lparr>oc_status = s, oc_ok = (s = 200), oc_requests = 1\<rparr>"

text \<open>
  The loop of a cycle that pulls until the job is queued, at most \<open>n\<close> more times: the id, or the status
  that ends the cycle, with the number of requests.
\<close>

fun cycle_pull :: "'s server_fun \<Rightarrow> string \<Rightarrow> nat \<Rightarrow> nat \<Rightarrow> 's \<Rightarrow> (nat + string) \<times> nat \<times> 's" where
  "cycle_pull send topic 0 requests st = (Inl 404, requests, st)"
| "cycle_pull send topic (Suc n) requests st =
    (let ((s, ids), st) = send (ReqPull topic) st; requests = requests + 1 in
     if s = 404 then cycle_pull send topic n requests st
     else if s \<noteq> 200 then (Inl s, requests, st)
     else case ids of [] \<Rightarrow> (Inl 404, requests, st)
       | i # _ \<Rightarrow> if i = [] then (Inl 404, requests, st) else (Inr i, requests, st))"

definition run_cycle :: "'s server_fun \<Rightarrow> string \<Rightarrow> nat \<Rightarrow> 's \<Rightarrow> outcome \<times> 's" where
  "run_cycle send topic seq st =
    (let ((s, _), st) = send (ReqCreate topic seq) st in
     if s \<noteq> 200 then (\<lparr>oc_status = s, oc_ok = False, oc_requests = 1\<rparr>, st)
     else case cycle_pull send topic 1000 1 st of
       (Inl s, requests, st) \<Rightarrow> (\<lparr>oc_status = s, oc_ok = False, oc_requests = requests\<rparr>, st)
     | (Inr i, requests, st) \<Rightarrow>
         (let ((s, _), st) = send (ReqSucceed i) st
          in (\<lparr>oc_status = s, oc_ok = (s = 200), oc_requests = requests + 1\<rparr>, st)))"

text \<open>\<open>preload\<close> is the option, \<open>ids\<close> the preloaded jobs, \<open>r\<close> the generator of the worker.\<close>

definition runOp :: "op \<Rightarrow> nat \<Rightarrow> 's server_fun \<Rightarrow> nat \<Rightarrow> nat \<Rightarrow> 64 word \<Rightarrow> string list \<Rightarrow> 's \<Rightarrow> outcome \<times> 64 word \<times> 's" where
  "runOp o' preload send worker seq r ids st =
    (let single = (\<lambda>req r. let ((s, _), st) = send req st in (one s, r, st)) in
     case o' of
       opPing \<Rightarrow> single ReqPing r
     | opCreate \<Rightarrow> single (ReqCreate ''bench'' seq) r
     | opGet \<Rightarrow> (let (k, r) = below (of_nat (length ids)) r in single (ReqGet (ids ! unat k)) r)
     | opList \<Rightarrow> (let (k, r) = below (of_nat (max (preload div 100) 1)) r in single (ReqListPage (1 + unat k)) r)
     | opListFilter \<Rightarrow> (let (k, r) = below 10 r in single (ReqListTopic (unat k)) r)
     | opCycle \<Rightarrow> (let (oc, st) = run_cycle send (''cycle-'' @ show_nat worker) seq st in (oc, r, st)))"

text \<open>A server that counts its requests; an item reports exactly the requests it sent.\<close>

definition counting :: "'s server_fun \<Rightarrow> ('s \<times> nat) server_fun" where
  "counting send = (\<lambda>req (st, n). let (a, st) = send req st in (a, (st, n + 1)))"

lemma counting_eq: "counting send req (st, n) = (fst (send req st), (snd (send req st), n + 1))"
  by (simp add: counting_def case_prod_unfold Let_def)

lemma cycle_pull_counts:
  "cycle_pull (counting send) topic k requests (st, n) = (x, requests', (st', n')) \<Longrightarrow>
    n' - n = requests' - requests \<and> n \<le> n' \<and> requests \<le> requests' \<and> requests' \<le> requests + k"
proof (induction k arbitrary: requests st n)
  case (Suc k)
  obtain s ids st1 where e: "send (ReqPull topic) st = ((s, ids), st1)" by (metis prod.exhaust)
  then have c: "counting send (ReqPull topic) (st, n) = ((s, ids), (st1, n + 1))" by (simp add: counting_eq)
  show ?case
  proof (cases "s = 404")
    case True
    then have "cycle_pull (counting send) topic k (requests + 1) (st1, n + 1) = (x, requests', (st', n'))"
      using Suc.prems c by simp
    from Suc.IH[OF this] show ?thesis by auto
  next
    case False
    then show ?thesis using Suc.prems c by (auto split: if_splits list.splits)
  qed
qed simp

lemma runOp_counts:
  assumes "runOp o' preload (counting send) worker seq r ids (st, n) = (oc, r', (st', n'))"
  shows "n' = n + oc_requests oc \<and> oc_requests oc \<le> 1002 \<and> (oc_ok oc \<longrightarrow> oc_status oc = 200)"
proof (cases "o' = opCycle")
  case False
  then show ?thesis using assms
    by (cases o') (auto simp: runOp_def one_def counting_eq Let_def case_prod_unfold)
next
  case True
  let ?t = "''cycle-'' @ show_nat worker"
  obtain s xs st1 where e: "send (ReqCreate ?t seq) st = ((s, xs), st1)" by (metis prod.exhaust)
  obtain x q st2 m where p: "cycle_pull (counting send) ?t 1000 1 (st1, n + 1) = (x, q, (st2, m))" by (metis prod.exhaust)
  note k = cycle_pull_counts[OF p]
  have rc: "run_cycle (counting send) ?t seq (st, n) = (oc, (st', n'))"
    using assms True by (auto simp: runOp_def Let_def split: prod.splits)
  show ?thesis
  proof (cases "s = 200")
    case False
    then show ?thesis using rc e by (auto simp: run_cycle_def counting_eq Let_def)
  next
    case True
    then show ?thesis using rc e p k
      by (cases x) (auto simp: run_cycle_def counting_eq Let_def case_prod_unfold)
  qed
qed

section \<open>Every job is pulled exactly once\<close>

record pull_check =
  pc_seen :: "string set"
  pc_count :: nat
  pc_duplicates :: nat
  pc_unknown :: nat

definition check_one :: "string set \<Rightarrow> string \<Rightarrow> pull_check \<Rightarrow> pull_check" where
  "check_one expected i c =
    (let c = c\<lparr>pc_count := pc_count c + 1\<rparr> in
     if i \<in> pc_seen c then c\<lparr>pc_duplicates := pc_duplicates c + 1\<rparr>
     else if i \<notin> expected then c\<lparr>pc_seen := insert i (pc_seen c), pc_unknown := pc_unknown c + 1\<rparr>
     else c\<lparr>pc_seen := insert i (pc_seen c)\<rparr>)"

definition check_pulled :: "string list \<Rightarrow> string list list \<Rightarrow> bool" where
  "check_pulled ids pulled =
    (let c = fold (check_one (set ids)) (concat pulled)
           \<lparr>pc_seen = {}, pc_count = 0, pc_duplicates = 0, pc_unknown = 0\<rparr>;
         missing = length (filter (\<lambda>i. i \<notin> pc_seen c) (remdups ids))
     in pc_duplicates c = 0 \<and> missing = 0 \<and> pc_unknown c = 0)"

lemma check_fold:
  "pc_seen (fold (check_one E) xs c) = pc_seen c \<union> set xs"
  "(pc_duplicates (fold (check_one E) xs c) = 0 \<and> pc_unknown (fold (check_one E) xs c) = 0) \<longleftrightarrow>
    pc_duplicates c = 0 \<and> pc_unknown c = 0 \<and> distinct xs \<and> set xs \<inter> pc_seen c = {} \<and> set xs \<subseteq> E"
proof (induction xs arbitrary: c)
  case Nil
  { case 1 then show ?case by simp }
  { case 2 then show ?case by simp }
next
  case (Cons x xs)
  { case 1 then show ?case using Cons(1)[of "check_one E x c"] by (auto simp: check_one_def Let_def) }
  { case 2 then show ?case using Cons(2)[of "check_one E x c"] by (auto simp: check_one_def Let_def) }
qed

text \<open>The check of \<^verbatim>\<open>pullBatch\<close> is exact: it passes when the workers together pulled a permutation of the jobs.\<close>

lemma check_pulled_iff: "distinct ids \<Longrightarrow> check_pulled ids pulled \<longleftrightarrow> mset (concat pulled) = mset ids"
proof -
  assume d: "distinct ids"
  let ?c = "\<lparr>pc_seen = {}, pc_count = 0, pc_duplicates = 0, pc_unknown = 0\<rparr>"
  have "check_pulled ids pulled \<longleftrightarrow> distinct (concat pulled) \<and> set (concat pulled) \<subseteq> set ids \<and> set ids \<subseteq> set (concat pulled)"
    using check_fold(2)[of "set ids" "concat pulled" ?c] check_fold(1)[of "set ids" "concat pulled" ?c]
    by (auto simp: check_pulled_def Let_def filter_empty_conv)
  also have "\<dots> \<longleftrightarrow> mset (concat pulled) = mset ids"
    using d by (metis mset_eq_imp_distinct_iff set_eq_iff_mset_eq_distinct set_mset_mset subset_antisym subset_refl)
  finally show ?thesis .
qed

end
