(* ===== verification/BenchRun.thy ===== *)
theory BenchRun
  imports Benchmark JobJson
begin

text \<open>
  The scenarios of the load generator (\<^verbatim>\<open>src/cmd/benchmark/bench.go\<close>, \<^verbatim>\<open>main.go\<close>,
  \<^verbatim>\<open>report.go\<close>): the loops of the workers on the readings of the clock and the answers they get, the result of a
  scenario, the order of the scenarios of a run with the resets between them, the checks of the options, the exit code
  and the data of a report. The lemmas show that a worker accounts for every item, that the
  preloaded jobs are shared out exactly, and that every scenario that writes starts from an empty server.
\<close>

section \<open>A timed worker\<close>

text \<open>
  Each turn has a reading \<open>t\<close> of the clock and the microseconds \<open>d\<close> its item took; \<open>None\<close> when the readings stop before
  the end of the window, which a clock that advances does not do.
\<close>

definition timed_item :: "bool \<Rightarrow> int64 \<Rightarrow> outcome \<Rightarrow> workerOut \<Rightarrow> workerOut" where
  "timed_item measured d res out =
    (let out = (if oc_ok res then out\<lparr>wo_okTotal := wo_okTotal out + 1\<rparr> else out) in
     if measured then
       let out = out\<lparr>wo_samples := push_sample d (wo_samples out), wo_requests := wo_requests out + oc_requests res\<rparr>;
           out = (if oc_ok res then out\<lparr>wo_items := wo_items out + 1\<rparr> else out\<lparr>wo_errors := wo_errors out + 1\<rparr>);
           key = statusKey (oc_status res)
       in out\<lparr>wo_statuses := (wo_statuses out)(key := wo_statuses out key + 1)\<rparr>
     else out)"

fun timed_worker :: "op \<Rightarrow> nat \<Rightarrow> 's server_fun \<Rightarrow> nat \<Rightarrow> string list \<Rightarrow> int64 \<Rightarrow> int64 \<Rightarrow> (int64 \<times> int64) list \<Rightarrow>
    nat \<Rightarrow> 64 word \<Rightarrow> workerOut \<Rightarrow> 's \<Rightarrow> (workerOut \<times> 's) option" where
  "timed_worker o' preload send w ids recStart endT [] seq r out st = None"
| "timed_worker o' preload send w ids recStart endT ((t, d) # ts) seq r out st =
    (if \<not> t < endT then Some (out, st)
     else let (res, r, st) = runOp o' preload send w seq r ids st
          in timed_worker o' preload send w ids recStart endT ts (seq + 1) r (timed_item (recStart \<le> t) d res out) st)"

text \<open>Items and errors are the samples; an item is counted as the status 200, an error never.\<close>

definition accounted :: "workerOut \<Rightarrow> bool" where
  "accounted out \<longleftrightarrow> length (wo_samples out) = wo_items out + wo_errors out
    \<and> wo_items out \<le> wo_okTotal out \<and> wo_items out = wo_statuses out (show_nat 200)"

lemma statusKey_200: "statusKey s = show_nat 200 \<longleftrightarrow> s = 200"
proof
  assume a: "statusKey s = show_nat 200"
  have "show_nat 200 \<noteq> ''error''" using show_nat_digits[of 200] by (auto simp: is_digit_def)
  then have "s \<noteq> 0" using a by (metis statusKey_def)
  then show "s = 200" using a show_nat_digits by (metis statusKey_def)
qed (simp add: statusKey_def)

lemma cycle_pull_not_200: "cycle_pull send topic n q st = (Inl s, q', st') \<Longrightarrow> s \<noteq> 200"
  by (induction send topic n q st rule: cycle_pull.induct) (auto simp: Let_def split: prod.splits if_splits list.splits)

lemma runOp_ok: "runOp o' preload send w seq r ids st = (res, r', st') \<Longrightarrow> oc_ok res \<longleftrightarrow> oc_status res = 200"
  by (cases o') (auto simp: runOp_def run_cycle_def one_def Let_def split: prod.splits if_splits sum.splits
    dest: cycle_pull_not_200)

lemma timed_item_accounted:
  "accounted out \<Longrightarrow> (oc_ok res \<longleftrightarrow> oc_status res = 200) \<Longrightarrow> accounted (timed_item m d res out)"
  using statusKey_200[of "oc_status res"] by (auto simp: accounted_def timed_item_def push_sample_def Let_def)

lemma timed_worker_accounted:
  "timed_worker o' preload send w ids recStart endT ts seq r out st = Some (out', st') \<Longrightarrow> accounted out \<Longrightarrow> accounted out'"
proof (induction o' preload send w ids recStart endT ts seq r out st rule: timed_worker.induct)
  case (2 o' preload send w ids recStart endT t d ts seq r out st)
  show ?case
  proof (cases "t < endT")
    case True
    obtain res r1 st1 where e: "runOp o' preload send w seq r ids st = (res, r1, st1)" by (metis prod.exhaust)
    have acc: "accounted (timed_item (recStart \<le> t) d res out)"
      by (rule timed_item_accounted[OF 2(3) runOp_ok[OF e]])
    have "timed_worker o' preload send w ids recStart endT ts (seq + 1) r1 (timed_item (recStart \<le> t) d res out) st1
        = Some (out', st')" using 2(2) True e by simp
    then show ?thesis using 2(1)[OF _ e[symmetric] refl] True acc by simp
  qed (use 2 in simp)
qed simp

text \<open>A worker ends as soon as the clock passes the end of the window.\<close>

lemma timed_worker_ends:
  "(t, d) \<in> set ts \<Longrightarrow> endT \<le> t \<Longrightarrow> \<exists>x. timed_worker o' preload send w ids recStart endT ts seq r out st = Some x"
proof (induction ts arbitrary: seq r out st)
  case (Cons td ts)
  then show ?case by (cases td) (auto simp: Let_def simp del: split_paired_Ex split: prod.splits)
qed simp

lemma newWorkerOut_accounted: "accounted newWorkerOut"
  by (simp add: accounted_def newWorkerOut_def)

section \<open>Preloading\<close>

text \<open>The numbers of the jobs that the worker \<open>w\<close> of \<open>c\<close> creates.\<close>

function preload_indices :: "nat \<Rightarrow> nat \<Rightarrow> nat \<Rightarrow> nat list" where
  "preload_indices i c n = (if c = 0 \<or> n \<le> i then [] else i # preload_indices (i + c) c n)"
  by auto
termination by (relation "measure (\<lambda>(i, c, n). n - i)") auto

declare preload_indices.simps [simp del]

lemma preload_indices_set:
  "0 < c \<Longrightarrow> j \<in> set (preload_indices i c n) \<longleftrightarrow> i \<le> j \<and> j < n \<and> j mod c = i mod c"
proof (induction i c n rule: preload_indices.induct)
  case (1 i c n)
  show ?case
  proof (cases "n \<le> i")
    case True
    then show ?thesis by (subst preload_indices.simps) auto
  next
    case False
    have "i + c \<le> j" if "i < j" "j mod c = i mod c"
    proof -
      have "c dvd j - i" using that by (metis mod_eq_dvd_iff_nat less_imp_le)
      then show ?thesis using that(1) by (metis add.commute dvd_imp_le le_diff_conv2 less_imp_le zero_less_diff)
    qed
    then show ?thesis using 1 False by (subst preload_indices.simps) (auto simp: le_eq_less_or_eq)
  qed
qed

lemma preload_indices_distinct: "distinct (preload_indices i c n)"
proof (induction i c n rule: preload_indices.induct)
  case (1 i c n)
  then show ?case
    by (subst preload_indices.simps) (auto simp: preload_indices_set)
qed

text \<open>Every job is created by exactly one of the workers.\<close>

lemma preload_shared_out:
  "0 < c \<Longrightarrow> j < n \<Longrightarrow> w < c \<Longrightarrow> j \<in> set (preload_indices w c n) \<longleftrightarrow> w = j mod c"
  using preload_indices_set[of c j w n] mod_less_eq_dividend[of j c] by auto

text \<open>One worker: \<open>send\<close> answers the creation of a job of a topic with a number; the ids so far, or the error.\<close>

fun preload_worker :: "(string \<Rightarrow> nat \<Rightarrow> 's \<Rightarrow> (nat \<times> string option) \<times> 's) \<Rightarrow> (nat \<Rightarrow> string) \<Rightarrow> nat list \<Rightarrow> string list \<Rightarrow>
    's \<Rightarrow> (string option \<times> string list) \<times> 's" where
  "preload_worker send topic [] ids st = ((None, ids), st)"
| "preload_worker send topic (i # is') ids st =
    (let ((s, j), st) = send (topic i) i st in
     case j of
       None \<Rightarrow> ((Some (''preload: create answered '' @ show_nat s), ids), st)
     | Some id' \<Rightarrow> if s \<noteq> 200 then ((Some (''preload: create answered '' @ show_nat s), ids), st)
         else preload_worker send topic is' (ids @ [id']) st)"

fun preload_result :: "(string option \<times> string list) list \<Rightarrow> string + string list" where
  "preload_result [] = Inr []"
| "preload_result ((Some e, _) # ws) = Inl e"
| "preload_result ((None, ids) # ws) = (case preload_result ws of Inl e \<Rightarrow> Inl e | Inr all \<Rightarrow> Inr (ids @ all))"

lemma preload_worker_length:
  "preload_worker send topic is' ids st = ((None, ids'), st') \<Longrightarrow> length ids' = length ids + length is'"
  by (induction send topic is' ids st rule: preload_worker.induct)
    (auto simp: Let_def split: prod.splits option.splits if_splits)

lemma preload_result_ok:
  "preload_result ws = Inr ids \<Longrightarrow> list_all (\<lambda>w. fst w = None) ws \<and> ids = concat (map snd ws)"
  by (induction ws arbitrary: ids rule: preload_result.induct) (auto split: sum.splits)

section \<open>Pulling batches\<close>

text \<open>
  One worker of \<^verbatim>\<open>pullBatch\<close>: each answer is a status, the ids of the jobs and the microseconds it took;
  \<open>None\<close> when the answers end before the worker does.
\<close>

definition pull_item :: "nat \<Rightarrow> string list \<Rightarrow> int64 \<Rightarrow> workerOut \<Rightarrow> workerOut" where
  "pull_item s got d out =
    (let key = statusKey s;
         out = out\<lparr>wo_samples := push_sample d (wo_samples out), wo_requests := wo_requests out + 1,
                   wo_statuses := (wo_statuses out)(key := wo_statuses out key + 1)\<rparr>
     in if s = 200 then out\<lparr>wo_items := wo_items out + length got\<rparr>
        else if s = 404 then out
        else out\<lparr>wo_errors := wo_errors out + 1\<rparr>)"

fun pull_worker :: "(nat \<times> string list \<times> int64) list \<Rightarrow> nat \<Rightarrow> workerOut \<Rightarrow> string list \<Rightarrow> (workerOut \<times> string list) option" where
  "pull_worker [] failures out pulled = None"
| "pull_worker ((s, got, d) # as) failures out pulled =
    (let out = pull_item s got d out in
     if s = 200 then pull_worker as failures out (pulled @ got)
     else if s = 404 then Some (out, pulled)
     else if 10 \<le> failures + 1 then Some (out, pulled)
     else pull_worker as (failures + 1) out pulled)"

lemma pull_worker_items:
  "pull_worker as failures out pulled = Some (out', pulled') \<Longrightarrow> wo_items out = length pulled \<Longrightarrow>
    wo_items out' = length pulled'"
  by (induction as failures out pulled rule: pull_worker.induct) (auto simp: pull_item_def Let_def split: if_splits)

text \<open>At most ten failed requests, whatever the server answers.\<close>

lemma pull_worker_errors:
  "pull_worker as failures out pulled = Some (out', pulled') \<Longrightarrow> wo_errors out = failures \<Longrightarrow> failures < 10 \<Longrightarrow>
    wo_errors out' \<le> 10"
  by (induction as failures out pulled rule: pull_worker.induct) (auto simp: pull_item_def Let_def split: if_splits)

lemma pull_worker_ends: "(404, got, d) \<in> set as \<Longrightarrow> \<exists>x. pull_worker as failures out pulled = Some x"
  by (induction as failures out pulled rule: pull_worker.induct)
    (auto simp: Let_def simp del: split_paired_Ex split: if_splits)

text \<open>When the check passes, the items of the scenario are the jobs that were created.\<close>

lemma pull_batch_items:
  assumes "list_all2 (\<lambda>as (out, pulled). pull_worker as 0 newWorkerOut [] = Some (out, pulled)) answers outs"
    and "distinct ids" and "check_pulled ids (map snd outs)"
  shows "wo_items (merge_outs (map fst outs)) = length ids"
proof -
  have "wo_items out = length pulled" if m: "(out, pulled) \<in> set outs" for out pulled
  proof -
    obtain k where "k < length outs" "outs ! k = (out, pulled)" using m unfolding in_set_conv_nth by blast
    then obtain as where "pull_worker as 0 newWorkerOut [] = Some (out, pulled)"
      using assms(1) by (auto simp: list_all2_conv_all_nth)
    then show ?thesis using pull_worker_items by (fastforce simp: newWorkerOut_def)
  qed
  then have "map (wo_items \<circ> fst) outs = map (length \<circ> snd) outs" by auto
  then have "sum_list (map wo_items (map fst outs)) = length (concat (map snd outs))"
    unfolding length_concat map_map by (rule arg_cong)
  also have "\<dots> = length ids" using assms(2,3) check_pulled_iff by (metis size_mset)
  finally show ?thesis using merge_outs_sums[of "map fst outs"] by simp
qed

section \<open>The result of a scenario\<close>

record check = ck_OK :: bool  ck_Detail :: string

record procStat = cpuTicks :: nat  rssKB :: nat  hwmKB :: nat

record scenarioResult =
  sr_Name :: string
  sr_Requests :: nat
  sr_Errors :: nat
  sr_ElapsedS :: float64
  sr_RequestsPerS :: float64
  sr_Items :: nat
  sr_ItemsPerS :: float64
  sr_LatencyMS :: latency
  sr_Statuses :: "string \<Rightarrow> nat"
  sr_ServerCPUUsPerRequest :: "float64 option"
  sr_ServerRSSKB :: "nat option"
  sr_ClientCPUPercent :: "float64 option"
  sr_Check :: "check option"

definition finish_scenario :: "string \<Rightarrow> workerOut \<Rightarrow> float64 \<Rightarrow> procStat option \<Rightarrow> procStat option \<Rightarrow> nat option \<Rightarrow> nat option \<Rightarrow> scenarioResult" where
  "finish_scenario name all elapsed p0 p1 c0 c1 =
    \<lparr>sr_Name = name, sr_Requests = wo_requests all, sr_Errors = wo_errors all, sr_ElapsedS = round3 elapsed,
     sr_RequestsPerS = round3 (f64_div (f64_of_int (int (wo_requests all))) elapsed), sr_Items = wo_items all,
     sr_ItemsPerS = round3 (f64_div (f64_of_int (int (wo_items all))) elapsed), sr_LatencyMS = summary (wo_samples all),
     sr_Statuses = wo_statuses all,
     sr_ServerCPUUsPerRequest = cpuPerRequest (map_option cpuTicks p0) (map_option cpuTicks p1) (wo_requests all),
     sr_ServerRSSKB = map_option rssKB p1, sr_ClientCPUPercent = cpuPercent c0 c1 elapsed, sr_Check = None\<rparr>"

text \<open>The number of jobs that match a query: \<open>decoded\<close> is the field \<^verbatim>\<open>total\<close> of the answer.\<close>

definition total_jobs :: "nat \<Rightarrow> nat option \<Rightarrow> nat option" where
  "total_jobs s decoded = (if s \<noteq> 200 then None else decoded)"

definition totalText :: "nat option \<Rightarrow> string" where
  "totalText n = (case n of None \<Rightarrow> ''unknown'' | Some k \<Rightarrow> show_nat k)"

text \<open>The polls of \<^verbatim>\<open>waitTotal\<close>: a total, and whether the deadline has passed; \<open>None\<close> when the polls end before.\<close>

fun waitTotal :: "nat \<Rightarrow> (nat option \<times> bool) list \<Rightarrow> bool option" where
  "waitTotal expected [] = None"
| "waitTotal expected ((n, late) # polls) =
    (if n = Some expected then Some True else if late then Some False else waitTotal expected polls)"

lemma waitTotal_true: "waitTotal expected polls = Some True \<Longrightarrow> Some expected \<in> fst ` set polls"
  by (induction expected polls rule: waitTotal.induct) (auto split: if_splits)

lemma waitTotal_ends: "(n, True) \<in> set polls \<Longrightarrow> \<exists>b. waitTotal expected polls = Some b"
  by (induction expected polls rule: waitTotal.induct) auto

section \<open>A run\<close>

definition scenarioNames :: "string list" where
  "scenarioNames = [''ping'', ''create'', ''pull-batch'', ''get'', ''list'', ''list-filter'', ''cycle'']"

text \<open>What the scenarios do with the server, each from a state of it.\<close>

record 's bench =
  bn_reset :: "'s \<Rightarrow> string option \<times> 's"
  bn_timed :: "string \<Rightarrow> op \<Rightarrow> string list \<Rightarrow> 's \<Rightarrow> (scenarioResult \<times> nat) \<times> 's"
  bn_total :: "string \<Rightarrow> 's \<Rightarrow> nat option \<times> 's"
  bn_pullBatch :: "'s \<Rightarrow> (string + scenarioResult) \<times> 's"
  bn_preload :: "'s \<Rightarrow> (string + string list) \<times> 's"
  bn_wait_queued :: "nat \<Rightarrow> 's \<Rightarrow> bool \<times> 's"

definition read_op :: "string \<Rightarrow> op" where
  "read_op name = (if name = ''get'' then opGet else if name = ''list'' then opList else opListFilter)"

definition reads :: "string \<Rightarrow> bool" where
  "reads name \<longleftrightarrow> name = ''get'' \<or> name = ''list'' \<or> name = ''list-filter''"

definition reset_after :: "'s bench \<Rightarrow> scenarioResult \<Rightarrow> 's \<Rightarrow> (string + scenarioResult) \<times> 's" where
  "reset_after B r st = (case bn_reset B st of (Some e, st) \<Rightarrow> (Inl e, st) | (None, st) \<Rightarrow> (Inr r, st))"

text \<open>The scenarios that do not read, from the server as it is.\<close>

definition write_scenario :: "'s bench \<Rightarrow> string \<Rightarrow> 's \<Rightarrow> (string + scenarioResult) \<times> 's" where
  "write_scenario B name st =
    (if name = ''ping'' then (let ((r, _), st) = bn_timed B name opPing [] st in (Inr r, st))
     else if name = ''create'' then
       (let ((r, created), st) = bn_timed B name opCreate [] st; (stored, st) = bn_total B '''' st
        in reset_after B (r\<lparr>sr_Check := Some \<lparr>ck_OK = (stored = Some created),
             ck_Detail = show_nat created @ '' jobs created, '' @ totalText stored @ '' stored''\<rparr>\<rparr>) st)
     else if name = ''pull-batch'' then
       (case bn_pullBatch B st of (Inl e, st) \<Rightarrow> (Inl e, st) | (Inr r, st) \<Rightarrow> reset_after B r st)
     else if name = ''cycle'' then
       (let ((r, cycles), st) = bn_timed B name opCycle [] st; (finished, st) = bn_total B ''status=succeeded'' st
        in reset_after B (r\<lparr>sr_Check := Some \<lparr>ck_OK = (finished = Some cycles),
             ck_Detail = show_nat cycles @ '' cycles completed, '' @ totalText finished @ '' jobs succeeded''\<rparr>\<rparr>) st)
     else (Inl (''unknown scenario '' @ name), st))"

text \<open>The read scenarios share the jobs of the first of them.\<close>

definition read_scenario :: "'s bench \<Rightarrow> string \<Rightarrow> string list option \<Rightarrow> 's \<Rightarrow> (string + scenarioResult \<times> string list) \<times> 's" where
  "read_scenario B name readIDs st =
    (case readIDs of
       Some ids \<Rightarrow> (let ((r, _), st) = bn_timed B name (read_op name) ids st in (Inr (r, ids), st))
     | None \<Rightarrow> (case bn_preload B st of
           (Inl e, st) \<Rightarrow> (Inl e, st)
         | (Inr ids, st) \<Rightarrow>
           (let (queued, st) = bn_wait_queued B (length ids) st in
            if \<not> queued then (Inl ''read preload: jobs not all queued after 60 s'', st)
            else let ((r, _), st) = bn_timed B name (read_op name) ids st in (Inr (r, ids), st))))"

fun run_scenarios :: "'s bench \<Rightarrow> string list \<Rightarrow> string list option \<Rightarrow> scenarioResult list \<Rightarrow> 's \<Rightarrow> (string + scenarioResult list) \<times> 's" where
  "run_scenarios B [] readIDs results st =
    (if readIDs = None then (Inr results, st)
     else case bn_reset B st of (Some e, st) \<Rightarrow> (Inl e, st) | (None, st) \<Rightarrow> (Inr results, st))"
| "run_scenarios B (name # names) readIDs results st =
    (if reads name then
       (case read_scenario B name readIDs st of
          (Inl e, st) \<Rightarrow> (Inl e, st)
        | (Inr (r, ids), st) \<Rightarrow> run_scenarios B names (Some ids) (results @ [r]) st)
     else
       (case (if readIDs \<noteq> None then bn_reset B st else (None, st)) of
          (Some e, st) \<Rightarrow> (Inl e, st)
        | (None, st) \<Rightarrow>
          (case write_scenario B name st of
             (Inl e, st) \<Rightarrow> (Inl e, st)
           | (Inr r, st) \<Rightarrow> run_scenarios B names None (results @ [r]) st)))"


fun wait_ping :: "(nat \<times> bool) list \<Rightarrow> nat option" where
  "wait_ping [] = None"
| "wait_ping ((s, in_time) # polls) = (if s = 200 \<or> \<not> in_time then Some s else wait_ping polls)"

text \<open>\<open>s\<close> is the last status of \<^verbatim>\<open>/ping\<close>.\<close>

definition runBenchmark :: "'s bench \<Rightarrow> string \<Rightarrow> nat \<Rightarrow> string list \<Rightarrow> 's \<Rightarrow> (string + scenarioResult list) \<times> 's" where
  "runBenchmark B url s names st =
    (if s \<noteq> 200 then (Inl (url @ ''/ping answered '' @ statusKey s), st)
     else case bn_reset B st of (Some e, st) \<Rightarrow> (Inl e, st) | (None, st) \<Rightarrow> run_scenarios B names None [] st)"

text \<open>
  The same run, with a flag that tells whether the server was empty each time a scenario that writes began.
\<close>

definition monitored :: "('s \<Rightarrow> bool) \<Rightarrow> 's bench \<Rightarrow> ('s \<times> bool) bench" where
  "monitored E B =
    \<lparr>bn_reset = (\<lambda>(st, ok). let (e, st) = bn_reset B st in (e, (st, ok))),
     bn_timed = (\<lambda>name o' ids (st, ok). let (r, st') = bn_timed B name o' ids st in (r, (st', ok \<and> (reads name \<or> E st)))),
     bn_total = (\<lambda>q (st, ok). let (n, st) = bn_total B q st in (n, (st, ok))),
     bn_pullBatch = (\<lambda>(st, ok). let (r, st') = bn_pullBatch B st in (r, (st', ok \<and> E st))),
     bn_preload = (\<lambda>(st, ok). let (r, st') = bn_preload B st in (r, (st', ok \<and> E st))),
     bn_wait_queued = (\<lambda>n (st, ok). let (b, st) = bn_wait_queued B n st in (b, (st, ok)))\<rparr>"

text \<open>
  It always was: given that a reset that reports no error empties the server, and that \<^verbatim>\<open>ping\<close> leaves it empty.
\<close>

definition empties :: "('s \<Rightarrow> bool) \<Rightarrow> 's bench \<Rightarrow> bool" where
  "empties E B \<longleftrightarrow> (\<forall>st st'. bn_reset B st = (None, st') \<longrightarrow> E st')
    \<and> (\<forall>st r st'. bn_timed B ''ping'' opPing [] st = (r, st') \<longrightarrow> E st \<longrightarrow> E st')"

lemma emptiesD:
  "empties E B \<Longrightarrow> bn_reset B st = (None, st') \<Longrightarrow> E st'"
  "empties E B \<Longrightarrow> bn_timed B ''ping'' opPing [] st = (r, st') \<Longrightarrow> E st \<Longrightarrow> E st'"
  unfolding empties_def by blast+

lemma write_scenario_empty:
  assumes "write_scenario (monitored E B) name (st, ok) = (res, (st', ok'))" and "E st" and "\<not> reads name" and "empties E B"
  shows "(ok \<longrightarrow> ok') \<and> (\<forall>r. res = Inr r \<longrightarrow> E st')"
  using assms
  by (auto simp: write_scenario_def monitored_def reset_after_def reads_def Let_def split: prod.splits sum.splits option.splits if_splits
    dest: emptiesD)

lemma read_scenario_empty:
  assumes "read_scenario (monitored E B) name ids (st, ok) = (res, (st', ok'))" and "ids = None \<longrightarrow> E st" and "reads name"
  shows "ok \<longrightarrow> ok'"
  using assms
  by (auto simp: read_scenario_def monitored_def Let_def split: prod.splits sum.splits option.splits if_splits)

lemma run_scenarios_empty:
  "run_scenarios (monitored E B) names ids results (st, ok) = (res, (st', ok')) \<Longrightarrow> ids = None \<longrightarrow> E st \<Longrightarrow> empties E B \<Longrightarrow> ok \<longrightarrow> ok'"
proof (induction names arbitrary: ids results st ok)
  case Nil
  then show ?case by (auto simp: monitored_def split: if_splits prod.splits option.splits)
next
  case (Cons name names)
  show ?case
  proof (cases "reads name")
    case True
    obtain r st1 ok1 where e: "read_scenario (monitored E B) name ids (st, ok) = (r, (st1, ok1))" by (metis prod.exhaust)
    note k = read_scenario_empty[OF e Cons.prems(2) True]
    show ?thesis using Cons True e k by (cases r) (auto split: prod.splits)
  next
    case False
    obtain q st1 ok1 where q: "(if ids \<noteq> None then bn_reset (monitored E B) (st, ok) else (None, (st, ok))) = (q, (st1, ok1))"
      by (metis prod.exhaust)
    obtain r st2 ok2 where e: "write_scenario (monitored E B) name (st1, ok1) = (r, (st2, ok2))" by (metis prod.exhaust)
    have ok1: "ok1 = ok" and E1: "q = None \<Longrightarrow> E st1"
      using q Cons.prems(2) by (auto simp: monitored_def split: if_splits prod.splits dest: emptiesD[OF Cons.prems(3)])
    show ?thesis
    proof (cases q)
      case None
      note k = write_scenario_empty[OF e E1[OF None] False Cons.prems(3)]
      show ?thesis using Cons.IH[of None] Cons.prems(1,3) False q None e k ok1 by (cases r) auto
    next
      case (Some x)
      then show ?thesis using Cons.prems(1) False q ok1 by auto
    qed
  qed
qed

lemma runBenchmark_empty:
  assumes "empties E B" and "runBenchmark (monitored E B) url s names (st, True) = (res, (st', ok))"
  shows ok
proof -
  obtain q st1 ok1 where q: "bn_reset (monitored E B) (st, True) = (q, (st1, ok1))" by (metis prod.exhaust)
  then have ok1: ok1 and E1: "q = None \<Longrightarrow> E st1"
    by (auto simp: monitored_def split: prod.splits dest: emptiesD[OF assms(1)])
  show ?thesis
  proof (cases "s = 200 \<and> q = None")
    case True
    then have "run_scenarios (monitored E B) names None [] (st1, ok1) = (res, (st', ok))"
      using assms(2) q by (simp add: runBenchmark_def)
    from run_scenarios_empty[OF this _ assms(1)] show ?thesis using E1 ok1 True by simp
  next
    case False
    then show ?thesis using assms(2) q ok1 by (cases q) (auto simp: runBenchmark_def split: if_splits)
  qed
qed

section \<open>Options and exit code\<close>

record options =
  opt_url :: string
  opt_scenarios :: "string list"
  opt_concurrency :: int
  opt_duration :: int
  opt_warmup :: int
  opt_preload :: int
  opt_batchJobs :: int
  opt_batchSize :: int
  opt_pid :: int
  opt_label :: string
  opt_wait :: int

text \<open>
  The checks of \<^verbatim>\<open>parseArgs\<close> on the values \<open>o'\<close> the flag library gives; \<open>rest\<close> are the arguments that are not
  flags, \<open>names\<close> the parts of the list of scenarios, trimmed (\<open>None\<close> for \<^verbatim>\<open>all\<close>).
\<close>

definition trim_slashes :: "string \<Rightarrow> string" where
  "trim_slashes s = rev (dropWhile (\<lambda>c. c = CHR ''/'') (rev s))"

definition parseArgs :: "options \<Rightarrow> string list \<Rightarrow> string list option \<Rightarrow> string + options" where
  "parseArgs o' rest names =
    (case rest of a # _ \<Rightarrow> Inl (''unexpected argument '' @ a)
     | [] \<Rightarrow> (case find (\<lambda>(n, v). v < 0)
         [(''concurrency'', opt_concurrency o'), (''duration'', opt_duration o'), (''warmup'', opt_warmup o'),
          (''preload'', opt_preload o'), (''batch-jobs'', opt_batchJobs o'), (''batch-size'', opt_batchSize o'),
          (''pid'', opt_pid o'), (''wait'', opt_wait o')] of
         Some (n, v) \<Rightarrow> Inl (''invalid value '' @ show_int v @ '' for flag -'' @ n)
       | None \<Rightarrow>
         (let o' = o'\<lparr>opt_concurrency := max (opt_concurrency o') 1, opt_duration := max (opt_duration o') 1,
                opt_preload := max (opt_preload o') 1, opt_batchJobs := max (opt_batchJobs o') 1,
                opt_batchSize := min (max (opt_batchSize o') 1) 100, opt_url := trim_slashes (opt_url o')\<rparr>
          in if take 7 (opt_url o') \<noteq> ''http://'' then Inl ''only http:// URLs are supported''
             else let o'' = (case names of None \<Rightarrow> Inr (o'\<lparr>opt_scenarios := scenarioNames\<rparr>)
                  | Some ns \<Rightarrow> (case find (\<lambda>s. s \<notin> set scenarioNames) ns of
                      Some s \<Rightarrow> Inl (''unknown scenario '' @ s)
                    | None \<Rightarrow> Inr (o'\<lparr>opt_scenarios := ns\<rparr>)))
              in case o'' of Inl e \<Rightarrow> Inl e
                 | Inr o' \<Rightarrow> Inr (if opt_label o' = '''' then o'\<lparr>opt_label := opt_url o'\<rparr> else o'))))"

text \<open>Accepted options are in range and name known scenarios.\<close>

lemma parseArgs_range:
  assumes "parseArgs o' rest names = Inr o''"
  shows "1 \<le> opt_concurrency o'' \<and> 1 \<le> opt_duration o'' \<and> 1 \<le> opt_preload o'' \<and> 1 \<le> opt_batchJobs o''
    \<and> 1 \<le> opt_batchSize o'' \<and> opt_batchSize o'' \<le> 100 \<and> 0 \<le> opt_warmup o'' \<and> 0 \<le> opt_wait o''"
  using assms by (auto simp: parseArgs_def Let_def split: list.splits option.splits if_splits sum.splits)

lemma parseArgs_scenarios:
  assumes "parseArgs o' rest names = Inr o''"
  shows "set (opt_scenarios o'') \<subseteq> set scenarioNames"
  using assms by (auto simp: parseArgs_def Let_def find_None_iff split: list.splits option.splits if_splits sum.splits)

text \<open>
  The exit code of a run: \<open>parsed\<close> is the result of the options (\<open>Inl True\<close> when help was asked), \<open>written\<close> whether the
  file of the results, if any, could be written.
\<close>

definition run_exit :: "bool + options \<Rightarrow> string + scenarioResult list \<Rightarrow> bool \<Rightarrow> int" where
  "run_exit parsed result written = (case parsed of
      Inl help \<Rightarrow> if help then 0 else 2
    | Inr _ \<Rightarrow> (case result of Inl _ \<Rightarrow> 1
      | Inr rs \<Rightarrow> if \<not> written then 1
          else if list_ex (\<lambda>s. case sr_Check s of Some c \<Rightarrow> \<not> ck_OK c | None \<Rightarrow> False) rs then 1 else 0))"

end
