(* ===== verification/BenchReport.thy ===== *)
theory BenchReport
  imports BenchRun
begin

text \<open>
  The report of the benchmark (\<^verbatim>\<open>src/cmd/benchmark/report.go\<close>): the median and the spread of the results
  of several runs, by scenario and label, as Markdown tables. The files, decoded, and the format of a float with
  some decimals are parameters. The lemmas show that every label and scenario has its place once, that a
  median does not depend on the order of the runs, and that a failed check is always shown.
\<close>

section \<open>Median and spread\<close>

definition median :: "float64 list \<Rightarrow> float64 option" where
  "median v = (let v = sort v; n = length v in
    if n mod 2 = 1 then Some (v ! (n div 2))
    else if n = 0 then None
    else Some (f64_div (f64 (v ! (n div 2 - 1) + v ! (n div 2))) 2))"

definition ndash :: string where "ndash = [CHR 0xE2, CHR 0x80, CHR 0x93]"

definition cell :: "(nat \<Rightarrow> float64 \<Rightarrow> string) \<Rightarrow> nat \<Rightarrow> float64 list \<Rightarrow> string" where
  "cell fmt decimals v = (case median v of
      None \<Rightarrow> ''-''
    | Some m \<Rightarrow>
      (let f = fmt decimals; v = sort v; lo = v ! 0; hi = v ! (length v - 1) in
       if length v = 1 \<or> lo = hi then f m else f m @ '' ('' @ f lo @ ndash @ f hi @ '')''))"

lemma median_None: "median v = None \<longleftrightarrow> v = []"
  by (auto simp: median_def Let_def)

lemma median_perm: "mset v = mset w \<Longrightarrow> median v = median w"
proof -
  assume "mset v = mset w"
  then have "sort v = sort w" by (metis properties_for_sort mset_sort sorted_sort)
  then show ?thesis by (simp only: median_def)
qed

lemma cell_perm: "mset v = mset w \<Longrightarrow> cell fmt decimals v = cell fmt decimals w"
proof -
  assume m: "mset v = mset w"
  then have "sort v = sort w" by (metis properties_for_sort mset_sort sorted_sort)
  moreover have "length v = length w" using m by (metis size_mset)
  ultimately show ?thesis using median_perm[OF m] by (simp only: cell_def)
qed

text \<open>The median of an odd number of values splits them: no more than half are below, no more than half above.\<close>

lemma median_odd:
  assumes "odd (length v)" and "median v = Some m"
  shows "m \<in> set v" "length (filter (\<lambda>x. x < m) v) \<le> length v div 2" "length (filter (\<lambda>x. m < x) v) \<le> length v div 2"
proof -
  let ?s = "sort v" and ?h = "length v div 2"
  obtain k where k: "length v = 2 * k + 1" using assms(1) by (elim oddE)
  then have h: "?h < length ?s" by simp
  have m: "m = ?s ! ?h" using assms(2) k by (simp add: median_def Let_def)
  show "m \<in> set v" using nth_mem[OF h] m by simp
  have s: "sorted (take ?h ?s @ m # drop (Suc ?h) ?s)" "?s = take ?h ?s @ m # drop (Suc ?h) ?s"
    using id_take_nth_drop[OF h] m by (metis sorted_sort, simp)
  have len: "length (filter P v) = length (filter P ?s)" for P
    by (metis mset_filter mset_sort size_mset)
  have "filter (\<lambda>x. x < m) (drop (Suc ?h) ?s) = []" "filter (\<lambda>x. m < x) (take ?h ?s) = []"
    using s(1) by (auto simp: sorted_append filter_empty_conv not_less)
  moreover have "filter P ?s = filter P (take ?h ?s) @ filter P [m] @ filter P (drop (Suc ?h) ?s)" for P
    using arg_cong[OF s(2), of "filter P"] by (simp only: filter_append filter.simps append.simps split: if_split) simp
  ultimately have "length (filter (\<lambda>x. x < m) ?s) \<le> length (take ?h ?s)"
    "length (filter (\<lambda>x. m < x) ?s) \<le> length (drop (Suc ?h) ?s)"
    using length_filter_le[of "\<lambda>x. x < m" "take ?h ?s"] length_filter_le[of "\<lambda>x. m < x" "drop (Suc ?h) ?s"]
    by simp_all
  then show "length (filter (\<lambda>x. x < m) v) \<le> ?h" "length (filter (\<lambda>x. m < x) v) \<le> ?h"
    using len k by simp_all
qed

section \<open>Runs\<close>

record runResult =
  rr_Label :: string
  rr_IdleRSSKB :: "nat option"
  rr_PeakRSSKB :: "nat option"
  rr_Scenarios :: "scenarioResult list"

definition first_seen :: "string list \<Rightarrow> string list" where
  "first_seen xs = foldl (\<lambda>seen x. if x \<in> set seen then seen else seen @ [x]) [] xs"

lemma first_seen_once: "distinct (first_seen xs) \<and> set (first_seen xs) = set xs"
proof -
  have "distinct seen \<Longrightarrow> distinct (foldl (\<lambda>seen x. if x \<in> set seen then seen else seen @ [x]) seen xs)
      \<and> set (foldl (\<lambda>seen x. if x \<in> set seen then seen else seen @ [x]) seen xs) = set seen \<union> set xs" for seen
    by (induction xs arbitrary: seen) auto
  from this[of "[]"] show ?thesis by (simp add: first_seen_def)
qed

definition labels_of :: "runResult list \<Rightarrow> string list" where
  "labels_of runs = first_seen (map rr_Label runs)"

definition scenarios_of :: "runResult list \<Rightarrow> string list" where
  "scenarios_of runs = first_seen (concat (map (\<lambda>r. map sr_Name (rr_Scenarios r)) runs))"

text \<open>The results of a scenario under a label: the first of that name of every run.\<close>

definition results_of :: "runResult list \<Rightarrow> string \<Rightarrow> string \<Rightarrow> scenarioResult list" where
  "results_of runs label sc =
    List.map_filter (\<lambda>r. if rr_Label r \<noteq> label then None else find (\<lambda>s. sr_Name s = sc) (rr_Scenarios r)) runs"

definition col :: "(scenarioResult \<Rightarrow> float64 option) \<Rightarrow> scenarioResult list \<Rightarrow> float64 list" where
  "col f rs = List.map_filter f rs"

definition check_text :: "scenarioResult list \<Rightarrow> string" where
  "check_text rs = foldl (\<lambda>chk s. case sr_Check s of
      None \<Rightarrow> chk
    | Some c \<Rightarrow> (let chk = (if chk = ''-'' then ''OK'' else chk) in
        if \<not> ck_OK c \<and> take 6 chk \<noteq> ''FAILED'' then ''FAILED: '' @ ck_Detail c else chk)) ''-'' rs"

definition failed :: "scenarioResult \<Rightarrow> bool" where
  "failed s \<longleftrightarrow> (\<exists>c. sr_Check s = Some c \<and> \<not> ck_OK c)"

text \<open>The detail shown is that of the first failed check; \<^verbatim>\<open>OK\<close> means that there was a check and none failed.\<close>

lemma check_text_fold:
  defines "F \<equiv> foldl (\<lambda>chk s. case sr_Check s of
      None \<Rightarrow> chk
    | Some c \<Rightarrow> (let chk = (if chk = ''-'' then ''OK'' else chk) in
        if \<not> ck_OK c \<and> take 6 chk \<noteq> ''FAILED'' then ''FAILED: '' @ ck_Detail c else chk))"
  shows "F (''FAILED: '' @ d) rs = ''FAILED: '' @ d"
    and "chk = ''-'' \<or> chk = ''OK'' \<Longrightarrow> F chk rs = (case find failed rs of
        Some s \<Rightarrow> (case sr_Check s of Some c \<Rightarrow> ''FAILED: '' @ ck_Detail c | None \<Rightarrow> chk)
      | None \<Rightarrow> if chk = ''-'' \<and> (\<forall>s \<in> set rs. sr_Check s = None) then ''-'' else ''OK'')"
proof -
  show F1: "F (''FAILED: '' @ d) rs = ''FAILED: '' @ d" for d
    by (induction rs) (auto simp: F_def Let_def split: option.splits)
  show "chk = ''-'' \<or> chk = ''OK'' \<Longrightarrow> F chk rs = (case find failed rs of
        Some s \<Rightarrow> (case sr_Check s of Some c \<Rightarrow> ''FAILED: '' @ ck_Detail c | None \<Rightarrow> chk)
      | None \<Rightarrow> if chk = ''-'' \<and> (\<forall>s \<in> set rs. sr_Check s = None) then ''-'' else ''OK'')"
  proof (induction rs arbitrary: chk)
    case (Cons s rs)
    show ?case
    proof (cases "failed s")
      case True
      then obtain c where "sr_Check s = Some c" "\<not> ck_OK c" by (auto simp: failed_def)
      then have "F chk (s # rs) = F (''FAILED: '' @ ck_Detail c) rs" using Cons.prems by (auto simp: F_def)
      moreover have "F (''FAILED: '' @ ck_Detail c) rs = ''FAILED: '' @ ck_Detail c"
        by (induction rs) (auto simp: F_def Let_def split: option.splits)
      ultimately show ?thesis using True \<open>sr_Check s = Some c\<close> by simp
    next
      case False
      then have "F chk (s # rs) = F (if sr_Check s = None then chk else ''OK'') rs"
        using Cons.prems by (auto simp: F_def failed_def split: option.splits)
      moreover have "find failed (s # rs) = find failed rs" using False by simp
      moreover note Cons.IH[OF Cons.prems] Cons.IH[of "''OK''", OF disjI2[OF refl]]
      moreover have "sr_Check t \<noteq> None" if "find failed rs = Some t" for t
        using that by (auto simp: find_Some_iff failed_def)
      ultimately show ?thesis by (cases "sr_Check s") (auto split: option.splits)
    qed
  qed (auto simp: F_def)
qed

lemma check_text_failed: "take 6 (check_text rs) = ''FAILED'' \<longleftrightarrow> list_ex failed rs"
proof -
  have c: "check_text rs = (case find failed rs of
        Some s \<Rightarrow> (case sr_Check s of Some c \<Rightarrow> ''FAILED: '' @ ck_Detail c | None \<Rightarrow> ''-'')
      | None \<Rightarrow> if ''-'' = ''-'' \<and> (\<forall>s \<in> set rs. sr_Check s = None) then ''-'' else ''OK'')"
    unfolding check_text_def by (rule check_text_fold(2)[OF disjI1[OF refl]])
  then show ?thesis
  proof (cases "find failed rs")
    case None
    then have "\<not> list_ex failed rs" by (auto simp: find_None_iff list_ex_iff)
    then show ?thesis using None c by simp
  next
    case (Some s)
    then have "failed s" "s \<in> set rs" by (auto simp: find_Some_iff)
    then have "list_ex failed rs" by (auto simp: list_ex_iff)
    then show ?thesis using Some c \<open>failed s\<close> by (auto simp: failed_def)
  qed
qed

section \<open>Tables\<close>

definition newline :: string where "newline = [CHR 0x0A]"

definition bar :: string where "bar = '' | ''"

definition report_row :: "(nat \<Rightarrow> float64 \<Rightarrow> string) \<Rightarrow> string \<Rightarrow> scenarioResult list \<Rightarrow> string" where
  "report_row fmt label rs =
    ''| '' @ label @ bar @ show_nat (length rs)
    @ bar @ cell fmt 0 (col (\<lambda>s. Some (sr_RequestsPerS s)) rs)
    @ bar @ cell fmt 0 (col (\<lambda>s. Some (sr_ItemsPerS s)) rs)
    @ bar @ cell fmt 3 (col (\<lambda>s. Some (lat_P50 (sr_LatencyMS s))) rs)
    @ bar @ cell fmt 3 (col (\<lambda>s. Some (lat_P99 (sr_LatencyMS s))) rs)
    @ bar @ cell fmt 1 (col sr_ServerCPUUsPerRequest rs)
    @ bar @ cell fmt 0 (col sr_ClientCPUPercent rs)
    @ bar @ show_nat (u64 (sum_list (map sr_Errors rs))) @ bar @ check_text rs @ '' |'' @ newline"

definition scenario_table :: "(nat \<Rightarrow> float64 \<Rightarrow> string) \<Rightarrow> runResult list \<Rightarrow> string \<Rightarrow> string" where
  "scenario_table fmt runs sc =
    ''### '' @ sc @ newline @ newline
    @ ''| label | runs | req/s | items/s | p50 | p99 | server CPU | load gen CPU % | errors | check |'' @ newline
    @ ''|---|---|---|---|---|---|---|---|---|---|'' @ newline
    @ concat (map (\<lambda>label. let rs = results_of runs label sc in if rs = [] then '''' else report_row fmt label rs) (labels_of runs))
    @ newline"

definition memory_row :: "(nat \<Rightarrow> float64 \<Rightarrow> string) \<Rightarrow> runResult list \<Rightarrow> string \<Rightarrow> string" where
  "memory_row fmt runs label =
    (let rs = filter (\<lambda>r. rr_Label r = label) runs;
         mib = (\<lambda>kb. f64_div (f64_of_int (int kb)) 1024)
     in ''| '' @ label @ bar @ show_nat (length rs)
        @ bar @ cell fmt 1 (map mib (List.map_filter rr_IdleRSSKB rs))
        @ bar @ cell fmt 1 (map mib (List.map_filter rr_PeakRSSKB rs)) @ '' |'' @ newline)"

definition report_intro :: string where
  "report_intro = ''Median over runs, (min'' @ ndash @ ''max) when they differ. Latency in ms, server CPU in ''
    @ [CHR 0xC2, CHR 0xB5] @ ''s per request.'' @ newline @ newline"

text \<open>\<open>files\<close> are the decoded files; the first that cannot be read or decoded ends the report.\<close>

fun read_runs :: "(string + runResult) list \<Rightarrow> string + runResult list" where
  "read_runs [] = Inr []"
| "read_runs (Inl e # _) = Inl e"
| "read_runs (Inr r # rs) = (case read_runs rs of Inl e \<Rightarrow> Inl e | Inr rs' \<Rightarrow> Inr (r # rs'))"

definition report :: "(nat \<Rightarrow> float64 \<Rightarrow> string) \<Rightarrow> (string + runResult) list \<Rightarrow> string + string" where
  "report fmt files = (case read_runs files of
      Inl e \<Rightarrow> Inl e
    | Inr runs \<Rightarrow> Inr (report_intro @ concat (map (scenario_table fmt runs) (scenarios_of runs))
        @ ''### Server memory (MiB)'' @ newline @ newline
        @ ''| label | runs | idle RSS | peak RSS |'' @ newline @ ''|---|---|---|---|'' @ newline
        @ concat (map (memory_row fmt runs) (labels_of runs))))"

text \<open>Every result of a run is in the table of its scenario, in the row of the run's label.\<close>

lemma result_has_a_row:
  assumes "r \<in> set runs" and "s \<in> set (rr_Scenarios r)"
  shows "sr_Name s \<in> set (scenarios_of runs) \<and> rr_Label r \<in> set (labels_of runs)
    \<and> results_of runs (rr_Label r) (sr_Name s) \<noteq> []"
proof -
  have "sr_Name s \<in> set (scenarios_of runs)" "rr_Label r \<in> set (labels_of runs)"
    using assms by (auto simp: scenarios_of_def labels_of_def first_seen_once)
  moreover have "find (\<lambda>s'. sr_Name s' = sr_Name s) (rr_Scenarios r) \<noteq> None"
    using assms(2) by (auto simp: find_None_iff)
  then have "results_of runs (rr_Label r) (sr_Name s) \<noteq> []"
    using assms(1) by (auto simp: results_of_def List.map_filter_def filter_empty_conv)
  ultimately show ?thesis by blast
qed

end
