(* ===== verification/LoadTest.thy ===== *)
theory LoadTest
  imports Prelude "HOL-Library.Transitive_Closure_Table"
begin

text \<open>
  The load test client (\<^verbatim>\<open>src/cmd/loadtest/loadtest.go\<close>): the weighted choice of what to do,
  the attempts of a creation, what a consumer does with a job, and the counters that end the
  test. The answers of the server, the random draws, the JSON decoders and the order of a map are
  parameters; an answer is an error of the transport or a status with a body, which may fail
  to be read. Messages on the console are not modelled.
\<close>

section \<open>Weighted choices\<close>

datatype action = ActionSuccess | ActionCancel | ActionFailure | ActionTimeout

datatype scenario = JobDefWithTopic1 | JobDefWithTopic2 | JobDefWithLockedResources | JobDefWithDelayedTopic1

definition actionWeights :: "nat \<Rightarrow> (action \<times> nat) list option" where
  "actionWeights = map_of
    [(0, [(ActionSuccess, 100), (ActionCancel, 0), (ActionFailure, 0), (ActionTimeout, 0)]),
     (1, [(ActionSuccess, 80), (ActionCancel, 20), (ActionFailure, 0), (ActionTimeout, 0)]),
     (2, [(ActionSuccess, 50), (ActionCancel, 25), (ActionFailure, 25), (ActionTimeout, 0)]),
     (3, [(ActionSuccess, 45), (ActionCancel, 10), (ActionFailure, 19), (ActionTimeout, 1)]),
     (4, [(ActionSuccess, 14), (ActionCancel, 30), (ActionFailure, 30), (ActionTimeout, 1)])]"

definition jobScenarioDefinitionWeights :: "nat \<Rightarrow> (scenario \<times> nat) list option" where
  "jobScenarioDefinitionWeights = map_of
    [(0, [(JobDefWithTopic1, 100), (JobDefWithTopic2, 0), (JobDefWithLockedResources, 0)]),
     (1, [(JobDefWithTopic1, 50), (JobDefWithTopic2, 50), (JobDefWithLockedResources, 0)]),
     (2, [(JobDefWithTopic1, 50), (JobDefWithTopic2, 48), (JobDefWithLockedResources, 2)]),
     (3, [(JobDefWithTopic1, 40), (JobDefWithTopic2, 48), (JobDefWithLockedResources, 2), (JobDefWithDelayedTopic1, 10)])]"

fun pick_weight :: "nat \<Rightarrow> 'a \<Rightarrow> ('a \<times> nat) list \<Rightarrow> 'a" where
  "pick_weight r d [] = d"
| "pick_weight r d ((a, w) # ws) = (if r < w then a else pick_weight (r - w) d ws)"

text \<open>\<open>order\<close> is the order in which the map is walked, \<open>rnd\<close> the draw of \<^verbatim>\<open>rand.Intn\<close>.\<close>

definition getRandomValueFromWeightMap ::
    "(('a \<times> nat) list \<Rightarrow> ('a \<times> nat) list) \<Rightarrow> (nat \<Rightarrow> nat) \<Rightarrow> nat \<Rightarrow> (nat \<Rightarrow> ('a \<times> nat) list option) \<Rightarrow> 'a \<Rightarrow> 'a" where
  "getRandomValueFromWeightMap order rnd level weightsMap defaultValue =
    (let weights = (case weightsMap level of Some ws \<Rightarrow> ws
           | None \<Rightarrow> (case weightsMap 0 of Some ws \<Rightarrow> ws | None \<Rightarrow> []));
         totalWeight = sum_list (map snd weights)
     in pick_weight (rnd totalWeight) defaultValue (order weights))"

definition getRandomAction where
  "getRandomAction order rnd level = getRandomValueFromWeightMap order rnd level actionWeights ActionSuccess"

definition getRandomJobScenario where
  "getRandomJobScenario order rnd level =
    getRandomValueFromWeightMap order rnd level jobScenarioDefinitionWeights JobDefWithTopic1"

lemma pick_weight_in: "r < sum_list (map snd ws) \<Longrightarrow> pick_weight r d ws \<in> fst ` set ws"
proof (induction ws arbitrary: r)
  case (Cons aw ws)
  then show ?case by (cases aw) (auto simp: image_iff)
qed simp

text \<open>Every value is chosen by as many draws as its weight, in every order of the map.\<close>

lemma pick_weight_count:
  assumes "distinct (map fst ws)" and "(a, w) \<in> set ws"
  shows "card {r. r < sum_list (map snd ws) \<and> pick_weight r d ws = a} = w"
  using assms
proof (induction ws)
  case (Cons bw ws)
  obtain b v where b: "bw = (b, v)" by (cases bw)
  let ?R = "{r. r < sum_list (map snd ws) \<and> pick_weight r d ws = a}"
  have split: "{r. r < sum_list (map snd (bw # ws)) \<and> pick_weight r d (bw # ws) = a}
      = {r. r < v \<and> b = a} \<union> (+) v ` ?R" (is "?L = ?M")
  proof (rule set_eqI)
    fix r
    show "r \<in> ?L \<longleftrightarrow> r \<in> ?M"
    proof (cases "r < v")
      case True
      then show ?thesis by (auto simp: b)
    next
      case False
      then obtain k where "r = v + k" using le_Suc_ex not_less by blast
      then show ?thesis by (auto simp: b)
    qed
  qed
  have inj: "card ((+) v ` ?R) = card ?R" by (rule card_image) simp
  show ?case
  proof (cases "b = a")
    case True
    then have "a \<notin> fst ` set ws" and v: "v = w" using Cons.prems by (auto simp: b rev_image_eqI)
    then have "?R = {}" using pick_weight_in[of _ ws d] by blast
    moreover have "{r. r < v \<and> b = a} = {..<v}" using True by auto
    ultimately have "?L = {..<v}" by (simp only: split image_empty Un_empty_right)
    then show ?thesis by (simp only: card_lessThan v)
  next
    case False
    then have "card ?R = w" using Cons by (auto simp: b)
    moreover have "?L = (+) v ` ?R" using False unfolding split by simp
    ultimately show ?thesis by (simp only: inj)
  qed
qed simp

section \<open>Requests\<close>

datatype do_error = Errno string | NetError string | OtherError string

type_synonym answer = "do_error + (nat \<times> (string + string))"

fun error_text :: "do_error \<Rightarrow> string" where
  "error_text (Errno e) = e" | "error_text (NetError e) = e" | "error_text (OtherError e) = e"

record client_jobs =
  jobsStatus :: "(string \<times> string) list"
  jobsFailures :: "(string \<times> nat) list"

definition set_status :: "string \<Rightarrow> string \<Rightarrow> client_jobs \<Rightarrow> client_jobs" where
  "set_status i s c = c\<lparr>jobsStatus := AList.update i s (jobsStatus c)\<rparr>"

text \<open>One creation: at most 100 attempts, \<open>answers i\<close> is what the attempt \<open>i\<close> gets; \<open>decode\<close> gives the id of the job.\<close>

fun create_loop :: "(string \<Rightarrow> string + string) \<Rightarrow> (nat \<Rightarrow> answer) \<Rightarrow> nat \<Rightarrow> nat \<Rightarrow> client_jobs \<Rightarrow> (string + string) \<times> client_jobs" where
  "create_loop decode answers 0 i c = (Inl ''max number of retries reached'', c)"
| "create_loop decode answers (Suc n) i c = (case answers i of
      Inl (Errno e) \<Rightarrow> create_loop decode answers n (i + 1) c
    | Inl (NetError e) \<Rightarrow> create_loop decode answers n (i + 1) c
    | Inl (OtherError e) \<Rightarrow> (Inl e, c)
    | Inr (s, body) \<Rightarrow>
        if 300 \<le> s then (Inl (''HTTP response code: '' @ show_nat s), c)
        else (case body of
            Inl e \<Rightarrow> (Inl e, c)
          | Inr b \<Rightarrow> (case decode b of
                Inl e \<Rightarrow> (Inl e, c)
              | Inr jobUUID \<Rightarrow>
                  (Inr jobUUID, (set_status jobUUID ''created'' c)\<lparr>jobsFailures := AList.update jobUUID 0 (jobsFailures c)\<rparr>))))"

definition createNewJob :: "(string \<Rightarrow> string + string) \<Rightarrow> string option \<Rightarrow> (nat \<Rightarrow> answer) \<Rightarrow> client_jobs \<Rightarrow> (string + string) \<times> client_jobs" where
  "createNewJob decode bad_url answers c = (case bad_url of Some e \<Rightarrow> (Inl e, c) | None \<Rightarrow> create_loop decode answers 100 0 c)"

definition transient :: "answer \<Rightarrow> bool" where
  "transient a \<longleftrightarrow> (\<exists>e. a = Inl (Errno e) \<or> a = Inl (NetError e))"

text \<open>A creation gives up only after 100 attempts; the first answer that is not a lost connection decides.\<close>

lemma create_loop_first:
  "(\<forall>k < m. transient (answers (i + k))) \<Longrightarrow> m \<le> n \<Longrightarrow>
    create_loop decode answers n i c = create_loop decode answers (n - m) (i + m) c"
proof (induction m arbitrary: n i)
  case (Suc m)
  obtain n' where n: "n = Suc n'" using Suc.prems(2) by (cases n) auto
  have "transient (answers i)" using Suc.prems(1) by (metis add_0_right zero_less_Suc)
  then have "create_loop decode answers n i c = create_loop decode answers n' (i + 1) c"
    by (auto simp: n transient_def)
  moreover have "\<forall>k < m. transient (answers (i + 1 + k))"
    using Suc.prems(1) by (metis Suc_less_eq add.assoc plus_1_eq_Suc)
  ultimately show ?case using Suc.IH[of "i + 1" n'] Suc.prems(2) by (simp add: n)
qed simp

lemma createNewJob_gives_up:
  "(\<forall>k < 100. transient (answers k)) \<Longrightarrow> createNewJob decode None answers c = (Inl ''max number of retries reached'', c)"
  using create_loop_first[of 100 answers 0 100 decode c] by (simp add: createNewJob_def)

definition incJobFailuesCount :: "string \<Rightarrow> client_jobs \<Rightarrow> nat \<times> client_jobs" where
  "incJobFailuesCount i c = (case map_of (jobsFailures c) i of
      Some n \<Rightarrow> (n + 1, c\<lparr>jobsFailures := AList.update i (n + 1) (jobsFailures c)\<rparr>)
    | None \<Rightarrow> (1, c\<lparr>jobsFailures := AList.update i 1 (jobsFailures c)\<rparr>))"

definition SetJobStatus :: "answer \<Rightarrow> string + string" where
  "SetJobStatus a = (case a of
      Inl e \<Rightarrow> Inl (error_text e)
    | Inr (s, Inl e) \<Rightarrow> Inl e
    | Inr (s, Inr b) \<Rightarrow> if s \<noteq> 200 then Inl (''failed to set job status: &'' @ b) else Inr b)"

definition SetJobAsSucceed :: "string \<Rightarrow> answer \<Rightarrow> client_jobs \<Rightarrow> string option \<times> client_jobs" where
  "SetJobAsSucceed i a c = (case SetJobStatus a of Inl e \<Rightarrow> (Some e, c) | Inr _ \<Rightarrow> (None, set_status i ''success'' c))"

definition SetJobAsCancel :: "string \<Rightarrow> answer \<Rightarrow> client_jobs \<Rightarrow> string option \<times> client_jobs" where
  "SetJobAsCancel i a c = (case SetJobStatus a of Inl e \<Rightarrow> (Some e, c) | Inr _ \<Rightarrow> (None, set_status i ''canceled'' c))"

text \<open>\<open>message\<close> reads the message of the answer.\<close>

definition SetJobAsFail :: "(string \<Rightarrow> string + string) \<Rightarrow> string \<Rightarrow> answer \<Rightarrow> client_jobs \<Rightarrow> (bool \<times> string option) \<times> client_jobs" where
  "SetJobAsFail message i a c = (case SetJobStatus a of
      Inl e \<Rightarrow> ((False, Some e), c)
    | Inr b \<Rightarrow> (case message b of
          Inl e \<Rightarrow> ((False, Some e), c)
        | Inr t \<Rightarrow>
          (let c = snd (incJobFailuesCount i c) in
           if t = ''job reached max retry'' then ((True, None), set_status i ''failMaxRetry'' c)
           else ((False, None), set_status i ''fail'' c))))"

definition JobMaxFailures :: nat where "JobMaxFailures = 3"

section \<open>Pulling and acting\<close>

text \<open>
  The query of a pull: \<open>escape\<close> is the URL encoding; \<open>force\<close> and \<open>poll\<close> are the draws
  between 0 and 1, \<open>timeout\<close> and \<open>wait\<close> the draws between 0 and 4. The number of jobs is 1.
\<close>

definition pull_query :: "(string \<Rightarrow> string) \<Rightarrow> string \<Rightarrow> int \<Rightarrow> nat \<Rightarrow> nat \<Rightarrow> nat \<Rightarrow> nat \<Rightarrow> string" where
  "pull_query escape topic monkeyTestLevel force timeout poll wait =
    (let queryTopic = (if topic \<noteq> '''' then ''&topic='' @ escape topic else '''');
         numJobs = 1;
         queryNumJobs = (if 1 < numJobs then ''&numjobs='' @ show_nat numJobs else '''');
         visibilityTimeout = (if 3 \<le> monkeyTestLevel \<and> force = 0 then 3 + int timeout else -1);
         queryVisibilityTimeout = (if 0 < visibilityTimeout then ''&visibilitytimeout='' @ show_int visibilityTimeout else '''');
         queryWaitTimeSeconds = (if 4 \<le> monkeyTestLevel \<and> poll = 0 then ''&waittimeseconds='' @ show_nat (2 + wait) else '''');
         queryParameters = queryTopic @ queryNumJobs @ queryVisibilityTimeout @ queryWaitTimeSeconds
     in if queryParameters \<noteq> '''' then tl queryParameters else queryParameters)"

definition pull_job_from_queue :: "answer \<Rightarrow> string + string option" where
  "pull_job_from_queue a = (case a of
      Inl e \<Rightarrow> Inl (error_text e)
    | Inr (s, Inl e) \<Rightarrow> Inl e
    | Inr (s, Inr b) \<Rightarrow>
        if s = 404 then Inr None
        else if s \<noteq> 200 then Inl (''failed to pull job: '' @ b)
        else Inr (Some b))"

text \<open>What a consumer does with the job it pulled: whether it is completed, and the error.\<close>

definition act_on_job :: "(string \<Rightarrow> string + string) \<Rightarrow> action \<Rightarrow> string \<Rightarrow> answer \<Rightarrow> client_jobs \<Rightarrow> (bool \<times> string option) \<times> client_jobs" where
  "act_on_job message action i a c = (case action of
      ActionCancel \<Rightarrow> (let (err, c) = SetJobAsCancel i a c in ((False, err), c))
    | ActionFailure \<Rightarrow> (let ((reached, err), c) = SetJobAsFail message i a c in
        case err of Some e \<Rightarrow> ((False, Some e), c) | None \<Rightarrow> ((reached, None), c))
    | ActionTimeout \<Rightarrow> (let (n, c) = incJobFailuesCount i c in ((JobMaxFailures \<le> n, None), c))
    | ActionSuccess \<Rightarrow> (let (err, c) = SetJobAsSucceed i a c in ((err = None, err), c)))"

text \<open>
  One turn of a consumer: job found, job completed, error. \<open>decode\<close> gives the ids of the pulled jobs; the second
  answer is that of the request about the job.
\<close>

definition jobConsumer :: "(string \<Rightarrow> string + string list) \<Rightarrow> (string \<Rightarrow> string + string) \<Rightarrow> action \<Rightarrow> answer \<Rightarrow> answer \<Rightarrow>
    client_jobs \<Rightarrow> (bool \<times> bool \<times> string option) \<times> client_jobs" where
  "jobConsumer decode message action pull a c = (case pull_job_from_queue pull of
      Inl e \<Rightarrow> ((False, False, Some e), c)
    | Inr None \<Rightarrow> ((False, False, None), c)
    | Inr (Some payload) \<Rightarrow> (case decode payload of
        Inl e \<Rightarrow> ((False, False, Some e), c)
      | Inr [] \<Rightarrow> ((False, False, Some ''empty result''), c)
      | Inr (jobUUID # _) \<Rightarrow>
          if map_of (jobsStatus c) jobUUID = Some ''success'' then ((True, False, Some ''job already succeed''), c)
          else (let ((completed, err), c) = act_on_job message action jobUUID a c in ((True, completed, err), c))))"

text \<open>A job is never reported completed with an error, nor without having been found; one that succeeded is never completed again.\<close>

lemma act_on_job_completed: "act_on_job message act i a c = ((True, err), c') \<Longrightarrow> err = None"
  by (cases act) (auto simp: act_on_job_def Let_def split: prod.splits option.splits)

lemma jobConsumer_completed:
  assumes "jobConsumer decode message act pull a c = ((found, True, err), c')"
  shows "found \<and> err = None"
  using assms by (auto simp: jobConsumer_def Let_def split: sum.splits option.splits list.splits if_splits prod.splits
    dest: act_on_job_completed)

lemma jobConsumer_succeeded_once:
  assumes "pull_job_from_queue pull = Inr (Some b)" and "decode b = Inr (i # is)"
    and "map_of (jobsStatus c) i = Some ''success''"
  shows "jobConsumer decode message act pull a c = ((True, False, Some ''job already succeed''), c)"
  using assms by (simp add: jobConsumer_def)

lemma SetJobAsSucceed_recorded:
  "SetJobAsSucceed i a c = (None, c') \<Longrightarrow> map_of (jobsStatus c') i = Some ''success''"
  by (auto simp: SetJobAsSucceed_def set_status_def split: sum.splits)

section \<open>The end of the test\<close>

text \<open>
  The test of a server that holds no other jobs, where a job is completed by one consumer. The shared counters, with where each of the \<open>iterations\<close> tasks is: \<open>lt_tasks\<close> in the channel, \<open>lt_busy\<close>
  being sent by a producer, \<open>lt_sent\<close> answered and not counted yet; \<open>lt_open\<close> is the number
  of jobs on the server that no consumer has completed, \<open>lt_turns\<close> of the consumers that are in a turn of their loop.
\<close>

record load_test =
  lt_tasks :: nat
  lt_busy :: nat
  lt_sent :: nat
  lt_open :: nat
  lt_turns :: nat
  producerCompleted :: nat
  cptProducerErrors :: nat
  producersDone :: bool
  consumerCompleted :: nat
  cptConsumerErrors :: nat

definition run_load_test :: "nat \<Rightarrow> load_test" where
  "run_load_test iterations = \<lparr>lt_tasks = iterations, lt_busy = 0, lt_sent = 0, lt_open = 0, lt_turns = 0, producerCompleted = 0,
    cptProducerErrors = 0, producersDone = False, consumerCompleted = 0, cptConsumerErrors = 0\<rparr>"

text \<open>The condition under which a consumer goes on, and what it does with the result of its job consumer.\<close>

definition consumer_continues :: "load_test \<Rightarrow> bool" where
  "consumer_continues s \<longleftrightarrow> \<not> producersDone s \<or> producerCompleted s \<noteq> consumerCompleted s"

definition consume :: "bool \<times> bool \<times> string option \<Rightarrow> load_test \<Rightarrow> load_test" where
  "consume res s = (case res of (found_job, job_completed, err) \<Rightarrow>
    if err \<noteq> None then s\<lparr>cptConsumerErrors := cptConsumerErrors s + 1\<rparr>
    else if job_completed then s\<lparr>consumerCompleted := consumerCompleted s + 1\<rparr>
    else s)"

definition produced :: "string option \<Rightarrow> load_test \<Rightarrow> load_test" where
  "produced err s = (let s = s\<lparr>lt_busy := lt_busy s - 1, lt_sent := lt_sent s + 1\<rparr> in
    case err of Some _ \<Rightarrow> s\<lparr>cptProducerErrors := cptProducerErrors s + 1\<rparr> | None \<Rightarrow> s\<lparr>lt_open := lt_open s + 1\<rparr>)"

text \<open>
  The goroutines interleave: a producer takes a task, gets its answer, counts it; the main goroutine
  sees the end of the producers; a consumer checks the condition of its loop, and later completes an open job, or not.
\<close>

inductive lt_step :: "load_test \<Rightarrow> load_test \<Rightarrow> bool" where
  take_task: "lt_tasks s = Suc n \<Longrightarrow> lt_step s (s\<lparr>lt_tasks := n, lt_busy := lt_busy s + 1\<rparr>)"
| answered: "0 < lt_busy s \<Longrightarrow> lt_step s (produced err s)"
| counted: "lt_sent s = Suc n \<Longrightarrow> lt_step s (s\<lparr>lt_sent := n, producerCompleted := producerCompleted s + 1\<rparr>)"
| producers_end: "lt_tasks s = 0 \<Longrightarrow> lt_busy s = 0 \<Longrightarrow> lt_sent s = 0 \<Longrightarrow> lt_step s (s\<lparr>producersDone := True\<rparr>)"
| turn_begins: "consumer_continues s \<Longrightarrow> lt_step s (s\<lparr>lt_turns := lt_turns s + 1\<rparr>)"
| completed: "lt_turns s = Suc k \<Longrightarrow> lt_open s = Suc n \<Longrightarrow>
    lt_step s (consume (True, True, None) (s\<lparr>lt_turns := k, lt_open := n\<rparr>))"
| not_completed: "lt_turns s = Suc k \<Longrightarrow> res \<noteq> (True, True, None) \<Longrightarrow> res \<noteq> (False, True, None) \<Longrightarrow>
    lt_step s (consume res (s\<lparr>lt_turns := k\<rparr>))"

definition lt_inv :: "nat \<Rightarrow> load_test \<Rightarrow> bool" where
  "lt_inv iterations s \<longleftrightarrow>
    lt_tasks s + lt_busy s + lt_sent s + producerCompleted s = iterations
    \<and> consumerCompleted s + lt_open s + cptProducerErrors s = producerCompleted s + lt_sent s
    \<and> (producersDone s \<longrightarrow> lt_tasks s = 0 \<and> lt_busy s = 0 \<and> lt_sent s = 0)"

lemma lt_step_inv: "lt_step s t \<Longrightarrow> lt_inv iterations s \<Longrightarrow> lt_inv iterations t"
  by (induction rule: lt_step.induct)
    (auto simp: lt_inv_def produced_def consume_def Let_def split: option.splits prod.splits)

lemma lt_reachable_inv: "lt_step\<^sup>*\<^sup>* (run_load_test iterations) s \<Longrightarrow> lt_inv iterations s"
  by (induction rule: rtranclp_induct) (simp add: lt_inv_def run_load_test_def, blast intro: lt_step_inv)

text \<open>
  The consumers end exactly when the producers are done, every job is completed and no creation failed: with one
  failed creation, which is counted as completed, they go on for ever.
\<close>

lemma consumers_end_iff:
  assumes "lt_step\<^sup>*\<^sup>* (run_load_test iterations) s"
  shows "\<not> consumer_continues s \<longleftrightarrow> producersDone s \<and> cptProducerErrors s = 0 \<and> lt_open s = 0"
  using lt_reachable_inv[OF assms] by (auto simp: consumer_continues_def lt_inv_def)

lemma consumers_end_count:
  assumes "lt_step\<^sup>*\<^sup>* (run_load_test iterations) s" and "\<not> consumer_continues s"
  shows "consumerCompleted s = iterations"
  using lt_reachable_inv[OF assms(1)] assms(2) by (auto simp: consumer_continues_def lt_inv_def)

lemma lt_errors_stay: "lt_step s t \<Longrightarrow> cptProducerErrors s \<le> cptProducerErrors t"
  by (induction rule: lt_step.induct) (auto simp: produced_def consume_def Let_def split: option.splits prod.splits)

lemma failed_creation_never_ends:
  assumes "lt_step\<^sup>*\<^sup>* (run_load_test iterations) s" and "0 < cptProducerErrors s" and "lt_step\<^sup>*\<^sup>* s t"
  shows "consumer_continues t"
proof -
  have "cptProducerErrors s \<le> cptProducerErrors t" using assms(3)
    by (induction rule: rtranclp_induct) (auto dest: lt_errors_stay)
  moreover have "lt_step\<^sup>*\<^sup>* (run_load_test iterations) t" using assms(1,3) by (rule rtranclp_trans)
  ultimately show ?thesis using consumers_end_iff assms(2) by fastforce
qed

end
