(* ===== verification/Spec2Isabelle.thy ===== *)
theory Spec2Isabelle
  imports Sample SampleSave Mock SampleRedis MetricsStats Startup Monitoring JobJson BenchReport LoadTest
begin

text \<open>
  A verification development of minijob, a job server in Go: clients create jobs over HTTP,
  workers pull them, and report success or failure; the server keeps the jobs in a backend and
  retries, delays and deletes them. This theory holds the properties, C1 to C40, each with a
  witness on concrete data; the other theories hold the model and its lemmas. Source files
  are named relative to \<^verbatim>\<open>src/\<close>.

  \<^bold>\<open>The parts and how they interact.\<close> A job (\<open>Job\<close>, \<^verbatim>\<open>job/job.go\<close>) is a record with a history
  of events, from which its state follows. The scheduler (\<open>Service\<close>, \<^verbatim>\<open>service/service.go\<close>) holds the jobs
  in a store by address, because the queues share them: the map of jobs, the map of pending
  jobs, the index of queued jobs (\<open>BinHeap\<close>, \<open>Queue\<close>, \<^verbatim>\<open>service/queue.go\<close>), the priority
  queues of hidden and delayed jobs (\<open>PQ\<close>, \<^verbatim>\<open>pq/pq.go\<close>), the resource locks (\<open>Resources\<close>,
  \<^verbatim>\<open>service/resourcesmanager.go\<close>) and the retry policy (\<open>RetryPolicy\<close>, \<^verbatim>\<open>retrypolicy\<close>). Each request and each
  periodic task is one function on this record (\<open>svc\<close>), because it runs under one mutex; the
  step relation \<open>svc_step\<close> (\<open>ServiceLoad\<close>) interleaves them, from what \<open>LoadJobs\<close> makes of the backend's jobs.
  What the scheduler tells the outside is a trace of notifications (\<open>Events\<close>, \<^verbatim>\<open>event\<close>), and
  every listener is a state that replays it: the backend providers (\<open>InMemory\<close> with \<open>SaveLoop\<close>, \<open>Mock\<close>,
  \<open>Redis\<close> with \<open>RedisWriter\<close>, \<^verbatim>\<open>jobbackendprovider\<close>), the metrics (\<open>Metrics\<close> on \<open>Prometheus\<close>,
  \<open>Percentiles\<close> and \<open>Float64\<close>, \<^verbatim>\<open>metrics\<close>), the callbacks (\<open>Callback\<close>, \<^verbatim>\<open>callback\<close>) and the
  event log (\<open>EventLog\<close>, \<^verbatim>\<open>eventlogger\<close>). The HTTP handlers (\<open>Web\<close>, \<open>Monitoring\<close>, \<open>Text\<close>,
  \<open>ApiError\<close>, \<^verbatim>\<open>web\<close>) turn a request into a call of the scheduler and its result into an
  answer; \<open>SchemaCheck\<close> is the check of the JSON schema at the start. \<open>Server\<close>
  (\<^verbatim>\<open>web/webserver\<close>) starts and stops the listener, \<open>Startup\<close> (\<^verbatim>\<open>config\<close>,
  \<^verbatim>\<open>jobbackendprovider/registry\<close>, \<^verbatim>\<open>cmd/minijob\<close>) the whole program, \<open>Lifecycle\<close>
  (\<^verbatim>\<open>lifecycle\<close>) the background loops. The numbers of a job's properties as JSON are in \<open>JobJson\<close>. Two
  clients of the API have theories of their own: the benchmark (\<open>Benchmark\<close>, \<open>BenchRun\<close>, \<open>BenchReport\<close>,
  \<^verbatim>\<open>cmd/benchmark\<close>) and the load test (\<open>LoadTest\<close>, \<^verbatim>\<open>cmd/loadtest\<close>).

  \<^bold>\<open>How the model follows the code.\<close> A definition has the name of the function it
  translates; a prefix (\<open>im_\<close>, \<open>mk_\<close>, \<open>rd_\<close>, \<open>sm_\<close>, \<open>el_\<close>, \<open>cb_\<close>, \<open>handle_\<close>) separates functions with
  the same name. An \<^verbatim>\<open>int64\<close> is an \<open>int\<close> that wraps (\<open>i64\<close>) where the code adds or
  subtracts, an \<^verbatim>\<open>uint\<close> is a \<open>nat\<close>, an id and a priority are words, a map is an association list, a float of the
  metrics is a rational number with the rounding of \<open>Float64\<close>. An error is \<open>Inl\<close> or \<open>Some\<close>, a
  panic or a call that does not return is \<open>None\<close> (or the field \<open>sv_panic\<close>). Loops are recursive functions on
  the list they walk or with a proved measure; a loop without bound (new ids, SCAN, restarts of
  the program) is a \<^theory_text>\<open>partial_function\<close>, with a theorem that says when it returns (C16,
  C25, C34). The loops of the client tools run over the list of the answers and readings they get, with lemmas
  that say when they end. No fuel is used.

  \<^bold>\<open>What the lemmas show.\<close> \<open>ServiceInv\<close>, \<open>ServiceReach\<close> and \<open>ServiceLoad\<close> prove the invariant
  of the scheduler for every operation (C1, C5, C10); \<open>ServiceOps\<close>, \<open>ServiceTasks\<close> and
  \<open>ServiceAdmin\<close> what each operation does on every branch (C6 to C17). \<open>Trace\<close>, \<open>TraceReach\<close>
  and \<open>TraceGrows\<close> show that the trace is a faithful audit log (C2), so that the contract of a
  backend, the locales \<open>job_ids\<close> and \<open>job_store\<close> of \<open>Backend\<close>, gives the agreement of every
  provider with the scheduler (C3, C4); \<open>SaveLoop\<close> that no interleaving loses a change of the file (C28); \<open>RedisWriter\<close> that no write is lost (C22 to C25); \<open>MetricsCount\<close> and
  \<open>MetricsStats\<close> that the metrics count the jobs and never panic (C37 to C39). The other
  interfaces are the locales \<open>heap_order\<close> (the order of a heap), \<open>prio_queue\<close> and
  \<open>resource_locks\<close>, all interpreted on the model's functions. \<open>Prelude\<close> holds the shared lemmas,
  \<open>Sample\<close>, \<open>SampleRedis\<close> and \<open>SampleSave\<close> the data of the witnesses.

  \<^bold>\<open>Parameters.\<close> The record \<open>env\<close> gives the successive readings of the clock and the ids of the
  generator; \<open>web\<close> the parsers, decoders and decompressors of the libraries; \<open>sample_client\<close> is one
  instance of the Redis client, whose laws (\<open>redis_laws\<close>, \<open>read_laws\<close>) are hypotheses of C22
  to C25; the HTTP client of the callbacks, Consul, CORS, YAML, the loggers and the file
  system are parameters too. C38 and C39 hold for at most \<open>2^53\<close> durations or jobs, where a length is an exact float.

  \<^bold>\<open>Not modelled\<close>, and why: the text of log lines and of the documentation (\<^verbatim>\<open>log\<close>, \<^verbatim>\<open>docs\<close>: a
  generated string), Fiber itself and its settings (\<^verbatim>\<open>web/config.go\<close>), the guards around the
  third-party JSON schema validator for looping references (\<^verbatim>\<open>web/jsonschema.go\<close>: they wrap the state of
  code that is not in the repository), the descriptions of the Prometheus collectors, the
  flags of the command lines, and the HTTP clients and console lines of the client tools.
  Data races are outside the model: an operation under the mutex is one step.
\<close>

lemma sample_steps: "svc_step\<^sup>*\<^sup>* (started sample_env sample_conf sample_jobs) sample_state"
  by (simp add: started_def sample_state_def)

lemma sample_lookup:
  "lookup_job 1 sample_state = Some 0" "lookup_job 3 sample_state = Some 2"
  "lookup_job 4 sample_state = Some 3" "lookup_job 5 sample_state = Some 4"
  by (simp_all add: lookup_job_def sample_fields)

lemma sample_running_job: "job_at sample_state 3 = sample_job 4 ''disk'' 0 []
    [JobEventCreate, JobEventPending, JobEventEnqueue, JobEventStart]"
proof -
  have "map_of (sv_jobs sample_state) 4 = Some 3" by (simp add: sample_fields)
  then have "map_of sample_jobs 4 = Some (job_at sample_state 3)" using sample_phase by blast
  then show ?thesis by (simp add: sample_jobs_def)
qed

lemma sample_failures: "GetCountFaillures (job_at sample_state 3) = 0"
  by (simp add: sample_running_job GetCountFaillures_def JobEvent_defs)

lemma sample_max_retry: "rp_MaxRetry (conf_RetryPolicy sample_conf) = 2"
  by (simp add: sample_conf_def)

lemma sample_delay: "ComputeDelay e (rp_BackoffStrategy (conf_RetryPolicy sample_conf)) (Suc 0) = 100000000"
  by (simp add: sample_conf_def ComputeDelay_def i64_def u64_def Millisecond_def)

section \<open>Where the jobs are\<close>

text \<open>
  C1: in every reachable state of the service, whatever the interleaving of requests and
  periodic tasks, a job is stored under its own id and is exactly where its state says: in
  the index of queued jobs, in the map of pending jobs, in the retry queue (hidden) or in the
  delayed queue, and in no other. No operation ever compared a job without history (a
  panic).
\<close>

theorem jobs_are_where_their_state_says:
  assumes "reachable e c s"
  shows "(\<forall>u p. map_of (sv_jobs s) u = Some p \<longrightarrow>
      JobUUID (job_at s p) = u
      \<and> (p \<in> q_entries (sv_queue s) \<longleftrightarrow> state (job_at s p) = JobQueued)
      \<and> (map_of (sv_pending s) u = Some p \<longleftrightarrow> state (job_at s p) = JobPending)
      \<and> (p \<in> fst ` set (pq_nodes (sv_retry s)) \<longleftrightarrow> state (job_at s p) = JobHidden)
      \<and> (p \<in> fst ` set (pq_nodes (sv_delayed s)) \<longleftrightarrow> state (job_at s p) = JobDelayed))
    \<and> \<not> sv_panic s"
  using located_by_state[OF reachable_inv[OF assms]] by blast

theorem jobs_are_where_their_state_says_witness:
  "0 \<in> q_entries (sv_queue sample_state) \<and> map_of (sv_pending sample_state) 3 = Some 2"
  using jobs_are_where_their_state_says[OF sample_reachable] by (simp add: sample_fields)

text \<open>
  C2: the trace of the service is a faithful audit log of its jobs. From the jobs found at
  the start, every notification about a job carries the job with exactly one more history
  event than in the notification before, the one it names, or is the creation of an
  unknown id below the limit of the backend; and the replay of the whole trace holds, after any
  sequence of requests and tasks, exactly the jobs of the service as they are now.
\<close>

theorem trace_is_an_audit_log:
  assumes "loaded_ok ujs" and "svc_step\<^sup>*\<^sup>* (started e c ujs) s"
  shows "trace_ok (BackendMaxJobs (sv_conf s)) (sv_out s) (loaded_view ujs)
    \<and> jv_jobs (replay_jobs (sv_out s) (loaded_view ujs)) = (\<lambda>u. map_option (job_at s) (lookup_job u s))"
  using mirror_jobs[OF assms] by blast

theorem trace_is_an_audit_log_witness:
  "jv_jobs (replay_jobs (sv_out sample_state) (loaded_view sample_jobs)) 4 = Some (job_at sample_state 3)"
  using trace_is_an_audit_log[OF sample_loaded sample_steps] by (simp add: lookup_job_def sample_fields)

text \<open>
  C3: the in-memory provider, given the trace of the service from a store that agrees with
  the jobs of the start and with the limit it announced, has stored exactly the current jobs:
  it refused no creation and missed no change (in the form it keeps: a copy of the job when it
  is persistent).
\<close>

theorem in_memory_provider_has_the_jobs:
  assumes "loaded_ok ujs" and "svc_step\<^sup>*\<^sup>* (started e c ujs) s"
    and "im.agrees b p (loaded_view ujs)" and "im_maxJobs p = BackendMaxJobs (sv_conf s)"
    and "BackendMaxJobs (sv_conf s) > 0"
  shows "map_of (im_jobs (fold im_call (sv_out s) p)) =
      (\<lambda>u. map_option (\<lambda>q. im_keep b (job_at s q)) (lookup_job u s))"
  using im.agrees_replay[OF assms(3)] trace_ok_room[OF mirror_jobs(1)[OF assms(1,2)]] assms(4,5)
    mirror_jobs(2)[OF assms(1,2)]
  by (simp add: im.agrees_def option.map_comp comp_def)

definition sample_provider :: inmem where
  "sample_provider = \<lparr>im_generation = 0, im_savedGeneration = 0,
    im_jobs = map (\<lambda>(u, j). (u, im_keep True j)) sample_jobs, im_maxJobs = 10,
    im_writeFrequency = 1, im_persistent = True, im_chan = [], im_restore = False, im_file = None\<rparr>"

lemma sample_provider_agrees: "im.agrees True sample_provider (loaded_view sample_jobs)"
  by (simp add: im.agrees_def sample_provider_def im_wf_def sample_jobs_def im_keep_def fun_eq_iff)

theorem in_memory_provider_has_the_jobs_witness:
  "map_of (im_jobs (fold im_call (sv_out sample_state) sample_provider)) 4 =
    Some (im_keep True (job_at sample_state 3))"
  using in_memory_provider_has_the_jobs[OF sample_loaded sample_steps sample_provider_agrees]
  by (simp add: lookup_job_def sample_fields sample_conf_eq sample_provider_def sample_conf_def)


definition sample_redis_env :: redis_env where
  "sample_redis_env = \<lparr>re_uuid = (\<lambda>u. replicate (unat u) (CHR ''x'')), re_json = (\<lambda>j. Inr ''v''),
    re_unjson = (\<lambda>v. Inl ''not a job'')\<rparr>"

definition sample_redis :: redis where
  "sample_redis = \<lparr>rd_maxJobs = 10, rd_finishedJobTTL = 0, rd_writer = newWriter, rd_lc = Lifecycle.New,
    rd_closed = False, rd_chan = [], rd_restore = False\<rparr>"


lemma sample_redis_env_ok: "env_ok sample_redis_env"
  by (auto simp: env_ok_def sample_redis_env_def inj_def dest!: arg_cong[where f = length] injD[OF inj_unsigned])




text \<open>
  C5: in every reachable state a lock is held by an existing job that lists the resource and
  is queued or running: completed, hidden, pending or deleted jobs hold nothing.
\<close>

theorem locks_belong_to_active_jobs:
  assumes "reachable e c s" and "map_of (sv_locked s) r = Some u"
  shows "\<exists>p. map_of (sv_jobs s) u = Some p \<and> r \<in> set (LockResources (job_at s p))
    \<and> state (job_at s p) \<in> {JobQueued, JobRunning}"
  using locks_of_active_jobs[OF reachable_inv[OF assms(1)] assms(2)] .

theorem locks_belong_to_active_jobs_witness:
  "\<exists>p. map_of (sv_jobs sample_state) 1 = Some p \<and> ''db'' \<in> set (LockResources (job_at sample_state p))
    \<and> state (job_at sample_state p) \<in> {JobQueued, JobRunning}"
  using locks_belong_to_active_jobs[OF sample_reachable, of "''db''" 1] by (simp add: sample_fields)

section \<open>Requests\<close>




text \<open>
  C7: marking a job as successful is refused, with an error 400 and no change, unless the
  job exists and is running; otherwise it gets one SUCCESS event, gives up every lock, and
  no other job changes but pending jobs (which may get the locks).
\<close>

theorem success_of_a_running_job:
  assumes "reachable e c s" and "SetJobAsSuccessful u s = (err, s')"
  shows "case lookup_job u s of
      None \<Rightarrow> s' = s \<and> map_option HttpCode err = Some StatusBadRequest
    | Some p \<Rightarrow>
      if state (job_at s p) \<noteq> JobRunning
      then s' = s \<and> map_option HttpCode err = Some StatusBadRequest
      else err = None \<and> touches (insert p (pending_jobs s)) s s'
        \<and> (\<exists>t. job_at s' p = AddHistoryEvent JobEventSuccess t (job_at s p))
        \<and> (\<forall>x. map_of (sv_locked s') x \<noteq> Some u)"
  by (rule SetJobAsSuccessful_outcome[OF reachable_inv[OF assms(1)] assms(2)])

theorem success_of_a_running_job_witness:
  "state (job_at (snd (SetJobAsSuccessful 4 sample_state)) 3) = JobSucceeded
    \<and> snd (SetJobAsSuccessful 1 sample_state) = sample_state"
proof -
  have "SetJobAsSuccessful u sample_state = (fst (SetJobAsSuccessful u sample_state),
      snd (SetJobAsSuccessful u sample_state))" for u by simp
  note r = success_of_a_running_job[OF sample_reachable this]
  show ?thesis using r[of 4] r[of 1] by (auto simp: sample_lookup sample_fields)
qed



text \<open>
  C9: a failure of a running job. When its failures reach the maximum of the retry policy it
  is terminated; below it, a zero delay retries it at once when its resources are free;
  in every other case it is hidden and put in the retry queue at the time the backoff
  gives. Only this job and pending jobs change.
\<close>

theorem failure_follows_the_retry_policy:
  assumes "reachable e c s" and "failJobLocked u s = ((reached, err), s')"
    and "lookup_job u s = Some p" and "state (job_at s p) = JobRunning"
    and "failures = u64 (GetCountFaillures (job_at s p) + 1)"
    and "delay = ComputeDelay (env_exp_ms (sv_env s)) (rp_BackoffStrategy (conf_RetryPolicy (sv_conf s))) failures"
    and "now = env_clock (sv_env s) (Suc (sv_reads s))"
  shows "err = None \<and> touches (insert p (pending_jobs s)) s s' \<and>
    (if failures \<ge> rp_MaxRetry (conf_RetryPolicy (sv_conf s))
     then reached \<and> failed_with JobEventTerminate (job_at s p) (job_at s' p)
     else if delay = 0 \<and> lock_of u (LockResources (job_at s p)) (sv_locked s) \<noteq> None
     then \<not> reached \<and> failed_with JobEventEnqueue (job_at s p) (job_at s' p)
     else \<not> reached \<and> failed_with JobEventHide (job_at s p) (job_at s' p)
      \<and> pq_nodes (sv_retry s') = stable_insert
          (p, i64 (- (if delay = 0 then now else i64 (now + Milliseconds delay)))) (pq_nodes (sv_retry s)))"
  using failJobLocked_outcome[OF reachable_inv[OF assms(1)] assms(2-4)] assms(5-7) by auto

theorem failure_follows_the_retry_policy_witness:
  "state (job_at (snd (failJobLocked 4 sample_state)) 3) = JobHidden"
proof -
  have "failJobLocked 4 sample_state = ((fst (fst (failJobLocked 4 sample_state)),
      snd (fst (failJobLocked 4 sample_state))), snd (failJobLocked 4 sample_state))" by simp
  from failure_follows_the_retry_policy[OF sample_reachable this sample_lookup(3) sample_fields(5) refl refl refl]
  show ?thesis unfolding sample_failures sample_conf_eq
    by (auto simp: sample_delay sample_max_retry u64_def failed_with_def split: if_splits)
qed

section \<open>Periodic tasks\<close>

text \<open>
  C10: no resource is left idle. After the attempt to enqueue the pending jobs, each of them
  has been queued, or is unchanged and is blocked: one of its resources is held by
  another job, or its start time was still to come when it was looked at.
\<close>

theorem pending_jobs_wait_only_when_blocked:
  assumes "reachable e c s" and "p \<in> pending_jobs s" and "s' = tryEnqueuePendingJobsLocked s"
  shows "(\<exists>t. job_at s' p = AddHistoryEvent JobEventEnqueue t (job_at s p))
    \<or> job_at s' p = job_at s p \<and> blocked_job s (sv_reads s) (sv_locked s') (job_at s p)"
  using tryEnqueue_outcome[of s p] reachable_inv[OF assms(1)] assms(2,3) by (simp add: svc_inv_def)

theorem pending_jobs_wait_only_when_blocked_witness:
  "state (job_at (tryEnqueuePendingJobsLocked sample_state) 2) \<in> {JobQueued, JobPending}"
proof -
  have "2 \<in> pending_jobs sample_state" by (simp add: in_state_def live_def sample_fields)
  from pending_jobs_wait_only_when_blocked[OF sample_reachable this refl] show ?thesis
    by (auto simp: sample_fields)
qed

text \<open>
  C11: the check of the delayed jobs removes from the delayed queue exactly the jobs whose
  time has come; each of them is then queued, or pending because it is blocked; no other
  job changes but pending ones.
\<close>

theorem delayed_jobs_leave_on_time:
  assumes "reachable e c s" and "\<not> sv_delay_running s"
    and "due = (\<lambda>n. i64 (- env_clock (sv_env s) (sv_reads s)) \<le> snd n)" and "s' = CheckDelayedJobs s"
  shows "pq_nodes (sv_delayed s') = filter (\<lambda>n. \<not> due n) (pq_nodes (sv_delayed s))
    \<and> touches (fst ` {n \<in> set (pq_nodes (sv_delayed s)). due n} \<union> pending_jobs s) s s'
    \<and> (\<forall>n \<in> set (pq_nodes (sv_delayed s)). due n \<longrightarrow>
        state (job_at s' (fst n)) = JobQueued
        \<or> state (job_at s' (fst n)) = JobPending
          \<and> blocked_job s (sv_reads s) (sv_locked s') (job_at s (fst n)))"
  using CheckDelayedJobs_outcome[OF reachable_inv[OF assms(1)] assms(2)] assms(3,4) by blast

theorem delayed_jobs_leave_on_time_witness:
  "pq_nodes (sv_delayed (CheckDelayedJobs sample_state)) = []
    \<and> state (job_at (CheckDelayedJobs sample_state) 5) \<in> {JobQueued, JobPending}"
  using delayed_jobs_leave_on_time[OF sample_reachable sample_fields(17) refl refl]
  by (auto simp: sample_fields sample_env_eq sample_env_def i64_def)

text \<open>
  C12: the retry task. A hidden job whose time has not come stays where it is; one whose
  time has come is queued again, or is put back with the same priority because one of its
  resources is held by another job. No other job changes.
\<close>

theorem retries_happen_on_time:
  assumes "reachable e c s" and "n \<in> set (pq_nodes (sv_retry s))"
    and "due = (\<lambda>n. i64 (- env_clock (sv_env s) (sv_reads s)) \<le> snd n)" and "s' = AttemptJobRetries s"
  shows "touches (fst ` {n \<in> set (pq_nodes (sv_retry s)). due n}) s s'
    \<and> (if due n
       then (\<exists>t. job_at s' (fst n) = AddHistoryEvent JobEventEnqueue t (job_at s (fst n)))
         \<or> n \<in> set (pq_nodes (sv_retry s')) \<and> job_at s' (fst n) = job_at s (fst n)
           \<and> requiresLockedResources (sv_locked s') (job_at s (fst n))
       else n \<in> set (pq_nodes (sv_retry s')))"
  using AttemptJobRetries_outcome[OF reachable_inv[OF assms(1)] assms(2)] assms(3,4) by auto

theorem retries_happen_on_time_witness:
  "state (job_at (AttemptJobRetries sample_state) 6) \<in> {JobQueued, JobHidden}"
proof -
  have n: "(6, - 2000) \<in> set (pq_nodes (sv_retry sample_state))" by (simp add: sample_fields)
  show ?thesis using retries_happen_on_time[OF sample_reachable n refl refl]
    by (auto simp: sample_fields sample_env_eq sample_env_def i64_def)
qed






section \<open>Creating and deleting\<close>

text \<open>
  C15: a job that is created gets an id no job has, is the only one added, under the limit
  of the backend, and is answered as delayed exactly when its start time is in the future,
  as pending otherwise (it may already be queued when the lock is released). The
  other jobs stay as they are, but for pending ones.
\<close>

theorem creation_adds_one_fresh_job:
  assumes "reachable e c s" and "finalizeJobCreationLocked j s = Some (Inr created, s')"
  shows "lookup_job (JobUUID created) s = None
    \<and> (\<forall>v. v \<noteq> JobUUID created \<longrightarrow> lookup_job v s' = lookup_job v s)
    \<and> length (sv_jobs s') = Suc (length (sv_jobs s))
    \<and> (BackendMaxJobs (sv_conf s) = 0 \<or> length (sv_jobs s) < BackendMaxJobs (sv_conf s))
    \<and> state created = (if StartAfter j \<noteq> 0 \<and> StartAfter j > env_clock (sv_env s) (Suc (sv_reads s))
       then JobDelayed else JobPending)
    \<and> (\<exists>p. lookup_job (JobUUID created) s' = Some p \<and> p \<notin> live s
        \<and> (job_at s' p = created \<or> state created = JobPending \<and> state (job_at s' p) = JobQueued))
    \<and> (\<forall>q \<in> live s. state (job_at s q) \<noteq> JobPending \<longrightarrow> job_at s' q = job_at s q)"
  by (rule finalizeJobCreation_outcome[OF reachable_inv[OF assms(1)] assms(2)]) auto

lemma sample_creation: "\<exists>created s'. finalizeJobCreationLocked j sample_state = Some (Inr created, s')"
proof -
  have "newJobUuid_loop (env_uuid sample_env) (sv_jobs sample_state) 0 = Some (Inr 100, 1)"
    by (subst newJobUuid_loop_unfold) (simp add: uuid_usable_def sample_env_def sample_fields)
  then have g: "generateNewJobUuidLocked (sample_state\<lparr>sv_reads := n\<rparr>) =
      Some (Inr 100, sample_state\<lparr>sv_reads := n, sv_uuids := 1\<rparr>)" for n
    by (simp add: generateNewJobUuidLocked_def sample_env_eq sample_fields)
  show ?thesis unfolding finalizeJobCreationLocked_def
    using g by (simp add: sample_conf_eq sample_conf_def sample_fields time_now_def store_new_job_def Let_def)
qed

theorem creation_adds_one_fresh_job_witness:
  "\<exists>created s'. finalizeJobCreationLocked (sample_job 0 ''mail'' 9000 [] [JobEventCreate]) sample_state
      = Some (Inr created, s') \<and> state created = JobDelayed \<and> length (sv_jobs s') = 8"
proof -
  obtain created s' where r: "finalizeJobCreationLocked (sample_job 0 ''mail'' 9000 [] [JobEventCreate])
      sample_state = Some (Inr created, s')" using sample_creation by blast
  from creation_adds_one_fresh_job[OF sample_reachable r] show ?thesis
    using r by (auto simp: sample_fields sample_env_eq sample_env_def)
qed

text \<open>
  C16: a creation ends exactly when the backend is full or the generator of ids sooner or
  later fails or gives an id no job has: the loop that draws ids has no other way out.
\<close>

theorem creation_ends_exactly_when_an_id_is_found:
  "(\<exists>r. finalizeJobCreationLocked j s = Some r) \<longleftrightarrow>
    BackendMaxJobs (sv_conf s) > 0 \<and> length (sv_jobs s) \<ge> BackendMaxJobs (sv_conf s)
    \<or> (\<exists>k \<ge> sv_uuids s. uuid_usable (env_uuid (sv_env s)) (sv_jobs s) k)"
  by (rule finalizeJobCreation_ends_iff)

text \<open>
  C17: deleting a job removes it and nothing else, whatever its state: it leaves the queue,
  the pending jobs and the retry and delayed queues (C1 holds afterwards), its locks are
  released, and only pending jobs may change.
\<close>

theorem deletion_removes_one_job:
  assumes "reachable e c s" and "deleteJobLocked u s = (err, s')" and "lookup_job u s = Some p"
  shows "err = None \<and> live s' = live s - {p}
    \<and> (\<forall>v. lookup_job v s' = (if v = u then None else lookup_job v s))
    \<and> (\<forall>q \<in> live s. q \<noteq> p \<and> state (job_at s q) \<noteq> JobPending \<longrightarrow> job_at s' q = job_at s q)
    \<and> (\<forall>r. map_of (sv_locked s') r \<noteq> Some u)"
proof -
  have i: "inv_except {} s" using reachable_inv[OF assms(1)] by (simp add: svc_inv_def)
  note o = deleteJobLocked_outcome[OF i assms(2,3)]
  have "svc_inv s'" using o(2) by (simp add: svc_inv_def)
  then have "map_of (sv_locked s') r \<noteq> Some u" for r
    using locks_of_active_jobs[of s' r u] o(3)[of u] by (auto simp: lookup_job_def)
  then show ?thesis using o by blast
qed

theorem deletion_removes_one_job_witness:
  "lookup_job 1 (snd (deleteJobLocked 1 sample_state)) = None
    \<and> lookup_job 5 (snd (deleteJobLocked 1 sample_state)) = Some 4"
proof -
  have "deleteJobLocked 1 sample_state = (fst (deleteJobLocked 1 sample_state), snd (deleteJobLocked 1 sample_state))"
    by simp
  from deletion_removes_one_job[OF sample_reachable this sample_lookup(1)] show ?thesis
    by (simp add: sample_lookup)
qed

section \<open>The structures of the scheduler\<close>

text \<open>
  C18: locking the resources of a job is all or nothing. It succeeds exactly when no
  resource is held by another job; then the job holds all of them, and the other locks
  are as before; otherwise the map is unchanged.
\<close>

theorem locking_is_all_or_nothing:
  "case lockResources j m of
    (Inl err, m') \<Rightarrow> m' = m \<and> (\<exists>r \<in> set (LockResources j). map_of m r \<notin> {None, Some (JobUUID j)})
  | (Inr n, m') \<Rightarrow> map_of m' = (\<lambda>r. if r \<in> set (LockResources j) then Some (JobUUID j) else map_of m r)
      \<and> (\<forall>r \<in> set (LockResources j). map_of m r \<in> {None, Some (JobUUID j)})"
proof (cases "lock_of (JobUUID j) (LockResources j) m")
  case None
  then show ?thesis using locks.lock_iff[of "JobUUID j" "LockResources j" m] by (simp add: lockResources_lock_of)
next
  case (Some m')
  then have "map_of m' = (\<lambda>r. if r \<in> set (LockResources j) then Some (JobUUID j) else map_of m r)"
    using locks.lock_owner by (auto simp: fun_eq_iff)
  moreover have "\<forall>r \<in> set (LockResources j). map_of m r \<in> {None, Some (JobUUID j)}"
    using locks.lock_iff[of "JobUUID j" "LockResources j" m] Some by auto
  ultimately show ?thesis using Some by (simp add: lockResources_lock_of)
qed

theorem locking_is_all_or_nothing_witness:
  "fst (lockResources (sample_job 3 ''disk'' 0 [''db''] []) [(''db'', 3)]) \<noteq> Inl ''resource not available: db''"
  using locking_is_all_or_nothing[of "[(''db'', 3)]" "sample_job 3 ''disk'' 0 [''db''] []"]
  by (auto split: prod.splits sum.splits)

text \<open>
  C19: the index of queued jobs answers a pull with the first entries of the topic in the
  pull order, for every topic and any number, and puts them back: the heaps and recorded
  positions stay right and the entries are the same.
\<close>

theorem queue_gives_the_first_in_pull_order:
  assumes "queue_wf st q" and "first st topic n q = (es, q')"
  shows "queue_wf st q' \<and> q_entries q' = q_entries q \<and> es = take n (pull_order st topic q)"
  using first_spec[OF assms] by blast

theorem queue_gives_the_first_in_pull_order_witness:
  "set (fst (first (sv_store sample_state) ''*'' 2 (sv_queue sample_state))) = {0, 1}"
proof -
  have w: "queue_wf (sv_store sample_state) (sv_queue sample_state)"
    using sample_inv by (simp add: svc_inv_def inv_except_def base_inv_def)
  show ?thesis using queue_gives_the_first_in_pull_order[OF w prod.collapse[symmetric], of "''*''" 2] sample_pull_order
    by (metis prod.collapse)
qed

text \<open>
  \<open>compareQueueOrder\<close> is a strict total order on jobs that have a creation timestamp, up to the
  id: the order of the key (descending priority, ascending creation time, id). It never
  panics on them.
\<close>

theorem queue_order_is_total:
  assumes "GetCreationTimestamp a \<noteq> None" and "GetCreationTimestamp b \<noteq> None"
  shows "\<exists>x y. compareQueueOrder a b = Some x \<and> compareQueueOrder b a = Some y
    \<and> (x < 0 \<longleftrightarrow> 0 < y) \<and> (x = 0 \<longleftrightarrow> pull_key a = pull_key b) \<and> (x < 0 \<longleftrightarrow> pull_key a < pull_key b)"
proof -
  obtain x y where "compareQueueOrder a b = Some x" "compareQueueOrder b a = Some y"
    "x < 0 \<longleftrightarrow> pull_key a < pull_key b" "x \<le> 0 \<longleftrightarrow> pull_key a \<le> pull_key b"
    "y < 0 \<longleftrightarrow> pull_key b < pull_key a" "y \<le> 0 \<longleftrightarrow> pull_key b \<le> pull_key a"
    using compareQueueOrder_key[OF assms] compareQueueOrder_key[OF assms(2,1)] by blast
  then show ?thesis by (intro exI[of _ x] exI[of _ y]) (auto simp: not_le not_less)
qed

theorem queue_order_is_total_witness:
  "\<exists>x. compareQueueOrder (sample_job 2 ''a'' 0 [] [JobEventCreate]) (sample_job 1 ''a'' 0 [] [JobEventCreate]) = Some x \<and> x < 0"
  using queue_order_is_total[of "sample_job 2 ''a'' 0 [] [JobEventCreate]" "sample_job 1 ''a'' 0 [] [JobEventCreate]"]
  by (auto simp: GetCreationTimestamp_def pull_key_def sample_job_def SetStateFromHistory_def Let_def)

text \<open>
  C21: draining a priority queue down to a priority takes exactly the values at or above it,
  in the order of the list, and leaves the others: the retry and delayed queues give out
  what is due and nothing else.
\<close>

theorem draining_takes_what_is_due:
  assumes "pq_wf q" and "length (pq_nodes q) < fuel" and "drain (DequeueWithPriority m) fuel q = (ns, q')"
  shows "ns = filter (\<lambda>n. m \<le> snd n) (pq_nodes q) \<and> pq_nodes q' = filter (\<lambda>n. snd n < m) (pq_nodes q)"
  by (rule pq.drain_due[OF assms])

theorem draining_takes_what_is_due_witness:
  "fst (drain (DequeueWithPriority (-3)) 5 (Enqueue ''b'' (-7) (Enqueue ''a'' (-2) NewPriorityQueue))) = [(''a'', -2)]"
proof -
  let ?q = "Enqueue ''b'' (-7) (Enqueue ''a'' (-2) NewPriorityQueue)"
  have w: "pq_wf ?q" by (simp add: pq_wf_Enqueue)
  have n: "pq_nodes ?q = [(''a'', -2), (''b'', -7)]"
    by code_simp
  show ?thesis using draining_takes_what_is_due[OF w _ prod.collapse[symmetric], of 5 "-3"] n by simp
qed

section \<open>Storing the jobs\<close>


definition sample_op :: writeOp where
  "sample_op = \<lparr>wo_key = ''job:1'', wo_value = ''v'', wo_ttl = 0, wo_del = False, wo_delAll = False\<rparr>"





text \<open>
  C24: the operations kept for a retry have the effect of the ones they replace, on every
  state of the server, and at most one of them concerns each key.
\<close>

theorem coalesced_writes_have_the_same_effect:
  assumes "\<forall>op \<in> set ops. job_op op"
  shows "apply_ops (coalesce ops) d = apply_ops ops d
    \<and> distinct (map wo_key (filter (\<lambda>op. \<not> wo_delAll op) (coalesce ops)))"
  using coalesce_effect[OF assms] coalesce_distinct by blast

theorem coalesced_writes_have_the_same_effect_witness:
  "apply_ops (coalesce [sample_op, sample_op\<lparr>wo_del := True\<rparr>]) Map.empty = Map.empty"
  using coalesced_writes_have_the_same_effect[of "[sample_op, sample_op\<lparr>wo_del := True\<rparr>]" Map.empty]
  by (simp add: job_op_def is_job_key_def sample_op_def op_effect_def)

text \<open>
  C25: what was written is what is loaded. When the job keys of the server are those of the
  jobs \<open>J\<close>, each with a value that decodes to its job, loading (the sorted scan, then reads
  in chunks of 500) returns exactly \<open>J\<close> and starts the writer.
\<close>

theorem redis_load_restores_the_jobs:
  assumes "read_laws c content" and "\<forall>ks. \<exists>vs. rc_mget c ks r = Inr vs" and "rc_keys c r = Inr keys"
    and "env_ok e"
    and "\<forall>u j. J u = Some j \<longrightarrow> JobUUID j = u
      \<and> (\<exists>v ttl. content r (JobUUID2RedisKey e u) = Some (v, ttl) \<and> NewJob (re_unjson e v) = Inr j)"
    and "\<forall>k. is_job_key k \<and> content r k \<noteq> None \<longrightarrow> (\<exists>u \<in> dom J. k = JobUUID2RedisKey e u)"
  shows "\<exists>m. rd_LoadJobs c e r p = (Inr m, p\<lparr>rd_writer := snd (writer_start (rd_writer p))\<rparr>) \<and> map_of m = J"
  by (rule LoadJobs_restores[OF assms(1) _ assms(3,4)]) (use assms(2,5,6) in auto)

theorem redis_load_restores_the_jobs_witness:
  "\<exists>m. fst (rd_LoadJobs sample_client (sample_redis_env\<lparr>re_unjson := \<lambda>v. Inr (sample_job 1 v 0 [] [JobEventCreate])\<rparr>)
      [(''job:x'', (''mail'', 0)), (''other'', (''kept'', 0))] sample_redis) = Inr m
    \<and> map_of m = [1 \<mapsto> sample_job 1 ''mail'' 0 [] [JobEventCreate]]"
proof -
  let ?e = "sample_redis_env\<lparr>re_unjson := \<lambda>v. Inr (sample_job 1 v 0 [] [JobEventCreate])\<rparr>"
  let ?r = "[(''job:x'', (''mail'', 0)), (''other'', (''kept'', 0))] :: (rkey, entry) gomap"
  have e: "env_ok ?e" using sample_redis_env_ok by (simp add: env_ok_def)
  have m: "\<forall>ks. \<exists>vs. rc_mget sample_client ks ?r = Inr vs" by (simp add: sample_client_def)
  have k: "rc_keys sample_client ?r = Inr (filter is_job_key (map fst ?r))" by (simp add: sample_client_def)
  have u: "JobUUID2RedisKey ?e 1 = ''job:x''" by (simp add: JobUUID2RedisKey_def sample_redis_env_def)
  have n: "NewJob (re_unjson ?e ''mail'') = Inr (sample_job 1 ''mail'' 0 [] [JobEventCreate])"
    using sample_job_sel(2)[of 1 "''mail''" 0 "[]" "[JobEventCreate]"] by (simp add: NewJob_def synced_def)
  have j: "\<forall>v j. [1 \<mapsto> sample_job 1 ''mail'' 0 [] [JobEventCreate]] v = Some j \<longrightarrow> JobUUID j = v
      \<and> (\<exists>t ttl. map_of ?r (JobUUID2RedisKey ?e v) = Some (t, ttl) \<and> NewJob (re_unjson ?e t) = Inr j)"
  proof (intro allI impI)
    fix v :: JobUUID and j assume "[1 \<mapsto> sample_job 1 ''mail'' 0 [] [JobEventCreate]] v = Some j"
    then have v: "v = 1" "j = sample_job 1 ''mail'' 0 [] [JobEventCreate]" by (simp_all split: if_splits)
    show "JobUUID j = v \<and> (\<exists>t ttl. map_of ?r (JobUUID2RedisKey ?e v) = Some (t, ttl) \<and> NewJob (re_unjson ?e t) = Inr j)"
      unfolding v u by (intro conjI exI[of _ "''mail''"] exI[of _ 0] n) simp_all
  qed
  have k': "\<forall>k. is_job_key k \<and> map_of ?r k \<noteq> None \<longrightarrow>
      (\<exists>v \<in> dom [1 \<mapsto> sample_job 1 ''mail'' 0 [] [JobEventCreate]]. k = JobUUID2RedisKey ?e v)"
    using u by (simp add: is_job_key_def)
  show ?thesis using redis_load_restores_the_jobs[where J = "[1 \<mapsto> sample_job 1 ''mail'' 0 [] [JobEventCreate]]"
        and p = sample_redis and c = sample_client and content = map_of and r = ?r and e = ?e, OF sample_read_laws m k e j k'] by (elim exE conjE) (intro exI conjI, simp_all)
qed

text \<open>
  C26: starting and stopping a background loop. In every interleaving of starters and of
  stoppers, at most one loop ever runs, ending it never closes a closed channel, and once
  any caller of \<^verbatim>\<open>Stop\<close> has returned, no loop runs; a call that returned \<^verbatim>\<open>true\<close> saw the loop
  end.
\<close>

theorem stop_waits_for_the_only_loop:
  assumes "lc_reachable w"
  shows "\<not> w_panic w \<and> (\<forall>i j. began (w_starter w i) \<and> began (w_starter w j) \<longrightarrow> i = j)
    \<and> (\<forall>k b i. w_stopper w k = Returned b \<longrightarrow> w_starter w i \<noteq> Looping)
    \<and> (\<forall>k. w_stopper w k = Returned True \<longrightarrow> (\<exists>i. w_starter w i = Ended))"
  using lc_returned[OF lc_reachable_inv[OF assms]] by blast

theorem stop_waits_for_the_only_loop_witness:
  "\<not> w_panic (init_world\<lparr>w_lc := snd (Begin New), w_starter := (\<lambda>_. Idle)(0 := Looping)\<rparr>)"
proof -
  have "lc_step init_world (init_world\<lparr>w_lc := snd (Begin New), w_starter := (w_starter init_world)(0 := Looping)\<rparr>)"
    by (rule lc_step.begin_ok) (simp_all add: init_world_def Begin_def New_def)
  then have "lc_reachable (init_world\<lparr>w_lc := snd (Begin New), w_starter := (\<lambda>_. Idle)(0 := Looping)\<rparr>)"
    using lc_next[OF lc_init] by (simp add: init_world_def)
  from stop_waits_for_the_only_loop[OF this] show ?thesis by blast
qed


text \<open>
  Whatever changes the service notified and whenever the provider synchronised before, a
  synchronisation that succeeds leaves in the file exactly the jobs the provider has.
\<close>

lemma a_sync_saves_every_change:
  assumes "saved_ok p" and "im_persistent p" and "list_all counted es"
    and "im_generation p + length es < 2 ^ 64" and "p' = fold im_call es p"
  shows "im_file (snd (im_sync True p')) = Some (saved_jobs p') \<and> saved_ok (snd (im_sync b p'))"
  using saved_ok_sync[OF saved_ok_calls[OF assms(1,3,4)]] assms(2,5) by (simp add: persistent_calls)

lemma a_sync_saves_every_change_instance:
  "im_file (snd (im_sync True (im_call (NJob (sample_job 4 ''disk'' 0 [] [JobEventCreate]) ServiceEventJobStarted)
     (sample_provider\<lparr>im_file := Some (saved_jobs sample_provider)\<rparr>)))) \<noteq> None"
proof -
  let ?p = "sample_provider\<lparr>im_file := Some (saved_jobs sample_provider)\<rparr>"
  let ?es = "[NJob (sample_job 4 ''disk'' 0 [] [JobEventCreate]) ServiceEventJobStarted]"
  have "saved_ok ?p" by (simp add: saved_ok_def saved_jobs_def sample_provider_def)
  moreover have "im_persistent ?p" "list_all counted ?es" "im_generation ?p + length ?es < 2 ^ 64"
    by (simp_all add: sample_provider_def counted_def)
  ultimately show ?thesis using a_sync_saves_every_change[of ?p ?es _ True] by simp
qed

text \<open>
  C28: no change is left unsaved, in any interleaving of the notifications of the service, the save loop and the
  callers of \<^verbatim>\<open>Stop\<close>, each cut into its atomic steps. Whenever the generation counters agree, so that the loop would
  skip a save, and no notification is under way, the file has the current jobs. And when, after the last
  notification, a call of \<^verbatim>\<open>Stop\<close> has returned without error and the loop reported none, the file has the jobs
  as that notification left them.
\<close>

theorem no_interleaving_loses_a_change:
  assumes "saver_step\<^sup>*\<^sup>* (saver_init p) s" and "saved_ok p" and "im_persistent p"
  shows "(sl_pending s = None \<and> im_generation (sl_p s) = im_savedGeneration (sl_p s) \<longrightarrow>
      im_file (sl_p s) = Some (saved_jobs (sl_p s)))
    \<and> (\<not> lc_stopped (sl_lc s) \<and> save_step\<^sup>*\<^sup>* s t \<and> sl_stop t k = StopReturned False \<and> sl_loop t \<noteq> LoopReturned True \<longrightarrow>
      im_file (sl_p t) = Some (saved_jobs (sl_p s)) \<and> saved_jobs (sl_p t) = saved_jobs (sl_p s))"
proof -
  have "im_persistent (sl_p s)" using persistent_reachable[OF assms(1)] assms(3) by simp
  then show ?thesis
    using skipped_save_loses_nothing[OF assms(1,2)] stop_saves_the_jobs[OF assms(1)] save_steps_jobs[of s t] by blast
qed

theorem no_interleaving_loses_a_change_witness:
  "\<exists>(s :: saver) (t :: saver). sl_stop t 0 = StopReturned False \<and> sl_p s \<noteq> sl_p t \<and> im_file (sl_p t) = Some (saved_jobs (sl_p s))"
proof -
  let ?p = "sample_provider\<lparr>im_file := Some (saved_jobs sample_provider)\<rparr>"
  let ?e = "NJob (sample_job 4 ''disk'' 0 [] [JobEventCreate]) ServiceEventJobStarted"
  let ?s = "before_stop ?p ?e (job_event EventJobStarted 4)"
  have p: "saved_ok ?p" "im_persistent ?p" "im_generation ?p + 1 < 2 ^ 64"
    by (simp_all add: saved_ok_def saved_jobs_def sample_provider_def)
  have t: "\<not> lc_stopped (sl_lc ?s)" "sl_stop (after_stop ?s) 0 = StopReturned False" "sl_loop (after_stop ?s) \<noteq> LoopReturned True"
    by (simp_all add: before_stop_def after_stop_def saver_init_def New_def)
  have "im_savedGeneration (sl_p ?s) \<noteq> im_savedGeneration (sl_p (after_stop ?s))"
    by (simp add: before_stop_def after_stop_def store_jobs_def NotifyChange_def sample_provider_def)
  then have "sl_p ?s \<noteq> sl_p (after_stop ?s)" by metis
  moreover have "im_file (sl_p (after_stop ?s)) = Some (saved_jobs (sl_p ?s))"
    using no_interleaving_loses_a_change[OF before_stop_reachable[OF p(3)] p(1,2), of ?e _ "after_stop ?s" 0]
      after_stop_reachable[OF p(2)] t by blast
  ultimately show ?thesis using t(2) by blast
qed



section \<open>Jobs and requests\<close>

text \<open>
  C30: in every reachable state a job has a history, and the two states it caches are those
  of its last two events: the state machine of a job is a function of its log.
\<close>

theorem state_follows_history:
  assumes "reachable e c s" and "lookup_job u s = Some p"
  shows "History (job_at s p) \<noteq> []
    \<and> state (job_at s p) = GetStateFromEvent (EventType (last (History (job_at s p))))
    \<and> previousState (job_at s p) = (if length (History (job_at s p)) < 2 then JobNoState
        else GetStateFromEvent (EventType (last (butlast (History (job_at s p))))))"
proof -
  have b: "base_inv s" using reachable_inv[OF assms(1)] by (simp add: svc_inv_def inv_except_def)
  then have "p \<in> live s" using assms(2) lookup_live by blast
  then have "History (job_at s p) \<noteq> []" "synced (job_at s p)" using b by (simp_all add: base_inv_def)
  then show ?thesis by (simp add: synced_iff)
qed

theorem state_follows_history_witness:
  "GetStateFromEvent (EventType (last (History (job_at sample_state 3)))) = JobRunning"
  using state_follows_history[OF sample_reachable sample_lookup(3)] by (simp add: sample_fields)

text \<open>
  C31: a pull request that is accepted asks for 1 to 100 jobs (one when it names a job),
  waits at most 60 seconds, has a visibility timeout between 1 and the configured maximum and a
  topic that is valid UTF-8.
\<close>

theorem pull_request_is_bounded:
  assumes "1 \<le> DefaultVisibilityTimeout w" and "DefaultVisibilityTimeout w \<le> MaxVisibilityTimeout w"
    and "GetPullJobRequest w c = Inr req"
  shows "1 \<le> NumJobs req \<and> NumJobs req \<le> 100 \<and> WaitTimeSeconds req \<le> 60
    \<and> 1 \<le> pullVisibilityTimeout req \<and> pullVisibilityTimeout req \<le> MaxVisibilityTimeout w
    \<and> valid_utf8 (pullTopic req) \<and> (pullJobUUID req \<noteq> None \<longrightarrow> NumJobs req = 1)"
  by (rule GetPullJobRequest_bounds[OF assms])

definition sample_web :: web where
  "sample_web = \<lparr>DefaultVisibilityTimeout = 30, MaxVisibilityTimeout = 3600, JsonSchemaEnable = False,
    BodyLimit = 1000, uuid_Parse = (\<lambda>s. if s = ''4'' then Inr 4 else Inl ''invalid''),
    decode_request = (\<lambda>b. Inl ''no''), ValidateBytes = (\<lambda>b. Inr []),
    Gunzip = (\<lambda>n b. Decoded (take n b)), Unbrotli = (\<lambda>n b. DecodeTooLarge b), Inflate = (\<lambda>n b. DecodeFailed [])\<rparr>"

definition sample_request :: request where
  "sample_request = \<lparr>hr_params = (\<lambda>_. ''4''), hr_query = (\<lambda>_. []), hr_ContentType = [],
    hr_ContentEncoding = ''gzip'', hr_Body = ''body'', hr_now = 2000\<rparr>"

theorem pull_request_is_bounded_witness:
  "\<exists>req. GetPullJobRequest sample_web sample_request = Inr req \<and> pullVisibilityTimeout req \<le> 3600"
proof -
  obtain req where r: "GetPullJobRequest sample_web sample_request = Inr req"
    by (simp add: GetPullJobRequest_def GetJobUUIDFromQuery_def GetUintParameterFromQuery_def
        sample_request_def sample_web_def Let_def)
  then show ?thesis using pull_request_is_bounded[OF _ _ r] by (simp add: sample_web_def)
qed

text \<open>
  C32: a page of the listing of jobs. Within the bounds the web layer puts on page and
  limit, the answer has the number of jobs that match, the number of pages, and exactly the
  slice of the sorted matches the page stands for (none beyond the last page).
\<close>

theorem listing_returns_the_page:
  assumes "reachable e c s" and "1 \<le> gj_Page req" and "gj_Page req \<le> 10000"
    and "1 \<le> gj_Limit req" and "gj_Limit req \<le> 1000" and "length (sv_jobs s) < 2 ^ 62"
    and "matches = sortJobs (filterJobs (env_uuid_string (sv_env s)) (map (\<lambda>(u, p). job_at s p) (sv_jobs s)) req)
      (gj_Sort req)"
  shows "GetJobs req s = Some \<lparr>
      gr_Jobs = take (nat (gj_Limit req)) (drop (nat ((gj_Page req - 1) * gj_Limit req)) matches),
      gr_Total = int (length matches), gr_Page = gj_Page req, gr_Limit = gj_Limit req,
      gr_TotalPages = (int (length matches) + gj_Limit req - 1) div gj_Limit req\<rparr>"
  using GetJobs_page[OF reachable_inv[OF assms(1)] assms(2-6)] assms(7) by simp

definition sample_listing :: GetJobsRequest where
  "sample_listing = \<lparr>gj_Page = 2, gj_Limit = 3, gj_Status = [], gj_Topic = [], gj_Sort = [], gj_Search = []\<rparr>"

theorem listing_returns_the_page_witness:
  "map_option gr_Total (GetJobs sample_listing sample_state) = Some 7
    \<and> map_option gr_TotalPages (GetJobs sample_listing sample_state) = Some 3
    \<and> map_option (length \<circ> gr_Jobs) (GetJobs sample_listing sample_state) = Some 3"
proof -
  have "length (sortJobs (filterJobs (env_uuid_string (sv_env sample_state))
      (map (\<lambda>(u, p). job_at sample_state p) (sv_jobs sample_state)) sample_listing) (gj_Sort sample_listing)) = 7"
    by (simp add: sortJobs_def filterJobs_def keep_job_def sample_listing_def sample_fields)
  then show ?thesis using listing_returns_the_page[OF sample_reachable, of sample_listing]
    by (simp add: sample_listing_def sample_fields)
qed

text \<open>Decoding the percent encoding of a resource name that is valid UTF-8 gives the name back.\<close>

theorem path_segments_round_trip:
  assumes "valid_utf8 name"
  shows "decodePathSegment (percent_encode name) = name"
  by (rule decodePathSegment_encode[OF assms])

theorem path_segments_round_trip_witness:
  "decodePathSegment (percent_encode ''a/b %'') = ''a/b %''"
proof -
  have "valid_utf8 ''a/b %''" by code_simp
  then show ?thesis by (rule path_segments_round_trip)
qed

text \<open>
  A compressed body is never read beyond the limit: what is decoded has at most the
  size of the limit, or is the body as it was sent, or the partial output of a decoder that
  failed.
\<close>

theorem decoded_body_is_bounded:
  assumes "respects_limit (Gunzip w)" and "respects_limit (Unbrotli w)" and "respects_limit (Inflate w)"
    and "DecodedBody w c n = Inr out"
  shows "out = hr_Body c \<or> length out \<le> n \<or>
    (\<exists>f raw. f \<in> {Gunzip w, Unbrotli w, Inflate w} \<and> f n raw = DecodeFailed out)"
  using decode_loop_bounded[OF assms(1-3), of n] assms(4) by (auto simp: DecodedBody_def Let_def split: if_splits)

theorem decoded_body_is_bounded_witness:
  "\<exists>out. DecodedBody sample_web sample_request 2 = Inr out \<and> length out \<le> 4"
proof -
  have "respects_limit (Gunzip sample_web)" "respects_limit (Unbrotli sample_web)" "respects_limit (Inflate sample_web)"
    by (simp_all add: respects_limit_def sample_web_def)
  moreover have "DecodedBody sample_web sample_request 2 = Inr ''bo''" by code_simp
  ultimately show ?thesis using decoded_body_is_bounded[of sample_web sample_request 2 "''bo''"] by simp
qed



text \<open>
  The start time of a request with a delay. It is the time of the request (or its start
  time) plus the delay when that fits 64 bits; a delay whose end does not fit wraps to a time
  in the past, so that the job is not delayed at all.
\<close>

theorem delay_is_added_or_wraps:
  assumes "reqDelay req > 0" and "base = (if reqStartAfter req = 0 then now else reqStartAfter req)"
    and "0 \<le> base" and "base < 2 ^ 63" and "finish = base + reqDelay req * 1000"
  shows "(finish < 2 ^ 63 \<longrightarrow> requestStartAfter now req = finish)
    \<and> (2 ^ 63 \<le> finish \<and> finish < 2 ^ 64 \<longrightarrow> requestStartAfter now req < 0)"
proof -
  have "requestStartAfter now req = i64 finish"
    using assms(1,2,5) by (simp add: requestStartAfter_def Let_def i64_add_right)
  moreover have "i64 finish = finish" if "finish < 2 ^ 63" using that assms(1,3,5) by (simp add: in_i64_def)
  moreover have "i64 finish = finish - 2 ^ 64" if "2 ^ 63 \<le> finish" "finish < 2 ^ 64"
    using minus_mod_self2[of "finish + 2 ^ 63" "2 ^ 64"] that by (simp add: i64_def)
  ultimately show ?thesis by auto
qed

definition sample_delayed_request :: "int64 \<Rightarrow> JobRequest" where
  "sample_delayed_request delay = \<lparr>reqTopic = ''mail'', reqPriority = 0, reqJobProperties = None,
    reqLockResources = [], reqUserAgent = [], reqRequester = [], reqName = [], reqSessionId = [],
    reqTraceId = [], reqStartAfter = 0, reqDelay = delay, reqCallbackURL = []\<rparr>"

theorem delay_is_added_or_wraps_witness:
  "requestStartAfter 2000 (sample_delayed_request 60) = 62000
    \<and> requestStartAfter 2000 (sample_delayed_request (10 ^ 16)) < 0"
  using delay_is_added_or_wraps[of "sample_delayed_request 60" 2000 2000 62000]
    delay_is_added_or_wraps[of "sample_delayed_request (10 ^ 16)" 2000 2000 "2000 + 10 ^ 19"]
  by (simp add: sample_delayed_request_def)

section \<open>Metrics\<close>

text \<open>
  C37: the service metrics count the jobs exactly, although they only see notifications and
  keep no job. From new metrics, given every call of a service started on jobs created
  once, and after any sequence of requests and tasks: for each topic, the counter of each
  state is the number of the topic's jobs in that state, and the statistics of the topic have
  its number of jobs and of active jobs; the totals over the topics are those of all the
  jobs; existing and deleted jobs together are all the jobs ever created or loaded; the topic of every
  job is listed, no topic twice; and a success rate is between 0 and 1, also after rounding.
\<close>

theorem metrics_count_the_jobs:
  assumes "loaded_ok ujs" and "\<forall>(u, j) \<in> set ujs. created_once j" and "svc_step\<^sup>*\<^sup>* (started e c ujs) s"
  shows "(\<forall>t st. counted_state st \<longrightarrow> status_count st (metric_of t (metrics_of me s))
        = card {p \<in> live s. Topic (job_at s p) = t \<and> state (job_at s p) = st})
    \<and> (\<forall>t. JobsExisting (metric_of t (metrics_of me s)) = card {p \<in> live s. Topic (job_at s p) = t}
        \<and> total_of t (metrics_of me s) = card {p \<in> live s. Topic (job_at s p) = t}
        \<and> active_of t (metrics_of me s) = card {p \<in> live s. Topic (job_at s p) = t \<and> active_state (state (job_at s p))}
        \<and> JobsExisting (metric_of t (metrics_of me s)) + JobsCounterDeleted (metric_of t (metrics_of me s))
          = births t (sv_out s))
    \<and> (\<forall>st. counted_state st \<longrightarrow> stat_count st (GetJobMetricsByStatus (metrics_of me s))
        = card {p \<in> live s. state (job_at s p) = st})
    \<and> ExistingJobs (GetJobMetricsByStatus (metrics_of me s)) = card (live s)
    \<and> distinct (GetTopics (metrics_of me s)) \<and> (\<lambda>p. Topic (job_at s p)) ` live s \<subseteq> set (GetTopics (metrics_of me s))
    \<and> (\<forall>t tm. map_of (TopicMetricsByTopicMap (metrics_of me s)) t = Some tm \<longrightarrow> 0 \<le> SuccessRate tm \<and> SuccessRate tm \<le> 1)"
proof -
  note m = metrics_counts[OF assms, where me = me]
  have "distinct (GetTopics (metrics_of me s))" "rates_ok (metrics_of me s)"
    using m(1) by (simp_all add: sm_wf_def GetTopics_def)
  moreover have "(\<lambda>p. Topic (job_at s p)) ` live s \<subseteq> set (GetTopics (metrics_of me s))"
    using m(9) by (auto simp: GetTopics_def)
  ultimately show ?thesis using m(2-8) by (simp add: rates_ok_def)
qed

definition sample_metrics_env :: metrics_env where
  "sample_metrics_env = \<lparr>me_lib = \<lparr>lib_status_labels = (\<lambda>_. []), lib_event_counters = (\<lambda>_. [])\<rparr>,
    me_now_ms = (\<lambda>_. 2000)\<rparr>"

lemma sample_created_once: "\<forall>(u, j) \<in> set sample_jobs. created_once j"
  by (simp add: sample_jobs_def sample_job_def created_once_def GetHistoryStates_def SetStateFromHistory_def Let_def)

lemma sample_live: "card (live sample_state) = 7"
  by (simp add: live_def sample_fields)

theorem metrics_count_the_jobs_witness:
  "ExistingJobs (GetJobMetricsByStatus (metrics_of sample_metrics_env sample_state)) = 7
    \<and> RunningJobs (GetJobMetricsByStatus (metrics_of sample_metrics_env sample_state))
      = card {p \<in> live sample_state. state (job_at sample_state p) = JobRunning}"
  using metrics_count_the_jobs[OF sample_loaded sample_created_once sample_steps, of sample_metrics_env] sample_live
  by (metis counted_state_def JobState.distinct stat_count.simps(5))

text \<open>
  C38: a percentile never indexes out of the slice, although its rank is a rounded product of
  floats, and it is the nearest-rank percentile: for a sorted slice of up to \<open>2^53\<close> durations
  and percentiles in the unit interval, each result is the duration at its rank, at least as many
  durations as the rank are not above it, a higher percentile is not smaller, and the
  percentile 1 is the largest duration.
\<close>

theorem percentiles_are_nearest_ranks:
  assumes "xs \<noteq> []" and "sorted xs" and "length xs \<le> 2 ^ 53"
    and "\<forall>p \<in> set ps. 0 \<le> p \<and> p \<le> 1" and "length out = length ps"
  shows "\<exists>out'. Percentiles xs ps out = Some out' \<and> length out' = length ps
    \<and> (\<forall>i < length ps. out' ! i = xs ! nat (rank (length xs) (ps ! i) - 1)
        \<and> 1 \<le> rank (length xs) (ps ! i) \<and> rank (length xs) (ps ! i) \<le> int (length xs)
        \<and> rank (length xs) (ps ! i) \<le> int (length (filter (\<lambda>x. x \<le> out' ! i) xs))
        \<and> (ps ! i = 1 \<longrightarrow> out' ! i = last xs)
        \<and> (\<forall>k < length ps. ps ! i \<le> ps ! k \<longrightarrow> out' ! i \<le> out' ! k))"
proof -
  let ?n = "length xs"
  let ?out = "map (\<lambda>p. xs ! nat (rank ?n p - 1)) ps"
  have b: "1 \<le> rank ?n (ps ! i)" "rank ?n (ps ! i) \<le> int ?n" if "i < length ps" for i
    using rank_bounds[OF _ assms(3)] assms(1,4) that by (simp_all add: Ball_def)
  have c: "rank ?n (ps ! i) \<le> int (length (filter (\<lambda>x. x \<le> ?out ! i) xs))" if i: "i < length ps" for i
    using rank_covers[OF assms(2), of "nat (rank ?n (ps ! i))"] b[OF i] i by (simp add: nat_diff_distrib nat_le_iff)
  have m: "?out ! i \<le> ?out ! k" if i: "i < length ps" "k < length ps" "ps ! i \<le> ps ! k" for i k
  proof -
    have "nat (rank ?n (ps ! i) - 1) \<le> nat (rank ?n (ps ! k) - 1)" using rank_mono[OF i(3), of ?n] by linarith
    moreover have "nat (rank ?n (ps ! k) - 1) < ?n" using b[OF i(2)] by linarith
    ultimately show ?thesis using sorted_nth_mono[OF assms(2)] i by simp
  qed
  have one: "rank ?n 1 = int ?n" using assms(1,3) f64_int[of "int ?n"] f64_int[of "int ?n"]
    by (simp add: rank_def f64_mul_def f64_of_int_def max_def) (cases xs; simp)
  have l: "ps ! i = 1 \<longrightarrow> ?out ! i = last xs" if "i < length ps" for i
  proof -
    have "nat (int ?n - 1) = ?n - 1" by linarith
    then show ?thesis using that assms(1) by (simp add: one last_conv_nth)
  qed
  show ?thesis using Percentiles_some[OF assms(3,4,5)] assms(1) b c m l by (intro exI[of _ ?out]) simp
qed

theorem percentiles_are_nearest_ranks_witness:
  "\<exists>out. Percentiles [10, 20, 30, 40] [1] [0] = Some out \<and> out ! 0 = 40"
proof -
  have "[10, 20, 30, 40 :: int] \<noteq> []" "sorted [10, 20, 30, 40 :: int]" "length [10, 20, 30, 40 :: int] \<le> 2 ^ 53"
    "\<forall>p \<in> set [1 :: rat]. 0 \<le> p \<and> p \<le> 1" "length [0 :: int] = length [1 :: rat]" by simp_all
  from percentiles_are_nearest_ranks[OF this] show ?thesis by (elim exE) auto
qed



section \<open>Callbacks\<close>

text \<open>
  C40: a callback is started for every completion of a job that has a URL, and for nothing else,
  in the order of the service: as many as the trace has notifications of success,
  cancellation or termination of such jobs, each with the job completed. One callback ends
  after at most four attempts: with the first attempt that gets a 2xx answer, or with an error
  when none of the four did.
\<close>

theorem completions_are_called_back:
  assumes "loaded_ok ujs" and "svc_step\<^sup>*\<^sup>* (started e c ujs) s"
  shows "fold (observe callback_observer) (sv_out s) [] = completions (sv_out s)
    \<and> (\<forall>j \<in> set (completions (sv_out s)). CallbackURL j \<noteq> []
        \<and> (\<forall>data. ce_json ce (callback_payload ce j) = Inr data \<longrightarrow>
            (\<exists>b \<le> 3. (\<forall>k < b. attempt_error (ce_http ce (CallbackURL j) data k) \<noteq> None)
              \<and> attempt_error (ce_http ce (CallbackURL j) data b) = None
              \<and> (\<exists>slept. ExecuteCallback NewCallbackService ce j = (None, int b + 1, slept)))
            \<or> (\<forall>k \<le> 3. attempt_error (ce_http ce (CallbackURL j) data k) \<noteq> None)
              \<and> (\<exists>m slept. ExecuteCallback NewCallbackService ce j = (Some m, 4, slept))))"
proof (intro conjI ballI allI impI)
  show "fold (observe callback_observer) (sv_out s) [] = completions (sv_out s)"
    using callbacks_of_trace[OF mirror_jobs(1)[OF assms]] by simp
next
  fix j assume "j \<in> set (completions (sv_out s))"
  then show u: "CallbackURL j \<noteq> []" by (rule completions_have_urls)
  fix data assume d: "ce_json ce (callback_payload ce j) = Inr data"
  then show "(\<exists>b \<le> 3. (\<forall>k < b. attempt_error (ce_http ce (CallbackURL j) data k) \<noteq> None)
        \<and> attempt_error (ce_http ce (CallbackURL j) data b) = None
        \<and> (\<exists>slept. ExecuteCallback NewCallbackService ce j = (None, int b + 1, slept)))
      \<or> (\<forall>k \<le> 3. attempt_error (ce_http ce (CallbackURL j) data k) \<noteq> None)
        \<and> (\<exists>m slept. ExecuteCallback NewCallbackService ce j = (Some m, 4, slept))"
    using ExecuteCallback_attempts[OF u d] by blast
qed

text \<open>A running job with a URL succeeds.\<close>

definition callback_jobs :: "(JobUUID \<times> job) list" where
  "callback_jobs = [(4, (sample_job 4 ''disk'' 0 [] [JobEventCreate, JobEventPending, JobEventEnqueue, JobEventStart])
    \<lparr>CallbackURL := ''http://h''\<rparr>)]"

definition callback_state_after :: svc where
  "callback_state_after = snd (SetJobAsSuccessful 4 (started sample_env sample_conf callback_jobs))"

lemma callback_steps: "svc_step\<^sup>*\<^sup>* (started sample_env sample_conf callback_jobs) callback_state_after"
  unfolding callback_state_after_def by (rule r_into_rtranclp, rule svc_step.success, rule prod.collapse[symmetric])

theorem completions_are_called_back_witness:
  "map JobUUID (fold (observe callback_observer) (sv_out callback_state_after) []) = [4]"
proof -
  have l: "loaded_ok callback_jobs" by (simp add: loaded_ok_def callback_jobs_def synced_def sample_job_def SetStateFromHistory_def Let_def GetHistoryStates_def)
  have "map JobUUID (completions (sv_out callback_state_after)) = [4]" by code_simp
  then show ?thesis using completions_are_called_back[OF l callback_steps] by simp
qed

section \<open>Event log\<close>

text \<open>
  C33: the event log has one line for each notification but the three frequent ones, in the
  order of the service, except for the writes that failed, which are counted and stop
  nothing; and no topic can forge a field: the last string of the line of a job is its topic, whatever characters it
  has, when the line is read back as JSON.
\<close>

theorem event_log_has_every_event:
  assumes "ev_open s"
  shows "ev_lines (fold (observe (event_log_observer e x err)) ns s) = ev_lines s @
      map (\<lambda>(k, n). line_of e k n) (filter (\<lambda>(k, n). le_write_ok e k) (enumerate (ev_calls s) (filter logged ns)))
    \<and> ev_errors (fold (observe (event_log_observer e x err)) ns s) = ev_errors s +
      length (filter (\<lambda>(k, n). \<not> le_write_ok e k) (enumerate (ev_calls s) (filter logged ns)))
    \<and> (\<forall>k j ev. \<exists>before. line_of e k (NJob j ev) = before @ CHR 0x22 # escapeJSONString (Topic j) @ CHR 0x22 # ''}''
      \<and> read_json (escapeJSONString (Topic j) @ CHR 0x22 # ''}'') = Some (Topic j, ''}''))"
  using log_of_trace[OF assms, of e x err ns] JobEventToJson_topic by simp

definition sample_log_env :: log_env where
  "sample_log_env = \<lparr>le_now = (\<lambda>_. []), le_uuid_string = (\<lambda>_. []), le_write_ok = (\<lambda>k. k \<noteq> 1)\<rparr>"

definition sample_notifs :: "notif list" where
  "sample_notifs = [NEvent ServiceEventReady, NEvent ServiceEventJobMetrics, NEvent ServiceEventShutdown, NEvent ServiceEventReady]"

theorem event_log_has_every_event_witness:
  "length (ev_lines (fold (observe (event_log_observer sample_log_env None None)) sample_notifs
    (closed_log\<lparr>ev_open := True\<rparr>))) = 2"
proof -
  let ?s = "closed_log\<lparr>ev_open := True\<rparr>"
  have "ev_open ?s" by simp
  from event_log_has_every_event[OF this, of sample_log_env None None sample_notifs]
  have "ev_lines (fold (observe (event_log_observer sample_log_env None None)) sample_notifs ?s) = ev_lines ?s @
      map (\<lambda>(k, n). line_of sample_log_env k n)
        (filter (\<lambda>(k, n). le_write_ok sample_log_env k) (enumerate (ev_calls ?s) (filter logged sample_notifs)))"
    by blast
  then show ?thesis by (simp add: closed_log_def not_logged_def sample_log_env_def sample_notifs_def)
qed

section \<open>JSON schema\<close>

text \<open>
  C36: the check of the JSON schema at the start is exact. It accepts a schema exactly when no
  subschema it is meant to reach has a flaw that would make the validator panic on a request
  (an empty \<open>enum\<close> or list of types, a \<open>$id\<close> that is a plain name fragment, a null
  subschema), and a refusal names a flaw that is there, with its path.
\<close>

theorem schema_check_is_exact:
  fixes doc :: "'f jvalue"
  defines "rootAnchor \<equiv> (case doc of JObject m \<Rightarrow> map_of m ''$anchor'' \<noteq> None | _ \<Rightarrow> False)"
  shows "(checkSchema l (Inr doc) = None \<longleftrightarrow> (\<forall>w q err. reaches doc [] w q \<longrightarrow> \<not> flaw l rootAnchor w q err))
    \<and> (\<forall>err. checkSchema l (Inr doc) = Some err \<longrightarrow>
        (\<exists>flawed w q. err = Inr flawed \<and> reaches doc [] w q \<and> flaw l rootAnchor w q flawed))"
proof -
  have c: "checkSchema l (Inr doc) = map_option Inr (checkSubschema l doc [] rootAnchor)"
    by (simp add: checkSchema_def rootAnchor_def Let_def)
  show ?thesis unfolding c
    using accepted_has_no_flaw[of doc "[]" _ _ l rootAnchor] no_flaw_is_accepted[of doc "[]" l rootAnchor]
      error_names_a_flaw[of l doc "[]" rootAnchor] by auto
qed

definition sample_schema :: "unit jvalue" where
  "sample_schema = JObject [(''type'', JString ''object''), (''properties'', JObject [
    (''a/b'', JObject [(''enum'', JArray [])])])]"

theorem schema_check_is_exact_witness:
  "\<exists>w q. reaches sample_schema [] w q \<and>
    flaw (\<lambda>_. False) False w q (EmptyEnum ''/properties/a~1b/enum'')"
proof -
  have "checkSchema (\<lambda>_. False) (Inr sample_schema) = Some (Inr (EmptyEnum ''/properties/a~1b/enum''))"
    by code_simp
  then show ?thesis using schema_check_is_exact[of "\<lambda>_. False" sample_schema] by (auto simp: sample_schema_def)
qed

section \<open>Server and program\<close>













end
